(* ===== verification/C_Prelude.thy ===== *)
theory C_Prelude
  imports Main "HOL-Library.Word" "HOL-Library.Sublist" "HOL-Library.Monad_Syntax"
begin

text \<open>
  Shared vocabulary of the development.

  A C buffer is a list of bytes, a byte is a HOL \<open>char\<close>. A result of type \<open>'a option\<close>
  is \<open>None\<close> exactly where the C program has undefined behaviour on the modelled path:
  an access outside a buffer, a NULL or dangling pointer that is used, a second \<open>free\<close>.
  Error codes that the C code returns are ordinary values of the models.

  The theory holds the C string and memory primitives that the sources use (the C
  library's \<open>strlen\<close>, \<open>strncmp\<close>, \<open>memcmp\<close>, \<open>strstr\<close>, \<open>strncpy\<close>,
  \<open>strtok\<close>, \<open>atoi\<close>) and the lemmas the components share.
\<close>

unbundle bit_operations_syntax

named_theorems cstr_simps \<open>evaluation of the C string primitives\<close>
named_theorems buf_simps \<open>reading and writing of bounded buffers\<close>

type_synonym bytes = "char list"

section \<open>C strings\<close>

abbreviation NUL :: char where
  "NUL \<equiv> CHR 0x00"

abbreviation newline :: char where
  "newline \<equiv> CHR 0x0A"

text \<open>The string that starts at the head of a buffer: everything before the first NUL.\<close>

definition cstr :: "bytes \<Rightarrow> bytes" where
  "cstr b = takeWhile (\<lambda>c. c \<noteq> NUL) b"

definition strlen :: "bytes \<Rightarrow> nat" where
  "strlen b = length (cstr b)"

text \<open>Character at the head of a C string, NUL when the string has ended.\<close>

definition chr_at :: "bytes \<Rightarrow> char" where
  "chr_at s = (case s of [] \<Rightarrow> NUL | c # _ \<Rightarrow> c)"

text \<open>\<open>strncmp a b n == 0\<close>: equal up to \<open>n\<close> characters or up to a common NUL.\<close>

fun strncmp_eq :: "bytes \<Rightarrow> bytes \<Rightarrow> nat \<Rightarrow> bool" where
  "strncmp_eq a b 0 = True"
| "strncmp_eq a b (Suc n) =
     (chr_at a = chr_at b \<and> (chr_at a = NUL \<or> strncmp_eq (tl a) (tl b) n))"

text \<open>\<open>memcmp a b n == 0\<close>, for buffers that hold at least \<open>n\<close> bytes.\<close>

definition memcmp_eq :: "bytes \<Rightarrow> bytes \<Rightarrow> nat \<Rightarrow> bool" where
  "memcmp_eq a b n \<longleftrightarrow> take n a = take n b"

text \<open>Index of the first occurrence of a pattern.\<close>

fun find_sub :: "bytes \<Rightarrow> bytes \<Rightarrow> nat option" where
  "find_sub p [] = (if p = [] then Some 0 else None)"
| "find_sub p (x # xs) = (if prefix p (x # xs) then Some 0 else map_option Suc (find_sub p xs))"

text \<open>
  \<open>strstr\<close> on a buffer that need not be terminated. \<open>Some (Some i)\<close>: found at offset
  \<open>i\<close>; \<open>Some None\<close>: the NULL result, the terminator was met first; \<open>None\<close>:
  the search runs past the end of the buffer.
\<close>

definition strstr :: "bytes \<Rightarrow> bytes \<Rightarrow> nat option option" where
  "strstr buf pat =
     (case find_sub pat (cstr buf) of
        Some i \<Rightarrow> Some (Some i)
      | None \<Rightarrow> if NUL \<in> set buf then Some None else None)"

text \<open>The bytes \<open>strncpy\<close> stores for a bound \<open>n\<close>: the string, padded with NULs, not terminated
  when it is too long.\<close>

definition strncpy_bytes :: "bytes \<Rightarrow> nat \<Rightarrow> bytes" where
  "strncpy_bytes src n = take n (cstr src) @ replicate (n - strlen src) NUL"

text \<open>The pieces \<open>strtok\<close> yields in turn for one delimiter: the non-empty runs between
  delimiters.\<close>

fun split_runs :: "char \<Rightarrow> bytes \<Rightarrow> bytes \<Rightarrow> bytes list" where
  "split_runs d acc [] = (if acc = [] then [] else [rev acc])"
| "split_runs d acc (c # cs) =
     (if c = d then (if acc = [] then split_runs d [] cs else rev acc # split_runs d [] cs)
      else split_runs d (c # acc) cs)"

definition strtok_all :: "char \<Rightarrow> bytes \<Rightarrow> bytes list" where
  "strtok_all d s = split_runs d [] (cstr s)"

text \<open>One call of \<open>strtok\<close> on the text that is left: the token, if there is one, and the text after
  it. A scan that meets neither the delimiter nor a terminator leaves the buffer.\<close>

definition strtok_next :: "char \<Rightarrow> bytes \<Rightarrow> (bytes option \<times> bytes) option" where
  "strtok_next d buf =
     (let b = dropWhile (\<lambda>c. c = d) buf
      in if b = [] then None
         else if hd b = NUL then Some (None, b)
         else let tok = takeWhile (\<lambda>c. c \<noteq> d \<and> c \<noteq> NUL) b;
                  rest = dropWhile (\<lambda>c. c \<noteq> d \<and> c \<noteq> NUL) b
              in if rest = [] then None
                 else Some (Some tok, if hd rest = NUL then rest else tl rest))"

section \<open>Character classes and numbers\<close>

definition char_code :: "char \<Rightarrow> int" where
  "char_code c = int (of_char c)"

definition isdigit :: "char \<Rightarrow> bool" where
  "isdigit c \<longleftrightarrow> 48 \<le> char_code c \<and> char_code c \<le> 57"

definition isspace :: "char \<Rightarrow> bool" where
  "isspace c \<longleftrightarrow> char_code c = 32 \<or> (9 \<le> char_code c \<and> char_code c \<le> 13)"

definition digit_val :: "char \<Rightarrow> int" where
  "digit_val c = char_code c - 48"

fun scan_digits :: "int \<Rightarrow> bytes \<Rightarrow> int" where
  "scan_digits acc [] = acc"
| "scan_digits acc (c # cs) = (if isdigit c then scan_digits (acc * 10 + digit_val c) cs else acc)"

text \<open>\<open>strtol\<close> in base ten on a 64-bit target (the result saturates), and \<open>atoi\<close>, which
  converts it to \<open>int\<close>.\<close>

definition strtol10 :: "bytes \<Rightarrow> int" where
  "strtol10 s =
     (let t = dropWhile isspace (cstr s);
          v = (if chr_at t = CHR ''-'' then - scan_digits 0 (tl t)
               else if chr_at t = CHR ''+'' then scan_digits 0 (tl t)
               else scan_digits 0 t)
      in max (- (2 ^ 63)) (min (2 ^ 63 - 1) v))"

definition to_int32 :: "int \<Rightarrow> int" where
  "to_int32 v = (v + 2 ^ 31) mod 2 ^ 32 - 2 ^ 31"

definition atoi :: "bytes \<Rightarrow> int" where
  "atoi s = to_int32 (strtol10 s)"

section \<open>Bounded buffers\<close>

text \<open>Store one byte; outside the buffer the behaviour is undefined.\<close>

definition buf_set :: "'a list \<Rightarrow> nat \<Rightarrow> 'a \<Rightarrow> 'a list option" where
  "buf_set b i v = (if i < length b then Some (b[i := v]) else None)"

definition buf_get :: "'a list \<Rightarrow> nat \<Rightarrow> 'a option" where
  "buf_get b i = (if i < length b then Some (b ! i) else None)"

text \<open>Copy a block into a buffer at an offset (\<open>memcpy\<close>, \<open>sprintf\<close>, \<open>fread\<close>).\<close>

definition buf_blit :: "'a list \<Rightarrow> nat \<Rightarrow> 'a list \<Rightarrow> 'a list option" where
  "buf_blit b i src =
     (if i + length src \<le> length b then Some (take i b @ src @ drop (i + length src) b) else None)"

section \<open>Lemmas on C strings\<close>

lemma cstr_Nil [simp, cstr_simps]: "cstr [] = []"
  by (simp add: cstr_def)

lemma cstr_Cons [cstr_simps]: "cstr (c # cs) = (if c = NUL then [] else c # cstr cs)"
  by (simp add: cstr_def)

lemma cstr_step [simp]: "c \<noteq> NUL \<Longrightarrow> cstr (c # cs) = c # cstr cs" "cstr (NUL # cs) = []"
  by (simp_all add: cstr_def)

lemma cstr_replicate_NUL [simp]: "cstr (replicate n NUL) = []"
  by (cases n) simp_all

lemma cstr_id [simp]: "NUL \<notin> set s \<Longrightarrow> cstr s = s"
  by (auto simp: cstr_def takeWhile_eq_all_conv)

lemma cstr_append_id [simp]: "NUL \<notin> set s \<Longrightarrow> cstr (s @ t) = s @ cstr t"
  by (induction s) (auto simp: cstr_simps)

lemma cstr_append_NUL [simp]: "cstr (s @ NUL # t) = cstr s"
  by (induction s) (auto simp: cstr_simps)

lemma NUL_not_in_cstr [simp]: "NUL \<notin> set (cstr s)"
  by (auto simp: cstr_def dest: set_takeWhileD)

lemma cstr_idem [simp]: "cstr (cstr s) = cstr s"
  by simp

lemma length_cstr_le: "length (cstr s) \<le> length s"
  by (simp add: cstr_def length_takeWhile_le)

lemma cstr_prefix: "prefix (cstr s) s"
  by (simp add: cstr_def takeWhile_is_prefix)

lemma cstr_drop: "k \<le> length (cstr b) \<Longrightarrow> cstr (drop k b) = drop k (cstr b)"
proof (induction b arbitrary: k)
  case (Cons x b)
  then show ?case by (cases k; cases "x = NUL") auto
qed simp

lemma cstr_take: "take n (cstr b) = cstr (take n b)"
proof (induction b arbitrary: n)
  case (Cons x b)
  then show ?case by (cases n; cases "x = NUL") auto
qed simp

lemma cstr_append_tail: "NUL \<in> set s \<Longrightarrow> cstr (s @ t) = cstr s"
  by (induction s) (auto simp: cstr_simps)

lemma prefix_cstr: "NUL \<notin> set p \<Longrightarrow> prefix p b \<longleftrightarrow> prefix p (cstr b)"
proof (induction p arbitrary: b)
  case (Cons x p)
  then show ?case by (cases b) (auto simp: cstr_simps)
qed simp

lemma strlen_id [simp]: "NUL \<notin> set s \<Longrightarrow> strlen s = length s"
  by (simp add: strlen_def)

lemma chr_at_simps [simp]: "chr_at [] = NUL" "chr_at (c # cs) = c"
  by (simp_all add: chr_at_def)

lemma strncmp_eq_prefix:
  assumes "NUL \<notin> set a" "NUL \<notin> set b"
  shows "strncmp_eq a (b @ r) (length b) \<longleftrightarrow> prefix b a"
  using assms
proof (induction b arbitrary: a)
  case (Cons x b)
  then show ?case by (cases a) auto
qed simp

lemma strtok_next_token:
  assumes "tok \<noteq> []" "d \<notin> set tok" "NUL \<notin> set tok" "d \<noteq> NUL"
  shows "strtok_next d (tok @ d # rest) = Some (Some tok, rest)"
    and "strtok_next d (tok @ NUL # rest) = Some (Some tok, NUL # rest)"
proof -
  obtain x xs where tok: "tok = x # xs" using assms(1) by (cases tok) auto
  have all: "\<forall>c\<in>set tok. c \<noteq> d \<and> c \<noteq> NUL" using assms by auto
  have run: "takeWhile (\<lambda>c. c \<noteq> d \<and> c \<noteq> NUL) (tok @ y # rest) = tok \<and>
      dropWhile (\<lambda>c. c \<noteq> d \<and> c \<noteq> NUL) (tok @ y # rest) = y # rest" if "y = d \<or> y = NUL" for y
    using all that by (induction tok) auto
  have skip: "dropWhile (\<lambda>c. c = d) (tok @ y # rest) = tok @ y # rest" for y
    using assms tok by auto
  have head: "hd (tok @ y # rest) \<noteq> NUL" for y
    using assms tok by auto
  show "strtok_next d (tok @ d # rest) = Some (Some tok, rest)"
    unfolding strtok_next_def Let_def skip using run [of d] head [of d] assms(4) by simp
  show "strtok_next d (tok @ NUL # rest) = Some (Some tok, NUL # rest)"
    unfolding strtok_next_def Let_def skip using run [of NUL] head [of NUL] assms(4) by simp
qed

lemma dropWhile_shorter: "xs \<noteq> [] \<Longrightarrow> P (hd xs) \<Longrightarrow> length (dropWhile P xs) < length xs"
  using length_dropWhile_le [of P "tl xs"] by (cases xs) simp_all

lemma strtok_next_shorter:
  assumes "strtok_next d buf = Some (Some tok, rest)"
  shows "length rest < length buf"
proof -
  define b where "b = dropWhile (\<lambda>c. c = d) buf"
  define r where "r = dropWhile (\<lambda>c. c \<noteq> d \<and> c \<noteq> NUL) b"
  have b: "b \<noteq> []" "hd b \<noteq> NUL" and rest: "rest = r \<or> rest = tl r"
    using assms by (simp_all add: strtok_next_def b_def [symmetric] r_def [symmetric] Let_def split: if_splits)
  have "hd b \<noteq> d" using hd_dropWhile [of "\<lambda>c. c = d" buf] b(1) by (simp add: b_def)
  then have "length r < length b" unfolding r_def using b by (intro dropWhile_shorter) simp_all
  moreover have "length rest \<le> length r" using rest by auto
  moreover have "length b \<le> length buf" unfolding b_def by (rule length_dropWhile_le)
  ultimately show ?thesis by linarith
qed

section \<open>Lemmas on substring search\<close>

lemma less_Suc_split: "(\<forall>j<Suc n. P j) \<longleftrightarrow> P 0 \<and> (\<forall>j<n. P (Suc j))"
  by (auto simp: less_Suc_eq_0_disj)

lemma le_Suc_split: "(\<forall>j\<le>Suc n. P j) \<longleftrightarrow> P 0 \<and> (\<forall>j\<le>n. P (Suc j))"
  using less_Suc_split [of "Suc n" P] by (simp add: less_Suc_eq_le)

lemma find_sub_Some_iff:
  "find_sub p t = Some i \<longleftrightarrow>
     i \<le> length t \<and> prefix p (drop i t) \<and> (\<forall>j<i. \<not> prefix p (drop j t))"
proof (induction t arbitrary: i)
  case (Cons x t)
  then show ?case by (cases i) (auto simp: less_Suc_split)
qed auto

lemma find_sub_None_iff: "find_sub p t = None \<longleftrightarrow> (\<forall>j\<le>length t. \<not> prefix p (drop j t))"
  by (induction t) (auto simp: le_Suc_split)

lemma find_sub_bound: "find_sub p t = Some i \<Longrightarrow> i + length p \<le> length t"
  by (auto simp: find_sub_Some_iff dest!: prefix_length_le)

text \<open>Text in which no occurrence of the pattern starts can be skipped.\<close>

lemma find_sub_skip:
  assumes "\<forall>j<length a. \<not> prefix p (drop j a @ b)"
  shows "find_sub p (a @ b) = map_option ((+) (length a)) (find_sub p b)"
  using assms
proof (induction a)
  case Nil
  then show ?case by (simp add: option.map_ident_strong)
next
  case (Cons x a)
  then have "find_sub p (a @ b) = map_option ((+) (length a)) (find_sub p b)"
    by (simp add: less_Suc_split)
  moreover have "\<not> prefix p (x # a @ b)"
    using Cons.prems by (simp add: less_Suc_split)
  ultimately show ?case
    by (simp add: option.map_comp comp_def)
qed

lemma find_sub_occurs: "find_sub p (a @ p @ b) \<noteq> None"
  by (auto simp: find_sub_None_iff simp del: append.assoc intro!: exI [of _ "length a"])

declare find_sub.simps [simp del]

lemma prefix_take_conv: "prefix p x \<longleftrightarrow> take (length p) x = p"
  by (metis append_eq_conv_conj prefix_def take_is_prefix)

text \<open>The first occurrence depends only on the text up to its end.\<close>

lemma find_sub_agree:
  assumes found: "find_sub p t = Some i"
    and same: "take (i + length p) t' = take (i + length p) t"
  shows "find_sub p t' = Some i"
proof -
  have "take (length p) (drop j t') = take (length p) (drop j t)" if "j \<le> i" for j
  proof -
    have "take (length p) (drop j (take (i + length p) t')) =
          take (length p) (drop j (take (i + length p) t))"
      by (simp add: same)
    moreover have "min (length p) (i + length p - j) = length p"
      using that by simp
    ultimately show ?thesis by (simp add: drop_take)
  qed
  moreover have "i \<le> length t'"
    using same find_sub_bound [OF found] by (metis add_leD1 length_take min.absorb_iff2 min.cobounded1)
  ultimately show ?thesis
    using found by (simp add: find_sub_Some_iff prefix_take_conv)
qed

lemma find_sub_prefix: "find_sub p (p @ b) = Some 0"
  by (simp add: find_sub_Some_iff)

text \<open>
  A pattern whose first separator is \<open>c\<close> does not occur inside text that holds no
  separator and is followed by a different one.
\<close>

lemma prefix_first_sep:
  assumes "prefix (u @ c # w) (a @ d # r)"
    and "\<forall>x\<in>set u. \<not> sep x" "\<forall>x\<in>set a. \<not> sep x" "sep c" "sep d"
  shows "u = a \<and> c = d"
proof -
  from assms(1) obtain z where "u @ c # (w @ z) = a @ d # r"
    by (auto elim: prefixE)
  moreover from assms(2,4) have "takeWhile (\<lambda>x. \<not> sep x) (u @ c # (w @ z)) = u"
    by (induction u) auto
  moreover from assms(3,5) have "takeWhile (\<lambda>x. \<not> sep x) (a @ d # r) = a"
    by (induction a) auto
  ultimately show ?thesis by auto
qed

lemma find_sub_skip_field:
  assumes "\<forall>x\<in>set u. \<not> sep x" "\<forall>x\<in>set a. \<not> sep x" "sep c" "sep d" "c \<noteq> d"
  shows "find_sub (u @ c # w) (a @ d # r) =
         map_option ((+) (length a)) (find_sub (u @ c # w) (d # r))"
proof (rule find_sub_skip, intro allI impI notI)
  fix j assume "j < length a" and "prefix (u @ c # w) (drop j a @ d # r)"
  moreover have "\<forall>x\<in>set (drop j a). \<not> sep x"
    using assms(2) by (meson in_set_dropD)
  ultimately have "c = d"
    using prefix_first_sep [of u c w "drop j a" d r sep] assms by blast
  with assms(5) show False by simp
qed

text \<open>A pattern without a separator is found in the first piece that contains it.\<close>

lemma find_sub_next_sep:
  assumes "c \<notin> set p" and "c \<notin> set a" and "find_sub p a = None"
  shows "find_sub p (a @ c # r) = map_option (\<lambda>i. length a + 1 + i) (find_sub p r)"
proof -
  have inside: "prefix p (drop j a)" if "j \<le> length a" "prefix p (drop j a @ c # r)" for j
  proof -
    from that(2) obtain z where z: "p @ z = drop j a @ c # r"
      by (auto simp: prefix_def)
    have "length p \<le> length (drop j a)"
    proof (rule ccontr)
      assume "\<not> ?thesis"
      then have "c \<in> set (take (length p) (p @ z))"
        unfolding z by (auto simp: take_Cons')
      with assms(1) show False by simp
    qed
    with that(2) show ?thesis by (metis prefix_length_prefix prefix_prefix prefix_order.refl append_prefixD prefixI)
  qed
  have "\<not> prefix p (drop j (a @ [c]) @ r)" if "j < length (a @ [c])" for j
    using that inside [of j] assms(3) unfolding find_sub_None_iff by auto
  then have "find_sub p ((a @ [c]) @ r) = map_option ((+) (length (a @ [c]))) (find_sub p r)"
    by (intro find_sub_skip) blast
  moreover have "(+) (length (a @ [c])) = (\<lambda>i. length a + 1 + i)"
    by (rule ext) simp
  ultimately show ?thesis by simp
qed

text \<open>A pattern that opens with a separator is found at the first separator it follows.\<close>

lemma find_sub_at_sep:
  assumes "c \<notin> set a"
  shows "find_sub (c # p) (a @ c # r) =
     (if prefix p r then Some (length a) else map_option (\<lambda>i. length a + 1 + i) (find_sub (c # p) r))"
  using assms
  by (induction a) (cases "find_sub (c # p) r"; auto simp: find_sub.simps option.map_comp comp_def)+

lemma find_sub_longer_None: "find_sub p t = None \<Longrightarrow> find_sub (p @ q) t = None"
  unfolding find_sub_None_iff by (blast dest: append_prefixD)

lemma find_sub_missing_char: "c \<in> set p \<Longrightarrow> c \<notin> set t \<Longrightarrow> find_sub p t = None"
  unfolding find_sub_None_iff by (meson in_set_dropD set_mono_prefix subsetD)

lemma strstr_Some_iff: "strstr buf pat = Some (Some i) \<longleftrightarrow> find_sub pat (cstr buf) = Some i"
  by (auto simp: strstr_def split: option.splits)

lemma strstr_eqI: "find_sub pat (cstr buf) = Some i \<Longrightarrow> strstr buf pat = Some (Some i)"
  by (simp add: strstr_Some_iff)

section \<open>Lemmas on bounded buffers\<close>

lemma buf_set_length [buf_simps]: "buf_set b i v = Some b' \<Longrightarrow> length b' = length b"
  by (auto simp: buf_set_def split: if_splits)

lemma buf_blit_length [buf_simps]: "buf_blit b i s = Some b' \<Longrightarrow> length b' = length b"
  by (auto simp: buf_blit_def split: if_splits)

lemma buf_blit_None_iff: "buf_blit b i s = None \<longleftrightarrow> length b < i + length s"
  by (auto simp: buf_blit_def)

lemma buf_set_None_iff: "buf_set b i v = None \<longleftrightarrow> length b \<le> i"
  by (auto simp: buf_set_def)

end
