(* ===== verification/Interfaces.thy ===== *)
theory Interfaces
  imports C_Prelude
begin

text \<open>
  The contracts between components, as locales, with what a client can conclude from them. The
  components that provide an operation interpret the locale on their own definitions.
\<close>

section \<open>A keyed store\<close>

text \<open>Commands to a store, their run over the store's operations, and their meaning on a map.\<close>

datatype ('k, 'v) store_cmd = Put 'k 'v | Del 'k

fun run_cmds :: "('k \<Rightarrow> 'v \<Rightarrow> 's \<Rightarrow> 's option) \<Rightarrow> ('k \<Rightarrow> 's \<Rightarrow> 's option) \<Rightarrow> ('k, 'v) store_cmd list \<Rightarrow> 's \<Rightarrow> 's option" where
  "run_cmds put del [] s = Some s"
| "run_cmds put del (Put k v # cs) s = do { s \<leftarrow> put k v s; run_cmds put del cs s }"
| "run_cmds put del (Del k # cs) s = do { s \<leftarrow> del k s; run_cmds put del cs s }"

fun map_cmds :: "('k, 'v) store_cmd list \<Rightarrow> ('k \<rightharpoonup> 'v) \<Rightarrow> ('k \<rightharpoonup> 'v)" where
  "map_cmds [] m = m"
| "map_cmds (Put k v # cs) m = map_cmds cs (m(k \<mapsto> v))"
| "map_cmds (Del k # cs) m = map_cmds cs (m(k := None))"

text \<open>Command lists that put a key only while it is absent.\<close>

fun cmds_ok :: "('k \<Rightarrow> bool) \<Rightarrow> ('v \<Rightarrow> bool) \<Rightarrow> ('k, 'v) store_cmd list \<Rightarrow> ('k \<rightharpoonup> 'v) \<Rightarrow> bool" where
  "cmds_ok key_ok val_ok [] m = True"
| "cmds_ok key_ok val_ok (Put k v # cs) m =
     (key_ok k \<and> val_ok v \<and> m k = None \<and> cmds_ok key_ok val_ok cs (m(k \<mapsto> v)))"
| "cmds_ok key_ok val_ok (Del k # cs) m = (key_ok k \<and> cmds_ok key_ok val_ok cs (m(k := None)))"

locale keyed_store =
  fixes inv :: "'s \<Rightarrow> bool"
    and key_ok :: "'k \<Rightarrow> bool"
    and val_ok :: "'v \<Rightarrow> bool"
    and put :: "'k \<Rightarrow> 'v \<Rightarrow> 's \<Rightarrow> 's option"
    and get :: "'k \<Rightarrow> 's \<Rightarrow> 'v option"
    and has :: "'k \<Rightarrow> 's \<Rightarrow> bool"
    and del :: "'k \<Rightarrow> 's \<Rightarrow> 's option"
    and keys :: "'s \<Rightarrow> 'k list"
  assumes put_law: "inv s \<Longrightarrow> key_ok k \<Longrightarrow> val_ok v \<Longrightarrow> \<not> has k s \<Longrightarrow>
      \<exists>s'. put k v s = Some s' \<and> inv s' \<and> keys s' = keys s @ [k] \<and>
           (\<forall>j. key_ok j \<longrightarrow> has j s' = (j = k \<or> has j s) \<and> get j s' = (if j = k then Some v else get j s))"
    and del_law: "inv s \<Longrightarrow> key_ok k \<Longrightarrow> has k s \<Longrightarrow>
      \<exists>s'. del k s = Some s' \<and> inv s' \<and> keys s' = remove1 k (keys s) \<and>
           (\<forall>j. key_ok j \<longrightarrow> has j s' = (j \<noteq> k \<and> has j s) \<and> get j s' = (if j = k then None else get j s))"
    and del_absent: "inv s \<Longrightarrow> key_ok k \<Longrightarrow> \<not> has k s \<Longrightarrow> del k s = Some s"
    and get_absent: "inv s \<Longrightarrow> key_ok k \<Longrightarrow> \<not> has k s \<Longrightarrow> get k s = None"
    and keys_law: "inv s \<Longrightarrow> distinct (keys s) \<and> set (keys s) = {k. key_ok k \<and> has k s}"
begin

text \<open>The store represents a map.\<close>

definition rep :: "'s \<Rightarrow> ('k \<rightharpoonup> 'v) \<Rightarrow> bool" where
  "rep s m \<longleftrightarrow> inv s \<and> dom m \<subseteq> Collect key_ok \<and>
     (\<forall>k. key_ok k \<longrightarrow> get k s = m k \<and> has k s = (m k \<noteq> None))"

lemma rep_put:
  assumes "rep s m" "key_ok k" "val_ok v" "m k = None"
  shows "\<exists>s'. put k v s = Some s' \<and> rep s' (m(k \<mapsto> v))"
  using put_law [of s k v] assms by (auto simp: rep_def)

lemma rep_del:
  assumes "rep s m" "key_ok k"
  shows "\<exists>s'. del k s = Some s' \<and> rep s' (m(k := None))"
proof (cases "has k s")
  case True
  then show ?thesis
    using del_law [of s k] assms by (fastforce simp: rep_def)
next
  case False
  then have "m(k := None) = m"
    using assms by (auto simp: rep_def)
  then show ?thesis
    using False del_absent [of s k] assms by (auto simp: rep_def)
qed

lemma keys_rep:
  assumes "rep s m"
  shows "distinct (keys s) \<and> set (keys s) = dom m"
  using assms keys_law [of s] by (auto simp: rep_def dom_def)

theorem run_cmds_rep:
  assumes "rep s m" "cmds_ok key_ok val_ok cs m"
  shows "\<exists>s'. run_cmds put del cs s = Some s' \<and> rep s' (map_cmds cs m)"
  using assms
proof (induction cs arbitrary: s m)
  case (Cons c cs)
  show ?case
  proof (cases c)
    case (Put k v)
    with Cons.prems obtain s1 where "put k v s = Some s1" and s1: "rep s1 (m(k \<mapsto> v))"
      using rep_put [of s m k v] by auto
    moreover from Cons.prems(2) Put have "cmds_ok key_ok val_ok cs (m(k \<mapsto> v))" by simp
    from Cons.IH [OF s1 this]
    obtain s' where "run_cmds put del cs s1 = Some s'" "rep s' (map_cmds cs (m(k \<mapsto> v)))" by blast
    ultimately show ?thesis using Put by simp
  next
    case (Del k)
    with Cons.prems obtain s1 where "del k s = Some s1" and s1: "rep s1 (m(k := None))"
      using rep_del [of s m k] by auto
    moreover from Cons.prems(2) Del have "cmds_ok key_ok val_ok cs (m(k := None))" by simp
    from Cons.IH [OF s1 this]
    obtain s' where "run_cmds put del cs s1 = Some s'" "rep s' (map_cmds cs (m(k := None)))" by blast
    ultimately show ?thesis using Del by simp
  qed
qed simp

lemma empty_rep:
  assumes "inv s" "keys s = []"
  shows "rep s Map.empty"
  using assms keys_law [of s] get_absent [of s] by (auto simp: rep_def)

end

section \<open>Invariants of a step function\<close>

text \<open>A component that is driven by a sequence of events, each of which may be undefined behaviour.\<close>

fun run_steps :: "('e \<Rightarrow> 's \<Rightarrow> 's option) \<Rightarrow> 'e list \<Rightarrow> 's \<Rightarrow> 's option" where
  "run_steps step [] s = Some s"
| "run_steps step (e # es) s = do { s \<leftarrow> step e s; run_steps step es s }"

locale step_invariant =
  fixes step :: "'e \<Rightarrow> 's \<Rightarrow> 's option" and inv :: "'s \<Rightarrow> bool"
  assumes step_inv: "inv s \<Longrightarrow> step e s = Some s' \<Longrightarrow> inv s'"
begin

lemma run_inv: "run_steps step es s = Some s' \<Longrightarrow> inv s \<Longrightarrow> inv s'"
proof (induction es arbitrary: s)
  case (Cons e es)
  then obtain s1 where "step e s = Some s1" "run_steps step es s1 = Some s'"
    by (auto split: bind_splits)
  with Cons step_inv show ?case by blast
qed simp

end

end
