(* ===== verification/Transactions.thy ===== *)
theory Transactions
  imports C_Prelude
begin

text \<open>
  The payment records of \<^verbatim>\<open>portability/os/posix/posix.c\<close>: the file \<^verbatim>\<open>bill\<close> with one record
  per policy, \<^verbatim>\<open>policy_id:<id>,validated:<0|1>\<close>, and the four operations on it. The state
  is the file and whether its directory accepts a file opened for writing.
  The lemmas give the life cycle of one record (stored, then verified), the single byte an
  update changes, and what happens to the second record of the file.
\<close>

section \<open>State\<close>

record bill_fs =
  bill_dir :: bool
  bill :: "bytes option"

definition transaction_line :: "bytes \<Rightarrow> bytes" where
  "transaction_line policy_id = ''policy_id:'' @ policy_id @ '',validated:0'' @ [newline]"

definition transaction_key :: "bytes \<Rightarrow> bytes" where
  "transaction_key policy_id = ''policy_id:'' @ policy_id @ '',validated:''"

section \<open>Operations\<close>

text \<open>
  \<open>policy_id\<close> is \<open>None\<close> for a NULL pointer, and otherwise the C string. The block that
  \<open>malloc\<close> returns holds \<open>junk\<close> before \<open>sprintf\<close> writes the line and its terminator;
  all \<open>line_len\<close> bytes of the block are then appended to the file.
\<close>

definition posix_transaction_store ::
    "(nat \<Rightarrow> char) \<Rightarrow> bytes option \<Rightarrow> nat \<Rightarrow> bill_fs \<Rightarrow> (bool \<times> bill_fs) option" where
  "posix_transaction_store junk policy_id policy_id_len fs =
     (case policy_id of
        None \<Rightarrow> Some (False, fs)
      | Some pid \<Rightarrow>
          (let line_len = length ''policy_id:'' + policy_id_len + length '',validated:0_'' + 1;
               line = map junk [0..<line_len]
           in do {
                line \<leftarrow> buf_blit line 0 (transaction_line pid @ [NUL]);
                (if bill_dir fs
                 then Some (True, fs\<lparr>bill := Some (case bill fs of None \<Rightarrow> line | Some old \<Rightarrow> old @ line)\<rparr>)
                 else Some (False, fs))
              }))"

definition posix_transaction_update_payment_status ::
    "bytes option \<Rightarrow> nat \<Rightarrow> bool \<Rightarrow> bill_fs \<Rightarrow> (bool \<times> bill_fs) option" where
  "posix_transaction_update_payment_status policy_id policy_id_len is_verified fs =
     (case policy_id of
        None \<Rightarrow> Some (False, fs)
      | Some pid \<Rightarrow>
         (case bill fs of
            None \<Rightarrow> Some (False, fs)
          | Some buff \<Rightarrow>
              (let line_len = length ''policy_id:'' + policy_id_len + length '',validated:''
               in do {
                    _ \<leftarrow> (if length (transaction_key pid) + 1 \<le> line_len + 1 then Some () else None);
                    transaction \<leftarrow> strstr buff (transaction_key pid);
                    at \<leftarrow> transaction;
                    buff \<leftarrow> buf_set buff (at + line_len) (if is_verified then CHR ''1'' else CHR ''0'');
                    (if bill_dir fs then Some (True, fs\<lparr>bill := Some buff\<rparr>)
                     else Some (False, fs))
                  })))"

definition posix_transaction_is_stored :: "bytes option \<Rightarrow> bill_fs \<Rightarrow> bool option" where
  "posix_transaction_is_stored policy_id fs =
     (case policy_id of
        None \<Rightarrow> Some False
      | Some pid \<Rightarrow>
         (case bill fs of
            None \<Rightarrow> Some False
          | Some buff \<Rightarrow> do { found \<leftarrow> strstr buff pid; Some (found \<noteq> None) }))"

definition posix_transaction_is_verified :: "bytes option \<Rightarrow> nat \<Rightarrow> bill_fs \<Rightarrow> bool option" where
  "posix_transaction_is_verified policy_id policy_id_len fs =
     (case policy_id of
        None \<Rightarrow> Some False
      | Some pid \<Rightarrow>
         (case bill fs of
            None \<Rightarrow> Some False
          | Some buff \<Rightarrow>
              (let line_len = length ''policy_id:'' + policy_id_len + length '',validated:''
               in do {
                    _ \<leftarrow> (if length (transaction_key pid) + 1 \<le> line_len + 1 then Some () else None);
                    transaction \<leftarrow> strstr buff (transaction_key pid);
                    at \<leftarrow> transaction;
                    c \<leftarrow> buf_get buff (at + line_len);
                    Some (c = CHR ''1'')
                  })))"

section \<open>Records in the file\<close>

lemma length_transaction_key: "length (transaction_key pid) = 21 + length pid"
  by (simp add: transaction_key_def)

lemma length_transaction_line: "length (transaction_line pid) = 23 + length pid"
  by (simp add: transaction_line_def)

lemma transaction_line_key: "transaction_line pid = transaction_key pid @ [CHR ''0'', newline]"
  by (simp add: transaction_line_def transaction_key_def)

lemma NUL_transaction_key [simp]: "NUL \<in> set (transaction_key pid) \<longleftrightarrow> NUL \<in> set pid"
  by (simp add: transaction_key_def)

lemma NUL_transaction_line [simp]: "NUL \<in> set (transaction_line pid) \<longleftrightarrow> NUL \<in> set pid"
  by (simp add: transaction_line_key)

lemma line_len_key:
  "length ''policy_id:'' + length pid + length '',validated:'' = length (transaction_key pid)"
  by (simp add: transaction_key_def)

lemma update_eq:
  "posix_transaction_update_payment_status (Some pid) (length pid) v fs =
     (case bill fs of
        None \<Rightarrow> Some (False, fs)
      | Some buff \<Rightarrow> do {
          transaction \<leftarrow> strstr buff (transaction_key pid);
          at \<leftarrow> transaction;
          buff \<leftarrow> buf_set buff (at + length (transaction_key pid)) (if v then CHR ''1'' else CHR ''0'');
          (if bill_dir fs then Some (True, fs\<lparr>bill := Some buff\<rparr>) else Some (False, fs))
        })"
  unfolding posix_transaction_update_payment_status_def line_len_key Let_def
  by (cases "bill fs") simp_all

lemma is_verified_eq:
  "posix_transaction_is_verified (Some pid) (length pid) fs =
     (case bill fs of
        None \<Rightarrow> Some False
      | Some buff \<Rightarrow> do {
          transaction \<leftarrow> strstr buff (transaction_key pid);
          at \<leftarrow> transaction;
          c \<leftarrow> buf_get buff (at + length (transaction_key pid));
          Some (c = CHR ''1'')
        })"
  unfolding posix_transaction_is_verified_def line_len_key Let_def
  by (cases "bill fs") simp_all

text \<open>With the length of the id as its length argument, a store appends the line and its
  terminator, whatever the heap block held before.\<close>

lemma store_appends_line:
  assumes "bill_dir fs"
  shows "posix_transaction_store junk (Some pid) (length pid) fs =
         Some (True, fs\<lparr>bill := Some ((case bill fs of None \<Rightarrow> [] | Some old \<Rightarrow> old)
                                   @ transaction_line pid @ [NUL])\<rparr>)"
  using assms
  by (simp add: posix_transaction_store_def buf_blit_def length_transaction_line Let_def
        split: option.splits)

lemma find_sub_own_line:
  assumes "NUL \<notin> set pid"
  shows "find_sub (transaction_key pid) (cstr (transaction_line pid @ [NUL])) = Some 0"
  using assms find_sub_prefix [of "transaction_key pid" "[CHR ''0'', newline]"]
  by (simp add: transaction_line_key)

lemma find_sub_own_id:
  assumes "NUL \<notin> set pid"
  shows "find_sub pid (cstr (transaction_line pid @ r)) \<noteq> None"
  using assms find_sub_occurs [of pid "''policy_id:''" "'',validated:0'' @ newline # cstr r"]
  by (simp add: transaction_line_def)

text \<open>Changing the byte just behind an occurrence keeps it the first occurrence.\<close>

lemma cstr_update_after:
  assumes "k \<le> length (cstr t)" and "k < length t" and "c \<noteq> NUL"
  shows "\<exists>r. cstr (t[k := c]) = take k (cstr t) @ c # r"
  using assms
proof (induction t arbitrary: k)
  case (Cons x t)
  show ?case
  proof (cases k)
    case (Suc k')
    then have "x \<noteq> NUL" using Cons.prems(1) by (cases "x = NUL") auto
    with Suc Cons.prems obtain r where "cstr (t[k' := c]) = take k' (cstr t) @ c # r"
      using Cons.IH [of k'] by auto
    with Suc \<open>x \<noteq> NUL\<close> show ?thesis by simp
  qed (use Cons in simp)
qed simp

lemma strstr_update_after:
  assumes "strstr buff p = Some (Some i)" and "i + length p < length buff" and "c \<noteq> NUL"
  shows "strstr (buff[i + length p := c]) p = Some (Some i)"
proof -
  let ?k = "i + length p"
  from assms(1) have found: "find_sub p (cstr buff) = Some i"
    by (simp add: strstr_Some_iff)
  then have "?k \<le> length (cstr buff)"
    by (rule find_sub_bound)
  with assms obtain r where r: "cstr (buff[?k := c]) = take ?k (cstr buff) @ c # r"
    using cstr_update_after by blast
  have "find_sub p (take ?k (cstr buff) @ c # r) = Some i"
    using \<open>?k \<le> length (cstr buff)\<close> by (intro find_sub_agree [OF found]) simp
  with r show ?thesis by (simp add: strstr_Some_iff)
qed

section \<open>Properties\<close>

text \<open>
  C15. The life cycle of a payment record in a fresh file: after a successful store the
  record is found and is not verified, and after an update its verification status is the
  one the update was given.
\<close>

theorem transaction_lifecycle:
  assumes "NUL \<notin> set pid" and "bill_dir fs" and "bill fs \<in> {None, Some []}"
  shows "\<exists>fs1 fs2.
      posix_transaction_store junk (Some pid) (length pid) fs = Some (True, fs1) \<and>
      posix_transaction_is_stored (Some pid) fs1 = Some True \<and>
      posix_transaction_is_verified (Some pid) (length pid) fs1 = Some False \<and>
      posix_transaction_update_payment_status (Some pid) (length pid) v fs1 = Some (True, fs2) \<and>
      posix_transaction_is_stored (Some pid) fs2 = Some True \<and>
      posix_transaction_is_verified (Some pid) (length pid) fs2 = Some v"
proof -
  let ?c = "if v then CHR ''1'' else CHR ''0''"
  let ?fs1 = "fs\<lparr>bill := Some (transaction_line pid @ [NUL])\<rparr>"
  let ?fs2 = "fs\<lparr>bill := Some (transaction_key pid @ [?c, newline, NUL])\<rparr>"
  have key: "strstr (transaction_key pid @ d # newline # [NUL]) (transaction_key pid) = Some (Some 0)"
    if "d \<noteq> NUL" for d
    using assms(1) that by (intro strstr_eqI) (simp add: find_sub_prefix)
  have own: "\<exists>i. strstr (transaction_key pid @ d # newline # [NUL]) pid = Some (Some i)"
    if "d \<noteq> NUL" for d
    using assms(1) that find_sub_occurs [of pid "''policy_id:''" "'',validated:'' @ [d, newline]"]
    by (auto simp: strstr_Some_iff transaction_key_def)
  have "posix_transaction_store junk (Some pid) (length pid) fs = Some (True, ?fs1)"
    using assms(2,3) by (auto simp: store_appends_line)
  moreover have "posix_transaction_is_stored (Some pid) ?fs1 = Some True"
    using own [of "CHR ''0''"] by (auto simp: posix_transaction_is_stored_def transaction_line_key)
  moreover have "posix_transaction_is_verified (Some pid) (length pid) ?fs1 = Some False"
    using key [of "CHR ''0''"]
    by (simp add: is_verified_eq transaction_line_key buf_get_def nth_append)
  moreover have "posix_transaction_update_payment_status (Some pid) (length pid) v ?fs1 = Some (True, ?fs2)"
    using key [of "CHR ''0''"] assms(2)
    by (simp add: update_eq transaction_line_key buf_set_def list_update_append)
  moreover have "posix_transaction_is_stored (Some pid) ?fs2 = Some True"
    using own [of ?c] by (auto simp: posix_transaction_is_stored_def)
  moreover have "posix_transaction_is_verified (Some pid) (length pid) ?fs2 = Some v"
    using key [of ?c]
    by (simp add: is_verified_eq buf_get_def nth_append)
  ultimately show ?thesis by blast
qed

theorem transaction_lifecycle_witness:
  "\<exists>fs1 fs2.
      posix_transaction_store (\<lambda>_. NUL) (Some ''ab'') 2 \<lparr>bill_dir = True, bill = None\<rparr> = Some (True, fs1) \<and>
      posix_transaction_is_stored (Some ''ab'') fs1 = Some True \<and>
      posix_transaction_is_verified (Some ''ab'') 2 fs1 = Some False \<and>
      posix_transaction_update_payment_status (Some ''ab'') 2 True fs1 = Some (True, fs2) \<and>
      posix_transaction_is_stored (Some ''ab'') fs2 = Some True \<and>
      posix_transaction_is_verified (Some ''ab'') 2 fs2 = Some True"
  using transaction_lifecycle [of "''ab''" "\<lparr>bill_dir = True, bill = None\<rparr>" "\<lambda>_. NUL" True]
  by (simp add: numeral_2_eq_2)

text \<open>
  On any file in which an update succeeds, the policy's verification status read back
  is the one just written, and the update changed one byte of the file at most: every other
  position, and the length of the file, are as before.
\<close>

theorem update_then_verified:
  assumes "posix_transaction_update_payment_status (Some pid) (length pid) v fs = Some (True, fs')"
  shows "posix_transaction_is_verified (Some pid) (length pid) fs' = Some v \<and>
         (\<exists>old k c. bill fs = Some old \<and> bill fs' = Some (old[k := c]))"
proof -
  let ?k = "\<lambda>i. i + length (transaction_key pid)"
  let ?c = "if v then CHR ''1'' else CHR ''0''"
  from assms obtain buff i where buff: "bill fs = Some buff"
      and i: "strstr buff (transaction_key pid) = Some (Some i)"
      and k: "?k i < length buff"
      and fs': "fs' = fs\<lparr>bill := Some (buff[?k i := ?c])\<rparr>"
    by (auto simp: update_eq buf_set_def split: option.splits if_splits bind_splits)
  have "strstr (buff[?k i := ?c]) (transaction_key pid) = Some (Some i)"
    by (rule strstr_update_after [OF i k]) simp
  then have "posix_transaction_is_verified (Some pid) (length pid) fs' = Some v"
    using k by (simp add: is_verified_eq fs' buf_get_def)
  moreover have "bill fs' = Some (buff[?k i := ?c])"
    by (simp add: fs')
  ultimately show ?thesis using buff by blast
qed

theorem update_then_verified_witness:
  "posix_transaction_is_verified (Some ''a'') 1
     \<lparr>bill_dir = True, bill = Some (''policy_id:a,validated:1'' @ [newline, NUL])\<rparr> = Some True \<and>
   (\<exists>old k c. Some (transaction_line ''a'' @ [NUL]) = Some old \<and>
      Some (''policy_id:a,validated:1'' @ [newline, NUL]) = Some (old[k := c]))"
proof -
  let ?fs = "\<lparr>bill_dir = True, bill = Some (transaction_line ''a'' @ [NUL])\<rparr>"
  let ?fs' = "\<lparr>bill_dir = True, bill = Some (''policy_id:a,validated:1'' @ [newline, NUL])\<rparr>"
  have "posix_transaction_update_payment_status (Some ''a'') (length ''a'') True ?fs = Some (True, ?fs')"
    by (simp add: posix_transaction_update_payment_status_def transaction_key_def
        transaction_line_def strstr_def find_sub.simps buf_set_def)
  from update_then_verified [OF this] show ?thesis by simp
qed

text \<open>
  Only the first record of the file is visible: each store also writes the terminating
  NUL of its line, so a record stored after another one is never found by the searches,
  unless its id occurs in the first line. The second policy then counts as not stored, and
  updating or reading its status dereferences the NULL result of the search.
\<close>

theorem second_transaction_invisible:
  assumes "NUL \<notin> set p1" and "NUL \<notin> set p2" and "bill_dir fs" and "bill fs = None"
    and "find_sub p2 (transaction_line p1) = None"
  shows "\<exists>fs1 fs2.
      posix_transaction_store junk (Some p1) (length p1) fs = Some (True, fs1) \<and>
      posix_transaction_store junk (Some p2) (length p2) fs1 = Some (True, fs2) \<and>
      posix_transaction_is_stored (Some p1) fs2 = Some True \<and>
      posix_transaction_is_stored (Some p2) fs2 = Some False \<and>
      posix_transaction_update_payment_status (Some p2) (length p2) v fs2 = None \<and>
      posix_transaction_is_verified (Some p2) (length p2) fs2 = None"
proof -
  let ?b1 = "transaction_line p1 @ [NUL]"
  let ?b2 = "?b1 @ transaction_line p2 @ [NUL]"
  let ?fs1 = "fs\<lparr>bill := Some ?b1\<rparr>" and ?fs2 = "fs\<lparr>bill := Some ?b2\<rparr>"
  have cstr2: "cstr ?b2 = transaction_line p1"
    using assms(1) by simp
  have none: "find_sub (transaction_key p2) (transaction_line p1) = None"
  proof -
    have "prefix p2 (drop (j + 10) (transaction_line p1))"
      if "prefix (transaction_key p2) (drop j (transaction_line p1))" for j
    proof -
      from that obtain r where "drop j (transaction_line p1) = ''policy_id:'' @ p2 @ '',validated:'' @ r"
        by (auto simp: transaction_key_def elim!: prefixE)
      then have "drop 10 (drop j (transaction_line p1)) = p2 @ '',validated:'' @ r"
        by simp
      then show ?thesis by (simp add: add.commute)
    qed
    moreover have "prefix p2 (drop (j + 10) (transaction_line p1)) \<Longrightarrow>
                   \<exists>k\<le>length (transaction_line p1). prefix p2 (drop k (transaction_line p1))" for j
      by (cases "j + 10 \<le> length (transaction_line p1)") (auto intro: exI [of _ "length (transaction_line p1)"])
    ultimately show ?thesis
      using assms(5) unfolding find_sub_None_iff by blast
  qed
  have "posix_transaction_store junk (Some p1) (length p1) fs = Some (True, ?fs1)"
    using assms(3,4) by (simp add: store_appends_line)
  moreover have "posix_transaction_store junk (Some p2) (length p2) ?fs1 = Some (True, ?fs2)"
    using assms(3) by (simp add: store_appends_line)
  moreover have "posix_transaction_is_stored (Some p1) ?fs2 = Some True"
    using find_sub_own_id [OF assms(1), of "[NUL]"] assms(1)
    by (auto simp: posix_transaction_is_stored_def strstr_def split: option.splits)
  moreover have "posix_transaction_is_stored (Some p2) ?fs2 = Some False"
    using assms(1,5) by (simp add: posix_transaction_is_stored_def strstr_def)
  moreover have "posix_transaction_update_payment_status (Some p2) (length p2) v ?fs2 = None"
    using assms(1) none by (simp add: update_eq strstr_def)
  moreover have "posix_transaction_is_verified (Some p2) (length p2) ?fs2 = None"
    using assms(1) none by (simp add: is_verified_eq strstr_def)
  ultimately show ?thesis by blast
qed

theorem second_transaction_invisible_witness:
  "\<exists>fs1 fs2.
      posix_transaction_store (\<lambda>_. NUL) (Some ''a1'') 2 \<lparr>bill_dir = True, bill = None\<rparr> = Some (True, fs1) \<and>
      posix_transaction_store (\<lambda>_. NUL) (Some ''b2'') 2 fs1 = Some (True, fs2) \<and>
      posix_transaction_is_stored (Some ''a1'') fs2 = Some True \<and>
      posix_transaction_is_stored (Some ''b2'') fs2 = Some False \<and>
      posix_transaction_update_payment_status (Some ''b2'') 2 True fs2 = None \<and>
      posix_transaction_is_verified (Some ''b2'') 2 fs2 = None"
  using second_transaction_invisible
    [of "''a1''" "''b2''" "\<lparr>bill_dir = True, bill = None\<rparr>" "\<lambda>_. NUL" True]
  by (simp add: numeral_2_eq_2 transaction_line_def find_sub.simps)

end
