(* ===== verification/Config_Manager.thy ===== *)
theory Config_Manager
  imports C_Prelude
begin

text \<open>
  The configuration manager: \<^verbatim>\<open>config_manager/config_manager.c\<close> over its INI implementation
  \<^verbatim>\<open>config_manager/implementations/ini/config_manager_implementation.c\<close>. The parser's local
  variables and the global \<^verbatim>\<open>g_config\<close> are records, the loop over the file reads chunks of 16
  bytes as the source does, and every write to the 2048 byte text buffer, the 1024 entry token
  array and the caller's value buffer is checked.
  The lemmas show that the chunked parser computes the token table of the whole file, that on
  the text of a well-formed configuration the table and the lookups refine the lookup on the
  abstract configuration, and which lookups write outside the caller's buffer.
\<close>

section \<open>Data\<close>

abbreviation CONFIG_MANAGER_OK :: int where "CONFIG_MANAGER_OK \<equiv> 0"
abbreviation CONFIG_MANAGER_INIT_ERROR :: int where "CONFIG_MANAGER_INIT_ERROR \<equiv> -1"
abbreviation CONFIG_MANAGER_GROUP_NOT_FOUND :: int where "CONFIG_MANAGER_GROUP_NOT_FOUND \<equiv> -2"
abbreviation CONFIG_MANAGER_OPTION_NOT_FOUND :: int where "CONFIG_MANAGER_OPTION_NOT_FOUND \<equiv> -3"

abbreviation CONFIG_MANAGER_DATA_SIZE :: nat where "CONFIG_MANAGER_DATA_SIZE \<equiv> 2048"
abbreviation CONFIG_MANAGER_MAX_TOKENS :: nat where "CONFIG_MANAGER_MAX_TOKENS \<equiv> 1024"
abbreviation READ_CHUNK_SIZE :: nat where "READ_CHUNK_SIZE \<equiv> 16"

datatype config_manager_token_type = CONFIG_MANAGER_TOKEN_GROUP | CONFIG_MANAGER_TOKEN_OPTION

record config_manager_token =
  tok_start :: int
  eq_sign_idx :: int
  tok_end :: int
  tok_size :: int
  tok_level :: config_manager_token_type

record config_manager =
  cfg_data :: bytes
  cfg_tokens :: "config_manager_token list"
  tokens_count :: nat

definition zero_token :: config_manager_token where
  "zero_token = \<lparr>tok_start = 0, eq_sign_idx = 0, tok_end = 0, tok_size = 0,
                 tok_level = CONFIG_MANAGER_TOKEN_GROUP\<rparr>"

text \<open>The initial value of \<^verbatim>\<open>g_config\<close>.\<close>

definition g_config_zero :: config_manager where
  "g_config_zero = \<lparr>cfg_data = replicate CONFIG_MANAGER_DATA_SIZE NUL,
                    cfg_tokens = replicate CONFIG_MANAGER_MAX_TOKENS zero_token,
                    tokens_count = 0\<rparr>"

definition config_wf :: "config_manager \<Rightarrow> bool" where
  "config_wf cfg \<longleftrightarrow> length (cfg_data cfg) = CONFIG_MANAGER_DATA_SIZE \<and>
                     length (cfg_tokens cfg) = CONFIG_MANAGER_MAX_TOKENS \<and>
                     cfg_data cfg ! (CONFIG_MANAGER_DATA_SIZE - 1) = NUL"

section \<open>Parsing the file\<close>

text \<open>The locals of the parser. \<open>this_token\<close> always is the token at \<open>token_index\<close>.\<close>

record cfg_parser =
  value_started :: bool
  new_line :: bool
  comment_line :: bool
  token_index :: nat
  group_token :: nat
  ptokens :: "config_manager_token list"
  pcount :: nat

text \<open>The body of the \<open>for\<close> loop, for the byte at file offset \<open>pos\<close>.\<close>

definition cfg_char :: "nat \<Rightarrow> char \<Rightarrow> cfg_parser \<Rightarrow> cfg_parser option" where
  "cfg_char pos c st =
     (if new_line st \<and> c = CHR ''#'' then Some (st\<lparr>comment_line := True, new_line := False\<rparr>)
      else if new_line st then
        (if c = CHR ''['' then do {
           t \<leftarrow> buf_get (ptokens st) (token_index st);
           ts \<leftarrow> buf_set (ptokens st) (token_index st)
                  (t\<lparr>tok_start := int pos + 1, tok_end := int pos + 1, tok_size := 0,
                     tok_level := CONFIG_MANAGER_TOKEN_GROUP\<rparr>);
           Some (st\<lparr>group_token := token_index st, ptokens := ts, new_line := False\<rparr>)
         }
         else do {
           g \<leftarrow> buf_get (ptokens st) (group_token st);
           ts \<leftarrow> buf_set (ptokens st) (group_token st) (g\<lparr>tok_size := tok_size g + 1\<rparr>);
           t \<leftarrow> buf_get ts (token_index st);
           ts \<leftarrow> buf_set ts (token_index st)
                  (t\<lparr>tok_start := int pos, tok_end := int pos, tok_size := 1,
                     eq_sign_idx := int pos, tok_level := CONFIG_MANAGER_TOKEN_OPTION\<rparr>);
           Some (st\<lparr>ptokens := ts, new_line := False\<rparr>)
         })
      else if c = CHR ''='' \<and> \<not> value_started st then do {
        t \<leftarrow> buf_get (ptokens st) (token_index st);
        ts \<leftarrow> buf_set (ptokens st) (token_index st) (t\<lparr>eq_sign_idx := int pos\<rparr>);
        Some (st\<lparr>value_started := True, ptokens := ts\<rparr>)
      }
      else if c = newline then
        (if comment_line st
         then Some (st\<lparr>value_started := False, comment_line := False, new_line := True\<rparr>)
         else do {
           t \<leftarrow> buf_get (ptokens st) (token_index st);
           ts \<leftarrow> buf_set (ptokens st) (token_index st)
                  (t\<lparr>tok_end := (if token_index st = group_token st then int pos - 1 else int pos)\<rparr>);
           Some (st\<lparr>value_started := False, ptokens := ts, pcount := pcount st + 1,
                    token_index := token_index st + 1, new_line := True\<rparr>)
         })
      else Some st)"

fun cfg_chars :: "nat \<Rightarrow> bytes \<Rightarrow> cfg_parser \<Rightarrow> cfg_parser option" where
  "cfg_chars pos [] st = Some st"
| "cfg_chars pos (c # cs) st = do { st \<leftarrow> cfg_char pos c st; cfg_chars (Suc pos) cs st }"

text \<open>The \<open>do ... while\<close> loop: \<open>file\<close> is what is left to read.\<close>

function cfg_read_loop :: "bytes \<Rightarrow> nat \<Rightarrow> bytes \<Rightarrow> cfg_parser \<Rightarrow> (bytes \<times> cfg_parser) option" where
  "cfg_read_loop file total_bytes_read data st =
     (let this_chunk = take READ_CHUNK_SIZE file
      in do {
           data \<leftarrow> buf_blit data total_bytes_read this_chunk;
           st \<leftarrow> cfg_chars total_bytes_read this_chunk st;
           (if length this_chunk = READ_CHUNK_SIZE
            then cfg_read_loop (drop READ_CHUNK_SIZE file) (total_bytes_read + READ_CHUNK_SIZE) data st
            else Some (data, st))
         })"
  by pat_completeness auto
termination
  by (relation "measure (\<lambda>(file, total_bytes_read, data, st). length file)") auto

declare cfg_read_loop.simps [simp del]

definition cfg_parser_start :: "config_manager_token list \<Rightarrow> cfg_parser" where
  "cfg_parser_start ts = \<lparr>value_started = False, new_line = True, comment_line = False,
                          token_index = 0, group_token = 0, ptokens = ts, pcount = 0\<rparr>"

text \<open>\<open>file\<close> is \<open>None\<close> when \<open>fopen\<close> fails.\<close>

definition config_manager_implementation_init_cb ::
    "bytes option \<Rightarrow> config_manager \<Rightarrow> (int \<times> config_manager) option" where
  "config_manager_implementation_init_cb file cfg =
     (case file of
        None \<Rightarrow> Some (CONFIG_MANAGER_INIT_ERROR, cfg)
      | Some f \<Rightarrow> do {
          (data, st) \<leftarrow> cfg_read_loop f 0 (cfg_data cfg) (cfg_parser_start (cfg_tokens cfg));
          Some (CONFIG_MANAGER_OK,
                \<lparr>cfg_data = data, cfg_tokens = ptokens st, tokens_count = pcount st\<rparr>)
        })"

section \<open>Lookups\<close>

text \<open>An \<open>int\<close> difference passed where a \<open>size_t\<close> is expected.\<close>

definition as_size_t :: "int \<Rightarrow> nat" where
  "as_size_t v = nat (v mod 2 ^ 64)"

definition find_module :: "config_manager \<Rightarrow> bytes \<Rightarrow> nat option" where
  "find_module cfg module_name =
     find (\<lambda>i. let tok = cfg_tokens cfg ! i in
             tok_level tok = CONFIG_MANAGER_TOKEN_GROUP \<and>
             strncmp_eq module_name (drop (nat (tok_start tok)) (cfg_data cfg))
               (as_size_t (tok_end tok - tok_start tok)))
          [0..<tokens_count cfg]"

text \<open>The second loop stops with undefined behaviour if it leaves the token array.\<close>

fun find_config :: "config_manager \<Rightarrow> bytes \<Rightarrow> nat list \<Rightarrow> nat option option" where
  "find_config cfg option_name [] = Some None"
| "find_config cfg option_name (idx # is) = do {
     tok \<leftarrow> buf_get (cfg_tokens cfg) idx;
     (if strncmp_eq option_name (drop (nat (tok_start tok)) (cfg_data cfg))
           (as_size_t (eq_sign_idx tok - tok_start tok))
      then Some (Some idx)
      else find_config cfg option_name is)
   }"

text \<open>The copy of the value found, with the write behind it.\<close>

definition option_copy :: "config_manager \<Rightarrow> nat \<Rightarrow> bytes \<Rightarrow> nat \<Rightarrow> (int \<times> bytes) option" where
  "option_copy cfg idx option_value option_value_size =
     (let tok = cfg_tokens cfg ! idx;
          copy_len = min (as_size_t (tok_end tok - eq_sign_idx tok)) option_value_size;
          src = drop (nat (eq_sign_idx tok + 1)) (cfg_data cfg)
      in do {
           _ \<leftarrow> (if NUL \<in> set src then Some () else None);
           option_value \<leftarrow> (if copy_len = 0 then Some option_value
                             else buf_blit option_value 0 (take (copy_len - 1) (cstr src) @ [NUL]));
           option_value \<leftarrow> buf_set option_value (copy_len + 1) NUL;
           Some (CONFIG_MANAGER_OK, option_value)
         })"

definition config_manager_implementation_get_string_cb ::
    "config_manager \<Rightarrow> bytes \<Rightarrow> bytes \<Rightarrow> bytes \<Rightarrow> nat \<Rightarrow> (int \<times> bytes) option" where
  "config_manager_implementation_get_string_cb cfg module_name option_name option_value option_value_size =
     (case find_module cfg module_name of
        None \<Rightarrow> Some (CONFIG_MANAGER_GROUP_NOT_FOUND, option_value)
      | Some found_module \<Rightarrow> do {
          found_config \<leftarrow> find_config cfg option_name
             [found_module + 1 ..< found_module + 1 + nat (tok_size (cfg_tokens cfg ! found_module))];
          (case found_config of
             None \<Rightarrow> Some (CONFIG_MANAGER_OPTION_NOT_FOUND, option_value)
           | Some idx \<Rightarrow> option_copy cfg idx option_value option_value_size)
        })"

text \<open>\<open>string_value\<close> is the uninitialised 32 byte local.\<close>

definition config_manager_implementation_get_int_cb ::
    "config_manager \<Rightarrow> bytes \<Rightarrow> bytes \<Rightarrow> bytes \<Rightarrow> int \<Rightarrow> (int \<times> int) option" where
  "config_manager_implementation_get_int_cb cfg module_name option_name string_value option_value = do {
     (status, string_value) \<leftarrow>
        config_manager_implementation_get_string_cb cfg module_name option_name string_value 32;
     (if status \<noteq> CONFIG_MANAGER_OK then Some (status, option_value)
      else Some (CONFIG_MANAGER_OK, atoi string_value))
   }"

text \<open>The value of a \<open>float\<close> is what \<open>atof\<close> makes of the text.\<close>

definition config_manager_implementation_get_float_cb ::
    "(bytes \<Rightarrow> 'f) \<Rightarrow> config_manager \<Rightarrow> bytes \<Rightarrow> bytes \<Rightarrow> bytes \<Rightarrow> 'f \<Rightarrow> (int \<times> 'f) option" where
  "config_manager_implementation_get_float_cb atof cfg module_name option_name string_value option_value = do {
     (status, string_value) \<leftarrow>
        config_manager_implementation_get_string_cb cfg module_name option_name string_value 32;
     (if status \<noteq> CONFIG_MANAGER_OK then Some (status, option_value)
      else Some (CONFIG_MANAGER_OK, atof (cstr string_value)))
   }"

text \<open>The public interface of \<^verbatim>\<open>config_manager.c\<close> forwards to the implementation.\<close>

definition config_manager_init :: "bytes option \<Rightarrow> config_manager \<Rightarrow> (int \<times> config_manager) option" where
  "config_manager_init file cfg = config_manager_implementation_init_cb file cfg"

definition config_manager_get_option_string ::
    "config_manager \<Rightarrow> bytes \<Rightarrow> bytes \<Rightarrow> bytes \<Rightarrow> nat \<Rightarrow> (int \<times> bytes) option" where
  "config_manager_get_option_string cfg module_name option_name option_value option_size =
     config_manager_implementation_get_string_cb cfg module_name option_name option_value option_size"

definition config_manager_get_option_int ::
    "config_manager \<Rightarrow> bytes \<Rightarrow> bytes \<Rightarrow> bytes \<Rightarrow> int \<Rightarrow> (int \<times> int) option" where
  "config_manager_get_option_int cfg module_name option_name string_value option_value =
     config_manager_implementation_get_int_cb cfg module_name option_name string_value option_value"

definition config_manager_get_option_float ::
    "(bytes \<Rightarrow> 'f) \<Rightarrow> config_manager \<Rightarrow> bytes \<Rightarrow> bytes \<Rightarrow> bytes \<Rightarrow> 'f \<Rightarrow> (int \<times> 'f) option" where
  "config_manager_get_option_float atof cfg module_name option_name string_value option_value =
     config_manager_implementation_get_float_cb atof cfg module_name option_name string_value option_value"

section \<open>The abstract configuration\<close>

type_synonym ini = "(bytes \<times> (bytes \<times> bytes) list) list"

definition render_option :: "bytes \<times> bytes \<Rightarrow> bytes" where
  "render_option ov = fst ov @ ''='' @ snd ov @ [newline]"

definition render_options :: "(bytes \<times> bytes) list \<Rightarrow> bytes" where
  "render_options opts = concat (map render_option opts)"

definition render_group :: "bytes \<times> (bytes \<times> bytes) list \<Rightarrow> bytes" where
  "render_group gr = ''['' @ fst gr @ '']'' @ newline # render_options (snd gr)"

definition render_ini :: "ini \<Rightarrow> bytes" where
  "render_ini ini = concat (map render_group ini)"

definition option_ok :: "bytes \<times> bytes \<Rightarrow> bool" where
  "option_ok ov \<longleftrightarrow> fst ov \<noteq> [] \<and> hd (fst ov) \<noteq> CHR ''#'' \<and> hd (fst ov) \<noteq> CHR ''['' \<and>
     {NUL, newline, CHR ''=''} \<inter> set (fst ov) = {} \<and> {NUL, newline} \<inter> set (snd ov) = {}"

definition ini_ok :: "ini \<Rightarrow> bool" where
  "ini_ok ini \<longleftrightarrow> (\<forall>gr\<in>set ini. {NUL, newline, CHR ''=''} \<inter> set (fst gr) = {} \<and> (\<forall>ov\<in>set (snd gr). option_ok ov))"

text \<open>What the lookups promise: the first group, and in it the first option, whose name is a
  prefix of the name asked for.\<close>

definition ini_lookup :: "ini \<Rightarrow> bytes \<Rightarrow> bytes \<Rightarrow> int + bytes" where
  "ini_lookup ini m n =
     (case find (\<lambda>gr. prefix (fst gr) m) ini of
        None \<Rightarrow> Inl CONFIG_MANAGER_GROUP_NOT_FOUND
      | Some gr \<Rightarrow> (case find (\<lambda>ov. prefix (fst ov) n) (snd gr) of
                     None \<Rightarrow> Inl CONFIG_MANAGER_OPTION_NOT_FOUND
                   | Some ov \<Rightarrow> Inr (snd ov)))"

section \<open>The chunked loop reads the whole file\<close>

lemma buf_blit_append:
  "buf_blit d n (a @ b) = do { d \<leftarrow> buf_blit d n a; buf_blit d (n + length a) b }"
proof (cases "n + length a \<le> length d")
  case True
  then have "take (n + length a) (take n d @ a @ drop (n + length a) d) = take n d @ a"
    by simp
  moreover have "drop (n + length a + length b) (take n d @ a @ drop (n + length a) d)
                   = drop (n + length a + length b) d"
    using True by (simp add: add.commute add.left_commute)
  ultimately show ?thesis
    using True by (simp add: buf_blit_def add.assoc)
qed (simp add: buf_blit_def)

lemma cfg_chars_Nil [simp]: "cfg_chars n [] = Some"
  by (rule ext) simp

lemma cfg_chars_append:
  "cfg_chars n (a @ b) st = do { st \<leftarrow> cfg_chars n a st; cfg_chars (n + length a) b st }"
  by (induction a arbitrary: n st) (auto split: bind_splits)

lemma cfg_chars_comp:
  "cfg_chars n a st = Some st1 \<Longrightarrow> m = n + length a \<Longrightarrow> cfg_chars m b st1 = r \<Longrightarrow>
   cfg_chars n (a @ b) st = r"
  by (simp add: cfg_chars_append)

lemma cfg_read_loop_whole:
  "cfg_read_loop f n d st =
     do { d \<leftarrow> buf_blit d n f; st \<leftarrow> cfg_chars n f st; Some (d, st) }"
proof (induction f n d st rule: cfg_read_loop.induct)
  case (1 f n d st)
  let ?a = "take 16 f" and ?b = "drop 16 f"
  show ?case
  proof (cases "length ?a = 16")
    case True
    have "cfg_read_loop f n d st =
            do { d \<leftarrow> buf_blit d n ?a; st \<leftarrow> cfg_chars n ?a st;
                 cfg_read_loop ?b (n + 16) d st }"
      using True by (subst cfg_read_loop.simps) (simp add: Let_def)
    also have "\<dots> = do { d \<leftarrow> buf_blit d n ?a; st \<leftarrow> cfg_chars n ?a st;
                 d \<leftarrow> buf_blit d (n + 16) ?b; st \<leftarrow> cfg_chars (n + 16) ?b st; Some (d, st) }"
      using True by (intro bind_option_cong refl 1) auto
    also have "\<dots> = do { d \<leftarrow> buf_blit d n (?a @ ?b); st \<leftarrow> cfg_chars n (?a @ ?b) st; Some (d, st) }"
      using True unfolding buf_blit_append cfg_chars_append
      by (auto split: bind_splits)
    finally show ?thesis by simp
  next
    case False
    then have "?a = f" by simp
    with False show ?thesis by (subst cfg_read_loop.simps) (simp add: Let_def)
  qed
qed

section \<open>Parsing the text of a well-formed configuration\<close>

text \<open>Inside a line, only a newline and the first equals sign matter.\<close>

lemma cfg_chars_inert:
  assumes "\<not> new_line st" and "\<forall>c\<in>set s. c \<noteq> newline \<and> (c = CHR ''='' \<longrightarrow> value_started st)"
  shows "cfg_chars n s st = Some st"
  using assms by (induction s arbitrary: n) (auto simp: cfg_char_def)

text \<open>The tokens that the options of one group leave in the table.\<close>

definition option_token_at :: "config_manager_token list \<Rightarrow> nat \<Rightarrow> nat \<Rightarrow> bytes \<times> bytes \<Rightarrow> bool" where
  "option_token_at ts k pos ov \<longleftrightarrow>
     tok_start (ts ! k) = int pos \<and> eq_sign_idx (ts ! k) = int pos + int (length (fst ov)) \<and>
     tok_end (ts ! k) = int pos + int (length (fst ov)) + 1 + int (length (snd ov)) \<and>
     tok_level (ts ! k) = CONFIG_MANAGER_TOKEN_OPTION"

fun options_at :: "config_manager_token list \<Rightarrow> nat \<Rightarrow> nat \<Rightarrow> (bytes \<times> bytes) list \<Rightarrow> bool" where
  "options_at ts k pos [] = True"
| "options_at ts k pos (ov # ovs) =
     (option_token_at ts k pos ov \<and> options_at ts (Suc k) (pos + length (render_option ov)) ovs)"

definition group_token_at :: "config_manager_token list \<Rightarrow> nat \<Rightarrow> nat \<Rightarrow> bytes \<Rightarrow> nat \<Rightarrow> bool" where
  "group_token_at ts k pos g n \<longleftrightarrow>
     tok_start (ts ! k) = int pos + 1 \<and> tok_end (ts ! k) = int pos + 1 + int (length g) \<and>
     tok_size (ts ! k) = int n \<and> tok_level (ts ! k) = CONFIG_MANAGER_TOKEN_GROUP"

fun groups_at :: "config_manager_token list \<Rightarrow> nat \<Rightarrow> nat \<Rightarrow> ini \<Rightarrow> bool" where
  "groups_at ts k pos [] = True"
| "groups_at ts k pos (gr # grs) =
     (group_token_at ts k pos (fst gr) (length (snd gr)) \<and>
      options_at ts (Suc k) (pos + length (fst gr) + 3) (snd gr) \<and>
      groups_at ts (Suc k + length (snd gr)) (pos + length (render_group gr)) grs)"

fun ini_tokens :: "ini \<Rightarrow> nat" where
  "ini_tokens [] = 0"
| "ini_tokens (gr # grs) = Suc (length (snd gr)) + ini_tokens grs"

text \<open>The parser is between two lines, about to fill token \<open>k\<close>.\<close>

definition at_line_start :: "cfg_parser \<Rightarrow> nat \<Rightarrow> bool" where
  "at_line_start st k \<longleftrightarrow> new_line st \<and> \<not> value_started st \<and> \<not> comment_line st \<and>
     token_index st = k \<and> length (ptokens st) = CONFIG_MANAGER_MAX_TOKENS"

lemma length_render_option: "length (render_option ov) = length (fst ov) + length (snd ov) + 2"
  by (simp add: render_option_def)

lemma options_at_cong:
  assumes "options_at ts k pos ovs" and "\<And>j. k \<le> j \<Longrightarrow> j < k + length ovs \<Longrightarrow> ts' ! j = ts ! j"
  shows "options_at ts' k pos ovs"
  using assms
proof (induction ovs arbitrary: k pos)
  case (Cons ov ovs)
  have "options_at ts' (Suc k) (pos + length (render_option ov)) ovs"
    using Cons.prems by (intro Cons.IH) simp_all
  moreover have "ts' ! k = ts ! k"
    using Cons.prems(2) [of k] by simp
  ultimately show ?case
    using Cons.prems(1) by (simp add: option_token_at_def)
qed simp

lemma groups_at_cong:
  assumes "groups_at ts k pos grs" and "\<And>j. k \<le> j \<Longrightarrow> j < k + ini_tokens grs \<Longrightarrow> ts' ! j = ts ! j"
  shows "groups_at ts' k pos grs"
  using assms
proof (induction grs arbitrary: k pos)
  case (Cons gr grs)
  have "options_at ts' (Suc k) (pos + length (fst gr) + 3) (snd gr)"
    by (rule options_at_cong [of ts]) (use Cons.prems in simp_all)
  moreover have "groups_at ts' (Suc k + length (snd gr)) (pos + length (render_group gr)) grs"
    by (rule Cons.IH) (use Cons.prems in simp_all)
  moreover have "ts' ! k = ts ! k"
    using Cons.prems(2) [of k] by simp
  ultimately show ?case
    using Cons.prems(1) by (simp add: group_token_at_def)
qed simp

text \<open>One option line fills one token and counts in its group.\<close>

lemma cfg_option_line:
  assumes start: "at_line_start st k" and "option_ok ov"
    and "group_token st < k" "k < CONFIG_MANAGER_MAX_TOKENS"
  shows "\<exists>st'. cfg_chars pos (render_option ov) st = Some st' \<and> at_line_start st' (Suc k) \<and>
     group_token st' = group_token st \<and> pcount st' = Suc (pcount st) \<and>
     ptokens st' ! group_token st = (ptokens st ! group_token st)
        \<lparr>tok_size := tok_size (ptokens st ! group_token st) + 1\<rparr> \<and>
     (\<forall>j. j \<noteq> k \<and> j \<noteq> group_token st \<longrightarrow> ptokens st' ! j = ptokens st ! j) \<and>
     option_token_at (ptokens st') k pos ov"
proof -
  obtain c cs v where ov: "ov = (c # cs, v)"
    using \<open>option_ok ov\<close> by (cases ov; cases "fst ov") (auto simp: option_ok_def)
  let ?g = "group_token st" and ?ts = "ptokens st"
  let ?opt = "(?ts ! k)\<lparr>tok_start := int pos, tok_end := int pos, tok_size := 1,
     eq_sign_idx := int pos, tok_level := CONFIG_MANAGER_TOKEN_OPTION\<rparr>"
  let ?ts1 = "?ts[?g := (?ts ! ?g)\<lparr>tok_size := tok_size (?ts ! ?g) + 1\<rparr>, k := ?opt]"
  let ?st1 = "st\<lparr>ptokens := ?ts1, new_line := False\<rparr>"
  let ?p2 = "pos + 1 + length cs"
  let ?st2 = "?st1\<lparr>value_started := True, ptokens := ?ts1[k := ?opt\<lparr>eq_sign_idx := int ?p2\<rparr>]\<rparr>"
  let ?p3 = "?p2 + 1 + length v"
  let ?st3 = "?st2\<lparr>value_started := False,
     ptokens := ?ts1[k := ?opt\<lparr>eq_sign_idx := int ?p2, tok_end := int ?p3\<rparr>],
     pcount := pcount st + 1, token_index := Suc k, new_line := True\<rparr>"
  have len: "length ?ts = 1024" "token_index st = k" "new_line st" "\<not> value_started st" "\<not> comment_line st"
    using start by (auto simp: at_line_start_def)
  have fst_char: "cfg_char pos c st = Some ?st1"
    using assms ov len by (auto simp: cfg_char_def buf_get_def buf_set_def option_ok_def)
  have in_name: "cfg_chars (Suc pos) cs ?st1 = Some ?st1"
    using \<open>option_ok ov\<close> ov by (intro cfg_chars_inert) (auto simp: option_ok_def)
  have eq: "cfg_char ?p2 CHR ''='' ?st1 = Some ?st2"
    using assms len by (simp add: cfg_char_def buf_get_def buf_set_def)
  have vals: "cfg_chars (Suc ?p2) v ?st2 = Some ?st2"
    using \<open>option_ok ov\<close> ov by (intro cfg_chars_inert) (auto simp: option_ok_def)
  have lst_char: "cfg_char ?p3 newline ?st2 = Some ?st3"
    using assms len by (simp add: cfg_char_def buf_get_def buf_set_def)
  have "cfg_chars pos (render_option ov) st = Some ?st3"
    using fst_char in_name eq vals lst_char
    by (simp add: render_option_def ov cfg_chars_append)
  moreover have "at_line_start ?st3 (Suc k)"
    using len by (simp add: at_line_start_def)
  moreover have "option_token_at (ptokens ?st3) k pos ov"
    using assms len by (simp add: option_token_at_def ov)
  ultimately show ?thesis
    using assms len by (intro exI [of _ ?st3]) simp
qed

lemma cfg_option_lines:
  assumes "at_line_start st k" and "\<forall>ov\<in>set ovs. option_ok ov"
    and "group_token st < k" and "k + length ovs \<le> CONFIG_MANAGER_MAX_TOKENS"
  shows "\<exists>st'. cfg_chars pos (render_options ovs) st = Some st' \<and> at_line_start st' (k + length ovs) \<and>
     group_token st' = group_token st \<and> pcount st' = pcount st + length ovs \<and>
     ptokens st' ! group_token st = (ptokens st ! group_token st)
        \<lparr>tok_size := tok_size (ptokens st ! group_token st) + int (length ovs)\<rparr> \<and>
     (\<forall>j<k. j \<noteq> group_token st \<longrightarrow> ptokens st' ! j = ptokens st ! j) \<and>
     options_at (ptokens st') k pos ovs"
  using assms
proof (induction ovs arbitrary: st k pos)
  case (Cons ov ovs)
  let ?g = "group_token st"
  obtain st1 where line: "cfg_chars pos (render_option ov) st = Some st1" "at_line_start st1 (Suc k)"
      "group_token st1 = ?g" "pcount st1 = Suc (pcount st)"
      "ptokens st1 ! ?g = (ptokens st ! ?g)\<lparr>tok_size := tok_size (ptokens st ! ?g) + 1\<rparr>"
      "\<forall>j. j \<noteq> k \<and> j \<noteq> ?g \<longrightarrow> ptokens st1 ! j = ptokens st ! j"
      "option_token_at (ptokens st1) k pos ov"
    using cfg_option_line [of st k ov pos] Cons.prems by auto
  let ?pos = "pos + length (render_option ov)"
  obtain st2 where rest: "cfg_chars ?pos (render_options ovs) st1 = Some st2"
      "at_line_start st2 (Suc k + length ovs)" "group_token st2 = ?g" "pcount st2 = pcount st1 + length ovs"
      "ptokens st2 ! ?g = (ptokens st1 ! ?g)\<lparr>tok_size := tok_size (ptokens st1 ! ?g) + int (length ovs)\<rparr>"
      "\<forall>j<Suc k. j \<noteq> ?g \<longrightarrow> ptokens st2 ! j = ptokens st1 ! j"
      "options_at (ptokens st2) (Suc k) ?pos ovs"
    using Cons.IH [of st1 "Suc k" ?pos] Cons.prems line by auto
  have "cfg_chars pos (render_options (ov # ovs)) st = Some st2"
    using line(1) rest(1) by (simp add: render_options_def cfg_chars_append)
  moreover have "ptokens st2 ! k = ptokens st1 ! k"
    using rest(6) Cons.prems(3) by simp
  ultimately show ?case
    using line rest Cons.prems(3) by (intro exI [of _ st2]) (simp add: option_token_at_def)
qed (simp add: render_options_def)

text \<open>The header line of a group, and a whole group.\<close>

lemma cfg_group_line:
  assumes "at_line_start st k" and g: "{newline, CHR ''=''} \<inter> set g = {}" and "k < CONFIG_MANAGER_MAX_TOKENS"
  shows "\<exists>st'. cfg_chars pos (''['' @ g @ '']'' @ [newline]) st = Some st' \<and> at_line_start st' (Suc k) \<and>
     group_token st' = k \<and> pcount st' = Suc (pcount st) \<and>
     (\<forall>j. j \<noteq> k \<longrightarrow> ptokens st' ! j = ptokens st ! j) \<and>
     group_token_at (ptokens st') k pos g 0"
proof -
  let ?ts = "ptokens st"
  let ?hdr = "(?ts ! k)\<lparr>tok_start := int pos + 1, tok_end := int pos + 1, tok_size := 0,
                 tok_level := CONFIG_MANAGER_TOKEN_GROUP\<rparr>"
  let ?st1 = "st\<lparr>group_token := k, ptokens := ?ts[k := ?hdr], new_line := False\<rparr>"
  let ?p = "Suc pos + length (g @ '']'')"
  let ?st2 = "?st1\<lparr>value_started := False, ptokens := ?ts[k := ?hdr\<lparr>tok_end := int ?p - 1\<rparr>],
                  pcount := pcount st + 1, token_index := Suc k, new_line := True\<rparr>"
  have len: "length ?ts = 1024" "token_index st = k" "new_line st" "\<not> value_started st" "\<not> comment_line st"
    using assms(1) by (auto simp: at_line_start_def)
  have "cfg_char pos CHR ''['' st = Some ?st1"
    using len assms(3) by (simp add: cfg_char_def buf_get_def buf_set_def)
  moreover have "cfg_chars (Suc pos) (g @ '']'') ?st1 = Some ?st1"
    using g by (intro cfg_chars_inert) auto
  moreover have "cfg_char ?p newline ?st1 = Some ?st2"
    using len assms(3) by (simp add: cfg_char_def buf_get_def buf_set_def)
  ultimately have "cfg_chars pos (''['' @ (g @ '']'') @ [newline]) st = Some ?st2"
    by (intro cfg_chars_comp [of pos "''[''" st ?st1 "Suc pos"]
          cfg_chars_comp [of "Suc pos" "g @ '']''" ?st1 ?st1 ?p]) simp_all
  then have "cfg_chars pos (''['' @ g @ '']'' @ [newline]) st = Some ?st2"
    by simp
  moreover have "at_line_start ?st2 (Suc k)" "group_token_at (ptokens ?st2) k pos g 0"
    using len assms(3) by (simp_all add: at_line_start_def group_token_at_def)
  ultimately show ?thesis
    by (intro exI [of _ ?st2]) simp
qed

lemma cfg_group:
  assumes "at_line_start st k" and "{NUL, newline, CHR ''=''} \<inter> set (fst gr) = {}"
    and "\<forall>ov\<in>set (snd gr). option_ok ov" and "Suc k + length (snd gr) \<le> CONFIG_MANAGER_MAX_TOKENS"
  shows "\<exists>st'. cfg_chars pos (render_group gr) st = Some st' \<and>
     at_line_start st' (Suc k + length (snd gr)) \<and> pcount st' = pcount st + Suc (length (snd gr)) \<and>
     (\<forall>j<k. ptokens st' ! j = ptokens st ! j) \<and>
     group_token_at (ptokens st') k pos (fst gr) (length (snd gr)) \<and>
     options_at (ptokens st') (Suc k) (pos + length (fst gr) + 3) (snd gr)"
proof -
  let ?h = "''['' @ fst gr @ '']'' @ [newline]"
  obtain st1 where h: "cfg_chars pos ?h st = Some st1" "at_line_start st1 (Suc k)" "group_token st1 = k"
      "pcount st1 = Suc (pcount st)" "\<forall>j. j \<noteq> k \<longrightarrow> ptokens st1 ! j = ptokens st ! j"
      "group_token_at (ptokens st1) k pos (fst gr) 0"
    using cfg_group_line [of st k "fst gr" pos] assms by auto
  obtain st2 where o: "cfg_chars (pos + length (fst gr) + 3) (render_options (snd gr)) st1 = Some st2"
      "at_line_start st2 (Suc k + length (snd gr))" "pcount st2 = pcount st1 + length (snd gr)"
      "ptokens st2 ! k = (ptokens st1 ! k)\<lparr>tok_size := tok_size (ptokens st1 ! k) + int (length (snd gr))\<rparr>"
      "\<forall>j<Suc k. j \<noteq> k \<longrightarrow> ptokens st2 ! j = ptokens st1 ! j"
      "options_at (ptokens st2) (Suc k) (pos + length (fst gr) + 3) (snd gr)"
    using cfg_option_lines [of st1 "Suc k" "snd gr" "pos + length (fst gr) + 3"] h assms by auto
  have "render_group gr = ?h @ render_options (snd gr)"
    by (simp add: render_group_def)
  then have "cfg_chars pos (render_group gr) st = Some st2"
    using cfg_chars_comp [OF h(1) _ o(1)] by simp
  then show ?thesis
    using h o by (intro exI [of _ st2]) (simp add: group_token_at_def)
qed

lemma cfg_groups:
  assumes "at_line_start st k" and "ini_ok grs" and "k + ini_tokens grs \<le> CONFIG_MANAGER_MAX_TOKENS"
  shows "\<exists>st'. cfg_chars pos (render_ini grs) st = Some st' \<and> at_line_start st' (k + ini_tokens grs) \<and>
     pcount st' = pcount st + ini_tokens grs \<and>
     (\<forall>j<k. ptokens st' ! j = ptokens st ! j) \<and> groups_at (ptokens st') k pos grs"
  using assms
proof (induction grs arbitrary: st k pos)
  case (Cons gr grs)
  let ?k = "Suc k + length (snd gr)" and ?pos = "pos + length (render_group gr)"
  obtain st1 where g: "cfg_chars pos (render_group gr) st = Some st1" "at_line_start st1 ?k"
      "pcount st1 = pcount st + Suc (length (snd gr))" "\<forall>j<k. ptokens st1 ! j = ptokens st ! j"
      "group_token_at (ptokens st1) k pos (fst gr) (length (snd gr))"
      "options_at (ptokens st1) (Suc k) (pos + length (fst gr) + 3) (snd gr)"
    using cfg_group [of st k gr pos] Cons.prems by (auto simp: ini_ok_def)
  obtain st2 where r: "cfg_chars ?pos (render_ini grs) st1 = Some st2" "at_line_start st2 (?k + ini_tokens grs)"
      "pcount st2 = pcount st1 + ini_tokens grs" "\<forall>j<?k. ptokens st2 ! j = ptokens st1 ! j"
      "groups_at (ptokens st2) ?k ?pos grs"
    using Cons.IH [of st1 ?k ?pos] Cons.prems g(2) by (auto simp: ini_ok_def)
  have "cfg_chars pos (render_ini (gr # grs)) st = Some st2"
    using g(1) r(1) by (simp add: render_ini_def cfg_chars_append)
  moreover have "options_at (ptokens st2) (Suc k) (pos + length (fst gr) + 3) (snd gr)"
    by (rule options_at_cong [OF g(6)]) (use r(4) in simp)
  moreover have "group_token_at (ptokens st2) k pos (fst gr) (length (snd gr))"
    using g(5) r(4) by (simp add: group_token_at_def)
  ultimately show ?case
    using g r by (intro exI [of _ st2]) (simp add: add.assoc)
qed (simp add: render_ini_def)

section \<open>Lookups in the token table\<close>

lemma as_size_t_nat [simp]: "n < 2 ^ 64 \<Longrightarrow> as_size_t (int n) = n"
  by (simp add: as_size_t_def)

lemma length_render_group: "length (render_group gr) = length (fst gr) + 3 + length (render_options (snd gr))"
  by (simp add: render_group_def)

lemma ini_tokens_bound: "ini_ok grs \<Longrightarrow> 3 * ini_tokens grs \<le> length (render_ini grs)"
proof (induction grs)
  case (Cons gr grs)
  have "3 * length ovs \<le> length (render_options ovs)" if "\<forall>ov\<in>set ovs. option_ok ov" for ovs
    using that
  proof (induction ovs)
    case (Cons ov ovs)
    then have "1 \<le> length (fst ov)" by (cases "fst ov") (auto simp: option_ok_def)
    with Cons show ?case by (simp add: render_options_def length_render_option)
  qed simp
  with Cons show ?case
    by (fastforce simp: ini_ok_def render_ini_def length_render_group)
qed simp

lemma find_append_option: "find P (xs @ ys) = (case find P xs of None \<Rightarrow> find P ys | Some x \<Rightarrow> Some x)"
  by (induction xs) auto

lemma options_at_level:
  "options_at ts k pos ovs \<Longrightarrow> k \<le> j \<Longrightarrow> j < k + length ovs \<Longrightarrow> tok_level (ts ! j) = CONFIG_MANAGER_TOKEN_OPTION"
proof (induction ovs arbitrary: k pos)
  case (Cons ov ovs)
  then show ?case by (cases "j = k") (auto simp: option_token_at_def)
qed simp

text \<open>The loop over the options of a group, on the text of these options.\<close>

lemma find_config_options:
  assumes "options_at (cfg_tokens cfg) k pos ovs" and "\<forall>ov\<in>set ovs. option_ok ov" and "NUL \<notin> set n"
    and "drop pos (cfg_data cfg) = render_options ovs @ rest" and "length (cfg_data cfg) = 2048"
    and "k + length ovs \<le> length (cfg_tokens cfg)"
  shows "case find (\<lambda>ov. prefix (fst ov) n) ovs of
           None \<Rightarrow> find_config cfg n [k..<k + length ovs] = Some None
         | Some ov \<Rightarrow> \<exists>j pos' rest'. find_config cfg n [k..<k + length ovs] = Some (Some j) \<and>
             option_token_at (cfg_tokens cfg) j pos' ov \<and> drop pos' (cfg_data cfg) = render_option ov @ rest'"
  using assms
proof (induction ovs arbitrary: k pos)
  case (Cons ov ovs)
  let ?tok = "cfg_tokens cfg ! k" and ?pos = "pos + length (render_option ov)"
  have tok: "tok_start ?tok = int pos" "eq_sign_idx ?tok - tok_start ?tok = int (length (fst ov))"
    using Cons.prems(1) by (simp_all add: option_token_at_def)
  have here: "drop pos (cfg_data cfg) = fst ov @ (''='' @ snd ov @ [newline] @ render_options ovs @ rest)"
    using Cons.prems(4) by (simp add: render_options_def render_option_def)
  have "length (drop pos (cfg_data cfg)) \<le> 2048"
    using Cons.prems(5) by simp
  then have "length (fst ov) < 2 ^ 64"
    using here by (simp add: render_option_def)
  then have cmp: "strncmp_eq n (drop (nat (tok_start ?tok)) (cfg_data cfg))
                    (as_size_t (eq_sign_idx ?tok - tok_start ?tok)) \<longleftrightarrow> prefix (fst ov) n"
    using Cons.prems(2,3) unfolding tok(2) unfolding tok(1) nat_int here
    by (simp add: strncmp_eq_prefix option_ok_def)
  have step: "find_config cfg n [k..<k + length (ov # ovs)] =
      (if prefix (fst ov) n then Some (Some k) else find_config cfg n [Suc k..<Suc k + length ovs])"
    using Cons.prems(6) cmp by (simp add: upt_conv_Cons buf_get_def del: upt_Suc)
  have "drop ?pos (cfg_data cfg) = render_options ovs @ rest"
    unfolding add.commute [of pos] drop_drop [symmetric] Cons.prems(4) by (simp add: render_options_def)
  note IH = Cons.IH [of "Suc k" ?pos, OF _ _ Cons.prems(3) this Cons.prems(5)]
  show ?case
  proof (cases "prefix (fst ov) n")
    case True
    have "drop pos (cfg_data cfg) = render_option ov @ (render_options ovs @ rest)"
      using Cons.prems(4) by (simp add: render_options_def)
    moreover have "option_token_at (cfg_tokens cfg) k pos ov"
      using Cons.prems(1) by simp
    ultimately show ?thesis
      unfolding step using True by auto
  next
    case False
    then show ?thesis
      unfolding step using IH Cons.prems(1,2,6) by (simp del: upt_Suc)
  qed
qed simp

text \<open>The loop over the groups.\<close>

definition is_module :: "config_manager \<Rightarrow> bytes \<Rightarrow> nat \<Rightarrow> bool" where
  "is_module cfg m i \<longleftrightarrow> tok_level (cfg_tokens cfg ! i) = CONFIG_MANAGER_TOKEN_GROUP \<and>
     strncmp_eq m (drop (nat (tok_start (cfg_tokens cfg ! i))) (cfg_data cfg))
       (as_size_t (tok_end (cfg_tokens cfg ! i) - tok_start (cfg_tokens cfg ! i)))"

lemma find_module_eq: "find_module cfg m = find (is_module cfg m) [0..<tokens_count cfg]"
  unfolding find_module_def is_module_def Let_def ..

lemma find_module_groups:
  assumes "groups_at (cfg_tokens cfg) k pos grs" and "ini_ok grs" and "NUL \<notin> set m"
    and "drop pos (cfg_data cfg) = render_ini grs @ rest" and "length (cfg_data cfg) = 2048"
  shows "case find (\<lambda>gr. prefix (fst gr) m) grs of
           None \<Rightarrow> find (is_module cfg m) [k..<k + ini_tokens grs] = None
         | Some gr \<Rightarrow> \<exists>j pos' rest'. find (is_module cfg m) [k..<k + ini_tokens grs] = Some j \<and>
             j + length (snd gr) < k + ini_tokens grs \<and>
             tok_size (cfg_tokens cfg ! j) = int (length (snd gr)) \<and>
             options_at (cfg_tokens cfg) (Suc j) pos' (snd gr) \<and>
             drop pos' (cfg_data cfg) = render_options (snd gr) @ rest'"
  using assms
proof (induction grs arbitrary: k pos)
  case (Cons gr grs)
  let ?tok = "cfg_tokens cfg ! k" and ?k = "Suc k + length (snd gr)"
  let ?pos = "pos + length (render_group gr)" and ?opos = "pos + length (fst gr) + 3"
  have tok: "tok_start ?tok = int (pos + 1)" "tok_end ?tok - tok_start ?tok = int (length (fst gr))"
      "tok_level ?tok = CONFIG_MANAGER_TOKEN_GROUP" "tok_size ?tok = int (length (snd gr))"
    using Cons.prems(1) by (simp_all add: group_token_at_def)
  have body: "drop pos (cfg_data cfg) = ''['' @ fst gr @ '']'' @ [newline] @ render_options (snd gr) @ render_ini grs @ rest"
    using Cons.prems(4) by (simp add: render_ini_def render_group_def)
  have drops: "drop (pos + i) (cfg_data cfg) = drop i (drop pos (cfg_data cfg))" for i
    by (simp add: add.commute)
  have here: "drop (pos + 1) (cfg_data cfg) =
      fst gr @ ('']'' @ [newline] @ render_options (snd gr) @ render_ini grs @ rest)"
    unfolding drops body by simp
  have opts: "drop ?opos (cfg_data cfg) = render_options (snd gr) @ (render_ini grs @ rest)"
    unfolding add.assoc drops body by (simp add: numeral_3_eq_3)
  have rest: "drop ?pos (cfg_data cfg) = render_ini grs @ rest"
    unfolding drops body length_render_group by (simp add: numeral_3_eq_3)
  have "length (drop (pos + 1) (cfg_data cfg)) \<le> 2048"
    using Cons.prems(5) by simp
  then have "length (fst gr) < 2 ^ 64"
    unfolding here by simp
  then have cmp: "is_module cfg m k \<longleftrightarrow> prefix (fst gr) m"
    using Cons.prems(2,3) unfolding is_module_def tok(3) tok(2) unfolding tok(1) nat_int here
    by (simp add: strncmp_eq_prefix ini_ok_def)
  have "find (is_module cfg m) [Suc k..<?k] = None"
    using options_at_level [of "cfg_tokens cfg" "Suc k" ?opos "snd gr"] Cons.prems(1)
    by (auto simp: find_None_iff is_module_def simp del: upt_Suc)
  then have step: "find (is_module cfg m) [k..<k + ini_tokens (gr # grs)] =
      (if prefix (fst gr) m then Some k else find (is_module cfg m) [?k..<?k + ini_tokens grs])"
    using cmp upt_add_eq_append [of "Suc k" ?k "ini_tokens grs"]
    by (simp add: upt_conv_Cons find_append_option add.assoc del: upt_Suc)
  show ?case
  proof (cases "prefix (fst gr) m")
    case True
    moreover have "options_at (cfg_tokens cfg) (Suc k) ?opos (snd gr)"
      using Cons.prems(1) by simp
    ultimately show ?thesis
      unfolding step using opts tok(4) by (auto intro!: exI [of _ ?opos])
  next
    case False
    have "ini_ok grs" "groups_at (cfg_tokens cfg) ?k ?pos grs"
      using Cons.prems(1,2) by (auto simp: ini_ok_def)
    note IH = Cons.IH [OF this(2,1) Cons.prems(3) rest Cons.prems(5)]
    have tot: "k + ini_tokens (gr # grs) = ?k + ini_tokens grs" by simp
    show ?thesis
      unfolding step unfolding tot using IH False by (simp del: upt_Suc)
  qed
qed simp

text \<open>A table that represents a configuration.\<close>

definition represents :: "config_manager \<Rightarrow> ini \<Rightarrow> bool" where
  "represents cfg ini \<longleftrightarrow> config_wf cfg \<and> ini_ok ini \<and> tokens_count cfg = ini_tokens ini \<and>
     ini_tokens ini \<le> CONFIG_MANAGER_MAX_TOKENS \<and> groups_at (cfg_tokens cfg) 0 0 ini \<and>
     length (render_ini ini) < CONFIG_MANAGER_DATA_SIZE \<and>
     take (length (render_ini ini)) (cfg_data cfg) = render_ini ini"

lemma init_represents:
  assumes "ini_ok ini" and "length (render_ini ini) < CONFIG_MANAGER_DATA_SIZE" and "config_wf cfg"
  shows "\<exists>cfg'. config_manager_init (Some (render_ini ini)) cfg = Some (CONFIG_MANAGER_OK, cfg') \<and>
                represents cfg' ini"
proof -
  let ?t = "render_ini ini" and ?st = "cfg_parser_start (cfg_tokens cfg)"
  let ?d = "?t @ drop (length ?t) (cfg_data cfg)"
  have fits: "ini_tokens ini \<le> 1024"
    using ini_tokens_bound [OF assms(1)] assms(2) by simp
  have "at_line_start ?st 0"
    using assms(3) by (simp add: at_line_start_def cfg_parser_start_def config_wf_def)
  then obtain st' where st': "cfg_chars 0 ?t ?st = Some st'" "at_line_start st' (ini_tokens ini)"
      "pcount st' = ini_tokens ini" "groups_at (ptokens st') 0 0 ini"
    using cfg_groups [of ?st 0 ini 0] assms(1) fits by (auto simp: cfg_parser_start_def)
  let ?cfg = "\<lparr>cfg_data = ?d, cfg_tokens = ptokens st', tokens_count = pcount st'\<rparr>"
  have "buf_blit (cfg_data cfg) 0 ?t = Some ?d"
    using assms by (simp add: buf_blit_def config_wf_def)
  then have "config_manager_init (Some ?t) cfg = Some (CONFIG_MANAGER_OK, ?cfg)"
    using st'(1) by (simp add: config_manager_init_def config_manager_implementation_init_cb_def cfg_read_loop_whole)
  moreover have "represents ?cfg ini"
    using st' fits assms by (simp add: represents_def config_wf_def at_line_start_def nth_append)
  ultimately show ?thesis by blast
qed

lemma option_copy_value:
  assumes "config_wf cfg" and "option_token_at (cfg_tokens cfg) k pos ov"
    and "drop pos (cfg_data cfg) = render_option ov @ rest" and "option_ok ov"
  shows "option_copy cfg k buf (length buf) =
     (if length (snd ov) + 3 \<le> length buf
      then Some (CONFIG_MANAGER_OK, (snd ov @ NUL # drop (length (snd ov) + 1) buf)[length (snd ov) + 2 := NUL])
      else None)"
proof -
  let ?tok = "cfg_tokens cfg ! k" and ?v = "snd ov" and ?n = "fst ov"
  let ?src = "drop (nat (eq_sign_idx ?tok + 1)) (cfg_data cfg)"
  have idx: "nat (eq_sign_idx ?tok + 1) = Suc (length ?n) + pos" and clen: "tok_end ?tok - eq_sign_idx ?tok = int (length ?v + 1)"
    using assms(2) by (simp_all add: option_token_at_def)
  have src: "?src = ?v @ newline # rest"
    unfolding idx drop_drop [symmetric] assms(3) by (simp add: render_option_def)
  have v: "NUL \<notin> set ?v"
    using assms(4) by (simp add: option_ok_def)
  have "length (drop pos (cfg_data cfg)) = length (render_option ov @ rest)" "length (cfg_data cfg) = 2048"
    using assms(1,3) by (simp_all add: config_wf_def)
  then have bnd: "length (snd ov) + 2 \<le> 2048"
    by (simp add: length_render_option)
  have "last (?v @ newline # rest) = NUL"
  proof -
    have "?src \<noteq> []" unfolding src by simp
    then have "last ?src = last (cfg_data cfg)" by (simp add: last_drop)
    also have "\<dots> = NUL" using assms(1) by (cases "cfg_data cfg = []") (auto simp: config_wf_def last_conv_nth)
    finally show ?thesis unfolding src .
  qed
  then have "NUL \<in> set ?src"
    unfolding src by (metis last_in_set append_is_Nil_conv list.distinct(1))
  moreover have "as_size_t (int (length ?v + 1)) = length ?v + 1"
    using bnd by (intro as_size_t_nat) simp
  ultimately have "option_copy cfg k buf (length buf) =
     (let copy_len = min (length ?v + 1) (length buf) in do {
        option_value \<leftarrow> (if copy_len = 0 then Some buf
                          else buf_blit buf 0 (take (copy_len - 1) (cstr (?v @ newline # rest)) @ [NUL]));
        option_value \<leftarrow> buf_set option_value (copy_len + 1) NUL;
        Some (CONFIG_MANAGER_OK, option_value) })"
    unfolding option_copy_def clen src Let_def by (cases buf) (simp_all add: min_def)
  then show ?thesis
    using v by (auto simp: Let_def buf_blit_def buf_set_def min_def)
qed

lemma lookup_refines:
  assumes "represents cfg ini" and "NUL \<notin> set m" and "NUL \<notin> set n"
  shows "config_manager_get_option_string cfg m n buf (length buf) =
     (case ini_lookup ini m n of
        Inl e \<Rightarrow> Some (e, buf)
      | Inr v \<Rightarrow> if length v + 3 \<le> length buf
                 then Some (CONFIG_MANAGER_OK, (v @ NUL # drop (length v + 1) buf)[length v + 2 := NUL])
                 else None)"
proof -
  have ok: "config_wf cfg" "ini_ok ini" and count: "tokens_count cfg = 0 + ini_tokens ini"
      and at: "groups_at (cfg_tokens cfg) 0 0 ini"
      and len: "length (cfg_data cfg) = 2048" "length (cfg_tokens cfg) = 1024" "ini_tokens ini \<le> 1024"
    using assms(1) by (auto simp: represents_def config_wf_def)
  have "drop 0 (cfg_data cfg) = render_ini ini @ drop (length (render_ini ini)) (cfg_data cfg)"
    using assms(1) append_take_drop_id [of "length (render_ini ini)" "cfg_data cfg"]
    by (simp add: represents_def)
  note modules = find_module_groups [OF at ok(2) assms(2) this len(1), folded count, folded find_module_eq]
  show ?thesis
  proof (cases "find (\<lambda>gr. prefix (fst gr) m) ini")
    case None
    with modules show ?thesis
      by (simp add: config_manager_get_option_string_def config_manager_implementation_get_string_cb_def ini_lookup_def)
  next
    case (Some gr)
    with modules obtain j pos rest where j: "find_module cfg m = Some j" "j + length (snd gr) < tokens_count cfg"
        "tok_size (cfg_tokens cfg ! j) = int (length (snd gr))"
        "options_at (cfg_tokens cfg) (Suc j) pos (snd gr)" "drop pos (cfg_data cfg) = render_options (snd gr) @ rest"
      by auto
    have "\<forall>ov\<in>set (snd gr). option_ok ov"
      using Some ok(2) by (auto simp: ini_ok_def find_Some_iff)
    note opts = find_config_options [OF j(4) this assms(3) j(5) len(1)]
    have fits: "Suc j + length (snd gr) \<le> length (cfg_tokens cfg)"
      using j(2) count len by simp
    have get: "config_manager_get_option_string cfg m n buf (length buf) = do {
        found_config \<leftarrow> find_config cfg n [Suc j..<Suc j + length (snd gr)];
        (case found_config of
           None \<Rightarrow> Some (CONFIG_MANAGER_OPTION_NOT_FOUND, buf)
         | Some idx \<Rightarrow> option_copy cfg idx buf (length buf)) }"
      using j(1,3) by (simp add: config_manager_get_option_string_def
          config_manager_implementation_get_string_cb_def del: upt_Suc)
    show ?thesis
    proof (cases "find (\<lambda>ov. prefix (fst ov) n) (snd gr)")
      case None
      with opts [OF fits] Some show ?thesis
        unfolding get by (simp add: ini_lookup_def del: upt_Suc)
    next
      case (Some ov)
      with opts [OF fits] obtain k pos' rest' where k: "find_config cfg n [Suc j..<Suc j + length (snd gr)] = Some (Some k)"
          "option_token_at (cfg_tokens cfg) k pos' ov" "drop pos' (cfg_data cfg) = render_option ov @ rest'"
        by auto
      have "option_ok ov"
        using Some \<open>\<forall>ov\<in>set (snd gr). option_ok ov\<close> by (auto simp: find_Some_iff)
      have "ini_lookup ini m n = Inr (snd ov)"
        using Some \<open>find _ ini = Some gr\<close> by (simp add: ini_lookup_def)
      then show ?thesis
        unfolding get k(1) using option_copy_value [OF ok(1) k(2,3) \<open>option_ok ov\<close>] by simp
    qed
  qed
qed

text \<open>The lookups as their callers see them.\<close>

lemma cstr_copied: "cstr ((v @ NUL # b)[length v + 2 := NUL]) = cstr v"
  by (simp add: list_update_append)

lemma get_string_represents:
  assumes "represents cfg ini" and "NUL \<notin> set m" and "NUL \<notin> set n"
  shows "case ini_lookup ini m n of
        Inl e \<Rightarrow> config_manager_get_option_string cfg m n buf (length buf) = Some (e, buf)
      | Inr v \<Rightarrow>
          (if length v + 3 \<le> length buf
           then \<exists>buf'. config_manager_get_option_string cfg m n buf (length buf) = Some (CONFIG_MANAGER_OK, buf') \<and>
                       cstr buf' = cstr v \<and> length buf' = length buf
           else config_manager_get_option_string cfg m n buf (length buf) = None)"
  using lookup_refines [OF assms, of buf] cstr_copied by (auto split: sum.splits)

lemma get_int_represents:
  assumes "represents cfg ini" and "NUL \<notin> set m" and "NUL \<notin> set n" and "length string_value = 32"
  shows "config_manager_get_option_int cfg m n string_value old =
       (case ini_lookup ini m n of
          Inl e \<Rightarrow> Some (e, old)
        | Inr v \<Rightarrow> if length v \<le> 29 then Some (CONFIG_MANAGER_OK, atoi v) else None)"
proof -
  have err: "e \<noteq> 0" if "ini_lookup ini m n = Inl e" for e
    using that by (auto simp: ini_lookup_def split: option.splits)
  have "atoi ((v @ NUL # b)[length v + 2 := NUL]) = atoi v" for v b
    by (simp only: atoi_def strtol10_def cstr_copied)
  then show ?thesis
    using lookup_refines [OF assms(1-3), of string_value] assms(4) err
    by (auto simp: config_manager_get_option_int_def config_manager_implementation_get_int_cb_def
        config_manager_get_option_string_def split: sum.splits)
qed

section \<open>Bounds of the token array\<close>

text \<open>Every counted token took two bytes of the file at least.\<close>

definition parser_inv :: "nat \<Rightarrow> cfg_parser \<Rightarrow> bool" where
  "parser_inv pos st \<longleftrightarrow> length (ptokens st) = CONFIG_MANAGER_MAX_TOKENS \<and> pcount st = token_index st \<and>
     group_token st \<le> token_index st \<and> 2 * token_index st + (if new_line st then 0 else 1) \<le> pos"

lemma cfg_char_inv:
  assumes "parser_inv pos st" and "pos < CONFIG_MANAGER_DATA_SIZE"
  shows "\<exists>st'. cfg_char pos c st = Some st' \<and> parser_inv (Suc pos) st'"
proof -
  have "token_index st < 1024" "group_token st < 1024" "length (ptokens st) = 1024"
    using assms by (auto simp: parser_inv_def split: if_splits)
  then show ?thesis
    using assms by (auto simp: cfg_char_def parser_inv_def buf_get_def buf_set_def split: if_splits)
qed

lemma cfg_chars_inv:
  "parser_inv pos st \<Longrightarrow> pos + length s \<le> CONFIG_MANAGER_DATA_SIZE \<Longrightarrow>
   \<exists>st'. cfg_chars pos s st = Some st' \<and> parser_inv (pos + length s) st'"
proof (induction s arbitrary: pos st)
  case (Cons c s)
  then obtain st1 where "cfg_char pos c st = Some st1" "parser_inv (Suc pos) st1"
    using cfg_char_inv [of pos st c] by auto
  with Cons.IH [of "Suc pos" st1] Cons.prems(2) show ?case by auto
qed simp

text \<open>Before a file is read no option is found.\<close>

lemma zero_config_missing:
  "config_manager_get_option_string g_config_zero m n buf k = Some (CONFIG_MANAGER_GROUP_NOT_FOUND, buf)"
  "config_manager_get_option_int g_config_zero m n junk old = Some (CONFIG_MANAGER_GROUP_NOT_FOUND, old)"
  by (simp_all add: config_manager_get_option_string_def config_manager_get_option_int_def g_config_zero_def
      config_manager_implementation_get_int_cb_def config_manager_implementation_get_string_cb_def find_module_def)

lemma config_wf_zero: "config_wf g_config_zero"
  unfolding config_wf_def g_config_zero_def by (simp add: nth_replicate)

section \<open>Properties\<close>

text \<open>
  C2. The configuration manager refines the abstract configuration. After the text of a
  well-formed configuration is read, a string lookup finds the first group and the first
  option whose names are a prefix of the names asked for, reports a missing group or option
  with its error code and an unchanged buffer, and otherwise leaves exactly the value in the
  buffer, provided the buffer is three bytes longer than the value. With a shorter buffer the
  lookup writes outside of it, also where the value and its terminator would fit.
\<close>

theorem config_manager_refines:
  assumes "ini_ok ini" and "length (render_ini ini) < CONFIG_MANAGER_DATA_SIZE" and "config_wf cfg0"
    and "NUL \<notin> set m" and "NUL \<notin> set n"
  shows "\<exists>cfg. config_manager_init (Some (render_ini ini)) cfg0 = Some (CONFIG_MANAGER_OK, cfg) \<and>
     (case ini_lookup ini m n of
        Inl e \<Rightarrow> config_manager_get_option_string cfg m n buf (length buf) = Some (e, buf)
      | Inr v \<Rightarrow>
          (if length v + 3 \<le> length buf
           then \<exists>buf'. config_manager_get_option_string cfg m n buf (length buf) = Some (CONFIG_MANAGER_OK, buf') \<and>
                       cstr buf' = cstr v \<and> length buf' = length buf
           else config_manager_get_option_string cfg m n buf (length buf) = None))"
  using init_represents [OF assms(1-3)] get_string_represents [OF _ assms(4,5), of _ ini buf] by blast

theorem config_manager_refines_witness:
  "\<exists>cfg. config_manager_init (Some (''[net]'' @ newline # ''port=9998'' @ [newline])) g_config_zero
           = Some (CONFIG_MANAGER_OK, cfg) \<and>
     (\<exists>buf'. config_manager_get_option_string cfg ''net'' ''port'' (replicate 7 NUL) 7 = Some (CONFIG_MANAGER_OK, buf') \<and>
             cstr buf' = ''9998'' \<and> length buf' = 7)"
  using config_manager_refines [of "[(''net'', [(''port'', ''9998'')])]" g_config_zero "''net''" "''port''" "replicate 7 NUL"]
    config_wf_zero
  by (simp add: ini_ok_def option_ok_def render_ini_def render_group_def render_options_def render_option_def
      ini_lookup_def)

text \<open>
  Integer lookups: through the 32 byte local buffer, the option found is read as a
  decimal number when its text has at most 29 characters; error codes are passed on and leave
  the caller's variable unchanged.
\<close>

theorem config_manager_int_refines:
  assumes "ini_ok ini" and "length (render_ini ini) < CONFIG_MANAGER_DATA_SIZE" and "config_wf cfg0"
    and "NUL \<notin> set m" and "NUL \<notin> set n" and "length string_value = 32"
  shows "\<exists>cfg. config_manager_init (Some (render_ini ini)) cfg0 = Some (CONFIG_MANAGER_OK, cfg) \<and>
     config_manager_get_option_int cfg m n string_value old =
       (case ini_lookup ini m n of
          Inl e \<Rightarrow> Some (e, old)
        | Inr v \<Rightarrow> if length v \<le> 29 then Some (CONFIG_MANAGER_OK, atoi v) else None)"
  using init_represents [OF assms(1-3)] get_int_represents [OF _ assms(4-6), of _ ini old] by blast

theorem config_manager_int_refines_witness:
  "\<exists>cfg. config_manager_init (Some (''[net]'' @ newline # ''port=9998'' @ [newline])) g_config_zero
           = Some (CONFIG_MANAGER_OK, cfg) \<and>
     config_manager_get_option_int cfg ''net'' ''port'' (replicate 32 NUL) 0 = Some (CONFIG_MANAGER_OK, 9998)"
  using config_manager_int_refines [of "[(''net'', [(''port'', ''9998'')])]" g_config_zero "''net''" "''port''" "replicate 32 NUL" 0]
    config_wf_zero
  by (simp add: ini_ok_def option_ok_def render_ini_def render_group_def render_options_def render_option_def
      ini_lookup_def atoi_def strtol10_def isspace_def isdigit_def char_code_def digit_val_def to_int32_def)

text \<open>
  Reading a file stays inside the text buffer and the token array exactly when the file
  has at most 2048 bytes: then the parser returns with at most one token per two bytes, and a
  longer file is read past the end of the text buffer.
\<close>

theorem config_init_in_bounds:
  assumes "length (cfg_data cfg) = CONFIG_MANAGER_DATA_SIZE" and "length (cfg_tokens cfg) = CONFIG_MANAGER_MAX_TOKENS"
  shows "(if length f \<le> CONFIG_MANAGER_DATA_SIZE
          then \<exists>cfg'. config_manager_init (Some f) cfg = Some (CONFIG_MANAGER_OK, cfg') \<and>
                      take (length f) (cfg_data cfg') = f \<and> 2 * tokens_count cfg' \<le> length f
          else config_manager_init (Some f) cfg = None)"
proof (cases "length f \<le> 2048")
  case True
  have "parser_inv 0 (cfg_parser_start (cfg_tokens cfg))"
    using assms(2) by (simp add: parser_inv_def cfg_parser_start_def)
  with True obtain st where "cfg_chars 0 f (cfg_parser_start (cfg_tokens cfg)) = Some st" "parser_inv (length f) st"
    using cfg_chars_inv by force
  with True assms(1) show ?thesis
    by (simp add: config_manager_init_def config_manager_implementation_init_cb_def cfg_read_loop_whole
        buf_blit_def parser_inv_def)
next
  case False
  with assms(1) show ?thesis
    by (simp add: config_manager_init_def config_manager_implementation_init_cb_def cfg_read_loop_whole buf_blit_def)
qed

theorem config_init_in_bounds_witness:
  "(\<exists>cfg'. config_manager_init (Some ''#c'') g_config_zero = Some (CONFIG_MANAGER_OK, cfg') \<and>
      take 2 (cfg_data cfg') = ''#c'' \<and> 2 * tokens_count cfg' \<le> 2) \<and>
   config_manager_init (Some (replicate 2049 CHR ''a'')) g_config_zero = None"
  using config_init_in_bounds [of g_config_zero "''#c''"] config_init_in_bounds [of g_config_zero "replicate 2049 CHR ''a''"]
  by (simp add: g_config_zero_def numeral_2_eq_2)

text \<open>
  A blank line swallows the line behind it: at the start of a line, a newline character
  opens an option token, and the token ends with the next line, whatever that line is. A group
  header behind a blank line is therefore no group in the table.
\<close>

theorem blank_line_hides_next_line:
  assumes "at_line_start st k" and "group_token st < k" and "k < CONFIG_MANAGER_MAX_TOKENS" and "newline \<notin> set l"
  shows "\<exists>st'. cfg_chars pos (newline # l @ [newline]) st = Some st' \<and> at_line_start st' (Suc k) \<and>
     pcount st' = Suc (pcount st) \<and> tok_level (ptokens st' ! k) = CONFIG_MANAGER_TOKEN_OPTION \<and>
     tok_start (ptokens st' ! k) = int pos \<and> tok_end (ptokens st' ! k) = int (pos + 1 + length l)"
proof -
  let ?mid = "\<lambda>s. at_line_start (s\<lparr>new_line := True, value_started := False\<rparr>) k \<and> \<not> new_line s \<and> group_token s < k \<and>
     pcount s = pcount st \<and> tok_level (ptokens s ! k) = CONFIG_MANAGER_TOKEN_OPTION \<and>
     tok_start (ptokens s ! k) = int pos"
  obtain st1 where st1: "cfg_char pos newline st = Some st1" "?mid st1"
    using assms by (auto simp: cfg_char_def at_line_start_def buf_get_def buf_set_def)
  have "\<exists>st2. cfg_chars p l s = Some st2 \<and> ?mid st2" if "?mid s" "newline \<notin> set l" for p s l
    using that
  proof (induction l arbitrary: p s)
    case (Cons c l)
    have "\<exists>s1. cfg_char p c s = Some s1 \<and> ?mid s1"
      using Cons.prems assms(3) by (auto simp: cfg_char_def at_line_start_def buf_get_def buf_set_def)
    then obtain s1 where "cfg_char p c s = Some s1" "?mid s1" by blast
    moreover have "newline \<notin> set l" using Cons.prems(2) by simp
    ultimately show ?case using Cons.IH [of s1 "Suc p"] by simp
  qed simp
  then obtain st2 where st2: "cfg_chars (Suc pos) l st1 = Some st2" "?mid st2"
    using st1(2) assms(4) by blast
  have "cfg_chars pos (newline # l @ [newline]) st = cfg_char (Suc pos + length l) newline st2"
    using st1(1) st2(1) by (simp add: cfg_chars_append)
  moreover have "\<exists>st'. cfg_char (Suc pos + length l) newline st2 = Some st' \<and> at_line_start st' (Suc k) \<and>
     pcount st' = Suc (pcount st) \<and> tok_level (ptokens st' ! k) = CONFIG_MANAGER_TOKEN_OPTION \<and>
     tok_start (ptokens st' ! k) = int pos \<and> tok_end (ptokens st' ! k) = int (pos + 1 + length l)"
    using st2(2) assms(3) by (simp add: cfg_char_def at_line_start_def buf_get_def buf_set_def)
  ultimately show ?thesis by simp
qed

theorem blank_line_hides_next_line_witness:
  "\<exists>st'. cfg_chars 4 (newline # ''[b]'' @ [newline])
       ((cfg_parser_start (replicate 1024 zero_token))\<lparr>token_index := 1\<rparr>) = Some st' \<and> at_line_start st' 2 \<and>
     pcount st' = 1 \<and> tok_level (ptokens st' ! 1) = CONFIG_MANAGER_TOKEN_OPTION \<and>
     tok_start (ptokens st' ! 1) = 4 \<and> tok_end (ptokens st' ! 1) = 8"
proof -
  let ?st = "(cfg_parser_start (replicate 1024 zero_token))\<lparr>token_index := 1\<rparr>"
  have "at_line_start ?st 1" "group_token ?st < 1" "pcount ?st = 0"
    unfolding at_line_start_def cfg_parser_start_def by simp_all
  then show ?thesis
    using blank_line_hides_next_line [of ?st 1 "''[b]''" 4]
    by (simp add: numeral_2_eq_2 del: cfg_chars.simps)
qed

end
