(* ===== verification/Pap_Storage.thy ===== *)
theory Pap_Storage
  imports Interfaces
begin

text \<open>
  The policy store of the policy administration point,
  \<^verbatim>\<open>plugins/pap/posix/pap_plugin_posix.c\<close>: one text file per policy and the index file
  \<^verbatim>\<open>stored_policies.txt\<close>, with the store, acquire, check, flush, length and list operations
  and the plugin callbacks on top of them.
  The hexadecimal conversions \<^verbatim>\<open>hex_to_str\<close> and \<^verbatim>\<open>str_to_hex\<close> and the constant
  \<^verbatim>\<open>PAP_POL_ID_MAX_LEN\<close> belong to the Access SDK and are a parameter, the record \<open>pap_sdk\<close>.
  The lemmas show that a policy file is read back field by field, and that the callbacks put, delete, get and has
  implement a finite map from policy ids to policies whose domain the index file lists, through the locale
  \<open>keyed_store\<close>; the callback that lists all ids reads behind its block as soon as there is an index file.
\<close>

section \<open>Data\<close>

text \<open>What the plugin uses of the SDK. \<open>None\<close> is a result other than \<open>UTILS_STRING_SUCCESS\<close>.\<close>

record pap_sdk =
  hex_to_str :: "bytes \<Rightarrow> nat \<Rightarrow> bytes option"
  str_to_hex :: "bytes \<Rightarrow> nat \<Rightarrow> bytes option"
  PAP_POL_ID_MAX_LEN :: nat

abbreviation RPI_POL_ID_MAX_LEN :: nat where "RPI_POL_ID_MAX_LEN \<equiv> 32"
abbreviation RPI_PUBLIC_KEY_LEN :: nat where "RPI_PUBLIC_KEY_LEN \<equiv> 64"
abbreviation RPI_SIGNATURE_LEN :: nat where "RPI_SIGNATURE_LEN \<equiv> 128"
abbreviation STORAGE_SIGN_ALG_LEN :: nat where "STORAGE_SIGN_ALG_LEN \<equiv> 64"
abbreviation STORAGE_HASH_FN_LEN :: nat where "STORAGE_HASH_FN_LEN \<equiv> 64"

datatype pap_sign_algorithm = PAP_ECDSA | PAP_SIGN_OTHER nat
datatype pap_hash_function = PAP_SHA_256 | PAP_HASH_OTHER nat

text \<open>A policy: the pointers of \<open>pap_policy_object_t\<close> may be NULL.\<close>

record pap_policy =
  p_id :: bytes
  p_object :: "bytes option"
  p_object_size :: nat
  p_cost :: "bytes option"
  p_signature :: bytes
  p_public_key :: bytes
  p_signature_algorithm :: pap_sign_algorithm
  p_hash_function :: pap_hash_function

text \<open>The files of the directory \<^verbatim>\<open>stored_policies\<close>, by path, and whether it can be written.\<close>

record pap_fs =
  pap_writable :: bool
  pap_files :: "bytes \<rightharpoonup> bytes"

definition pol_path :: "bytes \<Rightarrow> bytes" where
  "pol_path pol_id_str = ''stored_policies/'' @ pol_id_str @ ''.txt''"

definition index_path :: bytes where
  "index_path = ''stored_policies/stored_policies.txt''"

section \<open>The text of a policy file\<close>

definition policy_text :: "bytes \<Rightarrow> bytes \<Rightarrow> bytes \<Rightarrow> bytes \<Rightarrow> bytes \<Rightarrow> bytes \<Rightarrow> bytes \<Rightarrow> bytes" where
  "policy_text pol_id_str obj cost sig pk alg hf =
     ''policy id:'' @ pol_id_str @
     newline # ''policy object:'' @ obj @
     newline # ''policy cost:'' @ cost @
     newline # ''policy id signature:'' @ sig @
     newline # ''policy id signature public key:'' @ pk @
     newline # ''policy id signature sign. algorithm:'' @ alg @
     newline # ''hash function:'' @ hf"

section \<open>File operations\<close>

text \<open>\<open>fwrite\<close> reads \<open>n\<close> bytes at the pointer.\<close>

definition read_bytes :: "bytes \<Rightarrow> nat \<Rightarrow> bytes option" where
  "read_bytes b n = (if n \<le> length b then Some (take n b) else None)"

definition posix_store_policy ::
    "pap_sdk \<Rightarrow> bytes option \<Rightarrow> bytes option \<Rightarrow> nat \<Rightarrow> bytes option \<Rightarrow> bytes option \<Rightarrow> bytes option \<Rightarrow>
     bytes option \<Rightarrow> bytes option \<Rightarrow> pap_fs \<Rightarrow> (bool \<times> pap_fs) option" where
  "posix_store_policy sdk policy_id policy_object policy_object_size policy_cost signature public_key
     signature_algorithm hash_function fs =
     (case (policy_id, policy_object, policy_cost, signature, public_key, signature_algorithm, hash_function) of
        (Some pid, Some obj, Some cost, Some sig, Some pk, Some alg, Some hf) \<Rightarrow>
          if policy_object_size = 0 then Some (False, fs)
          else (case hex_to_str sdk pid RPI_POL_ID_MAX_LEN of
             None \<Rightarrow> Some (False, fs)
           | Some pol_id_str \<Rightarrow>
               if \<not> pap_writable fs then Some (False, fs)
               else do {
                 obj \<leftarrow> read_bytes obj policy_object_size;
                 sig \<leftarrow> read_bytes sig RPI_SIGNATURE_LEN;
                 pk \<leftarrow> read_bytes pk RPI_PUBLIC_KEY_LEN;
                 let files = (pap_files fs)(pol_path (cstr pol_id_str) \<mapsto>
                       policy_text (cstr pol_id_str) obj (cstr cost) sig pk (cstr alg) (cstr hf));
                     old = (case files index_path of None \<Rightarrow> [] | Some b \<Rightarrow> b)
                 in Some (True, fs\<lparr>pap_files := files(index_path \<mapsto> old @ cstr pol_id_str @ ''|'')\<rparr>)
               })
      | _ \<Rightarrow> Some (False, fs))"

text \<open>
  One of the six copies of \<open>posix_acquire_policy\<close>: from behind the first occurrence of the
  label to the first occurrence of the next one. A search that fails yields a NULL pointer that
  enters the arithmetic, or leaves the unterminated buffer; a negative length is a huge one.
\<close>

definition acquire_field :: "bytes \<Rightarrow> bytes \<Rightarrow> bytes \<Rightarrow> bytes \<Rightarrow> (nat \<times> bytes) option" where
  "acquire_field buffer label next dest = do {
     found \<leftarrow> strstr buffer label;
     substr \<leftarrow> found;
     found_end \<leftarrow> strstr buffer next;
     stop \<leftarrow> found_end;
     let from = substr + length label
     in (if stop < from then None
         else do {
           dest \<leftarrow> buf_blit dest 0 (take (stop - from) (drop from buffer));
           Some (stop - from, dest)
         })
   }"

definition acquire_rest :: "bytes \<Rightarrow> bytes \<Rightarrow> bytes \<Rightarrow> bytes option" where
  "acquire_rest buffer label dest = do {
     found \<leftarrow> strstr buffer label;
     substr \<leftarrow> found;
     buf_blit dest 0 (drop (substr + length label) buffer)
   }"

text \<open>The six output buffers and the size.\<close>

record acquired =
  acq_object :: "bytes option"
  acq_object_size :: nat
  acq_cost :: "bytes option"
  acq_signature :: bytes
  acq_public_key :: bytes
  acq_algorithm :: bytes
  acq_hash :: bytes

definition posix_acquire_policy ::
    "pap_sdk \<Rightarrow> bytes option \<Rightarrow> acquired \<Rightarrow> pap_fs \<Rightarrow> (bool \<times> acquired) option" where
  "posix_acquire_policy sdk policy_id out fs =
     (case (policy_id, acq_object out, acq_cost out) of
        (Some pid, Some obj, Some cost) \<Rightarrow>
         (case hex_to_str sdk pid RPI_POL_ID_MAX_LEN of
            None \<Rightarrow> Some (False, out)
          | Some pol_id_str \<Rightarrow>
             (case pap_files fs (pol_path (cstr pol_id_str)) of
                None \<Rightarrow> Some (False, out)
              | Some buffer \<Rightarrow> do {
                  (n, obj) \<leftarrow> acquire_field buffer ''policy object:'' (newline # ''policy cost:'') obj;
                  (_, cost) \<leftarrow> acquire_field buffer ''policy cost:'' (newline # ''policy id signature:'') cost;
                  (_, sig) \<leftarrow> acquire_field buffer ''policy id signature:''
                               (newline # ''policy id signature public key:'') (acq_signature out);
                  (_, pk) \<leftarrow> acquire_field buffer ''policy id signature public key:''
                               (newline # ''policy id signature sign. algorithm:'') (acq_public_key out);
                  (_, alg) \<leftarrow> acquire_field buffer ''policy id signature sign. algorithm:''
                               (newline # ''hash function:'') (acq_algorithm out);
                  hf \<leftarrow> acquire_rest buffer ''hash function:'' (acq_hash out);
                  Some (True, \<lparr>acq_object = Some obj, acq_object_size = n, acq_cost = Some cost,
                               acq_signature = sig, acq_public_key = pk, acq_algorithm = alg, acq_hash = hf\<rparr>)
                }))
      | _ \<Rightarrow> Some (False, out))"

definition posix_check_if_stored_policy :: "pap_sdk \<Rightarrow> bytes option \<Rightarrow> pap_fs \<Rightarrow> bool" where
  "posix_check_if_stored_policy sdk policy_id fs =
     (case policy_id of
        None \<Rightarrow> False
      | Some pid \<Rightarrow>
         (case hex_to_str sdk pid RPI_POL_ID_MAX_LEN of
            None \<Rightarrow> False
          | Some pol_id_str \<Rightarrow> pap_files fs (pol_path (cstr pol_id_str)) \<noteq> None))"

text \<open>The new index: the first occurrence of the id and the byte behind it are cut out.\<close>

definition cut_index :: "bytes \<Rightarrow> bytes \<Rightarrow> bytes option" where
  "cut_index stored_pol_buff pol_id_str = do {
     found \<leftarrow> strstr stored_pol_buff pol_id_str;
     at \<leftarrow> found;
     (if at + (length pol_id_str + 1) \<le> length stored_pol_buff
      then Some (take at stored_pol_buff @ drop (at + (length pol_id_str + 1)) stored_pol_buff)
      else None)
   }"

definition posix_flush_policy :: "pap_sdk \<Rightarrow> bytes option \<Rightarrow> pap_fs \<Rightarrow> (bool \<times> pap_fs) option" where
  "posix_flush_policy sdk policy_id fs =
     (case policy_id of
        None \<Rightarrow> Some (False, fs)
      | Some pid \<Rightarrow>
         (case hex_to_str sdk pid RPI_POL_ID_MAX_LEN of
            None \<Rightarrow> Some (False, fs)
          | Some pol_id_str \<Rightarrow>
              if pap_files fs (pol_path (cstr pol_id_str)) = None \<or> \<not> pap_writable fs then Some (False, fs)
              else (let fs1 = fs\<lparr>pap_files := (pap_files fs)(pol_path (cstr pol_id_str) := None)\<rparr>
                    in case pap_files fs1 index_path of
                         None \<Rightarrow> Some (False, fs1)
                       | Some stored_pol_buff \<Rightarrow> do {
                           stored_pol_buff_new \<leftarrow> cut_index stored_pol_buff (cstr pol_id_str);
                           Some (True, fs1\<lparr>pap_files := (pap_files fs1)(index_path \<mapsto> stored_pol_buff_new)\<rparr>)
                         })))"

definition posix_get_pol_obj_len :: "pap_sdk \<Rightarrow> bytes option \<Rightarrow> pap_fs \<Rightarrow> nat option" where
  "posix_get_pol_obj_len sdk policy_id fs =
     (case policy_id of
        None \<Rightarrow> Some 0
      | Some pid \<Rightarrow>
         (case hex_to_str sdk pid RPI_POL_ID_MAX_LEN of
            None \<Rightarrow> Some 0
          | Some pol_id_str \<Rightarrow>
             (case pap_files fs (pol_path (cstr pol_id_str)) of
                None \<Rightarrow> Some 0
              | Some buffer \<Rightarrow> do {
                  found \<leftarrow> strstr buffer ''policy object:'';
                  at \<leftarrow> found;
                  Some (length buffer - (at + length ''policy object:''))
                })))"

section \<open>Policy operations\<close>

definition sign_algorithm_name :: "pap_sign_algorithm \<Rightarrow> bytes option" where
  "sign_algorithm_name a = (case a of PAP_ECDSA \<Rightarrow> Some ''ECDSA'' | PAP_SIGN_OTHER _ \<Rightarrow> None)"

definition hash_function_name :: "pap_hash_function \<Rightarrow> bytes option" where
  "hash_function_name h = (case h of PAP_SHA_256 \<Rightarrow> Some ''sha-256'' | PAP_HASH_OTHER _ \<Rightarrow> None)"

definition store_policy :: "pap_sdk \<Rightarrow> pap_policy \<Rightarrow> pap_fs \<Rightarrow> (bool \<times> pap_fs) option" where
  "store_policy sdk p fs =
     (case hash_function_name (p_hash_function p) of
        None \<Rightarrow> Some (False, fs)
      | Some hf \<Rightarrow>
         (case sign_algorithm_name (p_signature_algorithm p) of
            None \<Rightarrow> Some (False, fs)
          | Some alg \<Rightarrow>
              posix_store_policy sdk (Some (p_id p)) (p_object p) (p_object_size p) (p_cost p)
                (Some (p_signature p)) (Some (p_public_key p)) (Some alg) (Some hf) fs))"

text \<open>\<open>out\<close> is the caller's policy structure, its buffers already allocated.\<close>

definition acquire_policy :: "pap_sdk \<Rightarrow> bytes option \<Rightarrow> pap_policy \<Rightarrow> pap_fs \<Rightarrow> (bool \<times> pap_policy) option" where
  "acquire_policy sdk policy_id out fs =
     (case policy_id of
        None \<Rightarrow> Some (False, out)
      | Some pid \<Rightarrow> do {
          (ok, a) \<leftarrow> posix_acquire_policy sdk (Some pid)
             \<lparr>acq_object = p_object out, acq_object_size = p_object_size out, acq_cost = p_cost out,
              acq_signature = p_signature out, acq_public_key = p_public_key out,
              acq_algorithm = replicate STORAGE_SIGN_ALG_LEN NUL, acq_hash = replicate STORAGE_HASH_FN_LEN NUL\<rparr> fs;
          let out1 = out\<lparr>p_object := acq_object a, p_object_size := acq_object_size a,
                        p_cost := acq_cost a, p_signature := acq_signature a,
                        p_public_key := acq_public_key a\<rparr>
          in (if \<not> ok then Some (False, out1)
              else if \<not> memcmp_eq (acq_algorithm a) ''ECDSA'' (length ''ECDSA'') then Some (False, out1)
              else let out2 = out1\<lparr>p_signature_algorithm := PAP_ECDSA\<rparr>
                   in if \<not> memcmp_eq (acq_hash a) ''sha-256'' (length ''sha-256'') then Some (False, out2)
                      else Some (True, out2\<lparr>p_hash_function := PAP_SHA_256\<rparr>))
        })"

definition check_if_stored_policy :: "pap_sdk \<Rightarrow> bytes option \<Rightarrow> pap_fs \<Rightarrow> bool" where
  "check_if_stored_policy sdk policy_id fs =
     (case policy_id of None \<Rightarrow> False | Some pid \<Rightarrow> posix_check_if_stored_policy sdk (Some pid) fs)"

definition flush_policy :: "pap_sdk \<Rightarrow> bytes option \<Rightarrow> pap_fs \<Rightarrow> (bool \<times> pap_fs) option" where
  "flush_policy sdk policy_id fs =
     (case policy_id of None \<Rightarrow> Some (False, fs) | Some pid \<Rightarrow> posix_flush_policy sdk (Some pid) fs)"

definition acquire_pol_obj_len :: "pap_sdk \<Rightarrow> bytes option \<Rightarrow> nat \<Rightarrow> pap_fs \<Rightarrow> (bool \<times> nat) option" where
  "acquire_pol_obj_len sdk policy_id pol_obj_len fs =
     (case policy_id of
        None \<Rightarrow> Some (False, pol_obj_len)
      | Some pid \<Rightarrow> do { n \<leftarrow> posix_get_pol_obj_len sdk (Some pid) fs; Some (True, n) })"

text \<open>
  The loop over the pieces of the index, from the text that is left of the block. A piece that is
  not hexadecimal ends it with the ids found so far in the list.
\<close>

function collect_ids :: "pap_sdk \<Rightarrow> bytes \<Rightarrow> bytes list \<Rightarrow> (bool \<times> bytes list) option" where
  "collect_ids sdk pol_id_buff pol_list =
     (case strtok_next CHR ''|'' pol_id_buff of
        None \<Rightarrow> None
      | Some (None, _) \<Rightarrow> Some (True, pol_list)
      | Some (Some tok, rest) \<Rightarrow>
         (case str_to_hex sdk tok (PAP_POL_ID_MAX_LEN sdk * 2) of
            None \<Rightarrow> Some (False, pol_list)
          | Some pol_id_hex \<Rightarrow> collect_ids sdk rest (pol_list @ [take (PAP_POL_ID_MAX_LEN sdk) pol_id_hex])))"
  by pat_completeness auto
termination
  by (relation "measure (\<lambda>(sdk, pol_id_buff, pol_list). length pol_id_buff)") (auto simp: strtok_next_shorter)

declare collect_ids.simps [simp del]

text \<open>
  The index is read into a block of exactly its length, without room for a terminator: a search
  for a piece that meets no terminator inside the block leaves it.
\<close>

definition acquire_all_policies :: "pap_sdk \<Rightarrow> bytes list \<Rightarrow> pap_fs \<Rightarrow> (bool \<times> bytes list) option" where
  "acquire_all_policies sdk pol_list fs =
     (case pap_files fs index_path of
        None \<Rightarrow> Some (False, pol_list)
      | Some pol_id_buff \<Rightarrow> collect_ids sdk pol_id_buff pol_list)"

section \<open>Plugin callbacks\<close>

definition put_cb :: "pap_sdk \<Rightarrow> pap_policy \<Rightarrow> pap_fs \<Rightarrow> (int \<times> pap_fs) option" where
  "put_cb sdk p fs = do { (_, fs) \<leftarrow> store_policy sdk p fs; Some (0, fs) }"

definition get_cb :: "pap_sdk \<Rightarrow> bytes option \<Rightarrow> pap_policy \<Rightarrow> pap_fs \<Rightarrow> (int \<times> pap_policy) option" where
  "get_cb sdk policy_id out fs = do {
     (_, out) \<leftarrow> acquire_policy sdk policy_id out fs;
     pid \<leftarrow> policy_id;
     pol_id \<leftarrow> buf_blit (p_id out) 0 (strncpy_bytes pid (PAP_POL_ID_MAX_LEN sdk));
     pol_id \<leftarrow> buf_set pol_id (PAP_POL_ID_MAX_LEN sdk + 1) NUL;
     Some (0, out\<lparr>p_id := pol_id\<rparr>)
   }"

definition has_cb :: "pap_sdk \<Rightarrow> bytes option \<Rightarrow> pap_fs \<Rightarrow> int \<times> bool" where
  "has_cb sdk policy_id fs = (0, check_if_stored_policy sdk policy_id fs)"

definition del_cb :: "pap_sdk \<Rightarrow> bytes option \<Rightarrow> pap_fs \<Rightarrow> (int \<times> pap_fs) option" where
  "del_cb sdk policy_id fs = do { (_, fs) \<leftarrow> flush_policy sdk policy_id fs; Some (0, fs) }"

definition get_len_cb :: "pap_sdk \<Rightarrow> bytes option \<Rightarrow> nat \<Rightarrow> pap_fs \<Rightarrow> (int \<times> nat) option" where
  "get_len_cb sdk policy_id len fs = do { (_, len) \<leftarrow> acquire_pol_obj_len sdk policy_id len fs; Some (0, len) }"

definition get_all_cb :: "pap_sdk \<Rightarrow> bytes list \<Rightarrow> pap_fs \<Rightarrow> (int \<times> bytes list) option" where
  "get_all_cb sdk id_list fs = do { (_, id_list) \<leftarrow> acquire_all_policies sdk id_list fs; Some (0, id_list) }"

section \<open>Reading a policy file back\<close>

text \<open>Contents of a field that no search mistakes for a label.\<close>

definition field_ok :: "bytes \<Rightarrow> bool" where
  "field_ok s \<longleftrightarrow> NUL \<notin> set s \<and> newline \<notin> set s \<and>
     find_sub ''policy '' s = None \<and> find_sub ''hash function:'' s = None"

text \<open>One line of the file.\<close>

definition ln :: "bytes \<Rightarrow> bytes \<Rightarrow> bytes" where
  "ln label s = label @ s"

lemma policy_text_lines:
  "policy_text i obj cost sig pk alg hf =
     ln ''policy id:'' i @ newline # ln ''policy object:'' obj @ newline # ln ''policy cost:'' cost @
     newline # ln ''policy id signature:'' sig @ newline # ln ''policy id signature public key:'' pk @
     newline # ln ''policy id signature sign. algorithm:'' alg @ newline # ln ''hash function:'' hf"
  by (simp add: policy_text_def ln_def)

lemma field_ok_labels:
  assumes "field_ok s"
  shows "find_sub ''policy object:'' s = None" "find_sub ''policy cost:'' s = None"
    "find_sub ''policy id signature:'' s = None" "find_sub ''policy id signature public key:'' s = None"
    "find_sub ''policy id signature sign. algorithm:'' s = None" "find_sub ''hash function:'' s = None"
  using assms find_sub_longer_None [of "''policy ''" s] by (auto simp: field_ok_def)

named_theorems label_simps \<open>where a label occurs in the lines of a policy file\<close>

lemma newline_ln [label_simps]:
  "newline \<notin> set label \<Longrightarrow> field_ok s \<Longrightarrow> newline \<notin> set (ln label s)"
  by (simp add: ln_def field_ok_def)

lemma object_absent [label_simps]:
  "field_ok s \<Longrightarrow> find_sub ''policy object:'' (ln ''policy id:'' s) = None"
  by (simp add: ln_def find_sub.simps field_ok_labels)

lemma cost_absent [label_simps]:
  "field_ok s \<Longrightarrow> find_sub ''policy cost:'' (ln ''policy id:'' s) = None"
  "field_ok s \<Longrightarrow> find_sub ''policy cost:'' (ln ''policy object:'' s) = None"
  by (simp_all add: ln_def find_sub.simps field_ok_labels)

lemma signature_absent [label_simps]:
  "field_ok s \<Longrightarrow> find_sub ''policy id signature:'' (ln ''policy id:'' s) = None"
  "field_ok s \<Longrightarrow> find_sub ''policy id signature:'' (ln ''policy object:'' s) = None"
  "field_ok s \<Longrightarrow> find_sub ''policy id signature:'' (ln ''policy cost:'' s) = None"
  by (simp_all add: ln_def find_sub.simps field_ok_labels)

lemma public_key_absent [label_simps]:
  "field_ok s \<Longrightarrow> find_sub ''policy id signature public key:'' (ln ''policy id:'' s) = None"
  "field_ok s \<Longrightarrow> find_sub ''policy id signature public key:'' (ln ''policy object:'' s) = None"
  "field_ok s \<Longrightarrow> find_sub ''policy id signature public key:'' (ln ''policy cost:'' s) = None"
  "field_ok s \<Longrightarrow> find_sub ''policy id signature public key:'' (ln ''policy id signature:'' s) = None"
  by (simp_all add: ln_def find_sub.simps field_ok_labels)

lemma algorithm_absent [label_simps]:
  "field_ok s \<Longrightarrow> find_sub ''policy id signature sign. algorithm:'' (ln ''policy id:'' s) = None"
  "field_ok s \<Longrightarrow> find_sub ''policy id signature sign. algorithm:'' (ln ''policy object:'' s) = None"
  "field_ok s \<Longrightarrow> find_sub ''policy id signature sign. algorithm:'' (ln ''policy cost:'' s) = None"
  "field_ok s \<Longrightarrow> find_sub ''policy id signature sign. algorithm:'' (ln ''policy id signature:'' s) = None"
  "field_ok s \<Longrightarrow> find_sub ''policy id signature sign. algorithm:'' (ln ''policy id signature public key:'' s) = None"
  by (simp_all add: ln_def find_sub.simps field_ok_labels)

lemma hash_absent [label_simps]:
  "field_ok s \<Longrightarrow> find_sub ''hash function:'' (ln ''policy id:'' s) = None"
  "field_ok s \<Longrightarrow> find_sub ''hash function:'' (ln ''policy object:'' s) = None"
  "field_ok s \<Longrightarrow> find_sub ''hash function:'' (ln ''policy cost:'' s) = None"
  "field_ok s \<Longrightarrow> find_sub ''hash function:'' (ln ''policy id signature:'' s) = None"
  "field_ok s \<Longrightarrow> find_sub ''hash function:'' (ln ''policy id signature public key:'' s) = None"
  "field_ok s \<Longrightarrow> find_sub ''hash function:'' (ln ''policy id signature sign. algorithm:'' s) = None"
  by (simp_all add: ln_def find_sub.simps field_ok_labels)

lemma ln_hit [label_simps]: "find_sub l (ln l s @ r) = Some 0" "find_sub l (ln l s) = Some 0"
    "prefix l (ln l s @ r)" "prefix l (ln l s)"
  by (simp_all add: ln_def find_sub_prefix)

lemma ln_miss [label_simps]:
  assumes "\<not> prefix l l'" "\<not> prefix l' l"
  shows "\<not> prefix l (ln l' s @ r)" "\<not> prefix l (ln l' s)"
  using assms by (auto simp: ln_def) (metis prefixI prefix_same_cases)+

lemma acquire_field_at:
  assumes "NUL \<notin> set t" and "find_sub label t = Some (length a)"
    and "find_sub (newline # next) t = Some (length a + length (ln label v))"
    and "t = a @ ln label v @ newline # r"
  shows "acquire_field t label (newline # next) dest = map_option (Pair (length v)) (buf_blit dest 0 v)"
proof -
  have "strstr t label = Some (Some (length a))"
       "strstr t (newline # next) = Some (Some (length a + length (ln label v)))"
    using assms(2,3) cstr_id [OF assms(1)] by (simp_all only: strstr_Some_iff)
  moreover have "take (length v) (drop (length a + length label) t) = v"
    unfolding assms(4) ln_def by simp
  ultimately show ?thesis
    by (simp add: acquire_field_def ln_def map_option_case split: option.splits bind_splits)
qed

lemma acquire_rest_at:
  assumes "NUL \<notin> set t" and "find_sub label t = Some (length a)" and "t = a @ ln label v"
  shows "acquire_rest t label dest = buf_blit dest 0 v"
proof -
  have "strstr t label = Some (Some (length a))"
    using assms(2) cstr_id [OF assms(1)] by (simp only: strstr_Some_iff)
  moreover have "drop (length a + length label) t = v"
    unfolding assms(3) ln_def by simp
  ultimately show ?thesis by (simp add: acquire_rest_def)
qed

text \<open>The text of a policy, and its six fields read back from it.\<close>

lemma acquire_policy_text:
  assumes "field_ok i" "field_ok obj" "field_ok cost" "field_ok sig" "field_ok pk" "field_ok alg" "field_ok hf"
  defines "t \<equiv> policy_text i obj cost sig pk alg hf"
  shows acquire_object: "acquire_field t ''policy object:'' (newline # ''policy cost:'') dest =
           map_option (Pair (length obj)) (buf_blit dest 0 obj)" (is ?O)
    and acquire_cost: "acquire_field t ''policy cost:'' (newline # ''policy id signature:'') dest =
           map_option (Pair (length cost)) (buf_blit dest 0 cost)" (is ?C)
    and acquire_signature: "acquire_field t ''policy id signature:'' (newline # ''policy id signature public key:'') dest =
           map_option (Pair (length sig)) (buf_blit dest 0 sig)" (is ?S)
    and acquire_public_key: "acquire_field t ''policy id signature public key:''
             (newline # ''policy id signature sign. algorithm:'') dest =
           map_option (Pair (length pk)) (buf_blit dest 0 pk)" (is ?P)
    and acquire_algorithm: "acquire_field t ''policy id signature sign. algorithm:'' (newline # ''hash function:'') dest =
           map_option (Pair (length alg)) (buf_blit dest 0 alg)" (is ?A)
    and acquire_hash: "acquire_rest t ''hash function:'' dest = buf_blit dest 0 hf" (is ?H)
proof -
  let ?l0 = "ln ''policy id:'' i" and ?l1 = "ln ''policy object:'' obj" and ?l2 = "ln ''policy cost:'' cost"
  let ?l3 = "ln ''policy id signature:'' sig" and ?l4 = "ln ''policy id signature public key:'' pk"
  let ?l5 = "ln ''policy id signature sign. algorithm:'' alg" and ?l6 = "ln ''hash function:'' hf"
  let ?a1 = "?l0 @ [newline]" and ?a2 = "?l0 @ newline # ?l1 @ [newline]"
  let ?a3 = "?l0 @ newline # ?l1 @ newline # ?l2 @ [newline]"
  let ?a4 = "?l0 @ newline # ?l1 @ newline # ?l2 @ newline # ?l3 @ [newline]"
  let ?a5 = "?l0 @ newline # ?l1 @ newline # ?l2 @ newline # ?l3 @ newline # ?l4 @ [newline]"
  let ?a6 = "?l0 @ newline # ?l1 @ newline # ?l2 @ newline # ?l3 @ newline # ?l4 @ newline # ?l5 @ [newline]"
  have nul: "NUL \<notin> set t"
    using assms(1-7) by (simp add: t_def policy_text_def field_ok_def)
  note search = find_sub_next_sep find_sub_at_sep label_simps assms(1-7)
  note lines = t_def [unfolded policy_text_lines]
  show ?O by (rule acquire_field_at [OF nul, where a = ?a1]) (simp_all add: lines search)
  show ?C by (rule acquire_field_at [OF nul, where a = ?a2]) (simp_all add: lines search)
  show ?S by (rule acquire_field_at [OF nul, where a = ?a3]) (simp_all add: lines search)
  show ?P by (rule acquire_field_at [OF nul, where a = ?a4]) (simp_all add: lines search)
  show ?A by (rule acquire_field_at [OF nul, where a = ?a5]) (simp_all add: lines search)
  show ?H by (rule acquire_rest_at [OF nul, where a = ?a6]) (simp_all add: lines search)
qed

section \<open>The index file\<close>

text \<open>What the plugin relies on: the hexadecimal form of a 32 byte id has 64 hexadecimal digits
  and is converted back.\<close>

definition hex_digits :: bytes where
  "hex_digits = ''0123456789abcdefABCDEF''"

definition sdk_ok :: "pap_sdk \<Rightarrow> bool" where
  "sdk_ok sdk \<longleftrightarrow> PAP_POL_ID_MAX_LEN sdk = 32 \<and>
     (\<forall>k. length k = 32 \<longrightarrow> (\<exists>s. hex_to_str sdk k 32 = Some s \<and> length s = 64 \<and>
        set s \<subseteq> set hex_digits \<and> str_to_hex sdk s 64 = Some k))"

definition hex_of :: "pap_sdk \<Rightarrow> bytes \<Rightarrow> bytes" where
  "hex_of sdk k = the (hex_to_str sdk k 32)"

definition index_of :: "pap_sdk \<Rightarrow> bytes list \<Rightarrow> bytes" where
  "index_of sdk ks = concat (map (\<lambda>k. hex_of sdk k @ ''|'') ks)"

lemma hex_of:
  assumes "sdk_ok sdk" "length k = 32"
  shows "hex_to_str sdk k 32 = Some (hex_of sdk k)" "length (hex_of sdk k) = 64"
    "set (hex_of sdk k) \<subseteq> set hex_digits" "str_to_hex sdk (hex_of sdk k) 64 = Some k"
  using assms by (fastforce simp: sdk_ok_def hex_of_def)+

lemma hex_of_inj: "sdk_ok sdk \<Longrightarrow> length k = 32 \<Longrightarrow> length j = 32 \<Longrightarrow> hex_of sdk k = hex_of sdk j \<longleftrightarrow> k = j"
  by (metis hex_of(4) option.inject)

lemma hex_of_chars:
  assumes "sdk_ok sdk" "length k = 32"
  shows "NUL \<notin> set (hex_of sdk k)" "CHR ''|'' \<notin> set (hex_of sdk k)" "newline \<notin> set (hex_of sdk k)"
    "CHR '' '' \<notin> set (hex_of sdk k)"
  using hex_of(3) [OF assms] by (auto simp: hex_digits_def)

lemma field_ok_hex: "sdk_ok sdk \<Longrightarrow> length k = 32 \<Longrightarrow> field_ok (hex_of sdk k)"
  using hex_of_chars [of sdk k]
    find_sub_missing_char [of "CHR '' ''" "''policy ''" "hex_of sdk k"]
    find_sub_missing_char [of "CHR '' ''" "''hash function:''" "hex_of sdk k"]
  by (simp add: field_ok_def)

lemma NUL_index_of: "sdk_ok sdk \<Longrightarrow> \<forall>k\<in>set ks. length k = 32 \<Longrightarrow> NUL \<notin> set (index_of sdk ks)"
  by (auto simp: index_of_def hex_of_chars)

lemma find_sub_same_length: "length p = length t \<Longrightarrow> p \<noteq> t \<Longrightarrow> find_sub p t = None"
  unfolding find_sub_None_iff by (auto dest: prefix_length_le simp: prefix_def) (metis append_eq_conv_conj drop_0 length_drop diff_diff_cancel le_antisym diff_le_self take_all_iff order_refl diff_is_0_eq diff_self_eq_0)

text \<open>Cutting an id out of the index.\<close>

lemma cut_index_of:
  assumes "sdk_ok sdk" "\<forall>k\<in>set ks. length k = 32" "length k = 32" "k \<in> set ks"
  shows "cut_index (index_of sdk ks) (hex_of sdk k) = Some (index_of sdk (remove1 k ks))"
  using assms(2,4)
proof (induction ks)
  case (Cons j ks)
  let ?h = "hex_of sdk"
  have idx: "index_of sdk (j # ks) = ?h j @ CHR ''|'' # index_of sdk ks"
    by (simp add: index_of_def)
  have nul: "cstr (index_of sdk (j # ks)) = index_of sdk (j # ks)" "cstr (index_of sdk ks) = index_of sdk ks"
    using NUL_index_of [OF assms(1)] Cons.prems by simp_all
  show ?case
  proof (cases "j = k")
    case True
    then have "strstr (index_of sdk (j # ks)) (?h k) = Some (Some 0)"
      unfolding strstr_Some_iff nul unfolding idx by (simp add: find_sub_prefix)
    then show ?thesis
      using True idx by (simp add: cut_index_def)
  next
    case False
    then have IH: "cut_index (index_of sdk ks) (?h k) = Some (index_of sdk (remove1 k ks))"
      using Cons by simp
    then obtain i where i: "strstr (index_of sdk ks) (?h k) = Some (Some i)"
      by (auto simp: cut_index_def split: bind_splits)
    have "find_sub (?h k) (?h j) = None"
      using False Cons.prems(1) assms hex_of(2) [OF assms(1)] hex_of_inj [OF assms(1), of k j]
      by (intro find_sub_same_length) auto
    then have "strstr (index_of sdk (j # ks)) (?h k) = Some (Some (length (?h j) + 1 + i))"
      using i Cons.prems(1) hex_of_chars [OF assms(1)] assms(3)
      unfolding strstr_Some_iff nul unfolding idx by (simp add: find_sub_next_sep)
    then show ?thesis
      using False IH i idx by (auto simp: cut_index_def index_of_def split: if_splits)
  qed
qed simp

text \<open>Listing the ids of the index.\<close>

lemma split_runs_piece:
  "d \<notin> set a \<Longrightarrow> acc @ a \<noteq> [] \<Longrightarrow> split_runs d acc (a @ d # r) = (rev acc @ a) # split_runs d [] r"
  by (induction a arbitrary: acc) auto

lemma strtok_index_of:
  assumes "sdk_ok sdk" "\<forall>k\<in>set ks. length k = 32"
  shows "strtok_all CHR ''|'' (index_of sdk ks) = map (hex_of sdk) ks"
proof -
  have "split_runs CHR ''|'' [] (index_of sdk ks) = map (hex_of sdk) ks"
    using assms(2)
  proof (induction ks)
    case (Cons k ks)
    moreover have "hex_of sdk k \<noteq> []" "CHR ''|'' \<notin> set (hex_of sdk k)"
      using hex_of(2) [OF assms(1), of k] hex_of_chars [OF assms(1), of k] Cons.prems by auto
    ultimately show ?case
      by (simp add: index_of_def split_runs_piece)
  qed (simp add: index_of_def)
  then show ?thesis
    using NUL_index_of [OF assms] by (simp add: strtok_all_def)
qed

text \<open>The callback that lists the ids runs over the end of the block when every piece converts.\<close>

lemma collect_index_of:
  assumes "sdk_ok sdk" "\<forall>k\<in>set ks. length k = 32"
  shows "collect_ids sdk (index_of sdk ks) l = None"
  using assms(2)
proof (induction ks arbitrary: l)
  case Nil
  then show ?case by (simp add: index_of_def collect_ids.simps strtok_next_def)
next
  case (Cons k ks)
  have "hex_of sdk k \<noteq> []" "CHR ''|'' \<notin> set (hex_of sdk k)" "NUL \<notin> set (hex_of sdk k)"
    using hex_of(2) [OF assms(1), of k] hex_of_chars [OF assms(1), of k] Cons.prems by auto
  then have "strtok_next CHR ''|'' (index_of sdk (k # ks)) = Some (Some (hex_of sdk k), index_of sdk ks)"
    using strtok_next_token(1) [of "hex_of sdk k" "CHR ''|''" "index_of sdk ks"] by (simp add: index_of_def)
  moreover have "str_to_hex sdk (hex_of sdk k) (PAP_POL_ID_MAX_LEN sdk * 2) = Some k" "PAP_POL_ID_MAX_LEN sdk = 32"
    using assms(1) hex_of(4) [OF assms(1)] Cons.prems by (auto simp: sdk_ok_def)
  ultimately show ?case
    using Cons.IH Cons.prems by (subst collect_ids.simps) simp
qed

section \<open>The callbacks as a keyed store\<close>

text \<open>The contents of a policy, the policy structure a client puts, and what a client reads back
  through buffers of \<open>N\<close> zero bytes.\<close>

record stored_policy =
  sp_object :: bytes
  sp_cost :: bytes
  sp_signature :: bytes
  sp_public_key :: bytes

definition stored_ok :: "nat \<Rightarrow> stored_policy \<Rightarrow> bool" where
  "stored_ok N v \<longleftrightarrow> sp_object v \<noteq> [] \<and> field_ok (sp_object v) \<and> field_ok (sp_cost v) \<and>
     field_ok (sp_signature v) \<and> field_ok (sp_public_key v) \<and>
     length (sp_signature v) = RPI_SIGNATURE_LEN \<and> length (sp_public_key v) = RPI_PUBLIC_KEY_LEN \<and>
     length (sp_object v) \<le> N \<and> length (sp_cost v) < N \<and> RPI_SIGNATURE_LEN \<le> N"

definition policy_of :: "bytes \<Rightarrow> stored_policy \<Rightarrow> pap_policy" where
  "policy_of k v = \<lparr>p_id = k, p_object = Some (sp_object v), p_object_size = length (sp_object v),
     p_cost = Some (sp_cost v), p_signature = sp_signature v, p_public_key = sp_public_key v,
     p_signature_algorithm = PAP_ECDSA, p_hash_function = PAP_SHA_256\<rparr>"

definition empty_policy :: "nat \<Rightarrow> pap_policy" where
  "empty_policy N = \<lparr>p_id = replicate N NUL, p_object = Some (replicate N NUL), p_object_size = 0,
     p_cost = Some (replicate N NUL), p_signature = replicate N NUL, p_public_key = replicate N NUL,
     p_signature_algorithm = PAP_SIGN_OTHER 0, p_hash_function = PAP_HASH_OTHER 0\<rparr>"

definition pap_put :: "pap_sdk \<Rightarrow> bytes \<Rightarrow> stored_policy \<Rightarrow> pap_fs \<Rightarrow> pap_fs option" where
  "pap_put sdk k v fs = map_option snd (put_cb sdk (policy_of k v) fs)"

definition pap_get :: "pap_sdk \<Rightarrow> nat \<Rightarrow> bytes \<Rightarrow> pap_fs \<Rightarrow> stored_policy option" where
  "pap_get sdk N k fs = do {
     (_, out) \<leftarrow> get_cb sdk (Some k) (empty_policy N) fs;
     obj \<leftarrow> p_object out;
     cost \<leftarrow> p_cost out;
     (if p_object_size out = 0 then None
      else Some \<lparr>sp_object = take (p_object_size out) obj, sp_cost = cstr cost,
                 sp_signature = take RPI_SIGNATURE_LEN (p_signature out),
                 sp_public_key = take RPI_PUBLIC_KEY_LEN (p_public_key out)\<rparr>)
   }"

definition pap_has :: "pap_sdk \<Rightarrow> bytes \<Rightarrow> pap_fs \<Rightarrow> bool" where
  "pap_has sdk k fs = snd (has_cb sdk (Some k) fs)"

definition pap_del :: "pap_sdk \<Rightarrow> bytes \<Rightarrow> pap_fs \<Rightarrow> pap_fs option" where
  "pap_del sdk k fs = map_option snd (del_cb sdk (Some k) fs)"

definition pap_key :: "bytes \<Rightarrow> bool" where
  "pap_key k \<longleftrightarrow> length k = RPI_POL_ID_MAX_LEN"

text \<open>The index lists the stored policies, each once.\<close>

definition index_bytes :: "pap_fs \<Rightarrow> bytes" where
  "index_bytes fs = (case pap_files fs index_path of None \<Rightarrow> [] | Some b \<Rightarrow> b)"

text \<open>The ids that the index file lists.\<close>

definition pap_ids :: "pap_sdk \<Rightarrow> pap_fs \<Rightarrow> bytes list" where
  "pap_ids sdk fs = List.map_filter (\<lambda>tok. str_to_hex sdk tok (2 * RPI_POL_ID_MAX_LEN)) (strtok_all CHR ''|'' (index_bytes fs))"

definition pap_inv :: "pap_sdk \<Rightarrow> pap_fs \<Rightarrow> bool" where
  "pap_inv sdk fs \<longleftrightarrow> pap_writable fs \<and>
     (\<exists>ks. index_bytes fs = index_of sdk ks \<and> distinct ks \<and> (\<forall>k\<in>set ks. pap_key k) \<and>
        (\<forall>k. pap_key k \<longrightarrow> (pap_files fs (pol_path (hex_of sdk k)) \<noteq> None) = (k \<in> set ks)))"

lemma pap_has_eq:
  assumes "sdk_ok sdk" "pap_key k"
  shows "pap_has sdk k fs \<longleftrightarrow> pap_files fs (pol_path (hex_of sdk k)) \<noteq> None"
  using assms hex_of(1) [of sdk k] hex_of_chars [of sdk k]
  by (simp add: pap_has_def has_cb_def check_if_stored_policy_def posix_check_if_stored_policy_def pap_key_def)

lemma pol_path_inj: "pol_path a = pol_path b \<longleftrightarrow> a = b"
  by (simp add: pol_path_def)

lemma pol_path_index: "length a = 64 \<Longrightarrow> pol_path a \<noteq> index_path"
  by (auto simp: pol_path_def index_path_def dest!: arg_cong [where f = length])

lemma paths:
  assumes "sdk_ok sdk" "pap_key k"
  shows "pol_path (hex_of sdk k) \<noteq> index_path" "index_path \<noteq> pol_path (hex_of sdk k)"
    "pap_key j \<Longrightarrow> pol_path (hex_of sdk k) = pol_path (hex_of sdk j) \<longleftrightarrow> k = j"
  using assms hex_of(2) [of sdk k] not_sym [OF pol_path_index [of "hex_of sdk k"]]
    pol_path_index [of "hex_of sdk k"] hex_of_inj [of sdk k j]
  by (simp_all add: pap_key_def pol_path_inj)

lemma pap_ids_eq:
  assumes "sdk_ok sdk" "index_bytes fs = index_of sdk ks" "\<forall>k\<in>set ks. pap_key k"
  shows "pap_ids sdk fs = ks"
proof -
  have "\<forall>k\<in>set ks. str_to_hex sdk (hex_of sdk k) 64 = Some k"
    using assms(1,3) hex_of(4) [OF assms(1)] by (auto simp: sdk_ok_def pap_key_def)
  then have "List.map_filter (\<lambda>tok. str_to_hex sdk tok 64) (map (hex_of sdk) ks) = ks"
    by (induction ks) (simp_all add: List.map_filter_simps)
  then show ?thesis
    using strtok_index_of [OF assms(1)] assms(2,3) by (simp add: pap_ids_def pap_key_def)
qed

text \<open>Putting a policy.\<close>

lemma pap_put_eq:
  assumes "sdk_ok sdk" "pap_key k" "stored_ok N v" "pap_writable fs"
  shows "pap_put sdk k v fs = Some (fs\<lparr>pap_files := (pap_files fs)
      (pol_path (hex_of sdk k) \<mapsto> policy_text (hex_of sdk k) (sp_object v) (sp_cost v) (sp_signature v)
          (sp_public_key v) ''ECDSA'' ''sha-256'',
       index_path \<mapsto> index_bytes fs @ hex_of sdk k @ ''|'')\<rparr>)"
  using assms hex_of(1) [of sdk k] hex_of_chars [of sdk k] paths [of sdk k]
  by (simp add: pap_put_def put_cb_def store_policy_def policy_of_def hash_function_name_def
      sign_algorithm_name_def posix_store_policy_def pap_key_def stored_ok_def read_bytes_def field_ok_def
      index_bytes_def Let_def)

text \<open>Reading depends only on the file of the policy.\<close>

lemma pap_get_cong:
  assumes "sdk_ok sdk" "pap_key k" "pap_files fs' (pol_path (hex_of sdk k)) = pap_files fs (pol_path (hex_of sdk k))"
  shows "pap_get sdk N k fs' = pap_get sdk N k fs"
  using assms hex_of(1) [of sdk k] hex_of_chars [of sdk k]
  by (simp add: pap_get_def get_cb_def acquire_policy_def posix_acquire_policy_def pap_key_def empty_policy_def)

lemma field_ok_names: "field_ok ''ECDSA''" "field_ok ''sha-256''"
  by (simp_all add: field_ok_def find_sub.simps)

lemma pap_get_text:
  assumes "sdk_ok sdk" "pap_key k" "stored_ok N v"
    and "pap_files fs (pol_path (hex_of sdk k)) = Some (policy_text (hex_of sdk k) (sp_object v) (sp_cost v)
          (sp_signature v) (sp_public_key v) ''ECDSA'' ''sha-256'')"
  shows "pap_get sdk N k fs = Some v"
proof -
  let ?h = "hex_of sdk k" and ?z = "replicate N NUL"
  let ?t = "policy_text ?h (sp_object v) (sp_cost v) (sp_signature v) (sp_public_key v) ''ECDSA'' ''sha-256''"
  have ok: "field_ok ?h" "field_ok (sp_object v)" "field_ok (sp_cost v)" "field_ok (sp_signature v)"
      "field_ok (sp_public_key v)" and big: "128 \<le> N" and obj: "sp_object v \<noteq> []"
      and len: "length (sp_object v) \<le> N" "length (sp_cost v) < N" "length (sp_signature v) = 128" "length (sp_public_key v) = 64"
      and sdk: "PAP_POL_ID_MAX_LEN sdk = 32"
    using assms field_ok_hex [of sdk k] by (auto simp: stored_ok_def pap_key_def sdk_ok_def)
  note acq = acquire_policy_text [OF ok field_ok_names]
  let ?out = "(empty_policy N)\<lparr>p_object := Some (sp_object v @ drop (length (sp_object v)) ?z),
     p_object_size := length (sp_object v), p_cost := Some (sp_cost v @ drop (length (sp_cost v)) ?z),
     p_signature := sp_signature v @ drop 128 ?z, p_public_key := sp_public_key v @ drop 64 ?z,
     p_signature_algorithm := PAP_ECDSA, p_hash_function := PAP_SHA_256\<rparr>"
  have blit: "buf_blit ?z 0 x = Some (x @ drop (length x) ?z)" if "length x \<le> N" for x
    using that by (simp add: buf_blit_def)
  have "acquire_policy sdk (Some k) (empty_policy N) fs = Some (True, ?out)"
    using assms hex_of(1) [of sdk k] hex_of_chars [of sdk k] len big blit [of "sp_object v"] blit [of "sp_cost v"]
      blit [of "sp_signature v"] blit [of "sp_public_key v"]
    by (simp add: acquire_policy_def posix_acquire_policy_def empty_policy_def pap_key_def acq
        memcmp_eq_def buf_blit_def Let_def)
  moreover have "length (strncpy_bytes k 32) = 32"
    using length_cstr_le [of k] by (simp add: strncpy_bytes_def strlen_def min_def)
  ultimately have "\<exists>i. get_cb sdk (Some k) (empty_policy N) fs = Some (0, ?out\<lparr>p_id := i\<rparr>)"
    using big by (simp add: get_cb_def sdk empty_policy_def buf_blit_def buf_set_def)
  then obtain i where "get_cb sdk (Some k) (empty_policy N) fs = Some (0, ?out\<lparr>p_id := i\<rparr>)" ..
  moreover have "NUL \<notin> set (sp_cost v)"
    using ok(3) by (simp add: field_ok_def)
  ultimately show ?thesis
    using len obj by (simp add: pap_get_def)
qed

lemma pap_get_absent:
  assumes "sdk_ok sdk" "pap_key k" "pap_files fs (pol_path (hex_of sdk k)) = None"
  shows "pap_get sdk N k fs = None"
  using assms hex_of(1) [of sdk k] hex_of_chars [of sdk k]
  by (auto simp: pap_get_def get_cb_def acquire_policy_def posix_acquire_policy_def empty_policy_def pap_key_def
      split: bind_splits)

text \<open>Deleting a policy.\<close>

lemma pap_del_absent:
  assumes "sdk_ok sdk" "pap_key k" "pap_files fs (pol_path (hex_of sdk k)) = None"
  shows "pap_del sdk k fs = Some fs"
  using assms hex_of(1) [of sdk k] hex_of_chars [of sdk k]
  by (simp add: pap_del_def del_cb_def flush_policy_def posix_flush_policy_def pap_key_def)

lemma pap_del_eq:
  assumes "sdk_ok sdk" "pap_key k" "pap_writable fs" "pap_files fs (pol_path (hex_of sdk k)) \<noteq> None"
    and "index_bytes fs = index_of sdk ks" "\<forall>k\<in>set ks. pap_key k" "k \<in> set ks"
  shows "pap_del sdk k fs = Some (fs\<lparr>pap_files := (pap_files fs)
      (pol_path (hex_of sdk k) := None, index_path \<mapsto> index_of sdk (remove1 k ks))\<rparr>)"
proof -
  have "index_of sdk ks \<noteq> []"
    using assms(7) by (auto simp: index_of_def)
  then have "pap_files fs index_path = Some (index_of sdk ks)"
    using assms(5) by (auto simp: index_bytes_def split: option.splits)
  then show ?thesis
    using assms hex_of(1) [of sdk k] hex_of_chars [of sdk k] paths [of sdk k] cut_index_of [of sdk ks k]
    by (auto simp: pap_del_def del_cb_def flush_policy_def posix_flush_policy_def pap_key_def Let_def)
qed

text \<open>What a put and a delete leave in the directory.\<close>

lemma pap_put_effect:
  assumes "sdk_ok sdk" "pap_key k" "stored_ok N v" "pap_writable s" "index_bytes s = index_of sdk ks"
  obtains s' where "pap_put sdk k v s = Some s'" "pap_writable s'" "index_bytes s' = index_of sdk (ks @ [k])"
    "pap_files s' (pol_path (hex_of sdk k)) = Some (policy_text (hex_of sdk k) (sp_object v) (sp_cost v)
        (sp_signature v) (sp_public_key v) ''ECDSA'' ''sha-256'')"
    "\<And>j. pap_key j \<Longrightarrow> j \<noteq> k \<Longrightarrow> pap_files s' (pol_path (hex_of sdk j)) = pap_files s (pol_path (hex_of sdk j))"
proof (rule that [OF pap_put_eq [OF assms(1-4)]])
  show "index_bytes (s\<lparr>pap_files := (pap_files s)(pol_path (hex_of sdk k) \<mapsto>
        policy_text (hex_of sdk k) (sp_object v) (sp_cost v) (sp_signature v) (sp_public_key v) ''ECDSA'' ''sha-256'',
        index_path \<mapsto> index_bytes s @ hex_of sdk k @ ''|'')\<rparr>) = index_of sdk (ks @ [k])"
    unfolding assms(5) by (subst index_bytes_def) (simp add: index_of_def)
qed (use assms paths [OF assms(1)] in simp_all)

lemma pap_del_effect:
  assumes "sdk_ok sdk" "pap_key k" "pap_writable s" "pap_files s (pol_path (hex_of sdk k)) \<noteq> None"
    and "index_bytes s = index_of sdk ks" "\<forall>k\<in>set ks. pap_key k" "k \<in> set ks"
  obtains s' where "pap_del sdk k s = Some s'" "pap_writable s'" "index_bytes s' = index_of sdk (remove1 k ks)"
    "pap_files s' (pol_path (hex_of sdk k)) = None"
    "\<And>j. pap_key j \<Longrightarrow> j \<noteq> k \<Longrightarrow> pap_files s' (pol_path (hex_of sdk j)) = pap_files s (pol_path (hex_of sdk j))"
  by (rule that [OF pap_del_eq [OF assms]]) (use assms paths [OF assms(1)] in \<open>simp_all add: index_bytes_def\<close>)

text \<open>The index file exists from the first put on; then the callback that lists the ids leaves its block.\<close>

lemma pap_del_index:
  assumes "sdk_ok sdk" "pap_key k" "pap_del sdk k s = Some s'"
  shows "pap_writable s' = pap_writable s" "pap_files s' index_path = None \<longleftrightarrow> pap_files s index_path = None"
  using assms hex_of(1) [of sdk k] hex_of_chars [of sdk k] paths [of sdk k]
  by (auto simp: pap_del_def del_cb_def flush_policy_def posix_flush_policy_def pap_key_def Let_def
      split: if_splits option.splits bind_splits)

lemma run_cmds_index:
  assumes "sdk_ok sdk" "cmds_ok pap_key (stored_ok N) cs m" "pap_writable s"
    "run_cmds (pap_put sdk) (pap_del sdk) cs s = Some s'"
  shows "pap_files s' index_path = None \<longleftrightarrow> pap_files s index_path = None \<and> (\<forall>k v. Put k v \<notin> set cs)"
  using assms(2-4)
proof (induction cs arbitrary: s m)
  case (Cons c cs)
  show ?case
  proof (cases c)
    case (Put k v)
    with Cons.prems have ok: "pap_key k" "stored_ok N v" "cmds_ok pap_key (stored_ok N) cs (m(k \<mapsto> v))" by simp_all
    from Put Cons.prems(3) obtain s1 where s1: "pap_put sdk k v s = Some s1"
        "run_cmds (pap_put sdk) (pap_del sdk) cs s1 = Some s'" by (auto split: bind_splits)
    have "pap_writable s1" "pap_files s1 index_path \<noteq> None"
      using s1(1) Cons.prems(2) by (auto simp: pap_put_eq [OF assms(1) ok(1,2)])
    with Put show ?thesis using Cons.IH [OF ok(3) _ s1(2)] by auto
  next
    case (Del k)
    with Cons.prems have ok: "pap_key k" "cmds_ok pap_key (stored_ok N) cs (m(k := None))" by simp_all
    from Del Cons.prems(3) obtain s1 where s1: "pap_del sdk k s = Some s1"
        "run_cmds (pap_put sdk) (pap_del sdk) cs s1 = Some s'" by (auto split: bind_splits)
    with Del show ?thesis
      using Cons.IH [OF ok(2) _ s1(2)] Cons.prems(2) pap_del_index [OF assms(1) ok(1) s1(1)] by auto
  qed
qed simp

lemma pap_invE:
  assumes "pap_inv sdk s"
  obtains ks where "pap_writable s" "index_bytes s = index_of sdk ks" "distinct ks" "\<forall>k\<in>set ks. pap_key k"
    "\<And>k. pap_key k \<Longrightarrow> (pap_files s (pol_path (hex_of sdk k)) \<noteq> None) = (k \<in> set ks)"
  using assms by (auto simp: pap_inv_def)

lemma get_all_leaves_block:
  assumes "sdk_ok sdk" "pap_inv sdk s"
  shows "get_all_cb sdk l s = (if pap_files s index_path = None then Some (0, l) else None)"
  using assms(2)
proof (rule pap_invE)
  fix ks assume "index_bytes s = index_of sdk ks" "\<forall>k\<in>set ks. pap_key k"
  then show ?thesis
    using collect_index_of [OF assms(1), of ks l]
    by (auto simp: get_all_cb_def acquire_all_policies_def index_bytes_def pap_key_def split: option.splits)
qed

text \<open>The laws of the interface, for every SDK that converts ids faithfully.\<close>

locale pap_store =
  fixes sdk :: pap_sdk and N :: nat
  assumes sdk: "sdk_ok sdk"
begin

lemma put_law_pap:
  assumes "pap_inv sdk s" and k: "pap_key k" and v: "stored_ok N v" and new: "\<not> pap_has sdk k s"
  shows "\<exists>s'. pap_put sdk k v s = Some s' \<and> pap_inv sdk s' \<and> pap_ids sdk s' = pap_ids sdk s @ [k] \<and>
      (\<forall>j. pap_key j \<longrightarrow> pap_has sdk j s' = (j = k \<or> pap_has sdk j s) \<and>
           pap_get sdk N j s' = (if j = k then Some v else pap_get sdk N j s))"
proof -
  obtain ks where ks: "pap_writable s" "index_bytes s = index_of sdk ks" "distinct ks" "\<forall>k\<in>set ks. pap_key k"
      "\<And>k. pap_key k \<Longrightarrow> (pap_files s (pol_path (hex_of sdk k)) \<noteq> None) = (k \<in> set ks)"
    using assms(1) by (rule pap_invE) (rule that)
  obtain s' where s': "pap_put sdk k v s = Some s'" "pap_writable s'" "index_bytes s' = index_of sdk (ks @ [k])"
      "pap_files s' (pol_path (hex_of sdk k)) = Some (policy_text (hex_of sdk k) (sp_object v) (sp_cost v)
          (sp_signature v) (sp_public_key v) ''ECDSA'' ''sha-256'')"
      "\<And>j. pap_key j \<Longrightarrow> j \<noteq> k \<Longrightarrow> pap_files s' (pol_path (hex_of sdk j)) = pap_files s (pol_path (hex_of sdk j))"
    using pap_put_effect [OF sdk k v ks(1,2)] by blast
  have fresh: "k \<notin> set ks"
    using new ks(5) [OF k] by (simp add: pap_has_eq [OF sdk k])
  have has: "pap_has sdk j s' = (j = k \<or> pap_has sdk j s)" if "pap_key j" for j
    using s'(4) s'(5) [OF that] by (cases "j = k") (simp_all add: pap_has_eq [OF sdk that] pap_has_eq [OF sdk k])
  moreover have "pap_get sdk N j s' = (if j = k then Some v else pap_get sdk N j s)" if "pap_key j" for j
    using pap_get_text [OF sdk k v s'(4)] pap_get_cong [OF sdk that s'(5) [OF that]] by simp
  moreover have "pap_ids sdk s' = pap_ids sdk s @ [k]"
    using pap_ids_eq [OF sdk s'(3)] pap_ids_eq [OF sdk ks(2)] ks(4) k by simp
  moreover have "(pap_files s' (pol_path (hex_of sdk j)) \<noteq> None) = (j \<in> set (ks @ [k]))" if "pap_key j" for j
    using s'(4) s'(5) [OF that] ks(5) [OF that] by (cases "j = k") simp_all
  then have "pap_inv sdk s'"
    unfolding pap_inv_def using s'(2,3) ks(3,4) fresh k by (intro conjI exI [of _ "ks @ [k]"]) simp_all
  ultimately show ?thesis using s'(1) by blast
qed

lemma del_law_pap:
  assumes "pap_inv sdk s" and k: "pap_key k" and old: "pap_has sdk k s"
  shows "\<exists>s'. pap_del sdk k s = Some s' \<and> pap_inv sdk s' \<and> pap_ids sdk s' = remove1 k (pap_ids sdk s) \<and>
      (\<forall>j. pap_key j \<longrightarrow> pap_has sdk j s' = (j \<noteq> k \<and> pap_has sdk j s) \<and>
           pap_get sdk N j s' = (if j = k then None else pap_get sdk N j s))"
proof -
  obtain ks where ks: "pap_writable s" "index_bytes s = index_of sdk ks" "distinct ks" "\<forall>k\<in>set ks. pap_key k"
      "\<And>k. pap_key k \<Longrightarrow> (pap_files s (pol_path (hex_of sdk k)) \<noteq> None) = (k \<in> set ks)"
    using assms(1) by (rule pap_invE) (rule that)
  have mem: "k \<in> set ks" and stored: "pap_files s (pol_path (hex_of sdk k)) \<noteq> None"
    using old ks(5) [OF k] by (simp_all add: pap_has_eq [OF sdk k])
  obtain s' where s': "pap_del sdk k s = Some s'" "pap_writable s'" "index_bytes s' = index_of sdk (remove1 k ks)"
      "pap_files s' (pol_path (hex_of sdk k)) = None"
      "\<And>j. pap_key j \<Longrightarrow> j \<noteq> k \<Longrightarrow> pap_files s' (pol_path (hex_of sdk j)) = pap_files s (pol_path (hex_of sdk j))"
    using pap_del_effect [OF sdk k ks(1) stored ks(2,4) mem] by blast
  have "pap_has sdk j s' = (j \<noteq> k \<and> pap_has sdk j s)" if "pap_key j" for j
    using s'(4) s'(5) [OF that] by (cases "j = k") (simp_all add: pap_has_eq [OF sdk that] pap_has_eq [OF sdk k])
  moreover have "pap_get sdk N j s' = (if j = k then None else pap_get sdk N j s)" if "pap_key j" for j
    using pap_get_absent [OF sdk k s'(4)] pap_get_cong [OF sdk that s'(5) [OF that]] by simp
  moreover have "pap_ids sdk s' = remove1 k (pap_ids sdk s)"
    using pap_ids_eq [OF sdk s'(3)] pap_ids_eq [OF sdk ks(2)] ks(3,4) by (simp add: set_remove1_eq)
  moreover have "(pap_files s' (pol_path (hex_of sdk j)) \<noteq> None) = (j \<in> set (remove1 k ks))" if "pap_key j" for j
    using s'(4) s'(5) [OF that] ks(5) [OF that] ks(3) by (cases "j = k") simp_all
  then have "pap_inv sdk s'"
    unfolding pap_inv_def using s'(2,3) ks(3,4) by (intro conjI exI [of _ "remove1 k ks"]) (simp_all add: distinct_remove1)
  ultimately show ?thesis using s'(1) by blast
qed

lemma ids_law_pap:
  assumes "pap_inv sdk s"
  shows "distinct (pap_ids sdk s) \<and> set (pap_ids sdk s) = {k. pap_key k \<and> pap_has sdk k s}"
  using assms
proof (rule pap_invE)
  fix ks assume ks: "index_bytes s = index_of sdk ks" "distinct ks" "\<forall>k\<in>set ks. pap_key k"
    "\<And>k. pap_key k \<Longrightarrow> (pap_files s (pol_path (hex_of sdk k)) \<noteq> None) = (k \<in> set ks)"
  then show ?thesis
    using pap_ids_eq [OF sdk ks(1,3)] by (auto simp: pap_has_eq [OF sdk])
qed

end

sublocale pap_store \<subseteq> keyed_store "pap_inv sdk" pap_key "stored_ok N" "pap_put sdk" "pap_get sdk N"
    "pap_has sdk" "pap_del sdk" "pap_ids sdk"
  by unfold_locales
    (rule put_law_pap del_law_pap ids_law_pap; assumption |
     simp add: pap_has_eq [OF sdk] pap_del_absent [OF sdk] pap_get_absent [OF sdk])+

context pap_store
begin

lemma run_from_empty:
  assumes "cmds_ok pap_key (stored_ok N) cs Map.empty" and "pap_writable fs" and "pap_files fs = Map.empty"
  shows "\<exists>fs'. run_cmds (pap_put sdk) (pap_del sdk) cs fs = Some fs' \<and>
     (\<forall>k. pap_key k \<longrightarrow> pap_get sdk N k fs' = map_cmds cs Map.empty k \<and>
                       pap_has sdk k fs' = (map_cmds cs Map.empty k \<noteq> None)) \<and>
     distinct (pap_ids sdk fs') \<and> set (pap_ids sdk fs') = dom (map_cmds cs Map.empty) \<and>
     (\<forall>l. get_all_cb sdk l fs' = (if \<exists>k v. Put k v \<in> set cs then None else Some (0, l)))"
proof -
  have "index_bytes fs = index_of sdk []"
    using assms(3) by (simp add: index_bytes_def index_of_def)
  then have "pap_inv sdk fs" "pap_ids sdk fs = []"
    using assms pap_ids_eq [OF sdk, of fs "[]"] by (auto simp: pap_inv_def)
  then obtain fs' where fs': "run_cmds (pap_put sdk) (pap_del sdk) cs fs = Some fs'"
      and rep: "rep fs' (map_cmds cs Map.empty)"
    using run_cmds_rep [OF empty_rep assms(1)] by blast
  have "get_all_cb sdk l fs' = (if \<exists>k v. Put k v \<in> set cs then None else Some (0, l))" for l
    using get_all_leaves_block [OF sdk, of fs' l] rep run_cmds_index [OF sdk assms(1,2) fs'] assms(3)
    by (auto simp: rep_def)
  with fs' rep keys_rep show ?thesis
    by (auto simp: rep_def)
qed

end

section \<open>A reference conversion\<close>

text \<open>The usual lower-case hexadecimal conversion satisfies what the plugin relies on, so the
  store over it is an instance of the interface.\<close>

definition hex_digit :: "nat \<Rightarrow> char" where
  "hex_digit n = ''0123456789abcdef'' ! n"

definition hex_value :: "char \<Rightarrow> nat option" where
  "hex_value c = find (\<lambda>n. hex_digit n = c) [0..<16]"

fun hex_encode :: "bytes \<Rightarrow> bytes" where
  "hex_encode [] = []"
| "hex_encode (c # cs) = hex_digit (of_char c div 16) # hex_digit (of_char c mod 16) # hex_encode cs"

fun hex_decode :: "bytes \<Rightarrow> bytes option" where
  "hex_decode (a # b # cs) = do {
     x \<leftarrow> hex_value a;
     y \<leftarrow> hex_value b;
     r \<leftarrow> hex_decode cs;
     Some (char_of (16 * x + y) # r)
   }"
| "hex_decode [] = Some []"
| "hex_decode [_] = None"

definition ref_sdk :: pap_sdk where
  "ref_sdk = \<lparr>hex_to_str = (\<lambda>s n. if length s = n then Some (hex_encode s) else None),
              str_to_hex = (\<lambda>s n. if length s = n then hex_decode s else None),
              PAP_POL_ID_MAX_LEN = 32\<rparr>"

lemma less_16: "n < (16::nat) \<Longrightarrow> n \<in> {0,1,2,3,4,5,6,7,8,9,10,11,12,13,14,15}"
  by (simp add: eval_nat_numeral less_Suc_eq)

lemma hex_value_digit: "n < 16 \<Longrightarrow> hex_value (hex_digit n) = Some n"
  using less_16 [of n] by (auto simp: hex_value_def hex_digit_def upt_rec)

lemma hex_digit_in: "n < 16 \<Longrightarrow> hex_digit n \<in> set hex_digits"
  using less_16 [of n] by (auto simp: hex_digit_def hex_digits_def)

lemma of_char_bound: "(of_char c :: nat) < 256"
  by (metis char.exhaust of_char_mod_256 mod_less_divisor zero_less_numeral)

lemma hex_decode_encode: "hex_decode (hex_encode s) = Some s"
  by (induction s) (use of_char_bound in \<open>auto simp: hex_value_digit less_mult_imp_div_less\<close>)

lemma length_hex_encode: "length (hex_encode s) = 2 * length s"
  by (induction s) auto

lemma set_hex_encode: "set (hex_encode s) \<subseteq> set hex_digits"
  by (induction s) (use of_char_bound in \<open>auto simp: hex_digit_in less_mult_imp_div_less\<close>)

lemma ref_sdk_ok: "sdk_ok ref_sdk"
  using set_hex_encode by (auto simp: sdk_ok_def ref_sdk_def length_hex_encode hex_decode_encode)

interpretation ref_store: pap_store ref_sdk 256
  by unfold_locales (rule ref_sdk_ok)

text \<open>A policy and two ids for examples.\<close>

definition sample_policy :: stored_policy where
  "sample_policy = \<lparr>sp_object = ''{}'', sp_cost = ''1'', sp_signature = replicate 128 CHR ''s'',
     sp_public_key = replicate 64 CHR ''k''\<rparr>"

definition sample_id :: "char \<Rightarrow> bytes" where
  "sample_id c = replicate 32 c"

lemma sample_ok: "stored_ok 256 sample_policy" "pap_key (sample_id c)" "length (sample_id c) = 32"
proof -
  have "field_ok (replicate n c)" if "c \<notin> {NUL, newline, CHR '' ''}" for n c
    using that find_sub_missing_char [of "CHR '' ''" "''policy ''" "replicate n c"]
      find_sub_missing_char [of "CHR '' ''" "''hash function:''" "replicate n c"] by (auto simp: field_ok_def)
  then show "stored_ok 256 sample_policy"
    by (simp add: stored_ok_def sample_policy_def) (simp add: field_ok_def find_sub.simps)
qed (simp_all add: pap_key_def sample_id_def)

lemma sample_id_inj [simp]: "sample_id a = sample_id b \<longleftrightarrow> a = b"
  by (simp add: sample_id_def)

section \<open>Properties\<close>

text \<open>
  C1. The put, delete, get and has callbacks implement a finite map from policy ids to policies: over
  an empty directory, every sequence of puts of absent ids (32 bytes; fields without NUL, newline and
  the labels of the file, with lengths that fit the caller's buffers) and of deletes runs
  without undefined behaviour, afterwards get and has give exactly the contents and the domain of
  the map the sequence describes, and the index file lists the domain without duplicates. The
  callback that lists all ids does not: from the first put on it reads behind its unterminated block.
\<close>

theorem pap_store_refines_map:
  assumes "sdk_ok sdk" and "cmds_ok pap_key (stored_ok N) cs Map.empty"
    and "pap_writable fs" and "pap_files fs = Map.empty"
  shows "\<exists>fs'. run_cmds (pap_put sdk) (pap_del sdk) cs fs = Some fs' \<and>
     (\<forall>k. pap_key k \<longrightarrow> pap_get sdk N k fs' = map_cmds cs Map.empty k \<and>
                       pap_has sdk k fs' = (map_cmds cs Map.empty k \<noteq> None)) \<and>
     distinct (pap_ids sdk fs') \<and> set (pap_ids sdk fs') = dom (map_cmds cs Map.empty) \<and>
     (\<forall>l. get_all_cb sdk l fs' = (if \<exists>k v. Put k v \<in> set cs then None else Some (0, l)))"
  using assms(2-4) pap_store.run_from_empty [OF pap_store.intro [OF assms(1)]] by blast

theorem pap_store_refines_map_witness:
  "\<exists>fs'. run_cmds (pap_put ref_sdk) (pap_del ref_sdk)
        [Put (sample_id CHR ''a'') sample_policy, Put (sample_id CHR ''b'') sample_policy, Del (sample_id CHR ''a'')]
        \<lparr>pap_writable = True, pap_files = Map.empty\<rparr> = Some fs' \<and>
      pap_get ref_sdk 256 (sample_id CHR ''b'') fs' = Some sample_policy \<and>
      \<not> pap_has ref_sdk (sample_id CHR ''a'') fs' \<and> set (pap_ids ref_sdk fs') = {sample_id CHR ''b''} \<and>
      get_all_cb ref_sdk [] fs' = None"
proof -
  let ?cs = "[Put (sample_id CHR ''a'') sample_policy, Put (sample_id CHR ''b'') sample_policy, Del (sample_id CHR ''a'')]"
  let ?m = "[sample_id CHR ''b'' \<mapsto> sample_policy]"
  have m: "map_cmds ?cs Map.empty = ?m"
    by (simp add: fun_eq_iff)
  have "cmds_ok pap_key (stored_ok 256) ?cs Map.empty"
    by (simp add: sample_ok)
  from pap_store_refines_map [OF ref_sdk_ok this, of "\<lparr>pap_writable = True, pap_files = Map.empty\<rparr>"]
  obtain fs' where "run_cmds (pap_put ref_sdk) (pap_del ref_sdk) ?cs \<lparr>pap_writable = True, pap_files = Map.empty\<rparr> = Some fs'"
      and get: "\<And>k. pap_key k \<Longrightarrow> pap_get ref_sdk 256 k fs' = ?m k \<and> pap_has ref_sdk k fs' = (?m k \<noteq> None)"
      and "set (pap_ids ref_sdk fs') = dom ?m"
      and all: "get_all_cb ref_sdk [] fs' = (if \<exists>k v. Put k v \<in> set ?cs then None else Some (0, []))"
    unfolding m by auto
  moreover have "\<exists>k v. Put k v \<in> set ?cs"
    by (intro exI [of _ "sample_id CHR ''a''"] exI [of _ sample_policy]) simp
  then have "get_all_cb ref_sdk [] fs' = None"
    unfolding all by (simp only: if_True)
  ultimately show ?thesis
    using get [OF sample_ok(2), of "CHR ''a''"] get [OF sample_ok(2), of "CHR ''b''"] by simp
qed

text \<open>
  Storing a policy that is already stored rewrites its file but lists its id a second time,
  and a later delete removes the file and one listing only: the id is still listed in the index
  while the policy is gone.
\<close>

theorem stored_twice_stays_listed:
  assumes "sdk_ok sdk" and "pap_key k" and "stored_ok N v" and "pap_writable fs" and "pap_files fs = Map.empty"
  shows "\<exists>fs1 fs2 fs3. pap_put sdk k v fs = Some fs1 \<and> pap_put sdk k v fs1 = Some fs2 \<and>
     pap_ids sdk fs2 = [k, k] \<and> pap_del sdk k fs2 = Some fs3 \<and> \<not> pap_has sdk k fs3 \<and> pap_ids sdk fs3 = [k]"
proof -
  have "index_bytes fs = index_of sdk []"
    using assms(5) by (simp add: index_bytes_def index_of_def)
  then obtain fs1 where fs1: "pap_put sdk k v fs = Some fs1" "pap_writable fs1" "index_bytes fs1 = index_of sdk ([] @ [k])"
    by (rule pap_put_effect [OF assms(1-4)])
  obtain fs2 where fs2: "pap_put sdk k v fs1 = Some fs2" "pap_writable fs2" "index_bytes fs2 = index_of sdk ([k] @ [k])"
      "pap_files fs2 (pol_path (hex_of sdk k)) \<noteq> None"
    using fs1(3) by (auto intro: pap_put_effect [OF assms(1-3) fs1(2), of "[k]"])
  obtain fs3 where fs3: "pap_del sdk k fs2 = Some fs3" "index_bytes fs3 = index_of sdk [k]"
      "pap_files fs3 (pol_path (hex_of sdk k)) = None"
    using pap_del_effect [OF assms(1,2) fs2(2,4,3)] assms(2) by auto
  have "pap_ids sdk fs2 = [k, k]" "pap_ids sdk fs3 = [k]"
    using pap_ids_eq [OF assms(1) fs2(3)] pap_ids_eq [OF assms(1) fs3(2)] assms(2) by simp_all
  with fs1 fs2 fs3 show ?thesis
    by (simp add: pap_has_eq [OF assms(1,2)])
qed

theorem stored_twice_stays_listed_witness:
  "\<exists>fs1 fs2 fs3. pap_put ref_sdk (sample_id CHR ''a'') sample_policy \<lparr>pap_writable = True, pap_files = Map.empty\<rparr> = Some fs1 \<and>
     pap_put ref_sdk (sample_id CHR ''a'') sample_policy fs1 = Some fs2 \<and>
     pap_ids ref_sdk fs2 = [sample_id CHR ''a'', sample_id CHR ''a''] \<and>
     pap_del ref_sdk (sample_id CHR ''a'') fs2 = Some fs3 \<and>
     \<not> pap_has ref_sdk (sample_id CHR ''a'') fs3 \<and> pap_ids ref_sdk fs3 = [sample_id CHR ''a'']"
  using stored_twice_stays_listed [OF ref_sdk_ok sample_ok(2) sample_ok(1), of "\<lparr>pap_writable = True, pap_files = Map.empty\<rparr>"]
  by simp

text \<open>
  The length callback does not report the length of the policy object: for a stored policy
  it counts everything behind the object's label, up to the end of the file.
\<close>

theorem reported_length_is_rest_of_file:
  assumes "sdk_ok sdk" and "pap_key k" and "stored_ok N v" and "pap_writable fs"
  shows "\<exists>fs' n. pap_put sdk k v fs = Some fs' \<and> get_len_cb sdk (Some k) 0 fs' = Some (0, n) \<and>
     n = length (sp_object v) + length (sp_cost v) + 322"
proof -
  let ?h = "hex_of sdk k"
  let ?t = "policy_text ?h (sp_object v) (sp_cost v) (sp_signature v) (sp_public_key v) ''ECDSA'' ''sha-256''"
  have ok: "field_ok ?h" "field_ok (sp_object v)" "field_ok (sp_cost v)" "field_ok (sp_signature v)" "field_ok (sp_public_key v)"
      and len: "length (sp_signature v) = 128" "length (sp_public_key v) = 64" "length ?h = 64"
    using assms field_ok_hex [of sdk k] hex_of(2) [of sdk k] by (auto simp: stored_ok_def pap_key_def)
  have "find_sub ''policy object:'' ?t = Some (length (ln ''policy id:'' ?h) + 1)"
    unfolding policy_text_lines using ok by (simp add: find_sub_next_sep label_simps)
  then have "find_sub ''policy object:'' ?t = Some 75"
    using len by (simp add: ln_def)
  moreover have "NUL \<notin> set ?t"
    using ok by (simp add: policy_text_def field_ok_def)
  ultimately have find: "strstr ?t ''policy object:'' = Some (Some 75)"
    by (simp add: strstr_Some_iff)
  have total: "length ?t = length (sp_object v) + length (sp_cost v) + 411"
    using len by (simp add: policy_text_def)
  obtain fs' where fs': "pap_put sdk k v fs = Some fs'" "pap_files fs' (pol_path ?h) = Some ?t"
    using paths [OF assms(1,2)] by (simp add: pap_put_eq [OF assms])
  have "get_len_cb sdk (Some k) 0 fs' = Some (0, length (sp_object v) + length (sp_cost v) + 322)"
    using fs'(2) find total hex_of(1) [of sdk k] hex_of_chars [of sdk k] assms(1,2)
    by (simp add: get_len_cb_def acquire_pol_obj_len_def posix_get_pol_obj_len_def pap_key_def)
  with fs'(1) show ?thesis by blast
qed

theorem reported_length_is_rest_of_file_witness:
  "\<exists>fs' n. pap_put ref_sdk (sample_id CHR ''a'') sample_policy \<lparr>pap_writable = True, pap_files = Map.empty\<rparr> = Some fs' \<and>
     get_len_cb ref_sdk (Some (sample_id CHR ''a'')) 0 fs' = Some (0, n) \<and> n = 325"
  using reported_length_is_rest_of_file [OF ref_sdk_ok sample_ok(2) sample_ok(1), of "\<lparr>pap_writable = True, pap_files = Map.empty\<rparr>"]
  by (simp add: sample_policy_def)

text \<open>
  The get callback returns a shortened policy id: it copies the 32 byte id as a string, so
  everything behind the first zero byte of the id is returned as zeros.
\<close>

theorem get_cb_shortens_id:
  assumes "PAP_POL_ID_MAX_LEN sdk = 32" and "length k = 32" and "get_cb sdk (Some k) out fs = Some (r, out')"
  shows "take 32 (p_id out') = cstr k @ replicate (32 - strlen k) NUL"
proof -
  have len: "length (strncpy_bytes k 32) = 32"
    using length_cstr_le [of k] assms(2) by (simp add: strncpy_bytes_def strlen_def)
  obtain i where "p_id out' = (strncpy_bytes k 32 @ i)[33 := NUL]"
    using assms(1,3) len by (auto simp: get_cb_def buf_blit_def buf_set_def split: bind_splits if_splits)
  then show ?thesis
    using len length_cstr_le [of k] assms(2) by (simp add: strncpy_bytes_def strlen_def take_update_cancel)
qed

theorem get_cb_shortens_id_witness:
  "\<exists>out'. get_cb ref_sdk (Some (replicate 31 NUL @ [CHR ''x''])) (empty_policy 256)
            \<lparr>pap_writable = True, pap_files = Map.empty\<rparr> = Some (0, out') \<and>
      take 32 (p_id out') = replicate 32 NUL"
proof -
  let ?k = "replicate 31 NUL @ [CHR ''x'']" and ?fs = "\<lparr>pap_writable = True, pap_files = Map.empty\<rparr>"
  have k: "cstr ?k = []" by (simp add: numeral_eq_Suc)
  have "length (strncpy_bytes ?k 32) = 32"
    unfolding strncpy_bytes_def strlen_def k by simp
  then obtain out' where g: "get_cb ref_sdk (Some ?k) (empty_policy 256) ?fs = Some (0, out')"
    by (simp add: get_cb_def acquire_policy_def posix_acquire_policy_def ref_sdk_def empty_policy_def
        buf_blit_def buf_set_def)
  then have "take 32 (p_id out') = cstr ?k @ replicate (32 - strlen ?k) NUL"
    by (intro get_cb_shortens_id) (simp_all add: ref_sdk_def)
  with g show ?thesis
    unfolding strlen_def k by auto
qed

end
