(* ===== verification/Policy_Updater.thy ===== *)
theory Policy_Updater
  imports Config_Manager
begin

text \<open>
  The client of the policy store service, \<^verbatim>\<open>policy_updater/policy_updater.c\<close>: the two requests
  it formats, the exchange over a TCP connection with its byte by byte reading loop, and the copy
  of the answer into the caller's buffer. The operating system and the peer are the record
  \<open>net_env\<close>; the contents of uninitialised locals are parameters.
  The lemmas show that an answer of up to 2047 bytes reaches the caller unchanged, that a longer
  one is written past the end of the buffer, and how the settings follow the configuration.
\<close>

section \<open>Environment and state\<close>

text \<open>
  \<open>resolve\<close> is \<open>gethostbyname\<close>: \<open>None\<close> for its NULL result, otherwise the addresses
  found, in the notation of \<open>inet_ntoa\<close>. \<open>serve\<close> gives the bytes the peer sends for a
  request before it closes the connection.
\<close>

record net_env =
  resolve :: "bytes \<Rightarrow> bytes list option"
  socket_ok :: bool
  inet_pton_ok :: "bytes \<Rightarrow> bool"
  connect_ok :: "bytes \<Rightarrow> int \<Rightarrow> bool"
  serve :: "bytes \<Rightarrow> bytes"

abbreviation POLICY_UPDATER_REQ_GET_LIST_SIZE :: nat where "POLICY_UPDATER_REQ_GET_LIST_SIZE \<equiv> 256"
abbreviation POLICY_UPDATER_POL_ID_BUF_LEN :: nat where "POLICY_UPDATER_POL_ID_BUF_LEN \<equiv> 64"
abbreviation POLICY_UPDATER_RESPONSE_LEN :: nat where "POLICY_UPDATER_RESPONSE_LEN \<equiv> 2048"
abbreviation POLICY_UPDATER_ADDRESS_SIZE :: nat where "POLICY_UPDATER_ADDRESS_SIZE \<equiv> 127"

record policy_updater =
  g_policy_updater_address :: bytes
  g_policy_updater_port :: int
  g_user_address :: bytes
  g_user_port :: int

definition policy_updater_zero :: policy_updater where
  "policy_updater_zero = \<lparr>g_policy_updater_address = replicate POLICY_UPDATER_ADDRESS_SIZE NUL,
     g_policy_updater_port = 6007, g_user_address = replicate POLICY_UPDATER_ADDRESS_SIZE NUL, g_user_port = 9998\<rparr>"

text \<open>Uninitialised locals of the request functions.\<close>

record request_junk =
  junk_response :: bytes
  junk_response_length :: int
  junk_address :: bytes

section \<open>The exchange\<close>

text \<open>The reading loop: one byte per \<open>read\<close>, then the terminator.\<close>

fun get_tcp_response :: "bytes \<Rightarrow> nat \<Rightarrow> bytes \<Rightarrow> (nat \<times> bytes) option" where
  "get_tcp_response [] len recv_buffer = do {
     recv_buffer \<leftarrow> buf_set recv_buffer len NUL;
     Some (len + 1, recv_buffer)
   }"
| "get_tcp_response (c # stream) len recv_buffer = do {
     recv_buffer \<leftarrow> buf_set recv_buffer len c;
     get_tcp_response stream (len + 1) recv_buffer
   }"

definition hostname_to_ip :: "net_env \<Rightarrow> bytes \<Rightarrow> bytes \<Rightarrow> bytes option" where
  "hostname_to_ip env hostname ip_address =
     (case resolve env hostname of
        None \<Rightarrow> Some ip_address
      | Some [] \<Rightarrow> Some ip_address
      | Some (a # _) \<Rightarrow> buf_blit ip_address 0 (a @ [NUL]))"

definition tcp_send ::
    "net_env \<Rightarrow> bytes \<Rightarrow> bytes \<Rightarrow> int \<Rightarrow> bytes \<Rightarrow> int \<Rightarrow> (int \<times> bytes \<times> int) option" where
  "tcp_send env msg rec rec_length servip port =
     (if \<not> socket_ok env then Some (1, rec, rec_length)
      else if \<not> inet_pton_ok env (cstr servip) then Some (1, rec, rec_length)
      else if \<not> connect_ok env (cstr servip) port then Some (1, rec, rec_length)
      else do {
        (n, rec) \<leftarrow> get_tcp_response (serve env msg) 0 rec;
        Some (0, rec, int n)
      })"

section \<open>The requests\<close>

text \<open>\<open>snprintf\<close> keeps what fits in front of the terminator.\<close>

definition snprintf_text :: "nat \<Rightarrow> bytes \<Rightarrow> bytes" where
  "snprintf_text n s = take (n - 1) s"

definition quoted :: "bytes \<Rightarrow> bytes" where
  "quoted s = [CHR 0x22] @ s @ [CHR 0x22]"

definition get_policy_request :: "bytes \<Rightarrow> bytes" where
  "get_policy_request policy_id = snprintf_text POLICY_UPDATER_REQ_GET_LIST_SIZE
     (''{'' @ quoted ''cmd'' @ '':'' @ quoted ''get_policy'' @ '','' @ quoted ''policyId'' @ '':'' @
      quoted (take POLICY_UPDATER_POL_ID_BUF_LEN (cstr policy_id)) @ ''}'')"

definition get_policy_list_request :: "bytes \<Rightarrow> bytes \<Rightarrow> bytes" where
  "get_policy_list_request policy_store_version device_id = snprintf_text POLICY_UPDATER_REQ_GET_LIST_SIZE
     (''{'' @ quoted ''cmd'' @ '':'' @ quoted ''get_policy_list'' @ '','' @ quoted ''policyStoreId'' @ '':'' @
      quoted (cstr policy_store_version) @ '','' @ quoted ''deviceId'' @ '':'' @ quoted (cstr device_id) @ ''}'')"

text \<open>The result of the exchange is not looked at: after a failure the uninitialised locals are
  copied. A negative count is converted to a huge one.\<close>

definition policyupdater_get_policy ::
    "net_env \<Rightarrow> request_junk \<Rightarrow> policy_updater \<Rightarrow> bytes \<Rightarrow> bytes \<Rightarrow> bytes option" where
  "policyupdater_get_policy env junk pu policy_id p_policy = do {
     policy_service_address \<leftarrow> hostname_to_ip env (cstr (g_policy_updater_address pu)) (junk_address junk);
     (_, response, response_length) \<leftarrow> tcp_send env (get_policy_request policy_id) (junk_response junk)
        (junk_response_length junk) policy_service_address (g_policy_updater_port pu);
     let n = min (response_length + 1) (int POLICY_UPDATER_RESPONSE_LEN - 1)
     in (if n < 0 then None else buf_blit p_policy 0 (strncpy_bytes response (nat n)))
   }"

text \<open>The results: the list buffer, its length and the flag.\<close>

definition policyupdater_get_policy_list ::
    "net_env \<Rightarrow> request_junk \<Rightarrow> policy_updater \<Rightarrow> bytes \<Rightarrow> bytes \<Rightarrow> bytes \<Rightarrow> nat \<Rightarrow> bool \<Rightarrow> (bytes \<times> nat \<times> bool) option" where
  "policyupdater_get_policy_list env junk pu policy_store_version device_id policy_list policy_list_len new_policy_list_flag = do {
     policy_service_address \<leftarrow> hostname_to_ip env (cstr (g_policy_updater_address pu)) (junk_address junk);
     (res, response, _) \<leftarrow> tcp_send env (get_policy_list_request policy_store_version device_id) (junk_response junk)
        (junk_response_length junk) policy_service_address (g_policy_updater_port pu);
     (if res \<noteq> 1 then do {
        policy_list \<leftarrow> buf_blit policy_list 0 (strncpy_bytes response POLICY_UPDATER_RESPONSE_LEN);
        policy_list \<leftarrow> (if POLICY_UPDATER_RESPONSE_LEN \<le> strlen policy_list
                         then buf_set policy_list (POLICY_UPDATER_RESPONSE_LEN - 1) NUL else Some policy_list);
        Some (policy_list, strlen policy_list, True)
      }
      else Some (policy_list, policy_list_len, new_policy_list_flag))
   }"

section \<open>Settings\<close>

text \<open>\<open>junk\<close> is the uninitialised number buffer of the configuration manager.\<close>

definition policyupdater_init :: "config_manager \<Rightarrow> bytes \<Rightarrow> policy_updater \<Rightarrow> policy_updater option" where
  "policyupdater_init cfg junk pu = do {
     (_, address) \<leftarrow> config_manager_get_option_string cfg ''pap'' ''policy_store_service_ip''
        (g_policy_updater_address pu) POLICY_UPDATER_ADDRESS_SIZE;
     (_, port) \<leftarrow> config_manager_get_option_int cfg ''pap'' ''policy_store_service_port'' junk (g_policy_updater_port pu);
     (_, user_address) \<leftarrow> config_manager_get_option_string cfg ''pap'' ''user_ip'' (g_user_address pu) POLICY_UPDATER_ADDRESS_SIZE;
     (_, user_port) \<leftarrow> config_manager_get_option_int cfg ''pap'' ''user_port'' junk (g_user_port pu);
     Some \<lparr>g_policy_updater_address = address, g_policy_updater_port = port,
           g_user_address = user_address, g_user_port = user_port\<rparr>
   }"

section \<open>The reading loop\<close>

lemma get_tcp_response_eq:
  "get_tcp_response stream n b =
     (if n + length stream < length b
      then Some (n + length stream + 1, take n b @ stream @ NUL # drop (n + length stream + 1) b) else None)"
proof (induction stream arbitrary: n b)
  case Nil
  then show ?case by (simp add: buf_set_def upd_conv_take_nth_drop)
next
  case (Cons c stream)
  then show ?case
    by (auto simp: buf_set_def take_Suc_conv_app_nth)
qed

lemma tcp_send_eq:
  "tcp_send env msg rec rec_length servip port =
     (if socket_ok env \<and> inet_pton_ok env (cstr servip) \<and> connect_ok env (cstr servip) port
      then (if length (serve env msg) < length rec
            then Some (0, serve env msg @ NUL # drop (length (serve env msg) + 1) rec, int (length (serve env msg) + 1))
            else None)
      else Some (1, rec, rec_length))"
  by (simp add: tcp_send_def get_tcp_response_eq)

text \<open>The service can be reached at the configured address.\<close>

definition reachable_service :: "net_env \<Rightarrow> request_junk \<Rightarrow> policy_updater \<Rightarrow> bool" where
  "reachable_service env junk pu \<longleftrightarrow> socket_ok env \<and>
     (\<exists>servip. hostname_to_ip env (cstr (g_policy_updater_address pu)) (junk_address junk) = Some servip \<and>
        inet_pton_ok env (cstr servip) \<and> connect_ok env (cstr servip) (g_policy_updater_port pu))"

text \<open>A service that answers every request with the same text.\<close>

definition sample_env :: "bytes \<Rightarrow> net_env" where
  "sample_env answer = \<lparr>resolve = (\<lambda>_. Some [''10.0.0.1'']), socket_ok = True, inet_pton_ok = (\<lambda>_. True),
     connect_ok = (\<lambda>_ _. True), serve = (\<lambda>_. answer)\<rparr>"

definition sample_junk :: request_junk where
  "sample_junk = \<lparr>junk_response = replicate POLICY_UPDATER_RESPONSE_LEN CHR ''x'', junk_response_length = -5,
     junk_address = replicate 100 CHR ''x''\<rparr>"

lemma sample_reachable: "reachable_service (sample_env answer) sample_junk policy_updater_zero"
  by (simp add: reachable_service_def sample_env_def sample_junk_def policy_updater_zero_def hostname_to_ip_def
      buf_blit_def)

lemma strlen_le: "strlen s \<le> length s"
  by (simp add: strlen_def length_cstr_le)

lemma get_policy_result:
  fixes env :: net_env and policy_id :: bytes
  assumes "reachable_service env junk pu" and "length (junk_response junk) = POLICY_UPDATER_RESPONSE_LEN"
    and "length p_policy = POLICY_UPDATER_RESPONSE_LEN" and "p_policy ! 2047 = NUL"
  defines "answer \<equiv> serve env (get_policy_request policy_id)"
  shows "if length answer < POLICY_UPDATER_RESPONSE_LEN
         then \<exists>p'. policyupdater_get_policy env junk pu policy_id p_policy = Some p' \<and> cstr p' = cstr answer \<and>
                   length p' = POLICY_UPDATER_RESPONSE_LEN \<and> p' ! 2047 = NUL
         else policyupdater_get_policy env junk pu policy_id p_policy = None"
proof -
  obtain servip where ip: "hostname_to_ip env (cstr (g_policy_updater_address pu)) (junk_address junk) = Some servip"
      "socket_ok env" "inet_pton_ok env (cstr servip)" "connect_ok env (cstr servip) (g_policy_updater_port pu)"
    using assms(1) by (auto simp: reachable_service_def)
  show ?thesis
  proof (cases "length answer < 2048")
    case True
    let ?n = "min (length answer + 2) 2047"
    let ?r = "answer @ NUL # drop (length answer + 1) (junk_response junk)"
    let ?s = "strncpy_bytes ?r ?n"
    have len: "length ?s = ?n"
      using length_cstr_le [of answer] by (simp add: strncpy_bytes_def strlen_def)
    have num: "nat (min (int (length answer + 1) + 1) (int 2048 - 1)) = ?n"
      by linarith
    have get: "policyupdater_get_policy env junk pu policy_id p_policy = Some (?s @ drop ?n p_policy)"
      using ip True assms(2,3) num len
      by (simp add: policyupdater_get_policy_def tcp_send_eq answer_def [symmetric] buf_blit_def Let_def
          min_less_iff_disj)
    have "cstr (?s @ drop ?n p_policy) = cstr answer"
    proof (cases "length (cstr answer) < ?n")
      case True
      then have "?s = cstr answer @ NUL # replicate (?n - length (cstr answer) - 1) NUL"
        by (simp add: strncpy_bytes_def strlen_def replicate_Suc [symmetric] del: replicate_Suc)
      then show ?thesis by simp
    next
      case False
      then have n: "?n = 2047" "length (cstr answer) = 2047"
        using length_cstr_le [of answer] True by (auto simp: min_def split: if_splits)
      then have "?s = cstr answer" by (simp add: strncpy_bytes_def strlen_def)
      moreover have "drop 2047 p_policy = [NUL]"
        using assms(3,4) by (simp add: Cons_nth_drop_Suc [symmetric])
      ultimately show ?thesis using n by simp
    qed
    moreover have "length (?s @ drop ?n p_policy) = 2048" "(?s @ drop ?n p_policy) ! 2047 = NUL"
      using len assms(3,4) by (simp_all add: nth_append)
    ultimately show ?thesis
      using True get by auto
  next
    case False
    then show ?thesis
      using ip assms(2) by (simp add: policyupdater_get_policy_def tcp_send_eq answer_def [symmetric])
  qed
qed

lemma policyupdater_init_result:
  assumes "represents cfg ini" and "length junk = 32" and "length (g_policy_updater_address pu) = POLICY_UPDATER_ADDRESS_SIZE"
    and "length (g_user_address pu) = POLICY_UPDATER_ADDRESS_SIZE"
    and "\<forall>n v. ini_lookup ini ''pap'' n = Inr v \<longrightarrow> NUL \<notin> set v \<and> length v \<le> 29"
  shows "\<exists>pu'. policyupdater_init cfg junk pu = Some pu' \<and>
     cstr (g_policy_updater_address pu') =
       (case ini_lookup ini ''pap'' ''policy_store_service_ip'' of Inl _ \<Rightarrow> cstr (g_policy_updater_address pu) | Inr v \<Rightarrow> v) \<and>
     g_policy_updater_port pu' =
       (case ini_lookup ini ''pap'' ''policy_store_service_port'' of Inl _ \<Rightarrow> g_policy_updater_port pu | Inr v \<Rightarrow> atoi v) \<and>
     cstr (g_user_address pu') = (case ini_lookup ini ''pap'' ''user_ip'' of Inl _ \<Rightarrow> cstr (g_user_address pu) | Inr v \<Rightarrow> v) \<and>
     g_user_port pu' = (case ini_lookup ini ''pap'' ''user_port'' of Inl _ \<Rightarrow> g_user_port pu | Inr v \<Rightarrow> atoi v)"
proof -
  have str: "\<exists>e b. config_manager_get_option_string cfg ''pap'' n buf 127 = Some (e, b) \<and>
      cstr b = (case ini_lookup ini ''pap'' n of Inl _ \<Rightarrow> cstr buf | Inr v \<Rightarrow> v)"
    if "NUL \<notin> set n" "length buf = 127" for n buf
    using get_string_represents [OF assms(1) _ that(1), of "''pap''" buf] spec [OF assms(5), of n] that(2)
    by (fastforce split: sum.splits)
  have num: "\<exists>e. config_manager_get_option_int cfg ''pap'' n junk old = Some
      (e, case ini_lookup ini ''pap'' n of Inl _ \<Rightarrow> old | Inr v \<Rightarrow> atoi v)" if "NUL \<notin> set n" for n old
    using get_int_represents [OF assms(1) _ that assms(2), of "''pap''" old] spec [OF assms(5), of n]
    by (auto split: sum.splits)
  obtain e1 b1 where s1: "config_manager_get_option_string cfg ''pap'' ''policy_store_service_ip'' (g_policy_updater_address pu) 127 = Some (e1, b1)"
      "cstr b1 = (case ini_lookup ini ''pap'' ''policy_store_service_ip'' of Inl _ \<Rightarrow> cstr (g_policy_updater_address pu) | Inr v \<Rightarrow> v)"
    using str [of "''policy_store_service_ip''" "g_policy_updater_address pu"] assms(3) by auto
  obtain e2 b2 where s2: "config_manager_get_option_string cfg ''pap'' ''user_ip'' (g_user_address pu) 127 = Some (e2, b2)"
      "cstr b2 = (case ini_lookup ini ''pap'' ''user_ip'' of Inl _ \<Rightarrow> cstr (g_user_address pu) | Inr v \<Rightarrow> v)"
    using str [of "''user_ip''" "g_user_address pu"] assms(4) by auto
  obtain e3 e4 where
      "config_manager_get_option_int cfg ''pap'' ''policy_store_service_port'' junk (g_policy_updater_port pu) = Some (e3,
         case ini_lookup ini ''pap'' ''policy_store_service_port'' of Inl _ \<Rightarrow> g_policy_updater_port pu | Inr v \<Rightarrow> atoi v)"
      "config_manager_get_option_int cfg ''pap'' ''user_port'' junk (g_user_port pu) = Some (e4,
         case ini_lookup ini ''pap'' ''user_port'' of Inl _ \<Rightarrow> g_user_port pu | Inr v \<Rightarrow> atoi v)"
    using num [of "''policy_store_service_port''" "g_policy_updater_port pu"] num [of "''user_port''" "g_user_port pu"]
    by auto
  with s1 s2 show ?thesis
    by (simp add: policyupdater_init_def)
qed

section \<open>Properties\<close>

text \<open>
  Fetching a policy: when the service answers with fewer than 2048 bytes the caller's
  buffer holds the answer as a string, whatever it and the uninitialised locals held before; an
  answer of 2048 bytes or more is written past the end of the response buffer.
\<close>

theorem get_policy_copies_answer:
  fixes env :: net_env and policy_id :: bytes
  assumes "reachable_service env junk pu" and "length (junk_response junk) = POLICY_UPDATER_RESPONSE_LEN"
    and "length p_policy = POLICY_UPDATER_RESPONSE_LEN" and "p_policy ! 2047 = NUL"
  defines "answer \<equiv> serve env (get_policy_request policy_id)"
  shows "if length answer < POLICY_UPDATER_RESPONSE_LEN
         then \<exists>p'. policyupdater_get_policy env junk pu policy_id p_policy = Some p' \<and> cstr p' = cstr answer \<and>
                   length p' = POLICY_UPDATER_RESPONSE_LEN \<and> p' ! 2047 = NUL
         else policyupdater_get_policy env junk pu policy_id p_policy = None"
  using assms(1-4) unfolding answer_def by (rule get_policy_result)

theorem get_policy_copies_answer_witness:
  "\<exists>p'. policyupdater_get_policy (sample_env ''{}'') sample_junk policy_updater_zero ''id'' (replicate 2048 NUL) = Some p' \<and>
        cstr p' = ''{}'' \<and> length p' = 2048 \<and> p' ! 2047 = NUL"
  using get_policy_copies_answer [OF sample_reachable, of "replicate 2048 NUL" "''{}''" "''id''"]
  by (simp add: sample_env_def sample_junk_def)

text \<open>
  Asking for the policy list: an answer of fewer than 2048 bytes replaces the list and sets
  the flag for a new list, a longer one overflows the response buffer, and when the connection
  fails the list, its length and the flag stay as they were.
\<close>

theorem get_policy_list_outcomes:
  fixes env :: net_env and version :: bytes and device :: bytes
  assumes "hostname_to_ip env (cstr (g_policy_updater_address pu)) (junk_address junk) = Some servip"
    and "length (junk_response junk) = POLICY_UPDATER_RESPONSE_LEN" and "length l = POLICY_UPDATER_RESPONSE_LEN"
  defines "answer \<equiv> serve env (get_policy_list_request version device)"
  shows "if socket_ok env \<and> inet_pton_ok env (cstr servip) \<and> connect_ok env (cstr servip) (g_policy_updater_port pu)
         then (if length answer < POLICY_UPDATER_RESPONSE_LEN
               then \<exists>l'. policyupdater_get_policy_list env junk pu version device l n flag = Some (l', strlen answer, True) \<and>
                         cstr l' = cstr answer \<and> length l' = POLICY_UPDATER_RESPONSE_LEN
               else policyupdater_get_policy_list env junk pu version device l n flag = None)
         else policyupdater_get_policy_list env junk pu version device l n flag = Some (l, n, flag)"
proof (cases "length answer < 2048")
  case True
  let ?s = "cstr answer @ replicate (2048 - strlen answer) NUL"
  have short: "strlen answer < 2048" "length (cstr answer) < 2048"
    using strlen_le [of answer] True by (simp_all add: strlen_def)
  then have s: "strncpy_bytes (answer @ NUL # r) 2048 = ?s" "length ?s = 2048" "cstr ?s = cstr answer" for r
    by (simp_all add: strncpy_bytes_def strlen_def)
  then have "strlen ?s = strlen answer"
    by (simp add: strlen_def)
  then show ?thesis
    using True assms(1-3) s short
    by (simp add: policyupdater_get_policy_list_def tcp_send_eq answer_def [symmetric] buf_blit_def)
next
  case False
  then show ?thesis
    using assms(1-3) by (simp add: policyupdater_get_policy_list_def tcp_send_eq answer_def [symmetric])
qed

theorem get_policy_list_outcomes_witness:
  "(\<exists>l'. policyupdater_get_policy_list (sample_env ''[]'') sample_junk policy_updater_zero ''0x0'' ''123'' (replicate 2048 NUL) 0 False
          = Some (l', 2, True) \<and> cstr l' = ''[]'' \<and> length l' = 2048)"
proof -
  have "hostname_to_ip (sample_env ''[]'') (cstr (g_policy_updater_address policy_updater_zero)) (junk_address sample_junk) =
        Some (''10.0.0.1'' @ NUL # replicate 91 CHR ''x'')"
    by (simp add: hostname_to_ip_def sample_env_def sample_junk_def buf_blit_def)
  from get_policy_list_outcomes [OF this, of "replicate 2048 NUL" "''0x0''" "''123''" 0 False]
  show ?thesis
    by (simp add: sample_env_def sample_junk_def numeral_2_eq_2)
qed

text \<open>
  The settings follow the configuration: an option that is present replaces the setting,
  an option that is missing leaves the built-in default.
\<close>

theorem policyupdater_init_settings:
  assumes "represents cfg ini" and "length junk = 32" and "length (g_policy_updater_address pu) = POLICY_UPDATER_ADDRESS_SIZE"
    and "length (g_user_address pu) = POLICY_UPDATER_ADDRESS_SIZE"
    and "\<forall>n v. ini_lookup ini ''pap'' n = Inr v \<longrightarrow> NUL \<notin> set v \<and> length v \<le> 29"
  shows "\<exists>pu'. policyupdater_init cfg junk pu = Some pu' \<and>
     cstr (g_policy_updater_address pu') =
       (case ini_lookup ini ''pap'' ''policy_store_service_ip'' of Inl _ \<Rightarrow> cstr (g_policy_updater_address pu) | Inr v \<Rightarrow> v) \<and>
     g_policy_updater_port pu' =
       (case ini_lookup ini ''pap'' ''policy_store_service_port'' of Inl _ \<Rightarrow> g_policy_updater_port pu | Inr v \<Rightarrow> atoi v) \<and>
     cstr (g_user_address pu') = (case ini_lookup ini ''pap'' ''user_ip'' of Inl _ \<Rightarrow> cstr (g_user_address pu) | Inr v \<Rightarrow> v) \<and>
     g_user_port pu' = (case ini_lookup ini ''pap'' ''user_port'' of Inl _ \<Rightarrow> g_user_port pu | Inr v \<Rightarrow> atoi v)"
  using assms by (rule policyupdater_init_result)

theorem policyupdater_init_settings_witness:
  "\<exists>cfg pu'. represents cfg [(''pap'', [(''policy_store_service_port'', ''6008'')])] \<and>
     policyupdater_init cfg (replicate 32 NUL) policy_updater_zero = Some pu' \<and>
     g_policy_updater_port pu' = 6008 \<and> g_user_port pu' = 9998 \<and> cstr (g_user_address pu') = []"
proof -
  let ?ini = "[(''pap'', [(''policy_store_service_port'', ''6008'')])]"
  have "ini_ok ?ini" "length (render_ini ?ini) < 2048"
    by (simp_all add: ini_ok_def option_ok_def render_ini_def render_group_def render_options_def render_option_def)
  from init_represents [OF this config_wf_zero] obtain cfg where cfg: "represents cfg ?ini" by blast
  have lookup: "ini_lookup ?ini ''pap'' n = (if prefix ''policy_store_service_port'' n then Inr ''6008'' else Inl (-3))" for n
    by (simp add: ini_lookup_def)
  have val: "\<forall>n v. ini_lookup ?ini ''pap'' n = Inr v \<longrightarrow> NUL \<notin> set v \<and> length v \<le> 29"
    unfolding lookup by (auto split: if_splits)
  have "length (g_policy_updater_address policy_updater_zero) = 127" "length (g_user_address policy_updater_zero) = 127"
    by (simp_all add: policy_updater_zero_def)
  from policyupdater_init_settings [OF cfg _ this val, of "replicate 32 NUL"] cfg show ?thesis
    unfolding lookup
    by (auto simp: policy_updater_zero_def atoi_def strtol10_def isspace_def isdigit_def char_code_def digit_val_def
        to_int32_def)
qed

end
