(* ===== verification/Base64.thy ===== *)
theory Base64
  imports C_Prelude
begin

text \<open>
  The base64 decoder of \<^verbatim>\<open>policy_loader/policy_loader.c\<close>, used for the signature of a policy and
  for the owner's public key. The decoding table is the array of the source; an index outside of
  it, a read behind the input and a write behind the output are undefined.
  The lemmas show that the decoder inverts the standard encoding for every byte string, and that
  it reads past an input that is too short for the output it is asked to fill.
\<close>

section \<open>Definitions\<close>

definition char_between :: "char \<Rightarrow> char \<Rightarrow> char \<Rightarrow> bool" where
  "char_between lo c hi \<longleftrightarrow> char_code lo \<le> char_code c \<and> char_code c \<le> char_code hi"

definition b64_isvalidchar :: "char \<Rightarrow> bool" where
  "b64_isvalidchar c =
     (if char_between CHR ''0'' c CHR ''9'' then True
      else if char_between CHR ''A'' c CHR ''Z'' then True
      else if char_between CHR ''a'' c CHR ''z'' then True
      else c = CHR ''+'' \<or> c = CHR ''/'' \<or> c = CHR ''='')"

definition b64invs :: "int list" where
  "b64invs = [62, -1, -1, -1, 63, 52, 53, 54, 55, 56, 57, 58, 59, 60, 61, -1, -1, -1, -1, -1,
              -1, -1, 0,  1,  2,  3,  4,  5,  6,  7,  8,  9,  10, 11, 12, 13, 14, 15, 16, 17,
              18, 19, 20, 21, 22, 23, 24, 25, -1, -1, -1, -1, -1, -1, 26, 27, 28, 29, 30, 31,
              32, 33, 34, 35, 36, 37, 38, 39, 40, 41, 42, 43, 44, 45, 46, 47, 48, 49, 50, 51]"

definition b64_inv :: "char \<Rightarrow> int option" where
  "b64_inv c = (if char_code c < 43 then None else buf_get b64invs (nat (char_code c - 43)))"

text \<open>One byte of the value \<open>v\<close>.\<close>

definition byte_of :: "int \<Rightarrow> char" where
  "byte_of v = char_of (nat (v AND 0xFF))"

text \<open>The body of the second loop.\<close>

definition b64_group :: "bytes \<Rightarrow> nat \<Rightarrow> bytes \<Rightarrow> nat \<Rightarrow> bytes option" where
  "b64_group inp i out j = do {
     c0 \<leftarrow> buf_get inp i;
     v \<leftarrow> b64_inv c0;
     c1 \<leftarrow> buf_get inp (i + 1);
     x1 \<leftarrow> b64_inv c1;
     let v = push_bit 6 v OR x1
     in do {
       c2 \<leftarrow> buf_get inp (i + 2);
       v \<leftarrow> (if c2 = CHR ''='' then Some (push_bit 6 v)
             else do { x \<leftarrow> b64_inv c2; Some (push_bit 6 v OR x) });
       c3 \<leftarrow> buf_get inp (i + 3);
       v \<leftarrow> (if c3 = CHR ''='' then Some (push_bit 6 v)
             else do { x \<leftarrow> b64_inv c3; Some (push_bit 6 v OR x) });
       out \<leftarrow> buf_set out j (byte_of (drop_bit 16 v));
       out \<leftarrow> (if c2 \<noteq> CHR ''='' then buf_set out (j + 1) (byte_of (drop_bit 8 v)) else Some out);
       (if c3 \<noteq> CHR ''='' then buf_set out (j + 2) (byte_of v) else Some out)
     }
   }"

text \<open>
  The second loop. Its condition \<open>i < in_len, j < out_len\<close> is the value of \<open>j < out_len\<close>.
\<close>

function b64_loop :: "bytes \<Rightarrow> nat \<Rightarrow> bytes \<Rightarrow> nat \<Rightarrow> nat \<Rightarrow> bytes option" where
  "b64_loop inp i out j out_len =
     (if j < out_len then do { out \<leftarrow> b64_group inp i out j; b64_loop inp (i + 4) out (j + 3) out_len }
      else Some out)"
  by pat_completeness auto
termination
  by (relation "measure (\<lambda>(inp, i, out, j, out_len). out_len - j)") auto

declare b64_loop.simps [simp del]

definition b64_decode :: "bytes option \<Rightarrow> nat \<Rightarrow> bytes option \<Rightarrow> nat \<Rightarrow> (int \<times> bytes option) option" where
  "b64_decode inp in_len out out_len =
     (case (inp, out) of
        (Some s, Some b) \<Rightarrow>
          if length s < in_len \<and> list_all b64_isvalidchar s then None
          else if \<not> list_all b64_isvalidchar (take in_len s) then Some (0, out)
          else do { b \<leftarrow> b64_loop s 0 b 0 out_len; Some (1, Some b) }
      | _ \<Rightarrow> Some (0, out))"

section \<open>The standard encoding\<close>

definition b64_alphabet :: bytes where
  "b64_alphabet = ''ABCDEFGHIJKLMNOPQRSTUVWXYZabcdefghijklmnopqrstuvwxyz0123456789+/''"

definition sextet :: "nat \<Rightarrow> char" where
  "sextet n = b64_alphabet ! n"

fun b64_encode :: "bytes \<Rightarrow> bytes" where
  "b64_encode [] = []"
| "b64_encode [a] =
     (let x = of_char a in [sextet (x div 4), sextet (x mod 4 * 16), CHR ''='', CHR ''=''])"
| "b64_encode [a, b] =
     (let x = of_char a; y = of_char b
      in [sextet (x div 4), sextet (x mod 4 * 16 + y div 16), sextet (y mod 16 * 4), CHR ''=''])"
| "b64_encode (a # b # c # r) =
     (let x = of_char a; y = of_char b; z = of_char c
      in [sextet (x div 4), sextet (x mod 4 * 16 + y div 16), sextet (y mod 16 * 4 + z div 64), sextet (z mod 64)]
         @ b64_encode r)"

section \<open>Sextets\<close>

lemma b64_table: "list_all (\<lambda>n. b64_inv (sextet n) = Some (int n) \<and> sextet n \<noteq> CHR ''='' \<and> b64_isvalidchar (sextet n)) [0..<64]"
  by code_simp

lemma sextet_facts:
  assumes "n < 64"
  shows "b64_inv (sextet n) = Some (int n)" "sextet n \<noteq> CHR ''=''" "b64_isvalidchar (sextet n)"
  using b64_table assms by (auto simp: list_all_iff)

lemma push_or: "0 \<le> (x :: int) \<Longrightarrow> x < 64 \<Longrightarrow> push_bit 6 v OR x = v * 64 + x"
proof -
  assume "0 \<le> x" "x < 64"
  then have "take_bit 6 x = x"
    by (simp add: take_bit_eq_mod)
  then have "bit x n \<Longrightarrow> n < 6" for n
    by (metis bit_take_bit_iff)
  then have "push_bit 6 v AND x = 0"
    by (intro bit_eqI) (auto simp: bit_simps not_less [symmetric])
  then have "push_bit 6 v + x = push_bit 6 v OR x"
    by (rule disjunctive_add_eq_or)
  then show ?thesis
    by (simp add: push_bit_eq_mult)
qed

lemma push_nat: "push_bit 6 (int m) = int (m * 64)" "n < 64 \<Longrightarrow> push_bit 6 (int m) OR int n = int (m * 64 + n)"
  by (simp_all add: push_or) (simp add: push_bit_eq_mult)

lemma byte_of_nat: "byte_of (int n) = char_of (n mod 256)"
proof -
  have "int n AND 255 = int (n mod 256)"
    using take_bit_eq_mask [of 8 "int n"] by (simp add: take_bit_eq_mod mask_eq_exp_minus_1 zmod_int)
  then show ?thesis by (simp add: byte_of_def)
qed

lemma drop_nat: "drop_bit k (int n) = int (n div 2 ^ k)"
  by (simp add: drop_bit_eq_div zdiv_int)

text \<open>The value of a full group, and of the two padded ones.\<close>

lemma sextet_split:
  "((q * 64 + (r * 16 + s)) * 64 + (t * 4 + u)) * 64 + w = (q * 4 + r) * 65536 + (s * 16 + t) * 256 + (u * 64 + w)" for q :: nat
  by (simp add: algebra_simps)

lemma group_value:
  fixes x y z :: nat
  shows "((x div 4 * 64 + (x mod 4 * 16 + y div 16)) * 64 + (y mod 16 * 4 + z div 64)) * 64 + z mod 64 = x * 65536 + y * 256 + z"
  unfolding sextet_split by simp

lemma value_bytes:
  fixes x y z :: nat
  assumes "y < 256" "z < 256"
  shows "(x * 65536 + y * 256 + z) div 2 ^ 16 = x" "(x * 65536 + y * 256 + z) div 2 ^ 8 mod 256 = y"
    "(x * 65536 + y * 256 + z) mod 256 = z"
proof -
  have e: "x * 65536 + y * 256 + z = z + (x * 256 + y) * 256" by simp
  show "(x * 65536 + y * 256 + z) div 2 ^ 16 = x" using assms by simp
  show "(x * 65536 + y * 256 + z) div 2 ^ 8 mod 256 = y"
  proof -
    have "(z + (x * 256 + y) * 256) div 256 = x * 256 + y"
      using assms by (subst div_mult_self1) simp_all
    then show ?thesis unfolding e using assms by simp
  qed
  show "(x * 65536 + y * 256 + z) mod 256 = z"
    unfolding e using assms by (simp only: mod_mult_self1 mod_less)
qed

lemma of_char_lt [simp]: "(of_char c :: nat) < 256"
  by (metis char.exhaust of_char_mod_256 mod_less_divisor zero_less_numeral)

lemma sextet_bounds:
  fixes x y :: nat
  assumes "x < 256" "y < 256"
  shows "x div 4 < 64" "x mod 4 * 16 + y div 16 < 64" "y mod 16 * 4 + x div 64 < 64" "x mod 64 < 64"
    "x mod 4 * 16 < 64" "y mod 16 * 4 < 64"
  using assms by (auto simp: less_mult_imp_div_less)

text \<open>One pass of the loop over four characters at position \<open>length pre\<close>.\<close>

lemma add_sextet:
  assumes "c = sextet n \<and> n < 64 \<or> c = CHR ''='' \<and> n = 0"
  shows "(if c = CHR ''='' then Some (push_bit 6 (int m))
       else do { x \<leftarrow> b64_inv c; Some (push_bit 6 (int m) OR x) }) = Some (int (m * 64 + n))"
proof (cases "c = CHR ''=''")
  case True
  with assms sextet_facts(2) [of n] have "n = 0" by auto
  with True show ?thesis by (simp add: push_nat(1))
next
  case False
  with assms have n: "c = sextet n" "n < 64" by auto
  with False show ?thesis by (simp add: sextet_facts push_nat(2) del: of_nat_add)
qed

lemma b64_group_at:
  assumes "n0 < 64" "n1 < 64" "inp = pre @ [sextet n0, sextet n1, ca, cb] @ rest"
    and "ca = sextet n2 \<and> n2 < 64 \<or> ca = CHR ''='' \<and> n2 = 0" and "cb = sextet n3 \<and> n3 < 64 \<or> cb = CHR ''='' \<and> n3 = 0"
    and "v = ((n0 * 64 + n1) * 64 + n2) * 64 + n3"
  shows "b64_group inp (length pre) out j = do {
     out \<leftarrow> buf_set out j (char_of (v div 2 ^ 16 mod 256));
     out \<leftarrow> (if ca \<noteq> CHR ''='' then buf_set out (j + 1) (char_of (v div 2 ^ 8 mod 256)) else Some out);
     (if cb \<noteq> CHR ''='' then buf_set out (j + 2) (char_of (v mod 256)) else Some out)
   }"
proof -
  let ?w = "(n0 * 64 + n1) * 64 + n2"
  have get: "buf_get inp (length pre) = Some (sextet n0)" "buf_get inp (length pre + 1) = Some (sextet n1)"
      "buf_get inp (length pre + 2) = Some ca" "buf_get inp (length pre + 3) = Some cb"
    unfolding assms(3) by (simp_all add: buf_get_def nth_append)
  have v1: "push_bit 6 (int n0) OR int n1 = int (n0 * 64 + n1)"
    using assms(2) by (rule push_nat)
  note v2 = add_sextet [OF assms(4), of "n0 * 64 + n1"]
  note v3 = add_sextet [OF assms(5), of ?w, folded assms(6)]
  have bytes: "byte_of (drop_bit 16 (int v)) = char_of (v div 2 ^ 16 mod 256)"
      "byte_of (drop_bit 8 (int v)) = char_of (v div 2 ^ 8 mod 256)" "byte_of (int v) = char_of (v mod 256)"
    unfolding drop_nat byte_of_nat by simp_all
  show ?thesis
    unfolding b64_group_def get Option.bind.bind_lunit sextet_facts(1) [OF assms(1)] sextet_facts(1) [OF assms(2)] v1 Let_def v2 v3 bytes ..
qed

lemma b64_group_full:
  "b64_group (pre @ b64_encode (a # b # c # r) @ rest) (length pre) (don @ u # v # w # blank) (length don)
     = Some (don @ a # b # c # blank)"
proof -
  let ?x = "of_char a :: nat" and ?y = "of_char b :: nat" and ?z = "of_char c :: nat"
  let ?v = "?x * 65536 + ?y * 256 + ?z"
  have "b64_group (pre @ b64_encode (a # b # c # r) @ rest) (length pre) (don @ u # v # w # blank) (length don) = do {
     out \<leftarrow> buf_set (don @ u # v # w # blank) (length don) (char_of (?v div 2 ^ 16 mod 256));
     out \<leftarrow> buf_set out (length don + 1) (char_of (?v div 2 ^ 8 mod 256));
     buf_set out (length don + 2) (char_of (?v mod 256)) }"
    by (subst b64_group_at [OF _ _ _ _ _ group_value [of ?x ?y ?z, symmetric], where ca = "sextet (?y mod 16 * 4 + ?z div 64)" and
          cb = "sextet (?z mod 64)" and pre = pre])
      (use sextet_bounds [of ?x ?y] sextet_bounds [of ?z ?y] sextet_facts(2) in \<open>simp_all add: Let_def\<close>)
  then show ?thesis
    unfolding value_bytes [OF of_char_lt of_char_lt] by (simp add: buf_set_def list_update_append)
qed

lemma b64_group_two:
  "b64_group (pre @ b64_encode [a, b] @ rest) (length pre) (don @ u # v # blank) (length don) = Some (don @ a # b # blank)"
proof -
  let ?x = "of_char a :: nat" and ?y = "of_char b :: nat"
  let ?v = "?x * 65536 + ?y * 256 + 0"
  have "b64_group (pre @ b64_encode [a, b] @ rest) (length pre) (don @ u # v # blank) (length don) = do {
     out \<leftarrow> buf_set (don @ u # v # blank) (length don) (char_of (?v div 2 ^ 16 mod 256));
     buf_set out (length don + 1) (char_of (?v div 2 ^ 8 mod 256)) }"
    by (subst b64_group_at [OF _ _ _ _ _ group_value [of ?x ?y 0, symmetric], where ca = "sextet (?y mod 16 * 4 + 0 div 64)" and
          cb = "CHR ''=''" and pre = pre])
      (use sextet_bounds [of ?x ?y] sextet_facts(2) in \<open>simp_all add: Let_def\<close>)
  then show ?thesis
    unfolding value_bytes [OF of_char_lt zero_less_numeral] by (simp add: buf_set_def list_update_append)
qed

lemma b64_group_one:
  "b64_group (pre @ b64_encode [a] @ rest) (length pre) (don @ u # blank) (length don) = Some (don @ a # blank)"
proof -
  let ?x = "of_char a :: nat"
  let ?v = "?x * 65536 + 0 * 256 + 0"
  have "b64_group (pre @ b64_encode [a] @ rest) (length pre) (don @ u # blank) (length don) =
     buf_set (don @ u # blank) (length don) (char_of (?v div 2 ^ 16 mod 256))"
    by (subst b64_group_at [OF _ _ _ _ _ group_value [of ?x 0 0, symmetric], where ca = "CHR ''=''" and
          cb = "CHR ''=''" and pre = pre])
      (use sextet_bounds [of ?x 0] sextet_facts(2) in \<open>simp_all add: Let_def\<close>)
  then show ?thesis
    unfolding value_bytes [OF zero_less_numeral zero_less_numeral] by (simp add: buf_set_def list_update_append)
qed

lemma b64_loop_done: "out_len \<le> j \<Longrightarrow> b64_loop inp i out j out_len = Some out"
  by (subst b64_loop.simps) simp

lemma b64_loop_encode:
  "length blank = length bs \<Longrightarrow>
   b64_loop (pre @ b64_encode bs @ rest) (length pre) (don @ blank @ tail) (length don) (length don + length bs)
     = Some (don @ bs @ tail)"
proof (induction bs arbitrary: pre don blank rule: b64_encode.induct)
  case 1
  then show ?case by (simp add: b64_loop_done)
next
  case (2 a)
  then obtain u where "blank = [u]" by (auto simp: length_Suc_conv)
  then show ?case
    using b64_group_one [of pre a rest don u tail] b64_loop_done by (subst b64_loop.simps) simp
next
  case (3 a b)
  then obtain u v where "blank = [u, v]" by (auto simp: length_Suc_conv)
  then show ?case
    using b64_group_two [of pre a b rest don u v tail] b64_loop_done by (subst b64_loop.simps) simp
next
  case (4 a b c r)
  then obtain u v w blank' where b: "blank = u # v # w # blank'" "length blank' = length r"
    by (auto simp: length_Suc_conv)
  obtain q where q: "b64_encode (a # b # c # r) = q @ b64_encode r" "length q = 4"
    by (simp add: Let_def)
  have "b64_loop ((pre @ q) @ b64_encode r @ rest) (length (pre @ q)) ((don @ [a, b, c]) @ blank' @ tail)
      (length (don @ [a, b, c])) (length (don @ [a, b, c]) + length r) = Some ((don @ [a, b, c]) @ r @ tail)"
    by (rule 4) (use b in simp_all)
  then have "b64_loop (pre @ b64_encode (a # b # c # r) @ rest) (length pre + 4) (don @ a # b # c # blank' @ tail)
      (length don + 3) (length don + length (a # b # c # r)) = Some (don @ (a # b # c # r) @ tail)"
    unfolding q(1) using q(2) by (simp add: add.assoc numeral_3_eq_3)
  then show ?case
    using b64_group_full [of pre a b c r rest don u v w "blank' @ tail"] b(1)
    by (subst b64_loop.simps) (simp del: b64_encode.simps)
qed

lemma b64_encode_valid: "list_all b64_isvalidchar (b64_encode bs)"
proof (induction bs rule: b64_encode.induct)
  case (4 a b c r)
  then show ?case
    using sextet_bounds [of "of_char a" "of_char b"] sextet_bounds [of "of_char c" "of_char b"]
    by (simp add: Let_def sextet_facts)
next
  case (3 a b)
  then show ?case
    using sextet_bounds [of "of_char a" "of_char b"] by (simp add: Let_def sextet_facts b64_isvalidchar_def [of "CHR ''=''"])
next
  case (2 a)
  then show ?case
    using sextet_bounds [of "of_char a" 0] by (simp add: Let_def sextet_facts b64_isvalidchar_def [of "CHR ''=''"])
qed simp

lemma length_b64_encode: "length (b64_encode bs) = 4 * ((length bs + 2) div 3)"
proof (induction bs rule: b64_encode.induct)
  case (4 a b c r)
  have "(length (a # b # c # r) + 2) div 3 = Suc ((length r + 2) div 3)" by simp
  with 4 show ?case by (simp add: Let_def)
qed (simp_all add: Let_def)

text \<open>With an output longer than the decoded text, the loop passes the end of the encoding.\<close>

lemma b64_loop_passes:
  "length don + 3 * ((length bs + 2) div 3) < out_len \<Longrightarrow> out_len \<le> length don + length blank \<Longrightarrow>
   \<exists>out j. j < out_len \<and> b64_loop (pre @ b64_encode bs @ rest) (length pre) (don @ blank) (length don) out_len
     = b64_loop (pre @ b64_encode bs @ rest) (length pre + length (b64_encode bs)) out j out_len"
proof (induction bs arbitrary: pre don blank rule: b64_encode.induct)
  case 1
  then show ?case by (intro exI [of _ "don @ blank"] exI [of _ "length don"]) simp
next
  case (2 a)
  then obtain u b' where "blank = u # b'" by (cases blank) auto
  then show ?case
    using b64_group_one [of pre a rest don u b'] 2
    by (subst b64_loop.simps) (auto simp: length_b64_encode simp del: b64_encode.simps)
next
  case (3 a b)
  then obtain u v b' where "blank = u # v # b'" by (cases blank; cases "tl blank") auto
  then show ?case
    using b64_group_two [of pre a b rest don u v b'] 3
    by (subst b64_loop.simps) (auto simp: length_b64_encode simp del: b64_encode.simps)
next
  case (4 a b c r)
  then have "3 \<le> length blank" by simp
  then obtain u v w b' where b: "blank = u # v # w # b'"
    by (metis (no_types, opaque_lifting) Suc_le_length_iff numeral_3_eq_3)
  obtain q where q: "b64_encode (a # b # c # r) = q @ b64_encode r" "length q = 4"
    by (simp add: Let_def)
  have "\<exists>out j. j < out_len \<and>
     b64_loop ((pre @ q) @ b64_encode r @ rest) (length (pre @ q)) ((don @ [a, b, c]) @ b') (length (don @ [a, b, c])) out_len
     = b64_loop ((pre @ q) @ b64_encode r @ rest) (length (pre @ q) + length (b64_encode r)) out j out_len"
  proof (rule 4)
    have "(length (a # b # c # r) + 2) div 3 = Suc ((length r + 2) div 3)" by simp
    with 4(2) show "length (don @ [a, b, c]) + 3 * ((length r + 2) div 3) < out_len" by simp
  qed (use 4(3) b in simp_all)
  moreover have "b64_loop (pre @ b64_encode (a # b # c # r) @ rest) (length pre) (don @ blank) (length don) out_len =
      b64_loop (pre @ b64_encode (a # b # c # r) @ rest) (length pre + 4) (don @ a # b # c # b') (length don + 3) out_len"
    using 4(2) b64_group_full [of pre a b c r rest don u v w b', folded b]
    by (subst b64_loop.simps) (simp del: b64_encode.simps)
  then have "b64_loop (pre @ b64_encode (a # b # c # r) @ rest) (length pre) (don @ blank) (length don) out_len =
      b64_loop ((pre @ q) @ b64_encode r @ rest) (length (pre @ q)) ((don @ [a, b, c]) @ b') (length (don @ [a, b, c])) out_len"
    unfolding q(1) using q(2) by (simp add: numeral_3_eq_3)
  ultimately show ?case
    unfolding q(1) using q(2) by (simp add: add.assoc)
qed

lemma b64_decode_inverse:
  assumes "length out = length bs"
  shows "b64_decode (Some (b64_encode bs @ rest)) (length (b64_encode bs)) (Some out) (length bs) = Some (1, Some bs)"
  using b64_loop_encode [of out bs "[]" rest "[]" "[]"] b64_encode_valid [of bs] assms
  by (simp add: b64_decode_def)

section \<open>Properties\<close>

text \<open>
  C3. The decoder inverts the standard encoding: for every byte string, decoding its encoding
  into a buffer of its length, as is done with the 88 character signature and with the 44
  character public key, succeeds, stays inside both buffers and yields the byte string.
\<close>

theorem b64_decode_encode:
  assumes "length out = length bs"
  shows "b64_decode (Some (b64_encode bs @ rest)) (length (b64_encode bs)) (Some out) (length bs) = Some (1, Some bs)"
  using assms by (rule b64_decode_inverse)

theorem b64_decode_encode_witness:
  "b64_decode (Some (''SU9UQQ=='' @ [NUL])) 8 (Some (replicate 4 NUL)) 4 = Some (1, Some ''IOTA'')"
proof -
  have e: "b64_encode ''IOTA'' = ''SU9UQQ==''" by code_simp
  show ?thesis
    using b64_decode_encode [of "replicate 4 NUL" "''IOTA''" "[NUL]"] unfolding e by (simp add: eval_nat_numeral)
qed

text \<open>
  The decoder does not stop at the end of its input: the loop condition only compares the
  output position. A correctly encoded text that is too short for the output, such as a
  signature of fewer than 62 bytes decoded into 64, is read past its terminator.
\<close>

theorem b64_decode_reads_past_input:
  assumes "3 * ((length bs + 2) div 3) < length out"
  shows "b64_decode (Some (b64_encode bs @ [NUL])) (length (b64_encode bs)) (Some out) (length out) = None"
proof -
  let ?inp = "[] @ b64_encode bs @ [NUL]"
  obtain out' j where "j < length out" "b64_loop ?inp 0 out 0 (length out) =
      b64_loop ?inp (length (b64_encode bs)) out' j (length out)"
    using b64_loop_passes [of "[]" bs "length out" out "[]" "[NUL]"] assms by auto
  moreover have "b64_group ?inp (length (b64_encode bs)) out' j = None"
    by (simp add: b64_group_def buf_get_def b64_inv_def char_code_def)
  ultimately have "b64_loop ?inp 0 out 0 (length out) = None"
    by (simp add: b64_loop.simps [of _ _ out' j])
  then show ?thesis
    using b64_encode_valid [of bs] by (simp add: b64_decode_def)
qed

theorem b64_decode_reads_past_input_witness:
  "b64_decode (Some (''SU9UQQ=='' @ [NUL])) 8 (Some (replicate 12 NUL)) 12 = None"
proof -
  have e: "b64_encode ''IOTA'' = ''SU9UQQ==''" "length (b64_encode ''IOTA'') = 8" by code_simp+
  have "b64_decode (Some (b64_encode ''IOTA'' @ [NUL])) (length (b64_encode ''IOTA'')) (Some (replicate 12 NUL))
          (length (replicate 12 NUL)) = None"
    by (rule b64_decode_reads_past_input) simp
  then show ?thesis
    unfolding e(2) unfolding e(1) length_replicate .
qed

end
