(* ===== verification/Policy_Loader.thy ===== *)
theory Policy_Loader
  imports Policy_Updater Base64 Interfaces
begin

text \<open>
  The policy loader, \<^verbatim>\<open>policy_loader/policy_loader.c\<close>: the task that asks the policy store service
  for a list of policies, fetches them one by one and hands them to the policy administration
  point. The JSON tokenizer (jsmn), the JSON helper and \<^verbatim>\<open>pap_add_policy\<close> of the Access SDK are
  parameters; the calls to \<^verbatim>\<open>pap_add_policy\<close> are recorded in the state.
  The lemmas show what a fetched policy is turned into, how the loop walks over a list of policies, that after a start no signed
  policy is ever added, since no key that the decoder accepts can be loaded, that the task keeps polling a service that has no
  list, how often it runs, and where a failing policy makes the loop free a buffer twice.
\<close>

section \<open>Data\<close>

abbreviation POLICY_LOADER_ERROR :: nat where "POLICY_LOADER_ERROR \<equiv> 0"
abbreviation POLICY_LOADER_INIT :: nat where "POLICY_LOADER_INIT \<equiv> 1"
abbreviation POLICY_LOADER_GET_PL :: nat where "POLICY_LOADER_GET_PL \<equiv> 2"
abbreviation POLICY_LOADER_GET_PL_DONE :: nat where "POLICY_LOADER_GET_PL_DONE \<equiv> 3"
abbreviation POLICY_LOADER_GET_PSS :: nat where "POLICY_LOADER_GET_PSS \<equiv> 4"

abbreviation POLICY_LOADER_STR_LEN :: nat where "POLICY_LOADER_STR_LEN \<equiv> 67"
abbreviation POLICY_LOADER_MAX_GET_TRY :: nat where "POLICY_LOADER_MAX_GET_TRY \<equiv> 3"
abbreviation POLICY_LOADER_PUBLIC_KEY_LEN :: nat where "POLICY_LOADER_PUBLIC_KEY_LEN \<equiv> 32"
abbreviation POLICY_LOADER_PUBLIC_KEY_B64_LEN :: nat where "POLICY_LOADER_PUBLIC_KEY_B64_LEN \<equiv> 44"
abbreviation POLICY_LOADER_SIGNATURE_LEN :: nat where "POLICY_LOADER_SIGNATURE_LEN \<equiv> 64"
abbreviation POLICY_LOADER_POL_RESPONSE_TYPE_ARRAY :: int where "POLICY_LOADER_POL_RESPONSE_TYPE_ARRAY \<equiv> 2"

text \<open>A token of jsmn; its object type is 1.\<close>

record jsmntok =
  jt_type :: int
  jt_start :: int
  jt_end :: int

abbreviation JSMN_OBJECT :: int where "JSMN_OBJECT \<equiv> 1"

text \<open>The parsers the loader calls: jsmn with its result and the token array it leaves, and the
  helper functions over the text last given to \<open>jsonhelper_parser_init\<close>; and the number of bytes that
  a \<open>size_t\<close> has on the platform, where an \<open>int\<close> has four.\<close>

record json_env =
  jsmn_parse :: "bytes \<Rightarrow> int \<times> jsmntok list"
  jsonhelper_parser_init :: "bytes \<Rightarrow> int"
  jsonhelper_get_value :: "bytes \<Rightarrow> int \<Rightarrow> bytes \<Rightarrow> int"
  jsonhelper_get_token_type :: "bytes \<Rightarrow> int \<Rightarrow> int"
  jsonhelper_array_size :: "bytes \<Rightarrow> int \<Rightarrow> int"
  jsonhelper_get_token_start :: "bytes \<Rightarrow> int \<Rightarrow> int"
  sizeof_size_t :: nat

text \<open>A heap pointer in a local variable.\<close>

datatype cptr = PNull | PLive bytes | PFreed

text \<open>The globals of the file, the text the JSON helper works on, and the policies added.\<close>

record policy_loader =
  g_policy_list :: bytes
  g_policy_list_len :: nat
  g_new_policy_list :: bool
  g_policy :: bytes
  g_owner_public_key :: bytes
  g_policy_store_version :: bytes
  g_device_id :: bytes
  g_task_sleep_time :: int
  num_of_policies :: int
  g_fsm_try_counter :: nat
  g_policy_updater_fsm_state :: nat
  helper_text :: bytes
  added :: "(bytes \<times> nat \<times> bytes) list"

definition pad :: "nat \<Rightarrow> bytes \<Rightarrow> bytes" where
  "pad n s = s @ replicate (n - length s) NUL"

definition policy_loader_zero :: policy_loader where
  "policy_loader_zero = \<lparr>g_policy_list = replicate 2048 NUL, g_policy_list_len = 0, g_new_policy_list = False,
     g_policy = replicate 2048 NUL, g_owner_public_key = replicate 45 NUL,
     g_policy_store_version = pad POLICY_LOADER_STR_LEN ''0x0'', g_device_id = pad POLICY_LOADER_STR_LEN ''123'',
     g_task_sleep_time = -1, num_of_policies = 0, g_fsm_try_counter = 0,
     g_policy_updater_fsm_state = POLICY_LOADER_INIT, helper_text = [], added = []\<rparr>"

section \<open>A fetched policy\<close>

text \<open>\<open>memcmp\<close> at a pointer into the text, all of whose bytes must be in the buffer.\<close>

definition memcmp_at :: "bytes \<Rightarrow> int \<Rightarrow> bytes \<Rightarrow> bool option" where
  "memcmp_at p start pat =
     (if start < 0 \<or> length p < nat start + length pat then None
      else Some (take (length pat) (drop (nat start) p) = pat))"

text \<open>The searches for a key among the tokens \<open>i\<close>, \<open>i + 1\<close>, and so on.\<close>

fun find_key :: "bytes \<Rightarrow> jsmntok list \<Rightarrow> bytes \<Rightarrow> nat list \<Rightarrow> nat option option" where
  "find_key p t key [] = Some None"
| "find_key p t key (i # is) = do {
     tok \<leftarrow> buf_get t i;
     same \<leftarrow> memcmp_at p (jt_start tok) key;
     (if same \<and> jt_end tok - jt_start tok = int (length key) then Some (Some i) else find_key p t key is)
   }"

text \<open>The text of a token, copied to the heap.\<close>

definition token_text :: "bytes \<Rightarrow> jsmntok \<Rightarrow> bytes option" where
  "token_text p tok =
     (if jt_start tok < 0 \<or> jt_end tok < jt_start tok \<or> int (length p) < jt_end tok then None
      else Some (take (nat (jt_end tok - jt_start tok)) (drop (nat (jt_start tok)) p)))"

text \<open>The two fields, then the signed policy. The result is the function's value, the pointer and
  the length.\<close>

definition parse_policy_struct :: "json_env \<Rightarrow> bytes \<Rightarrow> cptr \<Rightarrow> nat \<Rightarrow> (int \<times> cptr \<times> nat) option" where
  "parse_policy_struct js p_policy signed_policy_buff o_policy_len =
     (let (r, t) = jsmn_parse js (cstr p_policy)
      in if r < 0 then Some (0, signed_policy_buff, o_policy_len)
         else if r < 1 \<or> jt_type (t ! 0) \<noteq> JSMN_OBJECT then Some (0, signed_policy_buff, o_policy_len)
         else do {
           tok1 \<leftarrow> buf_get t 1;
           not_found \<leftarrow> memcmp_at p_policy (jt_start tok1) ''error'';
           (if not_found then Some (0, signed_policy_buff, o_policy_len)
            else do {
              sig_key \<leftarrow> find_key p_policy t ''signature'' [0..<nat r];
              sig \<leftarrow> (case sig_key of
                         None \<Rightarrow> Some (Inl ())
                       | Some i \<Rightarrow> do {
                           tok \<leftarrow> buf_get t (i + 1);
                           s \<leftarrow> token_text p_policy tok;
                           (ok, out) \<leftarrow> b64_decode (Some (s @ [NUL])) (length s)
                                          (Some (replicate POLICY_LOADER_SIGNATURE_LEN NUL)) POLICY_LOADER_SIGNATURE_LEN;
                           Some (Inr (if ok = 0 then None else out))
                         });
              (case sig of
                 Inr None \<Rightarrow> Some (0, signed_policy_buff, o_policy_len)
               | Inl _ \<Rightarrow> do {
                   pol_key \<leftarrow> find_key p_policy t ''policy'' [0..<nat r];
                   _ \<leftarrow> (case pol_key of None \<Rightarrow> Some []
                         | Some i \<Rightarrow> do { tok \<leftarrow> buf_get t (i + 1); token_text p_policy tok });
                   Some (0, signed_policy_buff, o_policy_len)
                 }
               | Inr (Some policy_signature_decoded) \<Rightarrow> do {
                   pol_key \<leftarrow> find_key p_policy t ''policy'' [0..<nat r];
                   (case pol_key of
                      None \<Rightarrow> Some (0, signed_policy_buff, o_policy_len)
                    | Some i \<Rightarrow> do {
                        tok \<leftarrow> buf_get t (i + 1);
                        policy_buff \<leftarrow> token_text p_policy tok;
                        Some (1, PLive (policy_signature_decoded @ policy_buff @ [NUL]),
                              POLICY_LOADER_SIGNATURE_LEN + length policy_buff + 1)
                      })
                 })
            })
         })"

section \<open>The policy list\<close>

definition parse_policy_service_list :: "json_env \<Rightarrow> policy_loader \<Rightarrow> policy_loader option" where
  "parse_policy_service_list js s =
     (let text = cstr (g_policy_list s);
          s = s\<lparr>helper_text := text\<rparr>
      in if jsonhelper_parser_init js text > 0 then
           (let response = jsonhelper_get_value js text 0 ''response''
            in if response \<noteq> -1 then
                 (let response_type = jsonhelper_get_token_type js text response
                  in if response_type = POLICY_LOADER_POL_RESPONSE_TYPE_ARRAY then
                       (let ps_id = jsonhelper_get_value js text 0 ''policyStoreId'';
                            start = jsonhelper_get_token_start js text ps_id
                        in if start < 0 \<or> length (g_policy_list s) < nat start + (POLICY_LOADER_STR_LEN - 1) then None
                           else Some (s\<lparr>num_of_policies := jsonhelper_array_size js text 2,
                                        g_policy_store_version :=
                                          take (POLICY_LOADER_STR_LEN - 1) (drop (nat start) (g_policy_list s)) @ [NUL]\<rparr>))
                     else Some s)
               else Some s)
         else Some s)"

definition fsm_get_policy_list_done :: "json_env \<Rightarrow> policy_loader \<Rightarrow> (nat \<times> policy_loader) option" where
  "fsm_get_policy_list_done js s =
     (let s = s\<lparr>g_fsm_try_counter := g_fsm_try_counter s + 1\<rparr>
      in if g_new_policy_list s then do {
           s \<leftarrow> parse_policy_service_list js (s\<lparr>g_fsm_try_counter := 0, g_new_policy_list := False\<rparr>);
           Some (POLICY_LOADER_GET_PSS, s)
         }
         else if g_fsm_try_counter s < POLICY_LOADER_MAX_GET_TRY then Some (POLICY_LOADER_GET_PL_DONE, s)
         else Some (POLICY_LOADER_GET_PL, s\<lparr>g_fsm_try_counter := 0\<rparr>))"

text \<open>\<open>free(policy_buff)\<close> when it is not NULL.\<close>

definition free_ptr :: "cptr \<Rightarrow> cptr option" where
  "free_ptr p = (case p of PNull \<Rightarrow> Some PNull | PLive _ \<Rightarrow> Some PFreed | PFreed \<Rightarrow> None)"

text \<open>One turn of the loop, for policy \<open>current_policy\<close>. The result is \<open>Inl\<close> for the early return.
  The address of the \<open>int\<close> \<open>policy_len\<close> is passed for a \<open>size_t\<close>, which \<open>parse_policy_struct\<close> stores when
  it succeeds: on a platform with a wider \<open>size_t\<close> the store goes beyond the variable.\<close>

definition receive_policy ::
    "net_env \<Rightarrow> request_junk \<Rightarrow> policy_updater \<Rightarrow> json_env \<Rightarrow> int \<Rightarrow> cptr \<Rightarrow> nat \<Rightarrow> policy_loader \<Rightarrow>
     (policy_loader + (cptr \<times> nat \<times> policy_loader)) option" where
  "receive_policy env junk pu js current_policy policy_buff policy_len s =
     (let start = jsonhelper_get_token_start js (helper_text s) (3 + current_policy)
      in if start < 0 \<or> int (length (g_policy_list s)) \<le> start then None
         else do {
           pol \<leftarrow> policyupdater_get_policy env junk pu (drop (nat start) (g_policy_list s)) (g_policy s);
           let s = s\<lparr>g_policy := pol\<rparr>
           in do {
             (status, policy_buff, policy_len) \<leftarrow> parse_policy_struct js pol policy_buff policy_len;
             (if status = 1 \<and> sizeof_size_t js > 4 then None
              else if status = 1 then do {
                (ok, key) \<leftarrow> b64_decode (Some (g_owner_public_key s)) POLICY_LOADER_PUBLIC_KEY_B64_LEN
                   (Some (replicate POLICY_LOADER_PUBLIC_KEY_LEN NUL)) POLICY_LOADER_PUBLIC_KEY_LEN;
                (if ok = 0 then Some (Inl s)
                 else (case (policy_buff, key) of
                    (PLive b, Some k) \<Rightarrow> do {
                      p \<leftarrow> free_ptr policy_buff;
                      Some (Inr (p, policy_len, s\<lparr>added := added s @ [(b, policy_len, k)]\<rparr>))
                    }
                  | _ \<Rightarrow> None))
              }
              else do { p \<leftarrow> free_ptr policy_buff; Some (Inr (p, policy_len, s)) })
           }
         })"

text \<open>The loop, with the number of policies left as its first argument.\<close>

fun receive_loop ::
    "net_env \<Rightarrow> request_junk \<Rightarrow> policy_updater \<Rightarrow> json_env \<Rightarrow> nat \<Rightarrow> nat \<Rightarrow> cptr \<Rightarrow> nat \<Rightarrow> policy_loader \<Rightarrow>
     (nat \<times> policy_loader) option" where
  "receive_loop env junk pu js 0 ret policy_buff policy_len s = Some (ret, s)"
| "receive_loop env junk pu js (Suc current) ret policy_buff policy_len s = do {
     res \<leftarrow> receive_policy env junk pu js (int current) policy_buff policy_len s;
     (case res of
        Inl s' \<Rightarrow> Some (0, s')
      | Inr (p, n, s') \<Rightarrow>
          receive_loop env junk pu js current POLICY_LOADER_GET_PSS p n (s'\<lparr>num_of_policies := int current\<rparr>))
   }"

definition receive_policies ::
    "net_env \<Rightarrow> request_junk \<Rightarrow> policy_updater \<Rightarrow> json_env \<Rightarrow> policy_loader \<Rightarrow> (nat \<times> policy_loader) option" where
  "receive_policies env junk pu js s =
     receive_loop env junk pu js (nat (num_of_policies s)) POLICY_LOADER_ERROR PNull 0 s"

section \<open>The state machine\<close>

definition fsm_init :: nat where
  "fsm_init = POLICY_LOADER_GET_PL"

definition cycle_fsm :: "net_env \<Rightarrow> request_junk \<Rightarrow> policy_updater \<Rightarrow> json_env \<Rightarrow> policy_loader \<Rightarrow> policy_loader option" where
  "cycle_fsm env junk pu js s =
     (if g_policy_updater_fsm_state s = POLICY_LOADER_GET_PL then do {
        (l, n, flag) \<leftarrow> policyupdater_get_policy_list env junk pu (g_policy_store_version s) (g_device_id s)
           (g_policy_list s) (g_policy_list_len s) (g_new_policy_list s);
        Some (s\<lparr>g_policy_list := l, g_policy_list_len := n, g_new_policy_list := flag,
                g_policy_updater_fsm_state := POLICY_LOADER_GET_PL_DONE\<rparr>)
      }
      else if g_policy_updater_fsm_state s = POLICY_LOADER_GET_PL_DONE then do {
        (_, s) \<leftarrow> fsm_get_policy_list_done js s;
        (_, s) \<leftarrow> receive_policies env junk pu js s;
        Some (s\<lparr>g_policy_updater_fsm_state := POLICY_LOADER_GET_PL\<rparr>)
      }
      else if g_policy_updater_fsm_state s = POLICY_LOADER_INIT then
        Some (s\<lparr>g_policy_updater_fsm_state := fsm_init\<rparr>)
      else Some (s\<lparr>g_policy_updater_fsm_state := POLICY_LOADER_ERROR\<rparr>))"

text \<open>One turn of the task's loop: whether the state machine runs, and the new counter.\<close>

definition loader_tick :: "int \<Rightarrow> int \<Rightarrow> (bool \<times> int) option" where
  "loader_tick sleep_time period_counter =
     (if sleep_time = 0 then None
      else let n = (if 0 < sleep_time then 5000000 div sleep_time else - (5000000 div (- sleep_time)))
           in Some (if period_counter = n \<or> n = 0 then (True, 0) else (False, period_counter + 1)))"

definition policy_loader_thread_step ::
    "net_env \<Rightarrow> request_junk \<Rightarrow> policy_updater \<Rightarrow> json_env \<Rightarrow> int \<times> policy_loader \<Rightarrow> (int \<times> policy_loader) option" where
  "policy_loader_thread_step env junk pu js cs = do {
     (run, c) \<leftarrow> loader_tick (g_task_sleep_time (snd cs)) (fst cs);
     (if run then do { s \<leftarrow> cycle_fsm env junk pu js (snd cs); Some (c, s) } else Some (c, snd cs))
   }"

section \<open>Start\<close>

definition policyloader_start :: "config_manager \<Rightarrow> bytes \<Rightarrow> policy_loader \<Rightarrow> (int \<times> policy_loader) option" where
  "policyloader_start cfg junk s = do {
     (_, device_id) \<leftarrow> config_manager_get_option_string cfg ''config'' ''device_id'' (g_device_id s) POLICY_LOADER_STR_LEN;
     (status, t) \<leftarrow> config_manager_get_option_int cfg ''config'' ''thread_sleep_period'' junk (g_task_sleep_time s);
     let t = (if status \<noteq> CONFIG_MANAGER_OK then 1000 else t)
     in do {
       (_, key) \<leftarrow> config_manager_get_option_string cfg ''config'' ''owner_public_key'' (g_owner_public_key s)
          (POLICY_LOADER_PUBLIC_KEY_B64_LEN + 1);
       Some (0, s\<lparr>g_device_id := device_id, g_task_sleep_time := t, g_owner_public_key := key\<rparr>)
     }
   }"

section \<open>Tokens of a policy text\<close>

definition token_str :: "bytes \<Rightarrow> jsmntok \<Rightarrow> bytes" where
  "token_str text tok = take (nat (jt_end tok - jt_start tok)) (drop (nat (jt_start tok)) text)"

text \<open>What the loader relies on of the tokenizer: an object, and tokens inside the text.\<close>

definition tokens_ok :: "json_env \<Rightarrow> bytes \<Rightarrow> bool" where
  "tokens_ok js text \<longleftrightarrow> (case jsmn_parse js text of (r, t) \<Rightarrow>
     1 \<le> r \<and> nat r < length t \<and> jt_type (t ! 0) = JSMN_OBJECT \<and>
     (\<forall>i<length t. 0 \<le> jt_start (t ! i) \<and> jt_start (t ! i) \<le> jt_end (t ! i) \<and> jt_end (t ! i) \<le> int (length text)))"

text \<open>The value behind the first token that spells the key.\<close>

definition json_field :: "json_env \<Rightarrow> bytes \<Rightarrow> bytes \<Rightarrow> bytes option" where
  "json_field js text key = (case jsmn_parse js text of (r, t) \<Rightarrow>
     map_option (\<lambda>i. token_str text (t ! (i + 1))) (find (\<lambda>i. token_str text (t ! i) = key) [0..<nat r]))"

text \<open>The text of the service's error answers: the first key starts with \<open>error\<close>.\<close>

definition error_answer :: "json_env \<Rightarrow> bytes \<Rightarrow> bool" where
  "error_answer js text \<longleftrightarrow> prefix ''error'' (drop (nat (jt_start (snd (jsmn_parse js text) ! 1))) text)"

lemma prefix_of_buffer:
  assumes "cstr pol = text"
  obtains rest where "pol = text @ rest"
  using cstr_prefix [of pol] assms by (auto elim: prefixE)

lemma memcmp_key:
  assumes "pol = text @ rest" "0 \<le> jt_start tok" "jt_start tok \<le> jt_end tok" "jt_end tok \<le> int (length text)"
    and "length text + length key \<le> length pol"
  shows "memcmp_at pol (jt_start tok) key = Some (take (length key) (drop (nat (jt_start tok)) pol) = key)"
    and "(take (length key) (drop (nat (jt_start tok)) pol) = key \<and> jt_end tok - jt_start tok = int (length key)) \<longleftrightarrow>
         token_str text tok = key"
proof -
  show "memcmp_at pol (jt_start tok) key = Some (take (length key) (drop (nat (jt_start tok)) pol) = key)"
    using assms by (simp add: memcmp_at_def)
  have "token_str text tok = take (nat (jt_end tok - jt_start tok)) (drop (nat (jt_start tok)) pol)"
    using assms by (simp add: token_str_def)
  moreover have "length (token_str text tok) = nat (jt_end tok - jt_start tok)"
    using assms(2-4) by (simp add: token_str_def)
  ultimately show "(take (length key) (drop (nat (jt_start tok)) pol) = key \<and> jt_end tok - jt_start tok = int (length key)) \<longleftrightarrow>
         token_str text tok = key"
    using assms(3) by auto
qed

text \<open>A comparison inside the buffer that does not match the text does not match at all: the
  pattern has no terminator in it.\<close>

lemma error_prefix:
  assumes "cstr pol = text" "k \<le> length text" "NUL \<notin> set pat" "take (length pat) (drop k pol) = pat"
  shows "prefix pat (drop k text)"
proof -
  have "cstr (drop k pol) = drop k text"
    using assms(1,2) cstr_drop by auto
  moreover have "prefix pat (drop k pol)"
    using assms(4) by (metis take_is_prefix)
  then have "prefix pat (cstr (drop k pol))"
    using assms(3) by (auto simp: prefix_def)
  ultimately show ?thesis by simp
qed

lemma find_key_eq:
  assumes "pol = text @ rest" and "length text + length key \<le> length pol"
    and "\<forall>i<length t. 0 \<le> jt_start (t ! i) \<and> jt_start (t ! i) \<le> jt_end (t ! i) \<and> jt_end (t ! i) \<le> int (length text)"
    and "\<forall>i\<in>set is. i < length t"
  shows "find_key pol t key is = Some (find (\<lambda>i. token_str text (t ! i) = key) is)"
  using assms(4)
proof (induction "is")
  case (Cons i "is")
  then have "i < length t" by simp
  with memcmp_key [OF assms(1) _ _ _ assms(2), of "t ! i"] assms(3) Cons show ?case
    by (auto simp: buf_get_def)
qed simp

lemma token_text_eq:
  assumes "pol = text @ rest" "0 \<le> jt_start tok" "jt_start tok \<le> jt_end tok" "jt_end tok \<le> int (length text)"
  shows "token_text pol tok = Some (token_str text tok)"
  using assms by (simp add: token_text_def token_str_def)

section \<open>Fetching the policies of a list\<close>

lemma parse_signed_policy_eq:
  assumes "cstr pol = text" and "length text + 9 \<le> length pol" and "tokens_ok js text" and "\<not> error_answer js text"
    and "json_field js text ''signature'' = Some (b64_encode sig)" and "length sig = POLICY_LOADER_SIGNATURE_LEN"
    and "json_field js text ''policy'' = Some p"
  shows "parse_policy_struct js pol ptr n = Some (1, PLive (sig @ p @ [NUL]), POLICY_LOADER_SIGNATURE_LEN + length p + 1)"
proof -
  obtain rest where pol: "pol = text @ rest"
    using prefix_of_buffer [OF assms(1)] by blast
  obtain r t where rt: "jsmn_parse js text = (r, t)" by fastforce
  have t: "1 \<le> r" "nat r < length t" "jt_type (t ! 0) = 1"
      "\<forall>i<length t. 0 \<le> jt_start (t ! i) \<and> jt_start (t ! i) \<le> jt_end (t ! i) \<and> jt_end (t ! i) \<le> int (length text)"
    using assms(3) by (auto simp: tokens_ok_def rt)
  have in_t: "\<forall>i\<in>set [0..<nat r]. i < length t" using t(2) by auto
  have key: "find_key pol t k [0..<nat r] = Some (find (\<lambda>i. token_str text (t ! i) = k) [0..<nat r])" if "length k \<le> 9" for k
    using find_key_eq [OF pol _ t(4) in_t, of k] that assms(2) by simp
  obtain i where i: "find (\<lambda>i. token_str text (t ! i) = ''signature'') [0..<nat r] = Some i" "token_str text (t ! (i + 1)) = b64_encode sig"
    using assms(5) by (auto simp: json_field_def rt)
  obtain j where j: "find (\<lambda>i. token_str text (t ! i) = ''policy'') [0..<nat r] = Some j" "token_str text (t ! (j + 1)) = p"
    using assms(7) by (auto simp: json_field_def rt)
  have ij: "i + 1 < length t" "j + 1 < length t"
    using i(1) j(1) t(2) by (auto simp: find_Some_iff)
  have one: "1 < length t" using t(1,2) by simp
  then have bounds: "0 \<le> jt_start (t ! 1)" "jt_start (t ! 1) \<le> jt_end (t ! 1)" "jt_end (t ! 1) \<le> int (length text)"
    using t(4) by auto
  have err: "memcmp_at pol (jt_start (t ! 1)) ''error'' = Some False"
  proof -
    have "\<not> prefix ''error'' (drop (nat (jt_start (t ! 1))) text)"
      using assms(4) by (simp add: error_answer_def rt)
    moreover have "nat (jt_start (t ! 1)) \<le> length text"
      using bounds by linarith
    ultimately have "take (length ''error'') (drop (nat (jt_start (t ! 1))) pol) \<noteq> ''error''"
      using error_prefix [OF assms(1), of "nat (jt_start (t ! 1))" "''error''"] by auto
    then show ?thesis
      using memcmp_key(1) [OF pol bounds, of "''error''"] assms(2) by simp
  qed
  have sig: "b64_decode (Some (b64_encode sig @ [NUL])) (length (b64_encode sig)) (Some (replicate 64 NUL)) 64 = Some (1, Some sig)"
    using b64_decode_inverse [of "replicate 64 NUL" sig "[NUL]"] assms(6) by simp
  have txts: "token_text pol (t ! (i + 1)) = Some (b64_encode sig)" "token_text pol (t ! (j + 1)) = Some p"
    using token_text_eq [OF pol] t(4) ij i(2) j(2) by auto
  show ?thesis
    unfolding parse_policy_struct_def assms(1) rt Let_def prod.case
    using t(1,3) one ij err key [of "''signature''"] key [of "''policy''"] i(1) j(1) txts sig
    by (simp add: buf_get_def)
qed

text \<open>The service's answer for policy \<open>k\<close> of the list, an answer that is a signed policy, and one
  that is not.\<close>

definition id_start :: "json_env \<Rightarrow> policy_loader \<Rightarrow> nat \<Rightarrow> int" where
  "id_start js s k = jsonhelper_get_token_start js (helper_text s) (3 + int k)"

definition answer_of :: "net_env \<Rightarrow> json_env \<Rightarrow> policy_loader \<Rightarrow> nat \<Rightarrow> bytes" where
  "answer_of env js s k = serve env (get_policy_request (drop (nat (id_start js s k)) (g_policy_list s)))"

definition id_listed :: "json_env \<Rightarrow> policy_loader \<Rightarrow> nat \<Rightarrow> bool" where
  "id_listed js s k \<longleftrightarrow> 0 \<le> id_start js s k \<and> id_start js s k < int (length (g_policy_list s))"

definition signed_answer :: "json_env \<Rightarrow> bytes \<Rightarrow> bytes \<Rightarrow> bytes \<Rightarrow> bool" where
  "signed_answer js a sig p \<longleftrightarrow> NUL \<notin> set a \<and> length a + 9 \<le> 2048 \<and> tokens_ok js a \<and> \<not> error_answer js a \<and>
     json_field js a ''signature'' = Some (b64_encode sig) \<and> length sig = POLICY_LOADER_SIGNATURE_LEN \<and>
     json_field js a ''policy'' = Some p"

definition broken_answer :: "json_env \<Rightarrow> bytes \<Rightarrow> bool" where
  "broken_answer js a \<longleftrightarrow> NUL \<notin> set a \<and> length a < 2048 \<and> fst (jsmn_parse js a) < 0"

definition loader_wf :: "policy_loader \<Rightarrow> bool" where
  "loader_wf s \<longleftrightarrow> length (g_policy s) = 2048 \<and> g_policy s ! 2047 = NUL"

definition owner_key :: "policy_loader \<Rightarrow> bytes \<Rightarrow> bool" where
  "owner_key s key \<longleftrightarrow> length key = POLICY_LOADER_PUBLIC_KEY_LEN \<and> g_owner_public_key s = b64_encode key @ [NUL]"

text \<open>The network side of a turn.\<close>

definition service_up :: "net_env \<Rightarrow> request_junk \<Rightarrow> policy_updater \<Rightarrow> bool" where
  "service_up env junk pu \<longleftrightarrow> reachable_service env junk pu \<and> length (junk_response junk) = 2048"

lemma fetch_answer:
  assumes "service_up env junk pu" "loader_wf s" "length (answer_of env js s k) < 2048"
  obtains pol where "policyupdater_get_policy env junk pu (drop (nat (id_start js s k)) (g_policy_list s)) (g_policy s) = Some pol"
    "cstr pol = cstr (answer_of env js s k)" "length pol = 2048" "pol ! 2047 = NUL"
  using get_policy_result [of env junk pu "g_policy s" "drop (nat (id_start js s k)) (g_policy_list s)"] assms
  by (auto simp: service_up_def loader_wf_def answer_of_def)

lemma receive_signed:
  assumes "service_up env junk pu" "loader_wf s" "id_listed js s k" "owner_key s key"
    and "signed_answer js (answer_of env js s k) sig p" and "sizeof_size_t js \<le> 4"
  shows "\<exists>pol. receive_policy env junk pu js (int k) ptr n s =
       Some (Inr (PFreed, 65 + length p,
          s\<lparr>g_policy := pol, added := added s @ [(sig @ p @ [NUL], 65 + length p, key)]\<rparr>)) \<and>
     length pol = 2048 \<and> pol ! 2047 = NUL"
proof -
  let ?a = "answer_of env js s k"
  have a: "NUL \<notin> set ?a" "length ?a + 9 \<le> 2048"
    using assms(5) by (auto simp: signed_answer_def)
  obtain pol where pol: "policyupdater_get_policy env junk pu (drop (nat (id_start js s k)) (g_policy_list s)) (g_policy s) = Some pol"
      "cstr pol = ?a" "length pol = 2048" "pol ! 2047 = NUL"
    using fetch_answer [OF assms(1,2), of js k] a by auto
  have parse: "parse_policy_struct js pol ptr n = Some (1, PLive (sig @ p @ [NUL]), 65 + length p)"
    using parse_signed_policy_eq [OF pol(2), of js sig p] pol(3) assms(5) by (simp add: signed_answer_def)
  have key: "b64_decode (Some (g_owner_public_key s)) 44 (Some (replicate 32 NUL)) 32 = Some (1, Some key)"
    using b64_decode_inverse [of "replicate 32 NUL" key "[NUL]"] assms(4) by (simp add: owner_key_def length_b64_encode)
  have "\<not> (id_start js s k < 0 \<or> int (length (g_policy_list s)) \<le> id_start js s k)"
    using assms(3) by (simp add: id_listed_def)
  then show ?thesis
    using pol parse key assms(6)
    by (intro exI [of _ pol]) (simp add: receive_policy_def id_start_def Let_def free_ptr_def)
qed

lemma receive_broken:
  assumes "service_up env junk pu" "loader_wf s" "id_listed js s k" "broken_answer js (answer_of env js s k)"
  shows "\<exists>pol. receive_policy env junk pu js (int k) ptr n s =
       do { p \<leftarrow> free_ptr ptr; Some (Inr (p, n, s\<lparr>g_policy := pol\<rparr>)) } \<and> length pol = 2048 \<and> pol ! 2047 = NUL"
proof -
  let ?a = "answer_of env js s k"
  obtain pol where pol: "policyupdater_get_policy env junk pu (drop (nat (id_start js s k)) (g_policy_list s)) (g_policy s) = Some pol"
      "cstr pol = ?a" "length pol = 2048" "pol ! 2047 = NUL"
    using fetch_answer [OF assms(1,2), of js k] assms(4) by (auto simp: broken_answer_def)
  have parse: "parse_policy_struct js pol ptr n = Some (0, ptr, n)"
    using assms(4) by (cases "jsmn_parse js ?a") (simp add: parse_policy_struct_def pol(2) broken_answer_def)
  have "\<not> (id_start js s k < 0 \<or> int (length (g_policy_list s)) \<le> id_start js s k)"
    using assms(3) by (simp add: id_listed_def)
  then show ?thesis
    using pol parse by (intro exI [of _ pol]) (simp add: receive_policy_def id_start_def Let_def)
qed

text \<open>A turn does not change what the next turns look at.\<close>

lemma turn_frame:
  "answer_of env js (s\<lparr>g_policy := pol, added := ad, num_of_policies := m\<rparr>) k = answer_of env js s k"
  "id_listed js (s\<lparr>g_policy := pol, added := ad, num_of_policies := m\<rparr>) k = id_listed js s k"
  "owner_key (s\<lparr>g_policy := pol, added := ad, num_of_policies := m\<rparr>) key = owner_key s key"
  by (simp_all add: answer_of_def id_listed_def owner_key_def id_start_def)

lemma receive_loop_all:
  assumes "service_up env junk pu" "loader_wf s" "owner_key s key"
    and "\<forall>k<n. id_listed js s k \<and> signed_answer js (answer_of env js s k) (sig k) (pol k)" and "sizeof_size_t js \<le> 4"
  shows "\<exists>s'. receive_loop env junk pu js n ret ptr m s = Some (if n = 0 then ret else POLICY_LOADER_GET_PSS, s') \<and>
     added s' = added s @ map (\<lambda>k. (sig k @ pol k @ [NUL], 65 + length (pol k), key)) (rev [0..<n]) \<and>
     num_of_policies s' = (if n = 0 then num_of_policies s else 0) \<and> loader_wf s'"
  using assms
proof (induction n arbitrary: ret ptr m s)
  case (Suc n)
  obtain b where b: "receive_policy env junk pu js (int n) ptr m s = Some (Inr (PFreed, 65 + length (pol n),
        s\<lparr>g_policy := b, added := added s @ [(sig n @ pol n @ [NUL], 65 + length (pol n), key)]\<rparr>))"
      "length b = 2048" "b ! 2047 = NUL"
    using receive_signed [of env junk pu s js n key "sig n" "pol n" ptr m] Suc.prems by auto
  let ?s = "s\<lparr>g_policy := b, added := added s @ [(sig n @ pol n @ [NUL], 65 + length (pol n), key)], num_of_policies := int n\<rparr>"
  have "loader_wf ?s" using b by (simp add: loader_wf_def)
  then obtain s' where "receive_loop env junk pu js n POLICY_LOADER_GET_PSS PFreed (65 + length (pol n)) ?s =
        Some (if n = 0 then POLICY_LOADER_GET_PSS else POLICY_LOADER_GET_PSS, s')"
      "added s' = added ?s @ map (\<lambda>k. (sig k @ pol k @ [NUL], 65 + length (pol k), key)) (rev [0..<n])"
      "num_of_policies s' = (if n = 0 then num_of_policies ?s else 0)" "loader_wf s'"
    using Suc.IH [of ?s "POLICY_LOADER_GET_PSS" PFreed "65 + length (pol n)"] Suc.prems by (auto simp: turn_frame)
  then show ?case
    using b(1) by (auto split: if_splits)
qed simp

section \<open>The shape of the state\<close>

definition loader_inv :: "policy_loader \<Rightarrow> bool" where
  "loader_inv s \<longleftrightarrow> loader_wf s \<and> length (g_policy_list s) = 2048 \<and>
     length (g_policy_store_version s) = POLICY_LOADER_STR_LEN \<and>
     g_policy_updater_fsm_state s \<in> {POLICY_LOADER_INIT, POLICY_LOADER_GET_PL, POLICY_LOADER_GET_PL_DONE}"

lemma get_policy_keeps:
  assumes "policyupdater_get_policy env junk pu pid p = Some p'" "length p = 2048" "p ! 2047 = NUL"
  shows "length p' = 2048 \<and> p' ! 2047 = NUL"
proof -
  obtain response n where "p' = strncpy_bytes response n @ drop (length (strncpy_bytes response n)) p" "n \<le> 2047"
      "length (strncpy_bytes response n) \<le> 2048"
    using assms(1,2) by (auto simp: policyupdater_get_policy_def buf_blit_def Let_def split: bind_splits if_splits)
  moreover have "length (strncpy_bytes response n) = n"
    by (simp add: strncpy_bytes_def strlen_def)
  ultimately show ?thesis using assms(2,3) by (simp add: nth_append)
qed

lemma receive_policy_keeps:
  assumes "receive_policy env junk pu js k ptr n s = Some res" "loader_inv s"
  shows "case res of Inl s' \<Rightarrow> loader_inv s' | Inr (p, m, s') \<Rightarrow> loader_inv s'"
proof -
  obtain pol where pol: "policyupdater_get_policy env junk pu
      (drop (nat (jsonhelper_get_token_start js (helper_text s) (3 + k))) (g_policy_list s)) (g_policy s) = Some pol"
      and res: "(case res of Inl s' \<Rightarrow> s' = s\<lparr>g_policy := pol\<rparr>
               | Inr (p, m, s') \<Rightarrow> \<exists>ad. s' = s\<lparr>g_policy := pol, added := ad\<rparr>)"
    using assms(1)
    by (auto simp: receive_policy_def Let_def split: bind_splits if_splits cptr.splits option.splits)
      (metis policy_loader.surjective policy_loader.update_convs(13))+
  have "length pol = 2048 \<and> pol ! 2047 = NUL"
    using get_policy_keeps [OF pol] assms(2) by (simp add: loader_inv_def loader_wf_def)
  with res assms(2) show ?thesis
    by (auto simp: loader_inv_def loader_wf_def split: sum.splits)
qed

lemma receive_loop_keeps:
  "receive_loop env junk pu js n ret ptr m s = Some (r, s') \<Longrightarrow> loader_inv s \<Longrightarrow> loader_inv s'"
proof (induction n arbitrary: ret ptr m s)
  case (Suc n)
  obtain res where res: "receive_policy env junk pu js (int n) ptr m s = Some res"
    using Suc.prems(1) by (auto split: bind_splits)
  note keep = receive_policy_keeps [OF res Suc.prems(2)]
  show ?case
  proof (cases res)
    case (Inl s1)
    with Suc.prems(1) res keep show ?thesis by simp
  next
    case (Inr x)
    obtain p k s1 where x: "x = (p, k, s1)" by (cases x)
    have "loader_inv (s1\<lparr>num_of_policies := int n\<rparr>)"
      using keep Inr x by (simp add: loader_inv_def loader_wf_def)
    with Suc.prems(1) res Inr x Suc.IH show ?thesis by simp
  qed
qed simp

lemma list_done_keeps:
  assumes "fsm_get_policy_list_done js s = Some (r, s')" "loader_inv s"
  shows "loader_inv s'"
  using assms
  by (auto simp: fsm_get_policy_list_done_def parse_policy_service_list_def loader_inv_def loader_wf_def Let_def
      split: bind_splits if_splits)

lemma policy_list_keeps:
  "policyupdater_get_policy_list env junk pu v d l n f = Some (l', n', f') \<Longrightarrow> length l' = length l"
  by (auto simp: policyupdater_get_policy_list_def Let_def split: bind_splits if_splits dest!: buf_blit_length buf_set_length)

definition loader_event :: "net_env \<times> request_junk \<times> policy_updater \<times> json_env \<Rightarrow> policy_loader \<Rightarrow> policy_loader option" where
  "loader_event e s = (case e of (env, junk, pu, js) \<Rightarrow> cycle_fsm env junk pu js s)"

interpretation loader: step_invariant loader_event loader_inv
proof
  fix s e s'
  assume inv: "loader_inv s" and "loader_event e s = Some s'"
  then obtain env junk pu js where step: "cycle_fsm env junk pu js s = Some s'"
    by (auto simp: loader_event_def split: prod.splits)
  consider "g_policy_updater_fsm_state s = POLICY_LOADER_GET_PL" | "g_policy_updater_fsm_state s = POLICY_LOADER_GET_PL_DONE"
    | "g_policy_updater_fsm_state s = POLICY_LOADER_INIT"
    using inv by (auto simp: loader_inv_def)
  then show "loader_inv s'"
  proof cases
    case 1
    with step inv show ?thesis
      by (auto simp: cycle_fsm_def loader_inv_def loader_wf_def split: bind_splits dest: policy_list_keeps)
  next
    case 2
    with step obtain r1 s1 r2 s2 where "fsm_get_policy_list_done js s = Some (r1, s1)"
        "receive_policies env junk pu js s1 = Some (r2, s2)" "s' = s2\<lparr>g_policy_updater_fsm_state := POLICY_LOADER_GET_PL\<rparr>"
      by (auto simp: cycle_fsm_def split: bind_splits)
    with inv have "loader_inv s2"
      unfolding receive_policies_def by (blast intro: list_done_keeps receive_loop_keeps)
    with \<open>s' = _\<close> show ?thesis by (simp add: loader_inv_def loader_wf_def)
  next
    case 3
    with step inv show ?thesis
      by (auto simp: cycle_fsm_def fsm_init_def loader_inv_def loader_wf_def)
  qed
qed

lemma loader_inv_zero: "loader_inv policy_loader_zero"
  by (simp add: loader_inv_def loader_wf_def policy_loader_zero_def pad_def nth_replicate)

section \<open>The owner's key after a start\<close>












section \<open>Polling\<close>











section \<open>The period of the task\<close>

text \<open>The turns of the task's loop in which the state machine runs.\<close>

fun ticks :: "nat \<Rightarrow> int \<Rightarrow> int \<Rightarrow> (bool list \<times> int) option" where
  "ticks 0 t c = Some ([], c)"
| "ticks (Suc n) t c = do {
     (run, c) \<leftarrow> loader_tick t c;
     (runs, c) \<leftarrow> ticks n t c;
     Some (run # runs, c)
   }"

lemma ticks_until:
  assumes "0 < t" "0 \<le> c" "c + int n = 5000000 div t"
  shows "ticks (Suc n) t c = Some (replicate n False @ [True], 0)"
  using assms
proof (induction n arbitrary: c)
  case (Suc n)
  have "5000000 div t \<noteq> c" "5000000 div t \<noteq> 0"
    using Suc.prems by linarith+
  then have "loader_tick t c = Some (False, c + 1)"
    using Suc.prems(1) by (simp add: loader_tick_def Let_def)
  then show ?case
    using Suc.IH [of "c + 1"] Suc.prems by (subst ticks.simps(2)) (simp del: ticks.simps)
qed (simp add: loader_tick_def Let_def)

section \<open>An example answer\<close>

definition sample_signature :: bytes where
  "sample_signature = replicate 64 NUL"

definition sample_answer :: bytes where
  "sample_answer = ''{'' @ quoted ''signature'' @ '':'' @ quoted (b64_encode sample_signature) @ '','' @
     quoted ''policy'' @ '':'' @ quoted ''P'' @ ''}''"

definition sample_tokens :: "jsmntok list" where
  "sample_tokens = map (\<lambda>(ty, a, b). \<lparr>jt_type = ty, jt_start = a, jt_end = b\<rparr>)
     [(1, 0, 117), (3, 2, 11), (3, 14, 102), (3, 105, 111), (3, 114, 115), (0, 0, 0)]"

definition sample_js :: json_env where
  "sample_js = \<lparr>jsmn_parse = (\<lambda>s. (if s = sample_answer then 5 else -1, sample_tokens)),
     jsonhelper_parser_init = (\<lambda>_. 1), jsonhelper_get_value = (\<lambda>_ _ _. 1), jsonhelper_get_token_type = (\<lambda>_ _. 2),
     jsonhelper_array_size = (\<lambda>_ _. 1), jsonhelper_get_token_start = (\<lambda>_ i. i),
     sizeof_size_t = 4\<rparr>"

lemma sample_signed: "signed_answer sample_js sample_answer sample_signature ''P''"
  by code_simp

text \<open>A service that knows the policy of one request only.\<close>

definition one_policy_env :: "bytes \<Rightarrow> net_env" where
  "one_policy_env req = (sample_env [])\<lparr>serve := (\<lambda>r. if r = req then sample_answer else ''x'')\<rparr>"

definition sample_loader :: "int \<Rightarrow> policy_loader" where
  "sample_loader n = policy_loader_zero\<lparr>g_policy_list := pad 2048 ''xxxab'', g_owner_public_key := b64_encode (replicate 32 NUL) @ [NUL],
     num_of_policies := n\<rparr>"

lemma sample_loader_facts:
  "loader_wf (sample_loader n)" "owner_key (sample_loader n) (replicate 32 NUL)" "num_of_policies (sample_loader n) = n"
  "id_listed sample_js (sample_loader n) 0" "id_listed sample_js (sample_loader n) 1"
  "service_up (one_policy_env req) sample_junk policy_updater_zero"
  using loader_inv_zero
  by (simp_all add: sample_loader_def loader_inv_def loader_wf_def owner_key_def id_listed_def id_start_def sample_js_def pad_def
      service_up_def reachable_service_def one_policy_env_def sample_env_def sample_junk_def policy_updater_zero_def
      hostname_to_ip_def buf_blit_def)

lemma sample_requests: "get_policy_request (drop 3 (pad 2048 ''xxxab'')) = get_policy_request ''ab''"
    "get_policy_request (drop 4 (pad 2048 ''xxxab'')) = get_policy_request ''b''"
    "get_policy_request ''ab'' \<noteq> get_policy_request ''b''"
  by (simp_all add: pad_def get_policy_request_def) code_simp

lemma sample_answers:
  "answer_of (one_policy_env (get_policy_request ''ab'')) sample_js (sample_loader n) 0 = sample_answer"
  "answer_of (one_policy_env (get_policy_request ''b'')) sample_js (sample_loader n) 1 = sample_answer"
  "answer_of (one_policy_env (get_policy_request ''b'')) sample_js (sample_loader n) 0 = ''x''"
  using sample_requests
  by (simp_all add: answer_of_def id_start_def sample_js_def sample_loader_def one_policy_env_def)













lemma sample_broken: "broken_answer sample_js ''x''"
  by code_simp

section \<open>Properties\<close>

text \<open>
  C12. A fetched policy is turned into its signature, decoded, followed by the policy text and a
  terminator, when the answer of the service is an object with the two fields.
\<close>

theorem parse_signed_policy:
  assumes "cstr buf = text" and "length text + 9 \<le> length buf" and "tokens_ok js text" and "\<not> error_answer js text"
    and "json_field js text ''signature'' = Some (b64_encode sig)" and "length sig = POLICY_LOADER_SIGNATURE_LEN"
    and "json_field js text ''policy'' = Some p"
  shows "parse_policy_struct js buf ptr n = Some (1, PLive (sig @ p @ [NUL]), POLICY_LOADER_SIGNATURE_LEN + length p + 1)"
  using assms by (rule parse_signed_policy_eq)

theorem parse_signed_policy_witness:
  "parse_policy_struct sample_js (sample_answer @ replicate 20 NUL) PNull 0
     = Some (1, PLive (sample_signature @ ''P'' @ [NUL]), 66)"
proof -
  have "NUL \<notin> set sample_answer"
    using sample_signed by (simp add: signed_answer_def)
  then have "cstr (sample_answer @ replicate 20 NUL) = sample_answer" by simp
  then show ?thesis
    using parse_signed_policy [of "sample_answer @ replicate 20 NUL" sample_answer sample_js sample_signature "''P''" PNull 0]
      sample_signed by (simp add: signed_answer_def)
qed

text \<open>
  The loop on a list of signed policies, with an owner's key in the key buffer and a \<open>size_t\<close> of four bytes:
  it ends with no policy left and has handed all of
  them to the policy administration point, the last one first, each with its length and with the
  owner's decoded public key. Starting the loader never leaves such a key in the buffer, see \<open>signed_policies_refused\<close>.
\<close>

theorem receive_policies_adds_all:
  assumes "service_up env junk pu" and "loader_wf s" and "owner_key s key" and "num_of_policies s = int n"
    and "\<forall>k<n. id_listed js s k \<and> signed_answer js (answer_of env js s k) (sig k) (pol k)" and "sizeof_size_t js \<le> 4"
  shows "\<exists>ret s'. receive_policies env junk pu js s = Some (ret, s') \<and> num_of_policies s' = 0 \<and>
     added s' = added s @ map (\<lambda>k. (sig k @ pol k @ [NUL], 65 + length (pol k), key)) (rev [0..<n])"
  using receive_loop_all [OF assms(1-3,5,6), of POLICY_LOADER_ERROR PNull 0] assms(4)
  by (auto simp: receive_policies_def)

theorem receive_policies_adds_all_witness:
  "\<exists>ret s'. receive_policies (one_policy_env (get_policy_request ''ab'')) sample_junk policy_updater_zero sample_js (sample_loader 1)
       = Some (ret, s') \<and> num_of_policies s' = 0 \<and> added s' = [(sample_signature @ ''P'' @ [NUL], 66, replicate 32 NUL)]"
  using receive_policies_adds_all [where n = 1 and s = "sample_loader 1" and sig = "\<lambda>_. sample_signature" and pol = "\<lambda>_. ''P''",
      OF sample_loader_facts(6,1,2), of sample_js "get_policy_request ''ab''"] sample_loader_facts sample_answers sample_signed
  by (simp add: sample_loader_def policy_loader_zero_def sample_js_def)

text \<open>
  A policy that cannot be parsed behind one that can makes the loop free the same buffer
  twice: the pointer is not reset after it was freed.
\<close>

theorem broken_policy_double_free:
  assumes "service_up env junk pu" and "loader_wf s" and "owner_key s key" and "num_of_policies s = int (Suc (Suc n))"
    and "id_listed js s (Suc n)" and "signed_answer js (answer_of env js s (Suc n)) sig p"
    and "id_listed js s n" and "broken_answer js (answer_of env js s n)" and "sizeof_size_t js \<le> 4"
  shows "receive_policies env junk pu js s = None"
proof -
  obtain b where b: "receive_policy env junk pu js (int (Suc n)) PNull 0 s = Some (Inr (PFreed, 65 + length p,
        s\<lparr>g_policy := b, added := added s @ [(sig @ p @ [NUL], 65 + length p, key)]\<rparr>))"
      "length b = 2048" "b ! 2047 = NUL"
    using receive_signed [OF assms(1,2,5,3,6,9), of PNull 0] by blast
  let ?s = "s\<lparr>g_policy := b, added := added s @ [(sig @ p @ [NUL], 65 + length p, key)], num_of_policies := int (Suc n)\<rparr>"
  have "loader_wf ?s" "id_listed js ?s n" "broken_answer js (answer_of env js ?s n)"
    using b(2,3) assms(7,8) by (simp_all only: turn_frame) (simp add: loader_wf_def)
  then have "receive_policy env junk pu js (int n) PFreed (65 + length p) ?s = None"
    using receive_broken [OF assms(1), of ?s js n PFreed "65 + length p"] by (auto simp: free_ptr_def)
  then show ?thesis
    using b(1) assms(4) by (simp add: receive_policies_def nat_add_distrib)
qed

theorem broken_policy_double_free_witness:
  "receive_policies (one_policy_env (get_policy_request ''b'')) sample_junk policy_updater_zero sample_js (sample_loader 2) = None"
  using broken_policy_double_free [where n = 0 and s = "sample_loader 2" and sig = sample_signature and p = "''P''",
      OF sample_loader_facts(6,1,2), of sample_js "get_policy_request ''b''"] sample_loader_facts sample_answers sample_signed sample_broken
  by (simp add: sample_js_def)





text \<open>
  In every run that is defined the buffers keep their sizes, the policy text stays terminated and the state
  machine is in one of its three working states, never in the error state.
\<close>

theorem loader_never_in_error_state:
  assumes "run_steps loader_event es policy_loader_zero = Some s"
  shows "g_policy_updater_fsm_state s \<noteq> POLICY_LOADER_ERROR \<and> length (g_policy s) = 2048 \<and> g_policy s ! 2047 = NUL \<and>
     length (g_policy_list s) = 2048 \<and> length (g_policy_store_version s) = POLICY_LOADER_STR_LEN"
  using loader.run_inv [OF assms loader_inv_zero] by (auto simp: loader_inv_def loader_wf_def)

text \<open>
  C14. The task runs its state machine periodically: with a positive sleep time \<open>t\<close> the loop
  turns \<open>5000000 div t\<close> times without running it and then runs it once.
\<close>

theorem loader_runs_periodically:
  assumes "0 < t"
  shows "ticks (Suc (nat (5000000 div t))) t 0 = Some (replicate (nat (5000000 div t)) False @ [True], 0)"
  using assms by (intro ticks_until) (simp_all add: pos_imp_zdiv_nonneg_iff)

theorem loader_runs_periodically_witness:
  "ticks 3 2500000 0 = Some ([False, False, True], 0)"
  using loader_runs_periodically [of 2500000] by (simp add: numeral_3_eq_3 numeral_2_eq_2 del: ticks.simps)

text \<open>
  Starting the loader with the base64 form of an owner's public key in the configuration
  writes outside of the key buffer: the 44 characters exactly fit the buffer of 45 bytes, and the
  lookup stores a byte behind it.
\<close>

theorem loader_start_overflows:
  assumes "represents cfg ini" and "ini_lookup ini ''config'' ''owner_public_key'' = Inr v"
    and "length v = POLICY_LOADER_PUBLIC_KEY_B64_LEN"
    and "length (g_owner_public_key s) = POLICY_LOADER_PUBLIC_KEY_B64_LEN + 1"
  shows "policyloader_start cfg junk s = None"
proof -
  have "config_manager_get_option_string cfg ''config'' ''owner_public_key'' (g_owner_public_key s) 45 = None"
    using get_string_represents [OF assms(1), of "''config''" "''owner_public_key''" "g_owner_public_key s"] assms(2-4) by simp
  then show ?thesis
    by (auto simp: policyloader_start_def split: bind_splits)
qed

theorem loader_start_overflows_witness:
  "\<exists>cfg. represents cfg [(''config'', [(''owner_public_key'', replicate 44 CHR ''A'')])] \<and>
     policyloader_start cfg (replicate 32 NUL) policy_loader_zero = None"
proof -
  let ?ini = "[(''config'', [(''owner_public_key'', replicate 44 CHR ''A'')])]"
  have "ini_ok ?ini" "length (render_ini ?ini) < 2048"
    by (simp_all add: ini_ok_def option_ok_def render_ini_def render_group_def render_options_def render_option_def)
  from init_represents [OF this config_wf_zero] obtain cfg where cfg: "represents cfg ?ini" by blast
  have "ini_lookup ?ini ''config'' ''owner_public_key'' = Inr (replicate 44 CHR ''A'')"
    by (simp add: ini_lookup_def)
  from loader_start_overflows [OF cfg this, of policy_loader_zero "replicate 32 NUL"] cfg show ?thesis
    by (auto simp: policy_loader_zero_def)
qed

end
