(* ===== verification/Network.thy ===== *)
theory Network
  imports Policy_Updater Interfaces
begin

text \<open>
  The network server, \<^verbatim>\<open>network/network.c\<close>: the commands a client can send, the answer that is
  computed for each of them, the handling of one connection and of a sequence of connections,
  and the life of the server's context. The calls into the SDK (message format check, JSON helper,
  PEP, PIP and the user management of the PAP, the authentication) are the record \<open>net_sdk\<close>; what
  the calls that only have an effect are given is recorded in the state.
  The lemmas show which answer each decision of the PEP produces, which tokens overflow the
  server's buffers, for which requests the handling is defined and that over any sequence of them each
  client gets the answer of its own request, and what a failed start leaves behind.
\<close>

section \<open>Data\<close>

abbreviation SEND_BUFF_LEN :: nat where "SEND_BUFF_LEN \<equiv> 4096"
abbreviation BUF_LEN :: nat where "BUF_LEN \<equiv> 80"
abbreviation USERNAME_LEN :: nat where "USERNAME_LEN \<equiv> 128"
abbreviation USER_DATA_LEN :: nat where "USER_DATA_LEN \<equiv> 4096"

abbreviation COMMAND_RESOLVE :: int where "COMMAND_RESOLVE \<equiv> 0"
abbreviation COMMAND_GET_POL_LIST :: int where "COMMAND_GET_POL_LIST \<equiv> 1"
abbreviation COMMAND_ENABLE_POLICY :: int where "COMMAND_ENABLE_POLICY \<equiv> 2"
abbreviation COMMAND_SET_DATASET :: int where "COMMAND_SET_DATASET \<equiv> 3"
abbreviation COMMAND_GET_DATASET :: int where "COMMAND_GET_DATASET \<equiv> 4"
abbreviation COMMAND_GET_USER_OBJ :: int where "COMMAND_GET_USER_OBJ \<equiv> 5"
abbreviation COMMAND_GET_USERID :: int where "COMMAND_GET_USERID \<equiv> 6"
abbreviation COMMAND_REDISTER_USER :: int where "COMMAND_REDISTER_USER \<equiv> 7"
abbreviation COMMAND_GET_ALL_USER :: int where "COMMAND_GET_ALL_USER \<equiv> 8"
abbreviation COMMAND_CLEAR_ALL_USER :: int where "COMMAND_CLEAR_ALL_USER \<equiv> 9"

datatype user_action = PAP_USERMNG_GET_USER bytes | PAP_USERMNG_GET_USER_ID bytes | PAP_USERMNG_PUT_USER bytes
  | PAP_USERMNG_GET_ALL_USR | PAP_USERMNG_CLR_ALL_USR

text \<open>A token of the JSON helper: whether it is an array, and where it is in the text.\<close>

record net_token =
  nt_array :: bool
  nt_start :: int
  nt_end :: int

text \<open>
  What the server calls. \<open>pep_request_access\<close> and \<open>pap_user_management_action\<close> give the bytes
  they store at the pointer they are handed, \<open>pip_get_dataset\<close> the bytes of the dataset.
\<close>

record net_sdk =
  tokens_of :: "bytes \<Rightarrow> net_token list"
  auth_helper_check_msg_format :: "bytes \<Rightarrow> int"
  pep_request_access :: "bytes \<Rightarrow> bytes"
  pip_get_dataset :: bytes
  pap_user_management_action :: "user_action \<Rightarrow> bytes"

datatype net_effect = SetDataset bytes | UserAction user_action

text \<open>\<open>network_ctx_internal_t\<close>, without the thread and the two descriptors.\<close>

record network_ctx =
  ctx_state :: int
  DAC_AUTH :: int
  send_buffer :: bytes
  ctx_port :: int
  ctx_end :: bool
  effects :: "net_effect list"

text \<open>Where \<open>recv_data\<close> points after a command.\<close>

datatype recv_ptr = RecvBlock bytes | SendBuffer

section \<open>Commands\<close>

definition grant :: bytes where
  "grant = ''{'' @ quoted ''response'' @ '':'' @ quoted ''access granted'' @ ''}''"

definition deny :: bytes where
  "deny = ''{'' @ quoted ''response'' @ '':'' @ quoted ''access denied '' @ ''}''"

text \<open>The searches for a token: \<open>memcmp\<close> with the text of the token, all bytes in the block.\<close>

fun find_token :: "bytes \<Rightarrow> net_token list \<Rightarrow> bytes \<Rightarrow> nat \<Rightarrow> nat option option" where
  "find_token recv [] key i = Some None"
| "find_token recv (tok # toks) key i =
     (if nt_start tok < 0 \<or> length recv < nat (nt_start tok) + length key then None
      else if take (length key) (drop (nat (nt_start tok)) recv) = key then Some (Some i)
      else find_token recv toks key (Suc i))"

text \<open>The token behind the key, copied with \<open>strncpy\<close> and terminated at its size. The buffer
  is unchanged when the key is missing.\<close>

definition copy_token_value :: "bytes \<Rightarrow> net_token list \<Rightarrow> bytes \<Rightarrow> bytes \<Rightarrow> bytes option" where
  "copy_token_value recv toks key dest = do {
     found \<leftarrow> find_token recv toks key 0;
     (case found of
        None \<Rightarrow> Some dest
      | Some i \<Rightarrow> do {
          tok \<leftarrow> buf_get toks (i + 1);
          let size = nt_end tok - nt_start tok
          in if size < 0 \<or> nt_start tok < 0 \<or> int (length recv) < nt_end tok then None
             else do {
               dest \<leftarrow> buf_blit dest 0 (strncpy_bytes (drop (nat (nt_start tok)) recv) (nat size));
               buf_set dest (nat size) NUL
             }
        })
   }"

text \<open>An answer stored by the SDK in the send buffer, whose length is then measured.\<close>

definition answer_in_buffer :: "network_ctx \<Rightarrow> bytes \<Rightarrow> (nat \<times> network_ctx \<times> recv_ptr) option" where
  "answer_in_buffer ctx b = do {
     buf \<leftarrow> buf_blit (send_buffer ctx) 0 b;
     (if NUL \<in> set buf then Some (strlen buf, ctx\<lparr>send_buffer := buf\<rparr>, SendBuffer) else None)
   }"

definition user_command :: "net_sdk \<Rightarrow> user_action \<Rightarrow> network_ctx \<Rightarrow> (nat \<times> network_ctx \<times> recv_ptr) option" where
  "user_command sdk a ctx =
     answer_in_buffer (ctx\<lparr>effects := effects ctx @ [UserAction a]\<rparr>) (pap_user_management_action sdk a)"

text \<open>\<open>recv\<close> is the received block; \<open>user_data\<close> the uninitialised local of the register command.\<close>

definition calculate_decision ::
    "net_sdk \<Rightarrow> bytes \<Rightarrow> bytes \<Rightarrow> network_ctx \<Rightarrow> (nat \<times> network_ctx \<times> recv_ptr) option" where
  "calculate_decision sdk user_data recv ctx =
     (let toks = tokens_of sdk (cstr recv);
          request_code = auth_helper_check_msg_format sdk (cstr recv)
      in if request_code = COMMAND_RESOLVE then do {
           decision \<leftarrow> buf_blit (replicate BUF_LEN NUL) 0 (pep_request_access sdk (cstr recv));
           let msg = (if \<not> memcmp_eq decision ''grant'' (length ''grant'') then grant else deny)
           in do {
             buf \<leftarrow> buf_blit (send_buffer ctx) 0 (msg @ [NUL]);
             Some (length grant + 1, ctx\<lparr>send_buffer := buf\<rparr>, SendBuffer)
           }
         }
         else if request_code = COMMAND_GET_POL_LIST then answer_in_buffer ctx (pep_request_access sdk (cstr recv))
         else if request_code = COMMAND_ENABLE_POLICY then Some (0, ctx, RecvBlock recv)
         else if request_code = COMMAND_SET_DATASET then do {
           dataset_list_index \<leftarrow> find_token recv toks ''dataset_list'' 0;
           (case dataset_list_index of
              None \<Rightarrow> do {
                buf \<leftarrow> buf_blit (send_buffer ctx) 0 deny;
                Some (length deny, ctx\<lparr>send_buffer := buf\<rparr>, SendBuffer)
              }
            | Some i \<Rightarrow> do {
                tok \<leftarrow> buf_get toks (i + 1);
                (if \<not> nt_array tok then do {
                   buf \<leftarrow> buf_blit (send_buffer ctx) 0 deny;
                   Some (length deny, ctx\<lparr>send_buffer := buf\<rparr>, SendBuffer)
                 }
                 else if nt_start tok < 0 \<or> nt_end tok < nt_start tok \<or> int (length recv) < nt_end tok then None
                 else do {
                   buf \<leftarrow> buf_blit (send_buffer ctx) 0 grant;
                   Some (length grant, ctx\<lparr>send_buffer := buf, effects := effects ctx @
                     [SetDataset (take (nat (nt_end tok - nt_start tok)) (drop (nat (nt_start tok)) recv))]\<rparr>, SendBuffer)
                 })
              })
         }
         else if request_code = COMMAND_GET_DATASET then do {
           buf \<leftarrow> buf_blit (send_buffer ctx) 0 (pip_get_dataset sdk);
           Some (length (pip_get_dataset sdk), ctx\<lparr>send_buffer := buf\<rparr>, SendBuffer)
         }
         else if request_code = COMMAND_GET_USER_OBJ then do {
           username \<leftarrow> copy_token_value recv toks ''username'' (replicate USERNAME_LEN NUL);
           user_command sdk (PAP_USERMNG_GET_USER (cstr username)) ctx
         }
         else if request_code = COMMAND_GET_USERID then do {
           username \<leftarrow> copy_token_value recv toks ''username'' (replicate USERNAME_LEN NUL);
           user_command sdk (PAP_USERMNG_GET_USER_ID (cstr username)) ctx
         }
         else if request_code = COMMAND_REDISTER_USER then do {
           user_data \<leftarrow> copy_token_value recv toks ''user'' user_data;
           user_command sdk (PAP_USERMNG_PUT_USER (cstr user_data)) ctx
         }
         else if request_code = COMMAND_GET_ALL_USER then user_command sdk PAP_USERMNG_GET_ALL_USR ctx
         else if request_code = COMMAND_CLEAR_ALL_USER then user_command sdk PAP_USERMNG_CLR_ALL_USR ctx
         else do {
           _ \<leftarrow> buf_blit recv 0 (replicate SEND_BUFF_LEN CHR ''0'');
           buf \<leftarrow> buf_blit (send_buffer ctx) 0 (deny @ [NUL]);
           Some (length deny + 1, ctx\<lparr>send_buffer := buf\<rparr>, SendBuffer)
         })"

section \<open>Connections\<close>

text \<open>A connection of a client: whether it authenticates, and the block \<open>auth_receive\<close> allocates.\<close>

record connection =
  conn_auth :: bool
  conn_recv :: bytes
  conn_junk :: bytes

definition auth_failed :: bytes where
  "auth_failed = ''{'' @ quoted ''error'' @ '':'' @ quoted ''authentication failed'' @ ''}''"

text \<open>The answer to one connection that \<open>select\<close> reports; \<open>None\<close> inside when none is sent because
  the server is busy.\<close>

definition network_serve :: "net_sdk \<Rightarrow> connection \<Rightarrow> network_ctx \<Rightarrow> (bytes option \<times> network_ctx) option" where
  "network_serve sdk c ctx =
     (if ctx_state ctx = 0 then
        (let ctx = ctx\<lparr>ctx_state := 1\<rparr>
         in if conn_auth c then do {
              (decision, ctx, p) \<leftarrow> calculate_decision sdk (conn_junk c) (conn_recv c) ctx;
              let b = (case p of RecvBlock r \<Rightarrow> r | SendBuffer \<Rightarrow> send_buffer ctx)
              in if length b < decision then None
                 else Some (Some (take decision b), ctx\<lparr>ctx_state := 0\<rparr>)
            }
            else Some (Some (auth_failed @ [NUL]), ctx\<lparr>ctx_state := 0\<rparr>))
      else Some (None, ctx))"

section \<open>Life of the context\<close>

definition network_init :: "config_manager \<Rightarrow> bytes option \<Rightarrow> bytes \<Rightarrow> bytes \<Rightarrow> policy_updater \<Rightarrow>
    (int \<times> network_ctx \<times> config_manager \<times> policy_updater) option" where
  "network_init cfg config_ini junk junk_buffer pu = do {
     (_, cfg) \<leftarrow> config_manager_init config_ini cfg;
     (status, tcp_port) \<leftarrow> config_manager_get_option_int cfg ''network'' ''tcp_port'' junk 0;
     pu \<leftarrow> policyupdater_init cfg junk pu;
     Some (0, \<lparr>ctx_state = 0, DAC_AUTH = 1, send_buffer = junk_buffer,
               ctx_port = (if status \<noteq> CONFIG_MANAGER_OK then 9998 else tcp_port mod 2 ^ 16),
               ctx_end = False, effects = []\<rparr>, cfg, pu)
   }"

datatype ctx_ptr = CtxNull | CtxLive network_ctx | CtxFreed

text \<open>\<open>bind_ok\<close>, \<open>listen_ok\<close> and \<open>thread_ok\<close> are the outcomes of the three system calls.\<close>

definition network_start :: "bool \<Rightarrow> bool \<Rightarrow> bool \<Rightarrow> ctx_ptr \<Rightarrow> (int \<times> ctx_ptr) option" where
  "network_start bind_ok listen_ok thread_ok p =
     (case p of
        CtxLive ctx \<Rightarrow>
          if \<not> bind_ok then Some (1, CtxFreed)
          else if \<not> ctx_end ctx \<and> \<not> listen_ok then Some (2, CtxFreed)
          else if \<not> thread_ok then Some (3, CtxFreed)
          else Some (0, CtxLive ctx)
      | _ \<Rightarrow> None)"

definition network_stop :: "ctx_ptr \<Rightarrow> ctx_ptr option" where
  "network_stop p = (case p of CtxNull \<Rightarrow> Some CtxNull | CtxLive ctx \<Rightarrow> Some CtxFreed | CtxFreed \<Rightarrow> None)"

section \<open>Lemmas\<close>

lemma length_grant_deny: "length grant = 29" "length deny = 29"
  by (simp_all add: grant_def deny_def quoted_def)

lemma grant_neq_deny: "grant \<noteq> deny"
  by (simp add: grant_def deny_def quoted_def)

lemma blit_take: "buf_blit b 0 s = Some b' \<Longrightarrow> take (length s) b' = s"
  by (auto simp: buf_blit_def split: if_splits)

lemma decision_is_grant:
  assumes "length d \<le> 80"
  shows "memcmp_eq (d @ replicate (80 - length d) NUL) ''grant'' (length ''grant'') \<longleftrightarrow> prefix ''grant'' d"
proof -
  let ?b = "d @ replicate (80 - length d) NUL"
  have "take (length ''grant'') ?b = ''grant'' \<longleftrightarrow> prefix ''grant'' ?b"
    by (metis prefix_take_conv)
  also have "\<dots> \<longleftrightarrow> prefix ''grant'' (cstr ?b)"
    using prefix_cstr [of "''grant''" ?b] by simp
  also have "cstr ?b = cstr d" by (cases "NUL \<in> set d") (auto simp: cstr_append_tail)
  also have "prefix ''grant'' (cstr d) \<longleftrightarrow> prefix ''grant'' d"
    using prefix_cstr [of "''grant''" d] by simp
  finally show ?thesis by (simp add: memcmp_eq_def)
qed

text \<open>Copying the token behind a key.\<close>

definition token_bytes :: "bytes \<Rightarrow> net_token \<Rightarrow> bytes" where
  "token_bytes recv tok = take (nat (nt_end tok - nt_start tok)) (drop (nat (nt_start tok)) recv)"

definition token_inside :: "bytes \<Rightarrow> net_token \<Rightarrow> bool" where
  "token_inside recv tok \<longleftrightarrow> 0 \<le> nt_start tok \<and> nt_start tok \<le> nt_end tok \<and> nt_end tok \<le> int (length recv)"

lemma strncpy_token:
  assumes "token_inside recv tok"
  shows "cstr (strncpy_bytes (drop (nat (nt_start tok)) recv) (nat (nt_end tok - nt_start tok)) @ NUL # r) = cstr (token_bytes recv tok)"
    "length (strncpy_bytes (drop (nat (nt_start tok)) recv) (nat (nt_end tok - nt_start tok))) = nat (nt_end tok - nt_start tok)"
proof -
  let ?d = "drop (nat (nt_start tok)) recv" and ?n = "nat (nt_end tok - nt_start tok)"
  have "take ?n (cstr ?d) = cstr (take ?n ?d)"
    by (simp add: cstr_take)
  then show "cstr (strncpy_bytes ?d ?n @ NUL # r) = cstr (token_bytes recv tok)"
    by (cases "?n - strlen ?d") (simp_all add: strncpy_bytes_def token_bytes_def)
  show "length (strncpy_bytes ?d ?n) = ?n"
    by (simp add: strncpy_bytes_def strlen_def)
qed

lemma copy_token_value_eq:
  assumes "find_token recv toks key 0 = Some (Some i)" and "i + 1 < length toks" and "token_inside recv (toks ! (i + 1))"
  shows "let n = nat (nt_end (toks ! (i + 1)) - nt_start (toks ! (i + 1)))
         in if n < length dest
            then \<exists>b. copy_token_value recv toks key dest = Some b \<and> cstr b = cstr (token_bytes recv (toks ! (i + 1)))
            else copy_token_value recv toks key dest = None"
proof -
  let ?tok = "toks ! (i + 1)"
  let ?n = "nat (nt_end ?tok - nt_start ?tok)"
  let ?s = "strncpy_bytes (drop (nat (nt_start ?tok)) recv) ?n"
  have len: "length ?s = ?n" by (rule strncpy_token(2) [OF assms(3)])
  have ok: "\<not> (nt_end ?tok - nt_start ?tok < 0 \<or> nt_start ?tok < 0 \<or> int (length recv) < nt_end ?tok)"
    using assms(3) by (auto simp: token_inside_def)
  have eq: "copy_token_value recv toks key dest = do { dest \<leftarrow> buf_blit dest 0 ?s; buf_set dest ?n NUL }"
    using assms(1,2) ok by (simp add: copy_token_value_def buf_get_def Let_def)
  show ?thesis
  proof (cases "?n < length dest")
    case True
    have "copy_token_value recv toks key dest = Some (?s @ NUL # drop (Suc ?n) dest)"
      unfolding eq using True len by (simp add: buf_blit_def buf_set_def list_update_append Cons_nth_drop_Suc [symmetric])
    then show ?thesis
      using True strncpy_token(1) [OF assms(3)] by (simp add: Let_def)
  next
    case False
    then have "copy_token_value recv toks key dest = None"
      unfolding eq using len by (auto simp: buf_blit_def buf_set_def)
    with False show ?thesis by (simp add: Let_def)
  qed
qed

text \<open>Every answer leaves the send buffer at its size.\<close>

lemma answer_in_buffer_keeps:
  "answer_in_buffer ctx b = Some (n, ctx', p) \<Longrightarrow>
   length (send_buffer ctx') = length (send_buffer ctx) \<and> ctx_state ctx' = ctx_state ctx"
  by (auto simp: answer_in_buffer_def split: bind_splits if_splits dest: buf_blit_length)

lemma user_command_keeps:
  "user_command sdk a ctx = Some (n, ctx', p) \<Longrightarrow>
   length (send_buffer ctx') = length (send_buffer ctx) \<and> ctx_state ctx' = ctx_state ctx"
  unfolding user_command_def by (drule answer_in_buffer_keeps) simp

lemma calculate_decision_keeps:
  "calculate_decision sdk junk recv ctx = Some (n, ctx', p) \<Longrightarrow>
   length (send_buffer ctx') = length (send_buffer ctx) \<and> ctx_state ctx' = ctx_state ctx"
  unfolding calculate_decision_def Let_def
  by (auto split: if_splits bind_splits option.splits
      dest: buf_blit_length answer_in_buffer_keeps user_command_keeps)

definition server_ready :: "network_ctx \<Rightarrow> bool" where
  "server_ready ctx \<longleftrightarrow> ctx_state ctx = 0 \<and> length (send_buffer ctx) = SEND_BUFF_LEN"

definition serve_event :: "net_sdk \<times> connection \<Rightarrow> network_ctx \<Rightarrow> network_ctx option" where
  "serve_event e ctx = map_option snd (network_serve (fst e) (snd e) ctx)"

interpretation server: step_invariant serve_event server_ready
  by unfold_locales
    (auto simp: serve_event_def network_serve_def server_ready_def Let_def split: if_splits bind_splits
      dest!: calculate_decision_keeps)

text \<open>An example: a client that asks with the given command, and a PEP that grants everything.\<close>

definition sample_net_sdk :: "int \<Rightarrow> net_sdk" where
  "sample_net_sdk code = \<lparr>tokens_of = (\<lambda>_. [\<lparr>nt_array = False, nt_start = 0, nt_end = 8\<rparr>, \<lparr>nt_array = False, nt_start = 9, nt_end = 12\<rparr>]),
     auth_helper_check_msg_format = (\<lambda>_. code), pep_request_access = (\<lambda>_. ''grant''), pip_get_dataset = [],
     pap_user_management_action = (\<lambda>_. ''{}'')\<rparr>"

definition sample_connection :: connection where
  "sample_connection = \<lparr>conn_auth = True, conn_recv = ''username:bob'' @ [NUL], conn_junk = []\<rparr>"

definition sample_ctx :: network_ctx where
  "sample_ctx = \<lparr>ctx_state = 0, DAC_AUTH = 1, send_buffer = replicate SEND_BUFF_LEN NUL, ctx_port = 9998, ctx_end = False, effects = []\<rparr>"

lemmas sample_net_defs = sample_net_sdk_def sample_connection_def sample_ctx_def

section \<open>Properties\<close>

text \<open>
  C5. The answer to an access request is the opposite of the decision: an authenticated client
  is told that access is denied exactly when the PEP's decision starts with \<open>grant\<close>, and that
  access is granted for every other decision.
\<close>

theorem decision_is_inverted:
  assumes "conn_auth c" and "ctx_state ctx = 0" and "length (send_buffer ctx) = SEND_BUFF_LEN"
    and "auth_helper_check_msg_format sdk (cstr (conn_recv c)) = COMMAND_RESOLVE"
    and "length (pep_request_access sdk (cstr (conn_recv c))) \<le> BUF_LEN"
  shows "\<exists>ctx'. network_serve sdk c ctx =
     Some (Some ((if prefix ''grant'' (pep_request_access sdk (cstr (conn_recv c))) then deny else grant) @ [NUL]), ctx')"
proof -
  let ?d = "pep_request_access sdk (cstr (conn_recv c))"
  let ?msg = "if prefix ''grant'' ?d then deny else grant"
  let ?ctx = "ctx\<lparr>ctx_state := 1\<rparr>"
  let ?buf = "?msg @ NUL # drop 30 (send_buffer ctx)"
  have len: "length ?msg = 29" "length grant = 29" by (simp_all add: length_grant_deny)
  have "buf_blit (replicate 80 NUL) 0 ?d = Some (?d @ replicate (80 - length ?d) NUL)"
    using assms(5) by (simp add: buf_blit_def)
  moreover have "buf_blit (send_buffer ctx) 0 (?msg @ [NUL]) = Some ?buf"
    using assms(3) len by (simp add: buf_blit_def)
  ultimately have "calculate_decision sdk (conn_junk c) (conn_recv c) ?ctx = Some (30, ?ctx\<lparr>send_buffer := ?buf\<rparr>, SendBuffer)"
    using assms(4) decision_is_grant [OF assms(5)] len
    by (cases "prefix ''grant'' ?d") (simp_all add: calculate_decision_def Let_def)
  then show ?thesis
    using assms(1-3) len by (simp add: network_serve_def Let_def)
qed

theorem decision_is_inverted_witness:
  "(\<exists>ctx'. network_serve (sample_net_sdk 0) sample_connection sample_ctx = Some (Some (deny @ [NUL]), ctx')) \<and>
   pep_request_access (sample_net_sdk 0) (cstr (conn_recv sample_connection)) = ''grant''"
  using decision_is_inverted [of sample_connection sample_ctx "sample_net_sdk 0"]
  by (simp add: sample_net_defs)

text \<open>
  A user name is copied without regard to the buffer: when a client asks for a user, the
  token behind \<open>username\<close> reaches the user management unchanged if it has fewer than 128 bytes,
  and otherwise it is written past the end of the local buffer.
\<close>

theorem username_is_copied_or_overflows:
  assumes "auth_helper_check_msg_format sdk (cstr recv) = COMMAND_GET_USER_OBJ"
    and "find_token recv (tokens_of sdk (cstr recv)) ''username'' 0 = Some (Some i)" and "i + 1 < length (tokens_of sdk (cstr recv))"
    and "token_inside recv (tokens_of sdk (cstr recv) ! (i + 1))"
  shows "calculate_decision sdk junk recv ctx =
     (let tok = tokens_of sdk (cstr recv) ! (i + 1)
      in if nt_end tok - nt_start tok < int USERNAME_LEN
         then user_command sdk (PAP_USERMNG_GET_USER (cstr (token_bytes recv tok))) ctx else None)"
proof -
  let ?tok = "tokens_of sdk (cstr recv) ! (i + 1)"
  have "nat (nt_end ?tok - nt_start ?tok) < 128 \<longleftrightarrow> nt_end ?tok - nt_start ?tok < 128" by linarith
  then show ?thesis
    using copy_token_value_eq [OF assms(2-4), of "replicate 128 NUL"] assms(1)
    by (auto simp: calculate_decision_def Let_def split: if_splits)
qed

theorem username_is_copied_or_overflows_witness:
  "calculate_decision (sample_net_sdk 5) [] (conn_recv sample_connection) sample_ctx =
     user_command (sample_net_sdk 5) (PAP_USERMNG_GET_USER ''bob'') sample_ctx"
proof -
  have "find_token (conn_recv sample_connection) (tokens_of (sample_net_sdk 5) (cstr (conn_recv sample_connection))) ''username'' 0
          = Some (Some 0)"
    by (simp add: sample_net_defs)
  from username_is_copied_or_overflows [OF _ this, of "[]" sample_ctx] show ?thesis
    by (simp add: sample_net_defs token_inside_def token_bytes_def)
qed

text \<open>
  A message that is no valid request makes the server fill 4096 bytes of the received block,
  whatever its size: with a smaller block the handling is undefined, otherwise the client is
  denied access.
\<close>

theorem invalid_request_overflows:
  assumes "auth_helper_check_msg_format sdk (cstr recv) \<notin> {0..9}" and "length (send_buffer ctx) = SEND_BUFF_LEN"
  shows "calculate_decision sdk junk recv ctx =
     (if length recv < SEND_BUFF_LEN then None
      else Some (length deny + 1, ctx\<lparr>send_buffer := deny @ NUL # drop 30 (send_buffer ctx)\<rparr>, SendBuffer))"
proof -
  let ?c = "auth_helper_check_msg_format sdk (cstr recv)"
  have "?c \<noteq> 0" "?c \<noteq> 1" "?c \<noteq> 2" "?c \<noteq> 3" "?c \<noteq> 4" "?c \<noteq> 5" "?c \<noteq> 6" "?c \<noteq> 7" "?c \<noteq> 8" "?c \<noteq> 9"
    using assms(1) by auto
  then have "calculate_decision sdk junk recv ctx = do {
      _ \<leftarrow> buf_blit recv 0 (replicate 4096 CHR ''0'');
      buf \<leftarrow> buf_blit (send_buffer ctx) 0 (deny @ [NUL]);
      Some (length deny + 1, ctx\<lparr>send_buffer := buf\<rparr>, SendBuffer) }"
    by (simp add: calculate_decision_def Let_def)
  then show ?thesis
    using assms(2) by (simp add: buf_blit_def length_grant_deny)
qed

theorem invalid_request_overflows_witness:
  "calculate_decision (sample_net_sdk (-1)) [] (conn_recv sample_connection) sample_ctx = None"
  using invalid_request_overflows [of "sample_net_sdk (-1)" "conn_recv sample_connection" sample_ctx "[]"]
  by (simp add: sample_net_defs)

text \<open>
  Requests that the handling is defined for, by the command: what the SDK stores fits its buffer and is terminated, the tokens that are
  compared and copied lie in the received block, and a message that is no request comes in a block of 4096 bytes.
\<close>

definition value_fits :: "net_sdk \<Rightarrow> bytes \<Rightarrow> bytes \<Rightarrow> nat \<Rightarrow> bool" where
  "value_fits sdk recv key n =
     (let toks = tokens_of sdk (cstr recv)
      in case find_token recv toks key 0 of
           Some (Some i) \<Rightarrow> i + 1 < length toks \<and> token_inside recv (toks ! (i + 1)) \<and>
             nat (nt_end (toks ! (i + 1)) - nt_start (toks ! (i + 1))) < n
         | _ \<Rightarrow> False)"

definition token_value :: "net_sdk \<Rightarrow> bytes \<Rightarrow> bytes \<Rightarrow> bytes" where
  "token_value sdk recv key =
     (let toks = tokens_of sdk (cstr recv)
      in case find_token recv toks key 0 of Some (Some i) \<Rightarrow> cstr (token_bytes recv (toks ! (i + 1))) | _ \<Rightarrow> [])"

definition terminated :: "bytes \<Rightarrow> bool" where
  "terminated b \<longleftrightarrow> NUL \<in> set b \<and> length b \<le> SEND_BUFF_LEN"

definition user_action_of :: "net_sdk \<Rightarrow> bytes \<Rightarrow> int \<Rightarrow> user_action" where
  "user_action_of sdk recv code =
     (if code = COMMAND_GET_USER_OBJ then PAP_USERMNG_GET_USER (token_value sdk recv ''username'')
      else if code = COMMAND_GET_USERID then PAP_USERMNG_GET_USER_ID (token_value sdk recv ''username'')
      else if code = COMMAND_REDISTER_USER then PAP_USERMNG_PUT_USER (token_value sdk recv ''user'')
      else if code = COMMAND_GET_ALL_USER then PAP_USERMNG_GET_ALL_USR
      else PAP_USERMNG_CLR_ALL_USR)"

definition array_token :: "net_sdk \<Rightarrow> bytes \<Rightarrow> net_token option option" where
  "array_token sdk recv =
     (let toks = tokens_of sdk (cstr recv)
      in case find_token recv toks ''dataset_list'' 0 of
           None \<Rightarrow> None
         | Some None \<Rightarrow> Some None
         | Some (Some i) \<Rightarrow> if i + 1 < length toks then Some (Some (toks ! (i + 1))) else None)"

definition request_ok :: "net_sdk \<Rightarrow> connection \<Rightarrow> bool" where
  "request_ok sdk c =
     (let recv = conn_recv c; code = auth_helper_check_msg_format sdk (cstr recv)
      in \<not> conn_auth c \<or>
         (if code = COMMAND_RESOLVE then length (pep_request_access sdk (cstr recv)) \<le> BUF_LEN
          else if code = COMMAND_GET_POL_LIST then terminated (pep_request_access sdk (cstr recv))
          else if code = COMMAND_ENABLE_POLICY then True
          else if code = COMMAND_SET_DATASET then
            (case array_token sdk recv of None \<Rightarrow> False | Some None \<Rightarrow> True | Some (Some tok) \<Rightarrow> nt_array tok \<longrightarrow> token_inside recv tok)
          else if code = COMMAND_GET_DATASET then length (pip_get_dataset sdk) \<le> SEND_BUFF_LEN
          else if code \<in> {COMMAND_GET_USER_OBJ..COMMAND_CLEAR_ALL_USER} then
            (code \<le> COMMAND_GET_USERID \<longrightarrow> value_fits sdk recv ''username'' USERNAME_LEN) \<and>
            (code = COMMAND_REDISTER_USER \<longrightarrow> value_fits sdk recv ''user'' (length (conn_junk c))) \<and>
            terminated (pap_user_management_action sdk (user_action_of sdk recv code))
          else SEND_BUFF_LEN \<le> length recv))"

text \<open>The answer to a request, from the request and the SDK alone.\<close>

definition answer_of_request :: "net_sdk \<Rightarrow> connection \<Rightarrow> bytes" where
  "answer_of_request sdk c =
     (let recv = conn_recv c; code = auth_helper_check_msg_format sdk (cstr recv)
      in if \<not> conn_auth c then auth_failed @ [NUL]
         else if code = COMMAND_RESOLVE then (if prefix ''grant'' (pep_request_access sdk (cstr recv)) then deny else grant) @ [NUL]
         else if code = COMMAND_GET_POL_LIST then cstr (pep_request_access sdk (cstr recv))
         else if code = COMMAND_ENABLE_POLICY then []
         else if code = COMMAND_SET_DATASET then
           (case array_token sdk recv of Some (Some tok) \<Rightarrow> if nt_array tok then grant else deny | _ \<Rightarrow> deny)
         else if code = COMMAND_GET_DATASET then pip_get_dataset sdk
         else if code \<in> {COMMAND_GET_USER_OBJ..COMMAND_CLEAR_ALL_USER} then
           cstr (pap_user_management_action sdk (user_action_of sdk recv code))
         else deny @ [NUL])"

lemma answer_in_buffer_eq:
  assumes "terminated b" "length (send_buffer ctx) = SEND_BUFF_LEN"
  shows "\<exists>ctx'. answer_in_buffer ctx b = Some (length (cstr b), ctx', SendBuffer) \<and> length (cstr b) \<le> length (send_buffer ctx') \<and>
    take (length (cstr b)) (send_buffer ctx') = cstr b"
proof -
  let ?buf = "b @ drop (length b) (send_buffer ctx)"
  have b: "NUL \<in> set b" "length b \<le> 4096" using assms(1) by (simp_all add: terminated_def)
  then have "cstr ?buf = cstr b" by (simp add: cstr_append_tail)
  then have "take (length (cstr b)) ?buf = cstr b" using cstr_prefix [of ?buf] by (metis append_eq_conv_conj prefix_def)
  moreover have "length (cstr b) \<le> 4096" using b(2) length_cstr_le [of b] by simp
  ultimately show ?thesis
    using b assms(2) \<open>cstr ?buf = cstr b\<close> by (simp add: answer_in_buffer_def buf_blit_def strlen_def)
qed

lemma user_command_eq:
  assumes "terminated (pap_user_management_action sdk a)" "length (send_buffer ctx) = SEND_BUFF_LEN"
  shows "\<exists>ctx'. user_command sdk a ctx = Some (length (cstr (pap_user_management_action sdk a)), ctx', SendBuffer) \<and>
    length (cstr (pap_user_management_action sdk a)) \<le> length (send_buffer ctx') \<and>
    take (length (cstr (pap_user_management_action sdk a))) (send_buffer ctx') = cstr (pap_user_management_action sdk a)"
  unfolding user_command_def using assms by (intro answer_in_buffer_eq) simp_all

lemma copy_value_fits:
  assumes "value_fits sdk recv key (length dest)"
  shows "\<exists>b. copy_token_value recv (tokens_of sdk (cstr recv)) key dest = Some b \<and> cstr b = token_value sdk recv key"
  using assms copy_token_value_eq [of recv "tokens_of sdk (cstr recv)" key _ dest]
  by (auto simp: value_fits_def token_value_def Let_def split: option.splits)

text \<open>A message in the send buffer.\<close>

lemma message_in_buffer:
  assumes "length msg \<le> 4096" "length (send_buffer ctx) = SEND_BUFF_LEN"
  shows "\<exists>buf. buf_blit (send_buffer ctx) 0 msg = Some buf \<and> length buf = 4096 \<and> take (length msg) buf = msg"
  using assms by (auto simp: buf_blit_def)

definition answered :: "(nat \<times> network_ctx \<times> recv_ptr) option \<Rightarrow> bytes \<Rightarrow> bool" where
  "answered res a \<longleftrightarrow> (\<exists>n ctx p. res = Some (n, ctx, p) \<and>
     (let b = (case p of RecvBlock r \<Rightarrow> r | SendBuffer \<Rightarrow> send_buffer ctx) in n \<le> length b \<and> take n b = a))"

lemma answered_user:
  assumes "terminated (pap_user_management_action sdk a)" "length (send_buffer ctx) = SEND_BUFF_LEN"
  shows "answered (user_command sdk a ctx) (cstr (pap_user_management_action sdk a))"
  using user_command_eq [OF assms] by (auto simp: answered_def)

lemma answered_buffer:
  assumes "terminated b" "length (send_buffer ctx) = SEND_BUFF_LEN"
  shows "answered (answer_in_buffer ctx b) (cstr b)"
  using answer_in_buffer_eq [OF assms] by (auto simp: answered_def)

lemma answered_resolve:
  assumes "length (pep_request_access sdk (cstr recv)) \<le> BUF_LEN" "length (send_buffer ctx) = SEND_BUFF_LEN"
    and "auth_helper_check_msg_format sdk (cstr recv) = COMMAND_RESOLVE"
  shows "answered (calculate_decision sdk junk recv ctx)
    ((if prefix ''grant'' (pep_request_access sdk (cstr recv)) then deny else grant) @ [NUL])"
proof -
  let ?d = "pep_request_access sdk (cstr recv)"
  let ?msg = "if prefix ''grant'' ?d then deny else grant"
  have len: "length ?msg = 29" by (simp add: length_grant_deny)
  obtain buf where "buf_blit (send_buffer ctx) 0 (?msg @ [NUL]) = Some buf" "length buf = 4096" "take 30 buf = ?msg @ [NUL]"
    using message_in_buffer [of "?msg @ [NUL]" ctx] assms(2) len by auto
  moreover have "buf_blit (replicate 80 NUL) 0 ?d = Some (?d @ replicate (80 - length ?d) NUL)"
    using assms(1) by (simp add: buf_blit_def)
  ultimately show ?thesis
    using assms(3) decision_is_grant [OF assms(1)]
    by (cases "prefix ''grant'' ?d") (simp_all add: calculate_decision_def answered_def length_grant_deny Let_def)
qed

lemma answered_set_dataset:
  assumes "case array_token sdk recv of None \<Rightarrow> False | Some None \<Rightarrow> True | Some (Some tok) \<Rightarrow> nt_array tok \<longrightarrow> token_inside recv tok"
    and "length (send_buffer ctx) = SEND_BUFF_LEN" "auth_helper_check_msg_format sdk (cstr recv) = COMMAND_SET_DATASET"
  shows "answered (calculate_decision sdk junk recv ctx)
    (case array_token sdk recv of Some (Some tok) \<Rightarrow> if nt_array tok then grant else deny | _ \<Rightarrow> deny)"
proof -
  obtain g d where "buf_blit (send_buffer ctx) 0 grant = Some g" "length g = 4096" "take 29 g = grant"
      "buf_blit (send_buffer ctx) 0 deny = Some d" "length d = 4096" "take 29 d = deny"
    using message_in_buffer [of grant ctx] message_in_buffer [of deny ctx] assms(2) by (auto simp: length_grant_deny)
  then show ?thesis
    using assms(1,3)
    by (auto simp: calculate_decision_def array_token_def answered_def length_grant_deny token_inside_def buf_get_def Let_def
        split: option.splits if_splits)
qed

lemma answered_invalid:
  assumes "SEND_BUFF_LEN \<le> length recv" "length (send_buffer ctx) = SEND_BUFF_LEN" "auth_helper_check_msg_format sdk (cstr recv) \<notin> {0..9}"
  shows "answered (calculate_decision sdk junk recv ctx) (deny @ [NUL])"
  using invalid_request_overflows [OF assms(3,2), of junk] assms(1,2) by (simp add: answered_def length_grant_deny)

lemma command_cases: "(i :: int) = 0 \<or> i = 1 \<or> i = 2 \<or> i = 3 \<or> i = 4 \<or> i = 5 \<or> i = 6 \<or> i = 7 \<or> i = 8 \<or> i = 9 \<or> i \<notin> {0..9}"
  unfolding atLeastAtMost_iff by presburger

lemma request_answered:
  assumes "request_ok sdk c" "conn_auth c" "length (send_buffer ctx) = SEND_BUFF_LEN"
  shows "answered (calculate_decision sdk (conn_junk c) (conn_recv c) ctx) (answer_of_request sdk c)"
proof -
  let ?recv = "conn_recv c"
  let ?code = "auth_helper_check_msg_format sdk (cstr ?recv)"
  note defs = request_ok_def answer_of_request_def Let_def
  consider "?code = 0" | "?code = 1" | "?code = 2" | "?code = 3" | "?code = 4" | "?code = 5" | "?code = 6" | "?code = 7"
    | "?code = 8" | "?code = 9" | "?code \<notin> {0..9}" using command_cases [of ?code] by blast
  then show ?thesis
  proof cases
    case 1
    then show ?thesis using answered_resolve [where sdk = sdk and recv = ?recv and ctx = ctx and junk = "conn_junk c"] assms by (simp add: defs)
  next
    case 2
    then show ?thesis using answered_buffer [where ctx = ctx] assms by (simp add: defs calculate_decision_def)
  next
    case 3
    then show ?thesis using assms by (simp add: defs calculate_decision_def answered_def)
  next
    case 4
    then show ?thesis using answered_set_dataset [where sdk = sdk and recv = ?recv and ctx = ctx and junk = "conn_junk c"] assms by (simp add: defs)
  next
    case 5
    then show ?thesis using message_in_buffer [of "pip_get_dataset sdk" ctx] assms by (auto simp: defs calculate_decision_def answered_def)
  next
    case 6
    then show ?thesis using copy_value_fits [of sdk ?recv "''username''" "replicate 128 NUL"] answered_user [where sdk = sdk and ctx = ctx] assms
      by (auto simp: defs calculate_decision_def user_action_of_def)
  next
    case 7
    then show ?thesis using copy_value_fits [of sdk ?recv "''username''" "replicate 128 NUL"] answered_user [where sdk = sdk and ctx = ctx] assms
      by (auto simp: defs calculate_decision_def user_action_of_def)
  next
    case 8
    then show ?thesis using copy_value_fits [of sdk ?recv "''user''" "conn_junk c"] answered_user [where sdk = sdk and ctx = ctx] assms
      by (auto simp: defs calculate_decision_def user_action_of_def)
  next
    case 9
    then show ?thesis using answered_user [where sdk = sdk and ctx = ctx] assms by (simp add: defs calculate_decision_def user_action_of_def)
  next
    case 10
    then show ?thesis using answered_user [where sdk = sdk and ctx = ctx] assms by (simp add: defs calculate_decision_def user_action_of_def)
  next
    case 11
    then show ?thesis using answered_invalid [where recv = ?recv and ctx = ctx and sdk = sdk and junk = "conn_junk c"] assms by (auto simp: defs split: if_splits)
  qed
qed

lemma serve_answers:
  assumes "request_ok sdk c" "server_ready ctx"
  shows "\<exists>ctx'. network_serve sdk c ctx = Some (Some (answer_of_request sdk c), ctx') \<and> server_ready ctx'"
proof -
  have "\<exists>ctx'. network_serve sdk c ctx = Some (Some (answer_of_request sdk c), ctx')"
  proof (cases "conn_auth c")
    case True
    have "length (send_buffer (ctx\<lparr>ctx_state := 1\<rparr>)) = 4096" using assms(2) by (simp add: server_ready_def)
    from request_answered [OF assms(1) True this] show ?thesis
      using assms(2) True by (auto simp: network_serve_def server_ready_def answered_def Let_def)
  next
    case False
    then show ?thesis using assms(2) by (simp add: network_serve_def server_ready_def answer_of_request_def Let_def)
  qed
  then show ?thesis using server.step_inv [OF assms(2), of "(sdk, c)"] by (fastforce simp: serve_event_def)
qed

fun serve_all :: "(net_sdk \<times> connection) list \<Rightarrow> network_ctx \<Rightarrow> (bytes option list \<times> network_ctx) option" where
  "serve_all [] ctx = Some ([], ctx)"
| "serve_all ((sdk, c) # es) ctx = do {
     (answer, ctx) \<leftarrow> network_serve sdk c ctx;
     (answers, ctx) \<leftarrow> serve_all es ctx;
     Some (answer # answers, ctx)
   }"

text \<open>
  C6. The server answers every connection: over any sequence of connections with requests that the handling is defined for, or
  without authentication, it is never busy, nothing is undefined, and each client gets the answer that its own request and the SDK determine,
  whatever was answered before. The command to enable a policy is answered with no data.
\<close>

theorem server_answers_every_connection:
  assumes "\<forall>(sdk, c)\<in>set es. request_ok sdk c" and "server_ready ctx"
  shows "\<exists>ctx'. serve_all es ctx = Some (map (\<lambda>(sdk, c). Some (answer_of_request sdk c)) es, ctx') \<and> server_ready ctx'"
  using assms
proof (induction es arbitrary: ctx)
  case (Cons e es)
  obtain sdk c where e: "e = (sdk, c)" by (cases e)
  then obtain ctx1 where "network_serve sdk c ctx = Some (Some (answer_of_request sdk c), ctx1)" "server_ready ctx1"
    using serve_answers [of sdk c ctx] Cons.prems by auto
  then show ?case using Cons.IH [of ctx1] Cons.prems(1) e by auto
qed simp

theorem server_answers_every_connection_witness:
  "\<exists>ctx'. serve_all [(sample_net_sdk 0, sample_connection\<lparr>conn_auth := False\<rparr>), (sample_net_sdk 0, sample_connection),
       (sample_net_sdk (- 1), sample_connection\<lparr>conn_recv := replicate 4096 NUL\<rparr>), (sample_net_sdk 2, sample_connection)] sample_ctx =
     Some ([Some (auth_failed @ [NUL]), Some (deny @ [NUL]), Some (deny @ [NUL]), Some []], ctx') \<and> server_ready ctx'"
proof -
  let ?es = "[(sample_net_sdk 0, sample_connection\<lparr>conn_auth := False\<rparr>), (sample_net_sdk 0, sample_connection),
       (sample_net_sdk (- 1), sample_connection\<lparr>conn_recv := replicate 4096 NUL\<rparr>), (sample_net_sdk 2, sample_connection)]"
  have "\<forall>(sdk, c)\<in>set ?es. request_ok sdk c" by (simp add: request_ok_def sample_net_defs)
  moreover have "server_ready sample_ctx" by (simp add: server_ready_def sample_net_defs)
  ultimately show ?thesis
    using server_answers_every_connection [of ?es sample_ctx] by (simp add: answer_of_request_def sample_net_defs)
qed

text \<open>
  The server's port: a port of the configuration is reduced to sixteen bits, and without one
  the server uses port 9998.
\<close>

theorem network_init_port:
  assumes "ini_ok ini" and "length (render_ini ini) < CONFIG_MANAGER_DATA_SIZE" and "config_wf cfg" and "length junk = 32"
    and "length (g_policy_updater_address pu) = POLICY_UPDATER_ADDRESS_SIZE" and "length (g_user_address pu) = POLICY_UPDATER_ADDRESS_SIZE"
    and "\<forall>n v. ini_lookup ini ''pap'' n = Inr v \<longrightarrow> NUL \<notin> set v \<and> length v \<le> 29"
    and "\<forall>v. ini_lookup ini ''network'' ''tcp_port'' = Inr v \<longrightarrow> length v \<le> 29"
  shows "\<exists>ctx cfg' pu'. network_init cfg (Some (render_ini ini)) junk buf pu = Some (0, ctx, cfg', pu') \<and>
     ctx_state ctx = 0 \<and> ctx_end ctx = False \<and>
     ctx_port ctx = (case ini_lookup ini ''network'' ''tcp_port'' of Inl _ \<Rightarrow> 9998 | Inr v \<Rightarrow> atoi v mod 2 ^ 16)"
proof -
  obtain cfg' where cfg': "config_manager_init (Some (render_ini ini)) cfg = Some (0, cfg')" "represents cfg' ini"
    using init_represents [OF assms(1-3)] by blast
  obtain pu' where pu': "policyupdater_init cfg' junk pu = Some pu'"
    using policyupdater_init_result [OF cfg'(2) assms(4-7)] by blast
  have "config_manager_get_option_int cfg' ''network'' ''tcp_port'' junk 0 =
       (case ini_lookup ini ''network'' ''tcp_port'' of
          Inl e \<Rightarrow> Some (e, 0) | Inr v \<Rightarrow> if length v \<le> 29 then Some (CONFIG_MANAGER_OK, atoi v) else None)"
    using get_int_represents [OF cfg'(2) _ _ assms(4), of "''network''" "''tcp_port''" 0] by simp
  moreover have "ini_lookup ini ''network'' ''tcp_port'' = Inl e \<Longrightarrow> e \<noteq> 0" for e
    by (auto simp: ini_lookup_def split: option.splits)
  ultimately show ?thesis
    using cfg'(1) pu' assms(8) by (auto simp: network_init_def split: sum.splits)
qed

theorem network_init_port_witness:
  "\<exists>ctx cfg' pu'. network_init g_config_zero (Some (render_ini [(''network'', [(''tcp_port'', ''65537'')])]))
       (replicate 32 NUL) (replicate 4096 NUL) policy_updater_zero = Some (0, ctx, cfg', pu') \<and>
     ctx_state ctx = 0 \<and> ctx_end ctx = False \<and> ctx_port ctx = 1"
proof -
  let ?ini = "[(''network'', [(''tcp_port'', ''65537'')])]"
  have l: "ini_lookup ?ini ''pap'' n = Inl (-2)" "ini_lookup ?ini ''network'' ''tcp_port'' = Inr ''65537''" for n
    by (simp_all add: ini_lookup_def)
  have ok: "ini_ok ?ini" "length (render_ini ?ini) < 2048"
    by (simp_all add: ini_ok_def option_ok_def render_ini_def render_group_def render_options_def render_option_def)
  have "\<forall>n v. ini_lookup ?ini ''pap'' n = Inr v \<longrightarrow> NUL \<notin> set v \<and> length v \<le> 29"
       "\<forall>v. ini_lookup ?ini ''network'' ''tcp_port'' = Inr v \<longrightarrow> length v \<le> 29"
    unfolding l by simp_all
  from network_init_port [OF ok config_wf_zero _ _ _ this, of "replicate 32 NUL" policy_updater_zero "replicate 4096 NUL"]
  show ?thesis
    unfolding l by (simp add: policy_updater_zero_def atoi_def strtol10_def isspace_def isdigit_def char_code_def digit_val_def to_int32_def)
qed

text \<open>
  A start that fails releases the context but leaves the caller's pointer: stopping the
  server afterwards, as is done for a server that was started, is undefined.
\<close>

theorem failed_start_then_stop:
  assumes "network_start bind_ok listen_ok thread_ok (CtxLive ctx) = Some (code, p)"
  shows "network_stop p = (if code = 0 then Some CtxFreed else None) \<and>
     (code = 0 \<longleftrightarrow> bind_ok \<and> (listen_ok \<or> ctx_end ctx) \<and> thread_ok)"
  using assms by (auto simp: network_start_def network_stop_def split: if_splits)

theorem failed_start_then_stop_witness:
  "network_stop CtxFreed = None"
  using failed_start_then_stop [of False True True sample_ctx 1 CtxFreed] by (simp add: network_start_def)

end
