(* ===== verification/Wallet.thy ===== *)
theory Wallet
  imports Interfaces
begin

text \<open>
  The token wallet (\<open>wallet/wallet.c\<close>): creation, balance, address, transfer and confirmation
  calls, and the two monitor threads.

  The IOTA client library is the record \<open>cclient\<close>: each field is one library call, given as the
  answer it gives at the time it is asked, so that two polls of a service may see different
  records. The monitor threads are step functions over events: a wake-up of the thread, which sees
  the client library as it answers then, and a stop request of another thread. A sequence of events
  is one interleaving of the threads.
\<close>

section \<open>Constants and structures\<close>

type_synonym trits = "int list"
type_synonym iota_client = nat

abbreviation (input) WALLET_OK :: int where "WALLET_OK \<equiv> 0"
abbreviation (input) WALLET_ERR_UNKNOW :: int where "WALLET_ERR_UNKNOW \<equiv> - 1"
abbreviation (input) WALLET_ERR_PRARMS :: int where "WALLET_ERR_PRARMS \<equiv> 1"
abbreviation (input) WALLET_ERR_OOM :: int where "WALLET_ERR_OOM \<equiv> 2"
abbreviation (input) WALLET_ERR_CLIENT_ERR :: int where "WALLET_ERR_CLIENT_ERR \<equiv> 4"
abbreviation (input) WALLET_ERR_FLEX_TRITS :: int where "WALLET_ERR_FLEX_TRITS \<equiv> 8"

abbreviation (input) DEFAULT_SECURITY_LEVEL :: "8 word" where "DEFAULT_SECURITY_LEVEL \<equiv> 2"

definition DEFAULT_TAG :: bytes where
  "DEFAULT_TAG = ''ACCESS999999999999999999999''"

abbreviation NUM_TRYTES_HASH :: nat where "NUM_TRYTES_HASH \<equiv> 81"
abbreviation NUM_TRYTES_ADDRESS :: nat where "NUM_TRYTES_ADDRESS \<equiv> 81"

record wallet_ctx =
  w_mwm :: "8 word"
  w_security :: "8 word"
  w_depth :: "32 word"
  w_unused_idx :: "64 word"
  w_seed :: trits
  w_client :: iota_client

text \<open>One transfer of a bundle, as \<open>wallet_send\<close> fills it.\<close>

record transfer =
  tf_address :: trits
  tf_tag :: trits
  tf_value :: "64 word"
  tf_msg :: "bytes option"

text \<open>The library calls; an error code other than \<open>RC_OK\<close> is \<open>None\<close> or \<open>False\<close>.\<close>

record cclient =
  is_seed :: "bytes \<Rightarrow> bool"
  is_address :: "bytes \<Rightarrow> bool"
  client_core_init :: "bytes \<Rightarrow> 16 word \<Rightarrow> bytes option \<Rightarrow> iota_client option"
  from_trytes :: "bytes \<Rightarrow> trits option"
  to_trytes :: "trits \<Rightarrow> bytes"
  req_new :: bool
  res_new :: bool
  req_add :: "trits \<Rightarrow> bool"
  get_balances :: "iota_client \<Rightarrow> trits \<Rightarrow> 64 word \<Rightarrow> 64 word option"
  get_new_address :: "iota_client \<Rightarrow> trits \<Rightarrow> 8 word \<Rightarrow> 64 word \<Rightarrow> trits list option"
  send_transfer :: "iota_client \<Rightarrow> trits \<Rightarrow> 8 word \<Rightarrow> 32 word \<Rightarrow> 8 word \<Rightarrow> transfer list \<Rightarrow> trits option"
  get_inclusion :: "iota_client \<Rightarrow> trits \<Rightarrow> bool option"

section \<open>Wallet operations\<close>

text \<open>\<open>wallet_destroy\<close>: the pointer afterwards and the client handles that were released.\<close>

definition wallet_destroy :: "wallet_ctx option \<Rightarrow> wallet_ctx option \<times> iota_client list" where
  "wallet_destroy wallet =
     (case wallet of None \<Rightarrow> (None, []) | Some w \<Rightarrow> (None, [w_client w]))"

text \<open>\<open>wallet_create\<close>: the wallet or NULL, and the client handles that were opened and released
  again. \<open>mem\<close> is the outcome of \<open>malloc\<close>. The log lines at the end have no effect.\<close>

definition wallet_create :: "cclient \<Rightarrow> bool \<Rightarrow> bytes \<Rightarrow> 16 word \<Rightarrow> bytes option \<Rightarrow> 32 word \<Rightarrow> 8 word \<Rightarrow> bytes
    \<Rightarrow> wallet_ctx option \<times> iota_client list" where
  "wallet_create cc mem node_url port_number ca_pem node_depth node_mwm seed =
     (if \<not> is_seed cc seed then (None, [])
      else if \<not> mem then (None, [])
      else case client_core_init cc node_url port_number ca_pem of
          None \<Rightarrow> (None, [])
        | Some client \<Rightarrow>
            (case from_trytes cc (take NUM_TRYTES_HASH seed) of
               None \<Rightarrow> wallet_destroy (Some \<lparr>w_mwm = node_mwm, w_security = DEFAULT_SECURITY_LEVEL,
                 w_depth = node_depth, w_unused_idx = 0, w_seed = [], w_client = client\<rparr>)
             | Some ts \<Rightarrow>
                 (Some \<lparr>w_mwm = node_mwm, w_security = DEFAULT_SECURITY_LEVEL, w_depth = node_depth,
                   w_unused_idx = 0, w_seed = ts, w_client = client\<rparr>, [])))"

text \<open>\<open>wallet_check_balance\<close>: the error code and the balance cell, which is written on success only.\<close>

definition wallet_check_balance :: "cclient \<Rightarrow> wallet_ctx option \<Rightarrow> bytes \<Rightarrow> 64 word \<Rightarrow> int \<times> 64 word" where
  "wallet_check_balance cc ctx address balance =
     (case ctx of
        None \<Rightarrow> (WALLET_ERR_PRARMS, balance)
      | Some w \<Rightarrow>
          if \<not> is_address cc address then (WALLET_ERR_PRARMS, balance)
          else if \<not> req_new cc \<or> \<not> res_new cc then (WALLET_ERR_OOM, balance)
          else case from_trytes cc (take NUM_TRYTES_HASH address) of
              None \<Rightarrow> (WALLET_ERR_FLEX_TRITS, balance)
            | Some tmp_address \<Rightarrow>
                if \<not> req_add cc tmp_address then (WALLET_ERR_UNKNOW, balance)
                else case get_balances cc (w_client w) tmp_address 100 of
                    Some v \<Rightarrow> (WALLET_OK, v)
                  | None \<Rightarrow> (WALLET_ERR_UNKNOW, balance))"

text \<open>\<open>wallet_get_address\<close>: the wallet, the address buffer, the index cell and the returned code. The
  list of addresses is a circular queue, so \<open>addresses->prev\<close> is its last element; a NULL queue is
  dereferenced.\<close>

definition wallet_get_address :: "cclient \<Rightarrow> wallet_ctx \<Rightarrow> bytes \<Rightarrow> 64 word
    \<Rightarrow> (wallet_ctx \<times> bytes \<times> 64 word \<times> int) option" where
  "wallet_get_address cc ctx addr_buf index =
     (case get_new_address cc (w_client ctx) (w_seed ctx) (w_security ctx) (w_unused_idx ctx) of
        Some addresses \<Rightarrow>
          (if addresses = [] then None
           else let idx = of_nat (length addresses) - 1 :: 64 word
                in Some (ctx\<lparr>w_unused_idx := idx\<rparr>, to_trytes cc (last addresses), idx, WALLET_OK))
      | None \<Rightarrow> Some (ctx, addr_buf, index, WALLET_OK))"

text \<open>\<open>wallet_send\<close>: the returned code and the bundle hash buffer.\<close>

definition wallet_send :: "cclient \<Rightarrow> wallet_ctx \<Rightarrow> bytes \<Rightarrow> 64 word \<Rightarrow> bytes option \<Rightarrow> bytes \<Rightarrow> int \<times> bytes" where
  "wallet_send cc ctx receiver balance msg bundle_hash =
     (if \<not> is_address cc receiver then (WALLET_ERR_PRARMS, bundle_hash)
      else case from_trytes cc (take NUM_TRYTES_ADDRESS receiver) of
          None \<Rightarrow> (WALLET_ERR_FLEX_TRITS, bundle_hash)
        | Some addr \<Rightarrow>
            (case from_trytes cc DEFAULT_TAG of
               None \<Rightarrow> (WALLET_ERR_FLEX_TRITS, bundle_hash)
             | Some tag \<Rightarrow>
                 (case send_transfer cc (w_client ctx) (w_seed ctx) (w_security ctx) (w_depth ctx) (w_mwm ctx)
                     [\<lparr>tf_address = addr, tf_tag = tag, tf_value = balance, tf_msg = msg\<rparr>] of
                    Some hash \<Rightarrow> (WALLET_OK, to_trytes cc hash)
                  | None \<Rightarrow> (WALLET_ERR_CLIENT_ERR, bundle_hash))))"

definition wallet_fetch_msg :: "wallet_ctx \<Rightarrow> bytes \<Rightarrow> bytes \<Rightarrow> nat \<Rightarrow> int" where
  "wallet_fetch_msg ctx hash msg_buf len = 0"

definition wallet_check_confirmation :: "cclient \<Rightarrow> wallet_ctx \<Rightarrow> bytes \<Rightarrow> bool" where
  "wallet_check_confirmation cc ctx tx_hash =
     (if \<not> req_new cc \<or> \<not> res_new cc then False
      else case from_trytes cc (take NUM_TRYTES_HASH tx_hash) of
          None \<Rightarrow> False
        | Some flex_tx \<Rightarrow>
            if \<not> req_add cc flex_tx then False
            else case get_inclusion cc (w_client ctx) flex_tx of None \<Rightarrow> False | Some b \<Rightarrow> b)"

section \<open>The balance monitor\<close>

text \<open>Where the monitor thread stands: before its first request, asleep in the loop with the balance
  it started from, or ended with the arguments of the callback, if it was called.\<close>

datatype balance_phase =
    BalanceStart
  | BalanceLoop "64 word"
  | BalanceEnd "(64 word \<times> 64 word) option"

record balance_service_t =
  bs_addr :: bytes
  bs_status :: "8 word"
  bs_interval :: "32 word"
  bs_threshold :: "64 word"
  bs_current :: "64 word"
  bs_wallet :: "wallet_ctx option"
  bs_cb :: bool
  bs_phase :: balance_phase

datatype monitor_event = Wake cclient | Stop

text \<open>\<open>balance_service_start\<close>: the two calls that can fail are the initialisation of the lock and the
  creation of the thread.\<close>

definition balance_service_start :: "bool \<Rightarrow> bool \<Rightarrow> wallet_ctx option \<Rightarrow> bytes \<Rightarrow> 32 word \<Rightarrow> 64 word \<Rightarrow> bool
    \<Rightarrow> balance_service_t option" where
  "balance_service_start lock_ok thread_ok wallet address interval threshold cb =
     (if lock_ok \<and> thread_ok then
        Some \<lparr>bs_addr = take NUM_TRYTES_ADDRESS address, bs_status = 0, bs_interval = interval,
          bs_threshold = threshold, bs_current = 0, bs_wallet = wallet, bs_cb = cb, bs_phase = BalanceStart\<rparr>
      else None)"

definition balance_service_stop :: "balance_service_t \<Rightarrow> balance_service_t" where
  "balance_service_stop serv = serv\<lparr>bs_status := 2\<rparr>"

definition balance_service_free :: "balance_service_t option \<Rightarrow> balance_service_t option" where
  "balance_service_free serv = None"

text \<open>The end of the thread function.\<close>

definition balance_finish :: "64 word \<Rightarrow> balance_service_t \<Rightarrow> balance_service_t" where
  "balance_finish old serv =
     serv\<lparr>bs_phase := BalanceEnd (if bs_cb serv then Some (old, bs_current serv) else None)\<rparr>"

text \<open>The loop condition, in 64-bit unsigned arithmetic.\<close>

definition balance_loop_test :: "64 word \<Rightarrow> balance_service_t \<Rightarrow> balance_service_t" where
  "balance_loop_test old serv =
     (if bs_current serv - old < bs_threshold serv then serv\<lparr>bs_phase := BalanceLoop old\<rparr>
      else balance_finish old serv)"

definition balance_wake :: "cclient \<Rightarrow> balance_service_t \<Rightarrow> balance_service_t" where
  "balance_wake cc serv =
     (case bs_phase serv of
        BalanceStart \<Rightarrow>
          (let (err, cur) = wallet_check_balance cc (bs_wallet serv) (bs_addr serv) (bs_current serv);
               serv = serv\<lparr>bs_current := cur\<rparr>
           in if err = WALLET_OK then balance_loop_test cur (serv\<lparr>bs_status := 1\<rparr>)
              else serv\<lparr>bs_phase := BalanceEnd None\<rparr>)
      | BalanceLoop old \<Rightarrow>
          if bs_status serv = 2 then balance_finish old serv
          else (let (err, cur) = wallet_check_balance cc (bs_wallet serv) (bs_addr serv) (bs_current serv);
                    serv = serv\<lparr>bs_current := cur\<rparr>
                in if err \<noteq> WALLET_OK then balance_finish old serv else balance_loop_test old serv)
      | BalanceEnd _ \<Rightarrow> serv)"

fun balance_event :: "monitor_event \<Rightarrow> balance_service_t \<Rightarrow> balance_service_t" where
  "balance_event (Wake cc) serv = balance_wake cc serv"
| "balance_event Stop serv = balance_service_stop serv"

definition balance_service :: "monitor_event list \<Rightarrow> balance_service_t \<Rightarrow> balance_service_t" where
  "balance_service evs serv = fold balance_event evs serv"

section \<open>The confirmation monitor\<close>

datatype confirm_phase =
    ConfirmStart
  | ConfirmLoop "32 word"
  | ConfirmEnd "(32 word \<times> bool) option"

record confirmation_service_t =
  cs_tx :: bytes
  cs_status :: "8 word"
  cs_interval :: "32 word"
  cs_timeout :: "32 word"
  cs_wallet :: wallet_ctx
  cs_cb :: bool
  cs_phase :: confirm_phase

definition confirmation_service_start :: "bool \<Rightarrow> bool \<Rightarrow> wallet_ctx \<Rightarrow> bytes \<Rightarrow> 32 word \<Rightarrow> 32 word \<Rightarrow> bool
    \<Rightarrow> confirmation_service_t option" where
  "confirmation_service_start lock_ok thread_ok wallet tx_hash interval timeout cb =
     (if lock_ok \<and> thread_ok then
        Some \<lparr>cs_tx = take NUM_TRYTES_HASH tx_hash, cs_status = 0, cs_interval = interval, cs_timeout = timeout,
          cs_wallet = wallet, cs_cb = cb, cs_phase = ConfirmStart\<rparr>
      else None)"

definition confirmation_service_stop :: "confirmation_service_t \<Rightarrow> confirmation_service_t" where
  "confirmation_service_stop serv = serv\<lparr>cs_status := 2\<rparr>"

definition confirmation_service_free :: "confirmation_service_t option \<Rightarrow> confirmation_service_t option" where
  "confirmation_service_free serv = None"

definition confirm_finish :: "32 word \<Rightarrow> bool \<Rightarrow> confirmation_service_t \<Rightarrow> confirmation_service_t" where
  "confirm_finish time is_confirmed serv =
     serv\<lparr>cs_phase := ConfirmEnd (if cs_cb serv then Some (time, is_confirmed) else None)\<rparr>"

text \<open>The first check of the thread, and one round of its loop.\<close>

definition confirm_wake :: "cclient \<Rightarrow> confirmation_service_t \<Rightarrow> confirmation_service_t" where
  "confirm_wake cc serv =
     (case cs_phase serv of
        ConfirmStart \<Rightarrow>
          if wallet_check_confirmation cc (cs_wallet serv) (cs_tx serv) then confirm_finish 0 True serv
          else serv\<lparr>cs_phase := ConfirmLoop 0\<rparr>
      | ConfirmLoop time \<Rightarrow>
          if cs_timeout serv \<le> time then confirm_finish time False serv
          else if cs_status serv = 2 then confirm_finish time False serv
          else if wallet_check_confirmation cc (cs_wallet serv) (cs_tx serv) then confirm_finish time True serv
          else serv\<lparr>cs_phase := ConfirmLoop (time + cs_interval serv)\<rparr>
      | ConfirmEnd _ \<Rightarrow> serv)"

fun confirm_event :: "monitor_event \<Rightarrow> confirmation_service_t \<Rightarrow> confirmation_service_t" where
  "confirm_event (Wake cc) serv = confirm_wake cc serv"
| "confirm_event Stop serv = confirmation_service_stop serv"

definition confirmation_service :: "monitor_event list \<Rightarrow> confirmation_service_t \<Rightarrow> confirmation_service_t" where
  "confirmation_service evs serv = fold confirm_event evs serv"

section \<open>Evaluation of the monitors\<close>

lemmas wallet_checks = wallet_check_balance_def wallet_check_confirmation_def

text \<open>What one request of the monitor reports: the balance, unless the request fails.\<close>

definition reported :: "balance_service_t \<Rightarrow> cclient \<Rightarrow> 64 word option" where
  "reported serv cc =
     (let (err, v) = wallet_check_balance cc (bs_wallet serv) (bs_addr serv) 0
      in if err = WALLET_OK then Some v else None)"

lemma check_balance_reported:
  "reported serv cc = Some v \<Longrightarrow> wallet_check_balance cc (bs_wallet serv) (bs_addr serv) c = (WALLET_OK, v)"
  by (auto simp: reported_def wallet_check_balance_def split: option.splits if_splits)

lemma check_balance_failed:
  "reported serv cc = None \<Longrightarrow>
     \<exists>err. err \<noteq> WALLET_OK \<and> wallet_check_balance cc (bs_wallet serv) (bs_addr serv) c = (err, c)"
  by (auto simp: reported_def wallet_check_balance_def split: option.splits if_splits)

lemma reported_cong:
  "bs_wallet s' = bs_wallet s \<Longrightarrow> bs_addr s' = bs_addr s \<Longrightarrow> reported s' = reported s"
  by (rule ext) (simp add: reported_def)

text \<open>The loop condition read on numbers: the rise of the balance reaches the threshold, or the balance
  falls and the difference wraps around to a value that does.\<close>

definition leaves_loop :: "64 word \<Rightarrow> 64 word \<Rightarrow> 64 word \<Rightarrow> bool" where
  "leaves_loop threshold old cur \<longleftrightarrow>
     (if old \<le> cur then unat old + unat threshold \<le> unat cur
      else unat old + unat threshold \<le> unat cur + 2 ^ 64)"

lemma loop_condition: "cur - old < threshold \<longleftrightarrow> \<not> leaves_loop threshold old cur"
proof (cases "old \<le> cur")
  case True
  then have "unat (cur - old) = unat cur - unat old" "unat old \<le> unat cur"
    by (simp_all add: unat_sub word_le_nat_alt)
  with True show ?thesis
    by (auto simp: leaves_loop_def word_less_nat_alt)
next
  case False
  then have "unat (cur - old) = unat cur + 2 ^ 64 - unat old" "unat cur < unat old"
    by (simp_all add: unat_sub_if' word_le_nat_alt)
  moreover have "unat old < 2 ^ 64" using unsigned_less [of old] by simp
  ultimately show ?thesis
    using False by (auto simp: leaves_loop_def word_less_nat_alt)
qed

lemma balance_service_simps [simp]:
  "balance_service [] s = s"
  "balance_service (e # es) s = balance_service es (balance_event e s)"
  "bs_phase s = BalanceEnd r \<Longrightarrow> balance_wake cc s = s"
  by (simp_all add: balance_service_def balance_wake_def)

lemma balance_ended:
  "bs_phase s = BalanceEnd r \<Longrightarrow> bs_phase (balance_service (map Wake ccs) s) = BalanceEnd r"
  by (induction ccs) simp_all

lemma balance_loop_polls:
  assumes "bs_phase s = BalanceLoop old" "bs_status s \<noteq> 2" "bs_cb s"
    and "map (reported s) ccs = map Some bs"
  shows "bs_phase (balance_service (map Wake ccs) s) =
     (case find (leaves_loop (bs_threshold s) old) bs of
        None \<Rightarrow> BalanceLoop old | Some b \<Rightarrow> BalanceEnd (Some (old, b)))"
  using assms
proof (induction ccs arbitrary: s bs)
  case (Cons cc ccs)
  then obtain b bs' where bs: "bs = b # bs'" and b: "reported s cc = Some b"
    and rest: "map (reported s) ccs = map Some bs'" by auto
  note check = check_balance_reported [OF b]
  show ?case
  proof (cases "leaves_loop (bs_threshold s) old b")
    case True
    show ?thesis
      using Cons.prems check True
      by (simp add: bs balance_wake_def balance_loop_test_def balance_finish_def loop_condition balance_ended)
  next
    case False
    let ?t = "s\<lparr>bs_current := b, bs_phase := BalanceLoop old\<rparr>"
    have "bs_phase (balance_service (map Wake ccs) ?t) =
       (case find (leaves_loop (bs_threshold ?t) old) bs' of
          None \<Rightarrow> BalanceLoop old | Some b \<Rightarrow> BalanceEnd (Some (old, b)))"
      using Cons.prems rest reported_cong [of ?t s] by (intro Cons.IH) simp_all
    then show ?thesis
      using Cons.prems check False
      by (simp add: bs balance_wake_def balance_loop_test_def loop_condition)
  qed
qed simp

section \<open>Properties of the balance monitor\<close>

text \<open>
  C9. The balance monitor, when its requests succeed and nobody stops it, runs until the first reported
  balance (the starting one included) that is at least the starting balance plus the threshold, or
  that is below the starting balance by at most \<open>2^64 - threshold\<close>: a balance that drops ends the
  monitor as well, because the difference is computed in unsigned arithmetic. The callback then
  gets the starting balance and that balance.
\<close>

theorem balance_service_callback:
  assumes "bs_phase s = BalanceStart" "bs_cb s"
    and "reported s cc = Some old"
    and "map (reported s) ccs = map Some bs"
  shows "bs_phase (balance_service (map Wake (cc # ccs)) s) =
     (case find (\<lambda>cur. if old \<le> cur then unat old + unat (bs_threshold s) \<le> unat cur
                       else unat old + unat (bs_threshold s) \<le> unat cur + 2 ^ 64) (old # bs) of
        None \<Rightarrow> BalanceLoop old
      | Some cur \<Rightarrow> BalanceEnd (Some (old, cur)))"
proof (cases "leaves_loop (bs_threshold s) old old")
  case True
  show ?thesis
    using assms True check_balance_reported [OF assms(3)]
    by (simp add: balance_wake_def balance_loop_test_def balance_finish_def loop_condition balance_ended)
      (simp add: leaves_loop_def)
next
  case False
  let ?t = "s\<lparr>bs_current := old, bs_status := 1, bs_phase := BalanceLoop old\<rparr>"
  have "bs_phase (balance_service (map Wake ccs) ?t) =
     (case find (leaves_loop (bs_threshold ?t) old) bs of
        None \<Rightarrow> BalanceLoop old | Some b \<Rightarrow> BalanceEnd (Some (old, b)))"
    using assms reported_cong [of ?t s] by (intro balance_loop_polls) simp_all
  moreover have "balance_wake cc s = ?t"
    using assms False check_balance_reported [OF assms(3)]
    by (simp add: balance_wake_def balance_loop_test_def loop_condition)
  ultimately show ?thesis
    using False by (simp add: leaves_loop_def [abs_def])
qed

text \<open>A client library that answers every call, with a given balance and confirmation state.\<close>

definition sample_client :: "64 word \<Rightarrow> bool \<Rightarrow> cclient" where
  "sample_client v b = \<lparr>is_seed = (\<lambda>t. t \<noteq> []), is_address = (\<lambda>t. t \<noteq> []),
     client_core_init = (\<lambda>url port pem. Some 1), from_trytes = (\<lambda>t. Some (map (\<lambda>c. int (of_char c)) t)),
     to_trytes = (\<lambda>ts. map (\<lambda>t. if t = 66 then CHR ''B'' else CHR ''A'') ts), req_new = True, res_new = True, req_add = (\<lambda>t. True),
     get_balances = (\<lambda>c a th. Some v), get_new_address = (\<lambda>c sd sec start. Some [[65], [66]]),
     send_transfer = (\<lambda>c sd sec d mw ts. Some [67]), get_inclusion = (\<lambda>c h. Some b)\<rparr>"

definition sample_wallet :: wallet_ctx where
  "sample_wallet = \<lparr>w_mwm = 10, w_security = 2, w_depth = 3, w_unused_idx = 0, w_seed = [1], w_client = 1\<rparr>"

definition sample_balance_service :: balance_service_t where
  "sample_balance_service = \<lparr>bs_addr = ''A'', bs_status = 0, bs_interval = 5, bs_threshold = 10, bs_current = 0,
     bs_wallet = Some sample_wallet, bs_cb = True, bs_phase = BalanceStart\<rparr>"

lemma sample_reported [simp]: "reported sample_balance_service (sample_client v b) = Some v"
  by (simp add: reported_def wallet_check_balance_def sample_client_def sample_balance_service_def)

lemma sample_service_fields [simp]:
  "bs_phase sample_balance_service = BalanceStart" "bs_cb sample_balance_service"
  "bs_threshold sample_balance_service = 10" "bs_status sample_balance_service = 0"
  by (simp_all add: sample_balance_service_def)

theorem balance_service_callback_witness:
  "bs_phase (balance_service (map Wake [sample_client 100 False, sample_client 105 False, sample_client 99 False])
      sample_balance_service) = BalanceEnd (Some (100, 99))"
proof -
  have "map (reported sample_balance_service) [sample_client 105 False, sample_client 99 False] = map Some [105, 99]"
    by simp
  from balance_service_callback [OF sample_service_fields(1,2) sample_reported this, of 100 False]
  show ?thesis by simp
qed

text \<open>
  A stop request that arrives before the first request of the balance monitor has been answered is
  lost: the thread overwrites the status with \<open>1\<close> and runs on as if nobody had asked it to stop.
\<close>

theorem early_stop_is_lost:
  assumes "bs_phase s = BalanceStart" "reported s cc = Some old"
  shows "balance_service (Stop # Wake cc # evs) s = balance_service (Wake cc # evs) s"
proof -
  have "reported (balance_service_stop s) cc = Some old"
    using assms(2) reported_cong [of "balance_service_stop s" s] by (simp add: balance_service_stop_def)
  from check_balance_reported [OF this] check_balance_reported [OF assms(2)] assms(1)
  have "balance_wake cc (balance_service_stop s) = balance_wake cc s"
    by (simp add: balance_wake_def balance_service_stop_def)
  then show ?thesis by simp
qed

theorem early_stop_is_lost_witness:
  "balance_service [Stop, Wake (sample_client 100 False), Wake (sample_client 101 False)] sample_balance_service =
   balance_service [Wake (sample_client 100 False), Wake (sample_client 101 False)] sample_balance_service"
  by (rule early_stop_is_lost [OF sample_service_fields(1) sample_reported])

section \<open>Properties of the confirmation monitor\<close>

lemma confirmation_service_simps [simp]:
  "confirmation_service [] s = s"
  "confirmation_service (e # es) s = confirmation_service es (confirm_event e s)"
  "cs_phase s = ConfirmEnd r \<Longrightarrow> confirm_wake cc s = s"
  by (simp_all add: confirmation_service_def confirm_wake_def)

lemma confirm_ended: "cs_phase s = ConfirmEnd r \<Longrightarrow> cs_phase (confirmation_service evs s) = ConfirmEnd r"
proof (induction evs arbitrary: s)
  case (Cons e evs)
  then show ?case by (cases e) (simp_all add: confirmation_service_stop_def)
qed simp

lemma confirm_event_fixed:
  "cs_interval (confirm_event e s) = cs_interval s" "cs_timeout (confirm_event e s) = cs_timeout s"
  "cs_tx (confirm_event e s) = cs_tx s" "cs_wallet (confirm_event e s) = cs_wallet s"
  by (cases e; auto simp: confirm_wake_def confirm_finish_def confirmation_service_stop_def
      split: confirm_phase.splits)+

text \<open>The number of rounds of the loop that a list of events contains.\<close>

definition wakes :: "monitor_event list \<Rightarrow> nat" where
  "wakes evs = length (filter (\<lambda>e. e \<noteq> Stop) evs)"

lemma wakes_simps [simp]: "wakes [] = 0" "wakes (Wake cc # evs) = Suc (wakes evs)" "wakes (Stop # evs) = wakes evs"
  by (simp_all add: wakes_def)

lemma wakes_replicate: "wakes (replicate n (Wake cc)) = n"
  by (induction n) simp_all

lemma confirm_loop_ends:
  assumes "cs_phase s = ConfirmLoop t" "0 < unat (cs_interval s)"
    and "unat (cs_timeout s) + unat (cs_interval s) \<le> 2 ^ 32"
    and "unat (cs_timeout s) + unat (cs_interval s) \<le> unat t + wakes evs * unat (cs_interval s)"
    and "unat t < unat (cs_timeout s) + unat (cs_interval s)"
  shows "\<exists>r. cs_phase (confirmation_service evs s) = ConfirmEnd r"
  using assms
proof (induction evs arbitrary: s t)
  case (Cons e evs)
  show ?case
  proof (cases e)
    case (Wake cc)
    show ?thesis
    proof (cases "\<exists>r. cs_phase (confirm_wake cc s) = ConfirmEnd r")
      case True
      then show ?thesis using Wake confirm_ended by auto
    next
      case False
      then have less: "t < cs_timeout s"
        and next_s: "confirm_wake cc s = s\<lparr>cs_phase := ConfirmLoop (t + cs_interval s)\<rparr>"
        using Cons.prems(1) by (auto simp: confirm_wake_def confirm_finish_def split: if_splits)
      have sum: "unat (t + cs_interval s) = unat t + unat (cs_interval s)"
        using less Cons.prems(3) by (subst unat_plus_simple [THEN iffD1]) (auto simp: no_olen_add_nat word_less_nat_alt)
      show ?thesis
        using Cons.prems less Wake
        by (simp add: next_s) (rule Cons.IH [where t = "t + cs_interval s"]; simp add: sum word_less_nat_alt)
    qed
  next
    case Stop
    then show ?thesis
      using Cons.prems Cons.IH [of "confirmation_service_stop s" t] by (simp add: confirmation_service_stop_def)
  qed
qed simp

text \<open>
  C8. The confirmation monitor ends: when the interval is positive and the timeout plus one interval
  does not exceed \<open>2^32\<close>, then after the first check and \<open>timeout / interval + 1\<close> rounds (rounded up)
  the thread has ended, whatever the client library answers and whenever a stop arrives.
\<close>

theorem confirmation_service_ends:
  assumes "cs_phase s = ConfirmStart" "0 < unat (cs_interval s)"
    and "unat (cs_timeout s) + unat (cs_interval s) \<le> 2 ^ 32"
    and "unat (cs_timeout s) + 2 * unat (cs_interval s) \<le> wakes evs * unat (cs_interval s)"
  shows "\<exists>r. cs_phase (confirmation_service evs s) = ConfirmEnd r"
  using assms
proof (induction evs arbitrary: s)
  case (Cons e evs)
  show ?case
  proof (cases e)
    case (Wake cc)
    show ?thesis
    proof (cases "\<exists>r. cs_phase (confirm_wake cc s) = ConfirmEnd r")
      case True
      then show ?thesis using Wake confirm_ended by auto
    next
      case False
      then have "confirm_wake cc s = s\<lparr>cs_phase := ConfirmLoop 0\<rparr>"
        using Cons.prems(1) by (auto simp: confirm_wake_def confirm_finish_def split: if_splits)
      with Cons.prems Wake show ?thesis
        by simp (rule confirm_loop_ends [where t = 0]; simp)
    qed
  next
    case Stop
    then show ?thesis
      using Cons.prems Cons.IH [of "confirmation_service_stop s"] by (simp add: confirmation_service_stop_def)
  qed
qed simp

definition sample_confirmation :: confirmation_service_t where
  "sample_confirmation = \<lparr>cs_tx = ''T'', cs_status = 0, cs_interval = 5, cs_timeout = 9,
     cs_wallet = sample_wallet, cs_cb = True, cs_phase = ConfirmStart\<rparr>"

theorem confirmation_service_ends_witness:
  "\<exists>r. cs_phase (confirmation_service (replicate 4 (Wake (sample_client 0 False))) sample_confirmation) = ConfirmEnd r"
  by (rule confirmation_service_ends) (simp_all add: sample_confirmation_def wakes_replicate)

lemma find_upt_Suc:
  "find P [0..<Suc n] = (if P 0 then Some 0 else map_option Suc (find (\<lambda>k. P (Suc k)) [0..<n]))"
proof -
  have "find P (map Suc xs) = map_option Suc (find (\<lambda>k. P (Suc k)) xs)" for xs
    by (induction xs) auto
  then show ?thesis
    by (simp add: upt_conv_Cons map_Suc_upt [symmetric] del: upt_Suc)
qed

lemma confirm_loop_polls:
  assumes "cs_phase s = ConfirmLoop t" "cs_status s \<noteq> 2" "cs_cb s"
    and "\<forall>cc\<in>set ccs. \<not> wallet_check_confirmation cc (cs_wallet s) (cs_tx s)"
  shows "cs_phase (confirmation_service (map Wake ccs) s) =
     (case find (\<lambda>k. cs_timeout s \<le> t + of_nat k * cs_interval s) [0..<length ccs] of
        None \<Rightarrow> ConfirmLoop (t + of_nat (length ccs) * cs_interval s)
      | Some k \<Rightarrow> ConfirmEnd (Some (t + of_nat k * cs_interval s, False)))"
  using assms
proof (induction ccs arbitrary: s t)
  case (Cons cc ccs)
  show ?case
  proof (cases "cs_timeout s \<le> t")
    case True
    then show ?thesis
      using Cons.prems confirm_ended by (simp add: confirm_wake_def confirm_finish_def find_upt_Suc del: upt_Suc)
  next
    case False
    let ?s = "s\<lparr>cs_phase := ConfirmLoop (t + cs_interval s)\<rparr>"
    from Cons.prems False have "confirm_wake cc s = ?s"
      by (simp add: confirm_wake_def)
    then show ?thesis
      using Cons.prems False Cons.IH [of ?s "t + cs_interval s"]
      by (simp add: find_upt_Suc algebra_simps del: upt_Suc split: option.splits)
  qed
qed simp

text \<open>
  A monitor of a transaction that is never confirmed, that nobody stops, reports a timeout exactly
  after the first round \<open>k\<close> in which \<open>k * interval\<close>, computed modulo \<open>2^32\<close>, reaches the timeout. So
  it never ends when the interval is zero and the timeout is not, nor when the multiples of the interval
  wrap around below the timeout.
\<close>

theorem confirmation_timeout:
  assumes "cs_phase s = ConfirmStart" "cs_status s \<noteq> 2" "cs_cb s"
    and "\<forall>cc\<in>set (cc # ccs). \<not> wallet_check_confirmation cc (cs_wallet s) (cs_tx s)"
  shows "cs_phase (confirmation_service (map Wake (cc # ccs)) s) =
     (case find (\<lambda>k. unat (cs_timeout s) \<le> (k * unat (cs_interval s)) mod 2 ^ 32) [0..<length ccs] of
        None \<Rightarrow> ConfirmLoop (of_nat (length ccs) * cs_interval s)
      | Some k \<Rightarrow> ConfirmEnd (Some (of_nat k * cs_interval s, False)))"
proof -
  let ?s = "s\<lparr>cs_phase := ConfirmLoop 0\<rparr>"
  have mult: "unat (of_nat k * cs_interval s) = (k * unat (cs_interval s)) mod 2 ^ 32" for k
    by (simp add: unat_word_ariths unat_of_nat mod_mult_left_eq)
  have "confirm_wake cc s = ?s"
    using assms by (simp add: confirm_wake_def)
  moreover have "cs_phase (confirmation_service (map Wake ccs) ?s) =
     (case find (\<lambda>k. cs_timeout s \<le> of_nat k * cs_interval s) [0..<length ccs] of
        None \<Rightarrow> ConfirmLoop (of_nat (length ccs) * cs_interval s)
      | Some k \<Rightarrow> ConfirmEnd (Some (of_nat k * cs_interval s, False)))"
    using assms confirm_loop_polls [of ?s 0 ccs] by (simp split: option.split)
  ultimately show ?thesis
    by (simp add: word_le_nat_alt mult)
qed

lemma sample_unconfirmed: "\<not> wallet_check_confirmation (sample_client v False) w t"
  by (simp add: wallet_check_confirmation_def sample_client_def)

theorem confirmation_timeout_witness:
  "let cc = sample_client 0 False in
   cs_phase (confirmation_service (map Wake [cc, cc, cc, cc])
      (sample_confirmation\<lparr>cs_timeout := 4294967295, cs_interval := 2147483648\<rparr>)) = ConfirmLoop 2147483648"
  using confirmation_timeout [of "sample_confirmation\<lparr>cs_timeout := 4294967295, cs_interval := 2147483648\<rparr>"
      "sample_client 0 False" "[sample_client 0 False, sample_client 0 False, sample_client 0 False]"]
  by (simp add: sample_confirmation_def sample_unconfirmed Let_def)

section \<open>Properties of the wallet operations\<close>

text \<open>
  The index that \<open>wallet_get_address\<close> reports and stores is relative to the index the search
  started from. When the library generates the addresses of the seed from the stored index up to the
  first unused one, \<open>u\<close>, the buffer gets the address of \<open>u\<close>, but the stored index becomes
  \<open>u - start\<close>: it is the index of that address only if the search started at zero.
\<close>

theorem get_address_index:
  assumes "get_new_address cc (w_client w) (w_seed w) (w_security w) (w_unused_idx w) =
             Some (map addr [unat (w_unused_idx w)..<Suc u])"
    and "unat (w_unused_idx w) \<le> u"
  shows "wallet_get_address cc w buf idx =
     Some (w\<lparr>w_unused_idx := of_nat (u - unat (w_unused_idx w))\<rparr>, to_trytes cc (addr u),
       of_nat (u - unat (w_unused_idx w)), WALLET_OK)"
proof -
  have "last (map addr [unat (w_unused_idx w)..<Suc u]) = addr u"
    using assms(2) by simp
  moreover have "length (map addr [unat (w_unused_idx w)..<Suc u]) = Suc (u - unat (w_unused_idx w))"
    using assms(2) by simp
  moreover have "map addr [unat (w_unused_idx w)..<Suc u] \<noteq> []"
    using assms(2) by simp
  ultimately show ?thesis
    by (simp add: wallet_get_address_def assms(1) Let_def del: upt_Suc)
qed

theorem get_address_index_witness:
  "wallet_get_address (sample_client 0 False) (sample_wallet\<lparr>w_unused_idx := 7\<rparr>) [] 0 =
     Some (sample_wallet\<lparr>w_unused_idx := 1\<rparr>, ''B'', 1, WALLET_OK)"
  using get_address_index [of "sample_client 0 False" "sample_wallet\<lparr>w_unused_idx := 7\<rparr>"
      "\<lambda>i. [58 + int i]" 8]
  by (simp add: sample_client_def sample_wallet_def upt_rec)

end
