(* ===== verification/Relay_Board.thy ===== *)
theory Relay_Board
  imports Interfaces
begin

text \<open>
  The relay board of the Raspberry Pi (\<open>relay_interface.c\<close>) and the GPIO input
  (\<open>gpio_interface.c\<close>). The pigpio library is a parameter: the result of its initialisation and
  what it reads from a pin. A function is modelled by its result and the sequence of library calls it
  makes; what a sequence does to the pins is their meaning on a map from pins to levels.
\<close>

section \<open>Library calls\<close>

datatype gpio_mode = PI_INPUT | PI_OUTPUT

datatype gpio_call =
    GpioInitialise
  | GpioSetMode nat gpio_mode
  | GpioWrite nat bool
  | GpioRead nat
  | GpioSleep
  | GpioTerminate

record pigpio =
  gpio_initialise :: int
  gpio_read :: "nat \<Rightarrow> int"

text \<open>The levels of the pins after a sequence of calls.\<close>

fun levels :: "gpio_call list \<Rightarrow> (nat \<Rightarrow> bool) \<Rightarrow> (nat \<Rightarrow> bool)" where
  "levels [] l = l"
| "levels (GpioWrite p v # cs) l = levels cs (l(p := v))"
| "levels (c # cs) l = levels cs l"

text \<open>Whether the library is initialised after a sequence of calls.\<close>

fun lib_open :: "gpio_call list \<Rightarrow> bool \<Rightarrow> bool" where
  "lib_open [] b = b"
| "lib_open (GpioInitialise # cs) b = lib_open cs True"
| "lib_open (GpioTerminate # cs) b = lib_open cs False"
| "lib_open (c # cs) b = lib_open cs b"

section \<open>Relays\<close>

definition idx2bcm :: "nat list" where
  "idx2bcm = [4, 17, 22, 27]"

definition check_idx :: "int \<Rightarrow> int" where
  "check_idx idx = (if idx < 0 \<or> idx > 3 then - 1 else 0)"

definition relayinterface_on :: "pigpio \<Rightarrow> int \<Rightarrow> int \<times> gpio_call list" where
  "relayinterface_on io idx =
     (if gpio_initialise io < 0 \<or> check_idx idx < 0 then (1, [GpioInitialise])
      else let bcm = idx2bcm ! nat idx
           in (0, [GpioInitialise, GpioSetMode bcm PI_OUTPUT, GpioWrite bcm True, GpioTerminate]))"

definition relayinterface_off :: "pigpio \<Rightarrow> int \<Rightarrow> int \<times> gpio_call list" where
  "relayinterface_off io idx =
     (if gpio_initialise io < 0 \<or> check_idx idx < 0 then (1, [GpioInitialise])
      else let bcm = idx2bcm ! nat idx
           in (0, [GpioInitialise, GpioSetMode bcm PI_OUTPUT, GpioWrite bcm False, GpioTerminate]))"

definition relayinterface_toggle :: "pigpio \<Rightarrow> int \<Rightarrow> int \<times> gpio_call list" where
  "relayinterface_toggle io idx =
     (if gpio_initialise io < 0 \<or> check_idx idx < 0 then (1, [GpioInitialise])
      else let bcm = idx2bcm ! nat idx;
               current_state = gpio_read io bcm
           in (0, [GpioInitialise, GpioSetMode bcm PI_OUTPUT, GpioRead bcm] @
                  (if current_state = 0 then [GpioWrite bcm True]
                   else if current_state = 1 then [GpioWrite bcm False] else []) @
                  [GpioTerminate]))"

definition relayinterface_pulse :: "pigpio \<Rightarrow> int \<Rightarrow> int \<times> gpio_call list" where
  "relayinterface_pulse io idx =
     (if gpio_initialise io < 0 \<or> check_idx idx < 0 then (1, [GpioInitialise])
      else let bcm = idx2bcm ! nat idx
           in (0, [GpioInitialise, GpioSetMode bcm PI_OUTPUT, GpioWrite bcm True, GpioSleep,
                   GpioWrite bcm False, GpioTerminate]))"

section \<open>GPIO input\<close>

definition gpio_idx2bcm :: "nat list" where
  "gpio_idx2bcm = [4, 17, 27, 22]"

text \<open>\<open>check_idx\<close> of this file has no return statement for an index in range; using its result is
  undefined.\<close>

definition gpio_check_idx :: "int \<Rightarrow> int option" where
  "gpio_check_idx idx = (if idx < 0 \<or> idx > 3 then Some (- 1) else None)"

definition gpio_interface_read :: "pigpio \<Rightarrow> int \<Rightarrow> (int \<times> gpio_call list) option" where
  "gpio_interface_read io idx =
     (if gpio_initialise io < 0 then Some (1, [GpioInitialise])
      else do {
        c \<leftarrow> gpio_check_idx idx;
        (if c < 0 then Some (1, [GpioInitialise])
         else let bcm = gpio_idx2bcm ! nat idx
              in Some (gpio_read io bcm, [GpioInitialise, GpioSetMode bcm PI_INPUT, GpioRead bcm, GpioTerminate]))
      })"

section \<open>Lemmas\<close>

abbreviation relay_ok :: "int \<Rightarrow> bool" where
  "relay_ok idx \<equiv> 0 \<le> idx \<and> idx \<le> 3"

abbreviation relay_pin :: "int \<Rightarrow> nat" where
  "relay_pin idx \<equiv> idx2bcm ! nat idx"

lemma relay_pins_distinct:
  assumes "relay_ok i" "relay_ok j" "relay_pin i = relay_pin j"
  shows "i = j"
proof -
  have "distinct idx2bcm" "length idx2bcm = 4" by (simp_all add: idx2bcm_def)
  then have "nat i = nat j"
    using assms by (subst (asm) nth_eq_iff_index_eq) auto
  with assms show ?thesis by (simp add: eq_nat_nat_iff)
qed

text \<open>What the library reports about an output pin is its level.\<close>

definition reads_levels :: "pigpio \<Rightarrow> (nat \<Rightarrow> bool) \<Rightarrow> bool" where
  "reads_levels io l \<longleftrightarrow> (\<forall>p. gpio_read io p = (if l p then 1 else 0))"

text \<open>The contract of a relay operation: on a valid index it drives exactly the pin of that relay and
  closes the library; otherwise it reports an error and drives no pin.\<close>

locale relay_operation =
  fixes op :: "pigpio \<Rightarrow> int \<Rightarrow> int \<times> gpio_call list"
    and new_level :: "bool \<Rightarrow> bool"
  assumes drives: "0 \<le> gpio_initialise io \<Longrightarrow> relay_ok idx \<Longrightarrow> reads_levels io l \<Longrightarrow>
      fst (op io idx) = 0 \<and> lib_open (snd (op io idx)) b = False \<and>
      levels (snd (op io idx)) l = l(relay_pin idx := new_level (l (relay_pin idx)))"
    and refuses: "gpio_initialise io < 0 \<or> \<not> relay_ok idx \<Longrightarrow> op io idx = (1, [GpioInitialise])"
begin

lemma other_relays:
  assumes "0 \<le> gpio_initialise io" "relay_ok idx" "reads_levels io l" "relay_ok k"
  shows "levels (snd (op io idx)) l (relay_pin k) =
     (if k = idx then new_level (l (relay_pin k)) else l (relay_pin k))"
  using drives [OF assms(1-3)] relay_pins_distinct [OF assms(4,2)] by auto

lemma bad_index_stays_open:
  assumes "\<not> relay_ok idx"
  shows "fst (op io idx) = 1 \<and> levels (snd (op io idx)) l = l \<and> lib_open (snd (op io idx)) b"
  using refuses assms by simp

end

lemmas relay_defs = relayinterface_on_def relayinterface_off_def relayinterface_toggle_def
  relayinterface_pulse_def check_idx_def Let_def

interpretation relay_on: relay_operation relayinterface_on "\<lambda>_. True"
  by unfold_locales (auto simp: relay_defs)

interpretation relay_off: relay_operation relayinterface_off "\<lambda>_. False"
  by unfold_locales (auto simp: relay_defs)

interpretation relay_toggle: relay_operation relayinterface_toggle "\<lambda>v. \<not> v"
  by unfold_locales (auto simp: relay_defs reads_levels_def)

interpretation relay_pulse: relay_operation relayinterface_pulse "\<lambda>_. False"
  by unfold_locales (auto simp: relay_defs)

section \<open>Sequences of relay commands\<close>

datatype relay_cmd = RelayOn int | RelayOff int | RelayToggle int | RelayPulse int

text \<open>The board whose library starts and reads the pins as they are.\<close>

definition board_io :: "(nat \<Rightarrow> bool) \<Rightarrow> pigpio" where
  "board_io l = \<lparr>gpio_initialise = 0, gpio_read = (\<lambda>p. if l p then 1 else 0)\<rparr>"

fun relay_call :: "relay_cmd \<Rightarrow> pigpio \<Rightarrow> int \<times> gpio_call list" where
  "relay_call (RelayOn i) io = relayinterface_on io i"
| "relay_call (RelayOff i) io = relayinterface_off io i"
| "relay_call (RelayToggle i) io = relayinterface_toggle io i"
| "relay_call (RelayPulse i) io = relayinterface_pulse io i"

fun relay_calls :: "relay_cmd list \<Rightarrow> (nat \<Rightarrow> bool) \<Rightarrow> (nat \<Rightarrow> bool)" where
  "relay_calls [] l = l"
| "relay_calls (c # cs) l = relay_calls cs (levels (snd (relay_call c (board_io l))) l)"

text \<open>The specification: four relays, each on or off.\<close>

fun relay_spec :: "relay_cmd \<Rightarrow> int \<Rightarrow> bool \<Rightarrow> bool" where
  "relay_spec (RelayOn i) k v = (if i = k then True else v)"
| "relay_spec (RelayOff i) k v = (if i = k then False else v)"
| "relay_spec (RelayToggle i) k v = (if i = k then \<not> v else v)"
| "relay_spec (RelayPulse i) k v = (if i = k then False else v)"

lemma board_io_facts: "0 \<le> gpio_initialise (board_io l)" "reads_levels (board_io l) l"
  by (simp_all add: board_io_def reads_levels_def)

lemma relay_call_spec:
  assumes "relay_ok k"
  shows "levels (snd (relay_call c (board_io l))) l (relay_pin k) = relay_spec c k (l (relay_pin k))"
proof (cases c)
  case (RelayOn i)
  then show ?thesis
    using relay_on.other_relays [OF board_io_facts(1) _ board_io_facts(2) assms, of i l]
      relay_on.bad_index_stays_open [of i "board_io l" l] assms by (cases "relay_ok i") auto
next
  case (RelayOff i)
  then show ?thesis
    using relay_off.other_relays [OF board_io_facts(1) _ board_io_facts(2) assms, of i l]
      relay_off.bad_index_stays_open [of i "board_io l" l] assms by (cases "relay_ok i") auto
next
  case (RelayToggle i)
  then show ?thesis
    using relay_toggle.other_relays [OF board_io_facts(1) _ board_io_facts(2) assms, of i l]
      relay_toggle.bad_index_stays_open [of i "board_io l" l] assms by (cases "relay_ok i") auto
next
  case (RelayPulse i)
  then show ?thesis
    using relay_pulse.other_relays [OF board_io_facts(1) _ board_io_facts(2) assms, of i l]
      relay_pulse.bad_index_stays_open [of i "board_io l" l] assms by (cases "relay_ok i") auto
qed

text \<open>
  C11. Any sequence of relay commands, valid and invalid indices alike, refines four independent
  switches: the level of the pin of a relay is the result of the commands for that relay alone.
\<close>

theorem relay_commands_refine:
  assumes "relay_ok k"
  shows "relay_calls cs l (relay_pin k) = fold (\<lambda>c v. relay_spec c k v) cs (l (relay_pin k))"
  using relay_call_spec [OF assms] by (induction cs arbitrary: l) simp_all

theorem relay_commands_refine_witness:
  "relay_calls [RelayOn 2, RelayToggle 3, RelayOff 7, RelayToggle 2, RelayToggle 2] (\<lambda>_. False) (relay_pin 2) = True"
  by (subst relay_commands_refine) simp_all

text \<open>
  Reading a GPIO input is undefined for each of the four valid indices when the library starts.
\<close>

lemma gpio_read_undefined:
  assumes "0 \<le> gpio_initialise io"
  shows "gpio_interface_read io idx = None \<longleftrightarrow> relay_ok idx"
  using assms by (auto simp: gpio_interface_read_def gpio_check_idx_def)

end
