(* ===== verification/Pep_Plugins.thy ===== *)
theory Pep_Plugins
  imports Relay_Board Wallet
begin

text \<open>
  The policy enforcement plugins (\<open>plugins/pep/print\<close>, \<open>relay\<close>, \<open>can\<close> and \<open>canopen\<close>): each registers
  a table of named actions, and its callback runs the first action whose name the requested
  value starts with. The locale \<open>action_table\<close> states what a table has to satisfy for the order of
  its entries not to matter; every plugin's table is an instance.
\<close>

section \<open>Action tables\<close>

record 'a action_set =
  action_names :: "bytes list"
  actions :: "'a list"
  action_count :: nat

abbreviation ACTION_NAME_SIZE :: nat where "ACTION_NAME_SIZE \<equiv> 16"

text \<open>The assignments of an initialiser: the names are copied by \<open>strncpy\<close>.\<close>

definition fill_action_set :: "(bytes \<times> 'a) list \<Rightarrow> 'a action_set" where
  "fill_action_set entries =
     \<lparr>action_names = map (\<lambda>e. strncpy_bytes (fst e) ACTION_NAME_SIZE) entries,
      actions = map snd entries, action_count = length entries\<rparr>"

text \<open>The loop of every \<open>action_cb\<close>: the first entry whose whole name is found at the start of the
  value.\<close>

fun action_loop :: "'a action_set \<Rightarrow> bytes \<Rightarrow> nat list \<Rightarrow> 'a option" where
  "action_loop g action_value [] = None"
| "action_loop g action_value (i # is) =
     (if memcmp_eq action_value (action_names g ! i) (strlen (action_names g ! i)) then Some (actions g ! i)
      else action_loop g action_value is)"

definition find_action :: "'a action_set \<Rightarrow> bytes \<Rightarrow> 'a option" where
  "find_action g action_value = action_loop g action_value [0..<action_count g]"

section \<open>Effects of actions\<close>

datatype pep_effect =
    PepGpio "gpio_call list"
  | PepTangle bytes int
  | PepTerminal bytes

definition ACTION_ADDRESS :: bytes where
  "ACTION_ADDRESS = ''MXHYKULAXKWBY9JCNVPVSOSZHMBDJRWTTXZCTKHLHKSJARDADHJSTCKVQODBVWCYDNGWFGWVTUVENB9UA''"

text \<open>\<open>log_tangle\<close> of the print and of the relay plugin: a transfer of no value; the result is the
  code of the wallet.\<close>

definition log_tangle :: "cclient \<Rightarrow> wallet_ctx \<Rightarrow> bytes \<Rightarrow> int \<times> pep_effect" where
  "log_tangle cc dev_wallet msg =
     (let ret = fst (wallet_send cc dev_wallet ACTION_ADDRESS 0 (Some msg) (replicate 82 NUL))
      in (if ret \<noteq> WALLET_OK then - 1 else 0, PepTangle msg ret))"

subsection \<open>The print plugin\<close>

definition print_terminal :: "bytes \<Rightarrow> int \<times> pep_effect list" where
  "print_terminal action_value = (0, [PepTerminal action_value])"

definition print_actions :: "(bytes \<times> (bytes \<Rightarrow> int \<times> pep_effect list)) list" where
  "print_actions = [(''action#1'', print_terminal)]"

definition pep_plugin_print_initializer :: "wallet_ctx option \<Rightarrow> int \<times> (bytes \<Rightarrow> int \<times> pep_effect list) action_set option" where
  "pep_plugin_print_initializer wallet_context =
     (case wallet_context of None \<Rightarrow> (- 1, None) | Some w \<Rightarrow> (0, Some (fill_action_set print_actions)))"

definition print_action_cb :: "(bytes \<Rightarrow> int \<times> pep_effect list) action_set \<Rightarrow> cclient \<Rightarrow> wallet_ctx \<Rightarrow> bytes \<Rightarrow> bytes
    \<Rightarrow> int \<times> pep_effect list" where
  "print_action_cb g cc dev_wallet obligation action_value =
     (let logged = (if memcmp_eq obligation ''obligation#1'' (length ''obligation#1'')
                    then [snd (log_tangle cc dev_wallet ''hello world from access!'')] else [])
      in case find_action g action_value of
           None \<Rightarrow> (0, logged)
         | Some f \<Rightarrow> (let (status, es) = f action_value in (status, logged @ es)))"

subsection \<open>The relay plugin\<close>

definition plugin_relay_on :: "pigpio \<Rightarrow> cclient \<Rightarrow> wallet_ctx \<Rightarrow> int \<times> pep_effect list" where
  "plugin_relay_on io cc dev_wallet =
     (0, [PepGpio (snd (relayinterface_on io 0)), snd (log_tangle cc dev_wallet ''Relay 0 ON.'')])"

definition plugin_relay_off :: "pigpio \<Rightarrow> cclient \<Rightarrow> wallet_ctx \<Rightarrow> int \<times> pep_effect list" where
  "plugin_relay_off io cc dev_wallet =
     (0, [PepGpio (snd (relayinterface_off io 0)), snd (log_tangle cc dev_wallet ''Relay 0 OFF.'')])"

definition relay_actions :: "(bytes \<times> (pigpio \<Rightarrow> cclient \<Rightarrow> wallet_ctx \<Rightarrow> int \<times> pep_effect list)) list" where
  "relay_actions = [(''action#1'', plugin_relay_on), (''action#2'', plugin_relay_off)]"

definition pep_plugin_relay_initializer :: "wallet_ctx option
    \<Rightarrow> int \<times> (pigpio \<Rightarrow> cclient \<Rightarrow> wallet_ctx \<Rightarrow> int \<times> pep_effect list) action_set option" where
  "pep_plugin_relay_initializer wallet_context =
     (case wallet_context of None \<Rightarrow> (- 1, None) | Some w \<Rightarrow> (0, Some (fill_action_set relay_actions)))"

definition relay_action_cb :: "(pigpio \<Rightarrow> cclient \<Rightarrow> wallet_ctx \<Rightarrow> int \<times> pep_effect list) action_set \<Rightarrow> pigpio \<Rightarrow> cclient
    \<Rightarrow> wallet_ctx \<Rightarrow> bytes \<Rightarrow> int \<times> pep_effect list" where
  "relay_action_cb g io cc dev_wallet action_value =
     (case find_action g action_value of None \<Rightarrow> (0, []) | Some f \<Rightarrow> f io cc dev_wallet)"

subsection \<open>The CAN plugin\<close>

definition car_lock :: "pigpio \<Rightarrow> int \<times> gpio_call list" where
  "car_lock io = (0, snd (relayinterface_pulse io 0))"

definition car_unlock :: "pigpio \<Rightarrow> int \<times> gpio_call list" where
  "car_unlock io = (0, snd (relayinterface_pulse io 1))"

definition start_engine :: "pigpio \<Rightarrow> int \<times> gpio_call list" where
  "start_engine io = (0, snd (relayinterface_pulse io 2))"

definition open_trunk :: "pigpio \<Rightarrow> int \<times> gpio_call list" where
  "open_trunk io = (0, snd (relayinterface_pulse io 3))"

definition can_actions :: "(bytes \<times> (pigpio \<Rightarrow> int \<times> gpio_call list)) list" where
  "can_actions = [(''open_door'', car_unlock), (''close_door'', car_lock), (''open_trunk'', open_trunk),
     (''start_engine'', start_engine)]"

definition pep_plugin_can_initializer :: "int \<times> (pigpio \<Rightarrow> int \<times> gpio_call list) action_set" where
  "pep_plugin_can_initializer = (0, fill_action_set can_actions)"

definition can_action_cb :: "(pigpio \<Rightarrow> int \<times> gpio_call list) action_set \<Rightarrow> pigpio \<Rightarrow> bytes \<Rightarrow> int \<times> gpio_call list" where
  "can_action_cb g io action_value =
     (case find_action g action_value of None \<Rightarrow> (0, []) | Some f \<Rightarrow> f io)"

subsection \<open>The CANopen plugin\<close>

text \<open>The flag \<open>should_log\<close> that the obligation sets is passed to the actions, which ignore it.\<close>

definition vehicle_lock :: "pigpio \<Rightarrow> bool \<Rightarrow> int \<times> gpio_call list" where
  "vehicle_lock io should_log = (0, snd (relayinterface_off io 3))"

definition vehicle_unlock :: "pigpio \<Rightarrow> bool \<Rightarrow> int \<times> gpio_call list" where
  "vehicle_unlock io should_log = (0, snd (relayinterface_on io 3))"

definition honk :: "pigpio \<Rightarrow> bool \<Rightarrow> int \<times> gpio_call list" where
  "honk io should_log = (0, snd (relayinterface_pulse io 2))"

definition alarm_on :: "pigpio \<Rightarrow> bool \<Rightarrow> int \<times> gpio_call list" where
  "alarm_on io should_log = (0, snd (relayinterface_on io 1))"

definition alarm_off :: "pigpio \<Rightarrow> bool \<Rightarrow> int \<times> gpio_call list" where
  "alarm_off io should_log = (0, snd (relayinterface_off io 1))"

definition canopen_actions :: "(bytes \<times> (pigpio \<Rightarrow> bool \<Rightarrow> int \<times> gpio_call list)) list" where
  "canopen_actions = [(''open_door'', vehicle_unlock), (''close_door'', vehicle_lock), (''honk'', honk),
     (''alarm_on'', alarm_on), (''alarm_off'', alarm_off)]"

definition pep_plugin_canopen_initializer :: "bool \<Rightarrow> int \<times> (pigpio \<Rightarrow> bool \<Rightarrow> int \<times> gpio_call list) action_set option" where
  "pep_plugin_canopen_initializer plugin_null =
     (if plugin_null then (- 1, None) else (0, Some (fill_action_set canopen_actions)))"

definition canopen_action_cb :: "(pigpio \<Rightarrow> bool \<Rightarrow> int \<times> gpio_call list) action_set \<Rightarrow> pigpio \<Rightarrow> bytes \<Rightarrow> bytes
    \<Rightarrow> int \<times> gpio_call list" where
  "canopen_action_cb g io obligation action_value =
     (let should_log = memcmp_eq obligation ''log_event'' (length ''log_event'')
      in case find_action g action_value of None \<Rightarrow> (0, []) | Some f \<Rightarrow> f io should_log)"

section \<open>Dispatch\<close>

lemma strncpy_short: "NUL \<notin> set n \<Longrightarrow> length n \<le> k \<Longrightarrow> strncpy_bytes n k = n @ replicate (k - length n) NUL"
  by (simp add: strncpy_bytes_def)

lemma memcmp_prefix: "memcmp_eq v (n @ r) (length n) \<longleftrightarrow> prefix n v"
  by (simp add: memcmp_eq_def prefix_take_conv)

lemma action_loop_entries:
  assumes "\<forall>e\<in>set entries. NUL \<notin> set (fst e) \<and> length (fst e) \<le> ACTION_NAME_SIZE"
    and "set is \<subseteq> {..<length entries}"
  shows "action_loop (fill_action_set entries) v is =
     map_option (\<lambda>i. snd (entries ! i)) (find (\<lambda>i. prefix (fst (entries ! i)) v) is)"
  using assms(2)
proof (induction "is")
  case (Cons i "is")
  then have "i < length entries" by simp
  with assms(1) have "NUL \<notin> set (fst (entries ! i))" "length (fst (entries ! i)) \<le> ACTION_NAME_SIZE"
    using nth_mem by blast+
  with Cons show ?case
    by (simp add: fill_action_set_def strncpy_short memcmp_prefix strlen_def)
qed simp

lemma find_nth_upt: "map_option (\<lambda>i. f (xs ! i)) (find (\<lambda>i. P (xs ! i)) [0..<length xs]) = map_option f (find P xs)"
proof (induction xs)
  case (Cons x xs)
  then show ?case
    by (simp add: find_upt_Suc option.map_comp comp_def del: upt_Suc)
qed simp

lemma find_action_entries:
  assumes "\<forall>e\<in>set entries. NUL \<notin> set (fst e) \<and> length (fst e) \<le> ACTION_NAME_SIZE"
  shows "find_action (fill_action_set entries) v = map_option snd (find (\<lambda>e. prefix (fst e) v) entries)"
  unfolding find_action_def
  by (subst action_loop_entries [OF assms])
    (auto simp: fill_action_set_def find_nth_upt [of snd entries "\<lambda>e. prefix (fst e) v"])

text \<open>A table in which the names fit their slots and no name starts with another one.\<close>

locale action_table =
  fixes entries :: "(bytes \<times> 'a) list"
  assumes names_fit: "e \<in> set entries \<Longrightarrow> NUL \<notin> set (fst e) \<and> length (fst e) \<le> ACTION_NAME_SIZE"
    and names_apart: "e \<in> set entries \<Longrightarrow> e' \<in> set entries \<Longrightarrow> prefix (fst e) (fst e') \<Longrightarrow> e = e'"
begin

lemma dispatch_unique:
  assumes "(n, a) \<in> set entries" "prefix n v"
  shows "find_action (fill_action_set entries) v = Some a"
proof -
  have "find (\<lambda>e. prefix (fst e) v) entries \<noteq> None"
    using assms by (auto simp: find_None_iff)
  then obtain e where e: "find (\<lambda>e. prefix (fst e) v) entries = Some e" by blast
  then have "e \<in> set entries" "prefix (fst e) v"
    by (auto simp: find_Some_iff)
  moreover from this assms have "prefix (fst e) n \<or> prefix n (fst e)"
    by (metis prefix_same_cases)
  ultimately have "e = (n, a)"
    using assms names_apart by (metis fst_conv)
  then show ?thesis
    using names_fit e by (simp add: find_action_entries)
qed

lemma dispatch_none:
  assumes "\<And>n a. (n, a) \<in> set entries \<Longrightarrow> \<not> prefix n v"
  shows "find_action (fill_action_set entries) v = None"
proof -
  have "find (\<lambda>e. prefix (fst e) v) entries = None"
    using assms by (force simp: find_None_iff)
  then show ?thesis
    using names_fit by (simp add: find_action_entries)
qed

end

interpretation print_table: action_table print_actions
  by unfold_locales (auto simp: print_actions_def)

interpretation relay_table: action_table relay_actions
  by unfold_locales (auto simp: relay_actions_def)

interpretation can_table: action_table can_actions
  by unfold_locales (auto simp: can_actions_def)

interpretation canopen_table: action_table canopen_actions
  by unfold_locales (auto simp: canopen_actions_def)

section \<open>The vehicle behind the plugins\<close>

text \<open>A sequence of granted requests to the CANopen plugin, each with its obligation, on the board.\<close>

fun canopen_requests :: "(bytes \<times> bytes) list \<Rightarrow> (nat \<Rightarrow> bool) \<Rightarrow> (nat \<Rightarrow> bool)" where
  "canopen_requests [] l = l"
| "canopen_requests ((obligation, v) # rs) l =
     canopen_requests rs
       (levels (snd (canopen_action_cb (fill_action_set canopen_actions) (board_io l) obligation v)) l)"

text \<open>The specification: a door relay and an alarm relay.\<close>

definition vehicle_step :: "bytes \<Rightarrow> bool \<times> bool \<Rightarrow> bool \<times> bool" where
  "vehicle_step v s =
     (if prefix ''open_door'' v then (True, snd s)
      else if prefix ''close_door'' v then (False, snd s)
      else if prefix ''alarm_on'' v then (fst s, True)
      else if prefix ''alarm_off'' v then (fst s, False)
      else s)"

definition vehicle_abs :: "(nat \<Rightarrow> bool) \<Rightarrow> bool \<times> bool" where
  "vehicle_abs l = (l (relay_pin 3), l (relay_pin 1))"

lemma vehicle_abs_call:
  "vehicle_abs (levels (snd (relay_call c (board_io l))) l) =
     (relay_spec c 3 (l (relay_pin 3)), relay_spec c 1 (l (relay_pin 1)))"
  using relay_call_spec [of 3 c l] relay_call_spec [of 1 c l] by (simp add: vehicle_abs_def)

lemma prefix_apart: "prefix p v \<Longrightarrow> prefix q v \<Longrightarrow> prefix p q \<or> prefix q p"
  by (metis prefix_same_cases)

lemma vehicle_step_entry:
  "prefix ''open_door'' v \<Longrightarrow> vehicle_step v s = (True, snd s)"
  "prefix ''close_door'' v \<Longrightarrow> vehicle_step v s = (False, snd s)"
  "prefix ''honk'' v \<Longrightarrow> vehicle_step v s = s"
  "prefix ''alarm_on'' v \<Longrightarrow> vehicle_step v s = (fst s, True)"
  "prefix ''alarm_off'' v \<Longrightarrow> vehicle_step v s = (fst s, False)"
  by (auto simp: vehicle_step_def dest: prefix_apart)

text \<open>Every action of the table is a relay command.\<close>

lemma canopen_entry_command:
  assumes "(n, a) \<in> set canopen_actions" "prefix n v"
  shows "\<exists>c. (\<forall>io b. snd (a io b) = snd (relay_call c io)) \<and>
     (\<forall>s. vehicle_step v s = (relay_spec c 3 (fst s), relay_spec c 1 (snd s)))"
proof -
  consider "n = ''open_door''" "a = vehicle_unlock" | "n = ''close_door''" "a = vehicle_lock"
    | "n = ''honk''" "a = honk" | "n = ''alarm_on''" "a = alarm_on" | "n = ''alarm_off''" "a = alarm_off"
    using assms(1) unfolding canopen_actions_def list.set insert_iff prod.inject empty_iff by satx
  then show ?thesis
  proof cases
    case 1 then show ?thesis
      using assms(2) by (intro exI [of _ "RelayOn 3"]) (simp add: vehicle_step_entry vehicle_unlock_def)
  next
    case 2 then show ?thesis
      using assms(2) by (intro exI [of _ "RelayOff 3"]) (simp add: vehicle_step_entry vehicle_lock_def)
  next
    case 3 then show ?thesis
      using assms(2) by (intro exI [of _ "RelayPulse 2"]) (simp add: vehicle_step_entry honk_def)
  next
    case 4 then show ?thesis
      using assms(2) by (intro exI [of _ "RelayOn 1"]) (simp add: vehicle_step_entry alarm_on_def)
  next
    case 5 then show ?thesis
      using assms(2) by (intro exI [of _ "RelayOff 1"]) (simp add: vehicle_step_entry alarm_off_def)
  qed
qed

lemma canopen_step:
  "vehicle_abs (levels (snd (canopen_action_cb (fill_action_set canopen_actions) (board_io l) obligation v)) l) =
     vehicle_step v (vehicle_abs l)"
proof (cases "\<exists>n a. (n, a) \<in> set canopen_actions \<and> prefix n v")
  case True
  then obtain n a where na: "(n, a) \<in> set canopen_actions" "prefix n v" by blast
  obtain c where c: "\<forall>io b. snd (a io b) = snd (relay_call c io)"
      "\<forall>s. vehicle_step v s = (relay_spec c 3 (fst s), relay_spec c 1 (snd s))"
    using canopen_entry_command [OF na] by blast
  have "snd (canopen_action_cb (fill_action_set canopen_actions) (board_io l) obligation v) =
      snd (relay_call c (board_io l))"
    by (simp add: canopen_action_cb_def canopen_table.dispatch_unique [OF na] c(1) Let_def)
  then show ?thesis by (simp add: vehicle_abs_call c(2)) (simp add: vehicle_abs_def)
next
  case False
  then have "find_action (fill_action_set canopen_actions) v = None"
    by (intro canopen_table.dispatch_none) blast
  moreover from False have "vehicle_step v s = s" for s
    by (auto simp: canopen_actions_def vehicle_step_def)
  ultimately show ?thesis by (simp add: canopen_action_cb_def)
qed

text \<open>
  C10. Any sequence of requests to the CANopen plugin refines a vehicle with a door lock and an alarm:
  each request that starts with the name of a registered action switches exactly what that name
  says, a horn request and an unknown request switch nothing, and obligations have no influence.
\<close>

theorem canopen_requests_refine:
  "vehicle_abs (canopen_requests rs l) = fold (\<lambda>r s. vehicle_step (snd r) s) rs (vehicle_abs l)"
proof (induction rs arbitrary: l)
  case (Cons r rs)
  then show ?case by (cases r) (simp add: canopen_step)
qed simp

text \<open>
  The CAN plugin pulses one relay per action, the one its name stands for, and reports success
  even when the board refuses the call: the status of the request does not depend on the library.
\<close>

theorem can_action_pulses:
  assumes "(n, idx) \<in> {(''open_door'', 1), (''close_door'', 0), (''open_trunk'', 3), (''start_engine'', 2)}"
    and "prefix n v"
  shows "can_action_cb (snd pep_plugin_can_initializer) io v = (0, snd (relayinterface_pulse io idx))"
proof -
  let ?f = "\<lambda>io. (0 :: int, snd (relayinterface_pulse io idx))"
  have "(n, ?f) \<in> set can_actions"
    using assms(1) by (auto simp: can_actions_def car_unlock_def car_lock_def open_trunk_def start_engine_def fun_eq_iff)
  from can_table.dispatch_unique [OF this assms(2)] show ?thesis
    by (simp add: can_action_cb_def pep_plugin_can_initializer_def)
qed

theorem can_action_pulses_witness:
  "can_action_cb (snd pep_plugin_can_initializer) \<lparr>gpio_initialise = - 1, gpio_read = (\<lambda>_. 0)\<rparr> ''open_trunk_now'' =
     (0, [GpioInitialise])"
  by (subst can_action_pulses [of "''open_trunk''" 3]) (simp_all add: relayinterface_pulse_def)

end
