(* ===== verification/Wallet_Plugins.thy ===== *)
theory Wallet_Plugins
  imports Config_Manager Transactions Pep_Plugins
begin

text \<open>
  The two plugins around the wallet: the enforcement plugin that starts payments and watches their
  confirmation (\<open>plugins/pep/wallet\<close>), and the information plugin that answers whether a policy is
  paid (\<open>plugins/pip/wallet\<close>). The payment records they use (\<open>rpi_trans.h\<close>) are a parameter, the
  record \<open>trans_store\<close>; the records of \<open>Transactions\<close> are one instance. Operations run under the
  plugin's lock and are atomic here; the confirmation callback, which the code runs without the lock,
  is an event of its own between them.
\<close>

section \<open>State\<close>

record 'fs trans_store =
  rt_store :: "bytes \<Rightarrow> nat \<Rightarrow> 'fs \<Rightarrow> (bool \<times> 'fs) option"
  rt_update :: "bytes \<Rightarrow> nat \<Rightarrow> bool \<Rightarrow> 'fs \<Rightarrow> (bool \<times> 'fs) option"
  rt_is_stored :: "bytes \<Rightarrow> 'fs \<Rightarrow> bool option"
  rt_is_verified :: "bytes \<Rightarrow> nat \<Rightarrow> 'fs \<Rightarrow> bool option"

abbreviation (input) TRANS_CONF_SERV_MAX_NUM :: nat where "TRANS_CONF_SERV_MAX_NUM \<equiv> 64"
abbreviation (input) RES_POL_ID_STR_LEN :: nat where "RES_POL_ID_STR_LEN \<equiv> 64"

text \<open>A slot of the service table; a running service is its thread and its context, and the policy
  id is the heap block, which may be NULL.\<close>

record transaction_serv_confirm =
  sl_service :: "(nat \<times> confirmation_service_t) option"
  sl_policy_id :: "bytes option"
  sl_policy_id_len :: nat
  sl_confirmed :: bool

definition empty_slot :: transaction_serv_confirm where
  "empty_slot = \<lparr>sl_service = None, sl_policy_id = None, sl_policy_id_len = 0, sl_confirmed = False\<rparr>"

record 'fs wallet_plugin =
  wp_wallet :: wallet_ctx
  wp_slots :: "transaction_serv_confirm list"
  wp_fs :: 'fs

section \<open>Watching payments\<close>

text \<open>The loop that releases the confirmed services; the service of a confirmed slot is dereferenced
  for its thread.\<close>

fun clear_confirmed :: "transaction_serv_confirm list \<Rightarrow> transaction_serv_confirm list option" where
  "clear_confirmed [] = Some []"
| "clear_confirmed (s # ss) = do {
     s' \<leftarrow> (if sl_confirmed s
           then (if sl_service s = None then None
                 else Some (s\<lparr>sl_service := None, sl_policy_id_len := 0, sl_confirmed := False\<rparr>))
           else Some s);
     ss' \<leftarrow> clear_confirmed ss;
     Some (s' # ss')
   }"

definition first_available :: "transaction_serv_confirm list \<Rightarrow> nat option" where
  "first_available slots = find (\<lambda>i. sl_service (slots ! i) = None) [0..<length slots]"

text \<open>\<open>junk\<close> is the content of the block that \<open>malloc\<close> returns for the policy id; it is never
  written. \<open>start\<close> holds the outcome of the two system calls of \<open>confirmation_service_start\<close> and
  the identity of the new thread.\<close>

definition transaction_store_transaction :: "'fs trans_store \<Rightarrow> cclient \<Rightarrow> bool \<times> bool \<times> nat \<Rightarrow> (nat \<Rightarrow> char)
    \<Rightarrow> bytes option \<Rightarrow> nat \<Rightarrow> bytes option \<Rightarrow> 'fs wallet_plugin \<Rightarrow> (bool \<times> 'fs wallet_plugin) option" where
  "transaction_store_transaction rt cc start junk policy_id policy_id_len transaction_hash st =
     (case (policy_id, transaction_hash) of
        (Some pid, Some hash) \<Rightarrow> do {
          (stored, fs) \<leftarrow> rt_store rt pid policy_id_len (wp_fs st);
          let st = st\<lparr>wp_fs := fs\<rparr>;
          (if \<not> stored then Some (False, st)
           else if wallet_check_confirmation cc (wp_wallet st) hash then do {
             (updated, fs) \<leftarrow> rt_update rt pid policy_id_len True (wp_fs st);
             Some (updated, st\<lparr>wp_fs := fs\<rparr>)
           } else do {
             slots \<leftarrow> clear_confirmed (wp_slots st);
             let st = st\<lparr>wp_slots := slots\<rparr>;
             (case first_available slots of
                None \<Rightarrow> Some (False, st)
              | Some i \<Rightarrow>
                  (let (lock_ok, thread_ok, tid) = start;
                       serv = confirmation_service_start lock_ok thread_ok (wp_wallet st) hash 30 120 True
                   in Some (True, st\<lparr>wp_slots := slots[i :=
                        \<lparr>sl_service = map_option (Pair tid) serv, sl_policy_id = Some (map junk [0..<policy_id_len]),
                         sl_policy_id_len = policy_id_len, sl_confirmed = False\<rparr>]\<rparr>)))
           })
        }
      | _ \<Rightarrow> Some (False, st))"

text \<open>The search of the confirmation callback dereferences the service of every slot it passes.\<close>

fun find_thread :: "transaction_serv_confirm list \<Rightarrow> nat \<Rightarrow> nat option option" where
  "find_thread [] thread_id = Some None"
| "find_thread (s # ss) thread_id =
     (case sl_service s of
        None \<Rightarrow> None
      | Some (t, _) \<Rightarrow> if t = thread_id then Some (Some 0) else map_option (map_option Suc) (find_thread ss thread_id))"

definition transaction_confirmation :: "'fs trans_store \<Rightarrow> bool \<Rightarrow> nat \<Rightarrow> 'fs wallet_plugin \<Rightarrow> 'fs wallet_plugin option" where
  "transaction_confirmation rt is_confirmed thread_id st = do {
     found \<leftarrow> find_thread (wp_slots st) thread_id;
     (case found of
        None \<Rightarrow> Some st
      | Some i \<Rightarrow> do {
          pid \<leftarrow> sl_policy_id (wp_slots st ! i);
          (updated, fs) \<leftarrow> rt_update rt pid (sl_policy_id_len (wp_slots st ! i)) is_confirmed (wp_fs st);
          let st = st\<lparr>wp_fs := fs\<rparr>;
          (if \<not> updated then Some st
           else Some (st\<lparr>wp_slots := (wp_slots st)[i := (wp_slots st ! i)\<lparr>sl_confirmed := True\<rparr>]\<rparr>))
        })
   }"

section \<open>The enforcement plugin\<close>

record pdp_action =
  act_value :: bytes
  act_balance :: "64 word"
  act_pol_id_str :: "bytes option"
  act_transaction_hash :: "bytes option"

definition demo_wallet_transfer_tokens :: "cclient \<Rightarrow> pdp_action \<Rightarrow> 'fs wallet_plugin \<Rightarrow> int" where
  "demo_wallet_transfer_tokens cc action st =
     (let _ = wallet_send cc (wp_wallet st) ACTION_ADDRESS (act_balance action) None (replicate 81 NUL) in 0)"

definition demo_wallet_store_transaction :: "'fs trans_store \<Rightarrow> cclient \<Rightarrow> bool \<times> bool \<times> nat \<Rightarrow> (nat \<Rightarrow> char) \<Rightarrow> pdp_action
    \<Rightarrow> 'fs wallet_plugin \<Rightarrow> (int \<times> 'fs wallet_plugin) option" where
  "demo_wallet_store_transaction rt cc start junk action st = do {
     (_, st) \<leftarrow> transaction_store_transaction rt cc start junk (act_pol_id_str action) RES_POL_ID_STR_LEN
        (act_transaction_hash action) st;
     Some (0, st)
   }"

datatype wallet_action = TransferTokens | StoreTransaction

definition wallet_actions :: "(bytes \<times> wallet_action) list" where
  "wallet_actions = [(''action#3'', TransferTokens), (''action#4'', StoreTransaction)]"

definition wallet_action_cb :: "'fs trans_store \<Rightarrow> cclient \<Rightarrow> bool \<times> bool \<times> nat \<Rightarrow> (nat \<Rightarrow> char) \<Rightarrow> wallet_action action_set
    \<Rightarrow> pdp_action \<Rightarrow> 'fs wallet_plugin \<Rightarrow> (int \<times> 'fs wallet_plugin) option" where
  "wallet_action_cb rt cc start junk g action st =
     (case find_action g (act_value action) of
        None \<Rightarrow> Some (0, st)
      | Some TransferTokens \<Rightarrow> Some (demo_wallet_transfer_tokens cc action st, st)
      | Some StoreTransaction \<Rightarrow> demo_wallet_store_transaction rt cc start junk action st)"






interpretation wallet_table: action_table wallet_actions
  by unfold_locales (auto simp: wallet_actions_def)

section \<open>The table of running services\<close>

text \<open>Events on the plugin: a payment to store, with the answers it meets, and a callback of a monitor
  thread.\<close>

datatype payment_event =
    Pay cclient "bool \<times> bool \<times> nat" "nat \<Rightarrow> char" "bytes option" nat "bytes option"
  | Confirmed bool nat

fun wallet_event :: "'fs trans_store \<Rightarrow> payment_event \<Rightarrow> 'fs wallet_plugin \<Rightarrow> 'fs wallet_plugin option" where
  "wallet_event rt (Pay cc start junk policy_id len hash) st =
     map_option snd (transaction_store_transaction rt cc start junk policy_id len hash st)"
| "wallet_event rt (Confirmed b t) st = transaction_confirmation rt b t st"

text \<open>The table keeps its size, and a confirmed slot still holds its service.\<close>

definition slots_inv :: "'fs wallet_plugin \<Rightarrow> bool" where
  "slots_inv st \<longleftrightarrow> length (wp_slots st) = TRANS_CONF_SERV_MAX_NUM \<and>
     (\<forall>s\<in>set (wp_slots st). sl_confirmed s \<longrightarrow> sl_service s \<noteq> None)"

definition released :: "transaction_serv_confirm \<Rightarrow> transaction_serv_confirm" where
  "released s = (if sl_confirmed s then s\<lparr>sl_service := None, sl_policy_id_len := 0, sl_confirmed := False\<rparr> else s)"

lemma clear_confirmed_map:
  "\<forall>s\<in>set ss. sl_confirmed s \<longrightarrow> sl_service s \<noteq> None \<Longrightarrow> clear_confirmed ss = Some (map released ss)"
  by (induction ss) (auto simp: released_def)

lemma released_unconfirmed [simp]: "\<not> sl_confirmed (released s)"
  by (simp add: released_def)

lemma first_available_Some: "first_available ss = Some i \<Longrightarrow> i < length ss \<and> sl_service (ss ! i) = None"
  by (auto simp: first_available_def find_Some_iff)

lemma first_available_None: "first_available ss = None \<longleftrightarrow> (\<forall>s\<in>set ss. sl_service s \<noteq> None)"
  by (auto simp: first_available_def find_None_iff all_set_conv_all_nth)

lemma find_thread_Some:
  "find_thread ss t = Some (Some i) \<Longrightarrow> i < length ss \<and> (\<exists>c. sl_service (ss ! i) = Some (t, c))"
  by (induction ss arbitrary: i) (auto split: option.splits if_splits)

lemma slots_inv_store:
  assumes "slots_inv st" "transaction_store_transaction rt cc start junk pid len hash st = Some (b, st')"
  shows "slots_inv st'"
proof -
  have clear: "clear_confirmed (wp_slots st) = Some (map released (wp_slots st))"
    using assms(1) by (intro clear_confirmed_map) (simp add: slots_inv_def)
  have set_slot: "slots_inv (u\<lparr>wp_slots := (map released (wp_slots st))[i := s]\<rparr>)" if "\<not> sl_confirmed s"
    for u :: "'a wallet_plugin" and i s
    using assms(1) that by (auto simp: slots_inv_def dest!: set_update_subset_insert [THEN subsetD])
  have kept: "slots_inv (st\<lparr>wp_fs := fs\<rparr>)" "slots_inv (st\<lparr>wp_fs := fs, wp_slots := map released (wp_slots st)\<rparr>)" for fs
    using assms(1) by (auto simp: slots_inv_def)
  show ?thesis
    using assms kept
    by (auto simp: transaction_store_transaction_def clear set_slot Let_def
        split: option.splits prod.splits bind_splits if_splits)
qed

lemma slots_inv_confirm:
  assumes "slots_inv st" "transaction_confirmation rt b t st = Some st'"
  shows "slots_inv st'"
proof -
  have "slots_inv (st\<lparr>wp_fs := fs, wp_slots := (wp_slots st)[i := (wp_slots st ! i)\<lparr>sl_confirmed := True\<rparr>]\<rparr>)"
    if "find_thread (wp_slots st) t = Some (Some i)" for fs i
    using assms(1) find_thread_Some [OF that] by (auto simp: slots_inv_def dest!: set_update_subset_insert [THEN subsetD])
  moreover have "slots_inv (st\<lparr>wp_fs := fs\<rparr>)" for fs
    using assms(1) by (simp add: slots_inv_def)
  ultimately show ?thesis
    using assms by (auto simp: transaction_confirmation_def Let_def split: bind_splits option.splits if_splits)
qed

interpretation wallet_slots: step_invariant "wallet_event rt" slots_inv for rt
proof
  fix s s' :: "'a wallet_plugin" and e
  assume "slots_inv s" "wallet_event rt e s = Some s'"
  then show "slots_inv s'"
    by (cases e) (auto dest: slots_inv_store slots_inv_confirm)
qed

text \<open>
  C7. After any sequence of payments and confirmation callbacks since the plugin was initialised, the
  table is sound: a payment that is recorded but not yet confirmed either gets the first slot that
  is free once the confirmed services are released, or is refused, and it is refused exactly when
  all 64 slots hold services that have not reported yet.
\<close>

theorem payment_gets_slot:
  assumes "run_steps (wallet_event rt) evs
      \<lparr>wp_wallet = w, wp_slots = replicate TRANS_CONF_SERV_MAX_NUM empty_slot, wp_fs = fs0\<rparr> = Some st"
    and "rt_store rt pid len (wp_fs st) = Some (True, fs)"
    and "\<not> wallet_check_confirmation cc (wp_wallet st) hash"
  shows "\<exists>b st'. transaction_store_transaction rt cc (True, True, tid) junk (Some pid) len (Some hash) st = Some (b, st') \<and>
     (b \<longleftrightarrow> (\<exists>s\<in>set (wp_slots st). sl_service s = None \<or> sl_confirmed s)) \<and>
     (b \<longrightarrow> (\<exists>i<TRANS_CONF_SERV_MAX_NUM.
         (sl_service (wp_slots st ! i) = None \<or> sl_confirmed (wp_slots st ! i)) \<and>
         map_option fst (sl_service (wp_slots st' ! i)) = Some tid \<and>
         (\<forall>j<TRANS_CONF_SERV_MAX_NUM. j \<noteq> i \<longrightarrow> wp_slots st' ! j = released (wp_slots st ! j))))"
proof -
  have "slots_inv \<lparr>wp_wallet = w, wp_slots = replicate TRANS_CONF_SERV_MAX_NUM empty_slot, wp_fs = fs0\<rparr>"
    by (simp add: slots_inv_def empty_slot_def)
  with assms(1) have inv: "slots_inv st" by (rule wallet_slots.run_inv)
  then have clear: "clear_confirmed (wp_slots st) = Some (map released (wp_slots st))"
    by (intro clear_confirmed_map) (simp add: slots_inv_def)
  have free: "sl_service (released s) = None \<longleftrightarrow> sl_service s = None \<or> sl_confirmed s" for s
    by (simp add: released_def)
  show ?thesis
  proof (cases "first_available (map released (wp_slots st))")
    case None
    then have "\<not> (\<exists>s\<in>set (wp_slots st). sl_service s = None \<or> sl_confirmed s)"
      using free by (auto simp: first_available_None simp del: not_None_eq)
    with None show ?thesis
      using assms(2,3) clear by (auto simp: transaction_store_transaction_def Let_def)
  next
    case (Some i)
    have i: "i < length (wp_slots st)" "sl_service (wp_slots st ! i) = None \<or> sl_confirmed (wp_slots st ! i)"
      using first_available_Some [OF Some] free [of "wp_slots st ! i"] by (simp, metis length_map nth_map)
    have mem: "\<exists>s\<in>set (wp_slots st). sl_service s = None \<or> sl_confirmed s"
      using i nth_mem by blast
    let ?slot = "\<lparr>sl_service = map_option (Pair tid) (confirmation_service_start True True (wp_wallet st) hash 30 120 True),
        sl_policy_id = Some (map junk [0..<len]), sl_policy_id_len = len, sl_confirmed = False\<rparr>"
    let ?st' = "st\<lparr>wp_fs := fs, wp_slots := (map released (wp_slots st))[i := ?slot]\<rparr>"
    have res: "transaction_store_transaction rt cc (True, True, tid) junk (Some pid) len (Some hash) st = Some (True, ?st')"
      using assms(2,3) clear Some by (simp add: transaction_store_transaction_def Let_def)
    have len: "length (wp_slots st) = 64" using inv by (simp add: slots_inv_def)
    have "map_option fst (sl_service (wp_slots ?st' ! i)) = Some tid"
      using i by (simp add: confirmation_service_start_def)
    moreover have "\<forall>j<64. j \<noteq> i \<longrightarrow> wp_slots ?st' ! j = released (wp_slots st ! j)"
      using len by simp
    ultimately show ?thesis
      using res mem i [unfolded len] by (intro exI [of _ True] exI [of _ ?st']) blast
  qed
qed

text \<open>Payment records that accept every request, and that log the updates they get.\<close>

definition logging_store :: "(bytes \<times> nat \<times> bool) list trans_store" where
  "logging_store = \<lparr>rt_store = (\<lambda>pid len fs. Some (True, fs)),
     rt_update = (\<lambda>pid len b fs. Some (True, fs @ [(pid, len, b)])),
     rt_is_stored = (\<lambda>pid fs. Some True), rt_is_verified = (\<lambda>pid len fs. Some True)\<rparr>"

lemma logging_store_simps [simp]:
  "rt_store logging_store pid len fs = Some (True, fs)"
  "rt_update logging_store pid len b fs = Some (True, fs @ [(pid, len, b)])"
  by (simp_all add: logging_store_def)

theorem payment_gets_slot_witness:
  "let st = \<lparr>wp_wallet = sample_wallet, wp_slots = replicate 64 empty_slot, wp_fs = []\<rparr> in
   \<exists>b st'. transaction_store_transaction logging_store (sample_client 0 False) (True, True, 5) (\<lambda>_. NUL)
       (Some ''p'') 1 (Some ''h'') st = Some (b, st') \<and> b"
proof -
  let ?st = "\<lparr>wp_wallet = sample_wallet, wp_slots = replicate 64 empty_slot, wp_fs = []\<rparr>"
  have "\<exists>s\<in>set (wp_slots ?st). sl_service s = None" by (simp add: empty_slot_def)
  then show ?thesis
    using payment_gets_slot [of logging_store "[]" sample_wallet "[]" ?st "''p''" 1 "[]" "sample_client 0 False" "''h''" 5
        "\<lambda>_. NUL"]
    unfolding Let_def by (fastforce simp: sample_unconfirmed)
qed

section \<open>Confirmation of payments\<close>

text \<open>
  The confirmation of a payment updates the wrong record. A payment is stored under its policy id
  and watched; when the watching thread reports, the status is written for whatever text the
  uninitialised heap block of the slot holds, and not for the policy that was paid.
\<close>

theorem confirmation_updates_garbage:
  assumes "wp_slots st = empty_slot # slots" "\<forall>s\<in>set slots. \<not> sl_confirmed s"
    and "rt_store rt pid len (wp_fs st) = Some (True, fs)"
    and "\<not> wallet_check_confirmation cc (wp_wallet st) hash"
    and "rt_update rt (map junk [0..<len]) len b fs = Some (r, fs')"
  shows "\<exists>st'. run_steps (wallet_event rt) [Pay cc (True, True, tid) junk (Some pid) len (Some hash), Confirmed b tid] st =
      Some st' \<and> wp_fs st' = fs'"
proof -
  have "clear_confirmed (wp_slots st) = Some (map released (wp_slots st))"
    using assms(1,2) by (intro clear_confirmed_map) (simp add: empty_slot_def)
  moreover have "map released (wp_slots st) = empty_slot # slots"
    using assms(1,2) by (auto simp: released_def empty_slot_def map_idI)
  moreover have "first_available (empty_slot # slots) = Some 0"
    by (simp add: first_available_def empty_slot_def find_upt_Suc del: upt_Suc)
  ultimately show ?thesis
    using assms(3-5)
    by (simp add: transaction_store_transaction_def transaction_confirmation_def confirmation_service_start_def Let_def)
qed

theorem confirmation_updates_garbage_witness:
  "\<exists>st'. run_steps (wallet_event logging_store)
       [Pay (sample_client 0 False) (True, True, 5) (\<lambda>_. CHR ''x'') (Some ''abc'') 3 (Some ''h''), Confirmed True 5]
       \<lparr>wp_wallet = sample_wallet, wp_slots = [empty_slot, empty_slot], wp_fs = []\<rparr> = Some st' \<and>
     wp_fs st' = [(''xxx'', 3, True)]"
  by (rule confirmation_updates_garbage [where slots = "[empty_slot]" and fs = "[]" and r = True])
    (simp_all add: empty_slot_def sample_unconfirmed numeral_3_eq_3)

text \<open>
  Once two confirmed services in front of a running one have been released by a later payment, the
  callback of the running one is undefined: it walks over the second released slot and dereferences
  its NULL service.
\<close>

theorem released_slot_breaks_confirmation:
  assumes "wp_slots st = s # sa # sb # slots"
    and "sl_service s = Some (t, c)" "sl_service sa = Some (ta, ca)" "sl_service sb = Some (tb, cb)"
    and "distinct [t, ta, tb, tid]" "\<not> sl_confirmed s" "\<not> sl_confirmed sa" "\<not> sl_confirmed sb"
    and "\<forall>x\<in>set slots. \<not> sl_confirmed x"
    and "sl_policy_id s = Some p" "sl_policy_id sa = Some pa"
    and "\<forall>pid len fs. \<exists>fs'. rt_store rt pid len fs = Some (True, fs')"
    and "\<forall>pid len b fs. \<exists>fs'. rt_update rt pid len b fs = Some (True, fs')"
    and "\<not> wallet_check_confirmation cc (wp_wallet st) hash"
  shows "run_steps (wallet_event rt)
      [Confirmed b t, Confirmed ba ta, Pay cc (True, True, tid) junk (Some pid) len (Some hash), Confirmed bb tb] st = None"
proof -
  obtain f1 where f1: "rt_update rt p (sl_policy_id_len s) b (wp_fs st) = Some (True, f1)" using assms(13) by blast
  obtain f2 where f2: "rt_update rt pa (sl_policy_id_len sa) ba f1 = Some (True, f2)" using assms(13) by blast
  obtain f3 where f3: "rt_store rt pid len f2 = Some (True, f3)" using assms(12) by blast
  let ?s = "s\<lparr>sl_confirmed := True\<rparr>" and ?sa = "sa\<lparr>sl_confirmed := True\<rparr>"
  let ?st = "st\<lparr>wp_fs := f2, wp_slots := ?s # ?sa # sb # slots\<rparr>"
  have steps: "run_steps (wallet_event rt) [Confirmed b t, Confirmed ba ta] st = Some ?st"
    using assms(1-5,10,11) f1 f2 by (simp add: transaction_confirmation_def Let_def)
  let ?slots = "released ?s # released ?sa # sb # slots"
  have "clear_confirmed (wp_slots ?st) = Some (map released (wp_slots ?st))"
    using assms by (intro clear_confirmed_map) simp
  moreover have "map released (wp_slots ?st) = ?slots"
    using assms(8,9) by (auto simp: released_def map_idI)
  moreover have "first_available ?slots = Some 0"
    by (simp add: first_available_def released_def find_upt_Suc del: upt_Suc)
  ultimately have "\<exists>st' x. wallet_event rt (Pay cc (True, True, tid) junk (Some pid) len (Some hash)) ?st = Some st' \<and>
      wp_slots st' = x # released ?sa # sb # slots \<and> map_option fst (sl_service x) = Some tid"
    using assms(14) f3 by (simp add: transaction_store_transaction_def confirmation_service_start_def Let_def)
  then show ?thesis
    using steps assms(5) by (auto simp: transaction_confirmation_def released_def split: bind_splits)
qed

definition busy_slot :: "nat \<Rightarrow> transaction_serv_confirm" where
  "busy_slot t = \<lparr>sl_service = Some (t, sample_confirmation), sl_policy_id = Some ''p'', sl_policy_id_len = 1,
     sl_confirmed = False\<rparr>"

theorem released_slot_breaks_confirmation_witness:
  "run_steps (wallet_event logging_store)
      [Confirmed True 1, Confirmed True 2, Pay (sample_client 0 False) (True, True, 4) (\<lambda>_. NUL) (Some ''q'') 1 (Some ''h''),
       Confirmed True 3]
      \<lparr>wp_wallet = sample_wallet, wp_slots = [busy_slot 1, busy_slot 2, busy_slot 3, empty_slot], wp_fs = []\<rparr> = None"
  by (rule released_slot_breaks_confirmation [where slots = "[empty_slot]" and c = sample_confirmation
        and ca = sample_confirmation and cb = sample_confirmation and p = "''p''" and pa = "''p''"
        and s = "busy_slot 1" and sa = "busy_slot 2" and sb = "busy_slot 3"])
    (simp_all add: busy_slot_def empty_slot_def sample_unconfirmed)

section \<open>Initialisation\<close>









end
