(* ===== verification/Pip_Wallet.thy ===== *)
theory Pip_Wallet
  imports Wallet_Plugins
begin

text \<open>
  The information plugin of the wallet (\<open>pip_plugin_wallet.c\<close>): a URI
  \<open>iota:<policy id>/<attribute>?<value>\<close> is taken apart by \<open>strtok\<close>, and the attribute is answered
  from the payment records or from the wallet. The four local buffers of 256 bytes are not
  initialised and none of the copies into them is terminated; what they hold before is a parameter.
\<close>

section \<open>Payment state\<close>

abbreviation (input) TRANS_NOT_PAYED :: int where "TRANS_NOT_PAYED \<equiv> 0"
abbreviation (input) TRANS_PAYED :: int where "TRANS_PAYED \<equiv> 1"
abbreviation (input) TRANS_PAYED_VERIFIED :: int where "TRANS_PAYED_VERIFIED \<equiv> 2"
abbreviation (input) PROTOCOL_MAX_STR_LEN :: nat where "PROTOCOL_MAX_STR_LEN \<equiv> 256"
abbreviation (input) PROTOCOL_WALLET_ADDR_LEN :: nat where "PROTOCOL_WALLET_ADDR_LEN \<equiv> 81"

text \<open>Without \<open>USE_RPI\<close> the function ends without a value, which its caller uses.\<close>

definition recover_transaction :: "bool \<Rightarrow> 'fs trans_store \<Rightarrow> bytes option \<Rightarrow> nat \<Rightarrow> 'fs \<Rightarrow> int option" where
  "recover_transaction use_rpi rt policy_id policy_id_len fs =
     (case policy_id of
        None \<Rightarrow> Some TRANS_NOT_PAYED
      | Some pid \<Rightarrow>
          if \<not> use_rpi then None
          else do {
            stored \<leftarrow> rt_is_stored rt pid fs;
            (if \<not> stored then Some TRANS_NOT_PAYED
             else do {
               verified \<leftarrow> rt_is_verified rt pid policy_id_len fs;
               Some (if \<not> verified then TRANS_PAYED else TRANS_PAYED_VERIFIED)
             })
          })"

section \<open>The callback\<close>

record pip_attribute =
  attr_type :: bytes
  attr_value :: bytes

record acquire_locals =
  al_temp :: bytes
  al_pol_id :: bytes
  al_type :: bytes
  al_value :: bytes

text \<open>\<open>memcpy\<close> of a token into one of the locals, of at most its size.\<close>

definition copy_token :: "bytes \<Rightarrow> bytes option \<Rightarrow> bytes option" where
  "copy_token local ptr = do {
     tok \<leftarrow> ptr;
     buf_blit local 0 (take PROTOCOL_MAX_STR_LEN tok)
   }"

text \<open>The uri is the C string behind \<open>args->uri\<close>; \<open>None\<close> stands for NULL arguments.\<close>

definition acquire_cb :: "bool \<Rightarrow> 'fs trans_store \<Rightarrow> cclient \<Rightarrow> acquire_locals \<Rightarrow> bytes option \<Rightarrow> pip_attribute \<Rightarrow> wallet_ctx \<Rightarrow> 'fs
    \<Rightarrow> (int \<times> pip_attribute \<times> wallet_ctx) option" where
  "acquire_cb use_rpi rt cc al args attr w fs =
     (case args of
        None \<Rightarrow> Some (- 1, attr, w)
      | Some uri \<Rightarrow>
          if length uri > PROTOCOL_MAX_STR_LEN then Some (- 1, attr, w)
          else do {
            temp \<leftarrow> buf_blit (al_temp al) 0 uri;
            (ptr, temp) \<leftarrow> strtok_next (CHR '':'') temp;
            authority \<leftarrow> ptr;
            (if \<not> prefix ''iota'' authority then Some (- 1, attr, w)
             else do {
               (ptr, temp) \<leftarrow> strtok_next (CHR ''/'') temp;
               pol_id \<leftarrow> copy_token (al_pol_id al) ptr;
               (ptr, temp) \<leftarrow> strtok_next (CHR ''?'') temp;
               type \<leftarrow> copy_token (al_type al) ptr;
               (ptr, temp) \<leftarrow> strtok_next (CHR ''?'') temp;
               _ \<leftarrow> copy_token (al_value al) ptr;
               (if prefix ''request.isPayed.type'' type then do {
                  t \<leftarrow> buf_blit (attr_type attr) 0 ''string'';
                  _ \<leftarrow> (if NUL \<in> set pol_id then Some () else None);
                  ret \<leftarrow> recover_transaction use_rpi rt (Some (cstr pol_id)) (strlen pol_id) fs;
                  v \<leftarrow> buf_blit (attr_value attr) 0
                     (if ret = TRANS_PAYED_VERIFIED then ''verified''
                      else if ret = TRANS_PAYED then ''paid'' else ''not_paid'');
                  Some (0, attr\<lparr>attr_type := t, attr_value := v\<rparr>, w)
                } else if prefix ''request.walletAddress.type'' type then do {
                  (w, addr_buf, _, _) \<leftarrow> wallet_get_address cc w (replicate PROTOCOL_WALLET_ADDR_LEN NUL) 0;
                  t \<leftarrow> buf_blit (attr_type attr) 0 ''string'';
                  v \<leftarrow> buf_blit (attr_value attr) 0 (take PROTOCOL_WALLET_ADDR_LEN addr_buf);
                  Some (0, attr\<lparr>attr_type := t, attr_value := v\<rparr>, w)
                } else Some (0, attr, w))
             })
          })"

section \<open>Lemmas\<close>

definition paid_text :: "'fs trans_store \<Rightarrow> bytes \<Rightarrow> 'fs \<Rightarrow> bytes option" where
  "paid_text rt pid fs = do {
     stored \<leftarrow> rt_is_stored rt pid fs;
     (if \<not> stored then Some ''not_paid''
      else do {
        verified \<leftarrow> rt_is_verified rt pid (length pid) fs;
        Some (if verified then ''verified'' else ''paid'')
      })
   }"

lemma recover_paid_text:
  assumes "paid_text rt pid fs = Some answer"
  shows "\<exists>ret. recover_transaction True rt (Some pid) (length pid) fs = Some ret \<and>
      answer = (if ret = TRANS_PAYED_VERIFIED then ''verified'' else if ret = TRANS_PAYED then ''paid'' else ''not_paid'')"
proof -
  obtain stored where s: "rt_is_stored rt pid fs = Some stored"
    using assms by (auto simp: paid_text_def split: bind_splits)
  show ?thesis
  proof (cases stored)
    case True
    then obtain v where "rt_is_verified rt pid (length pid) fs = Some v"
      using assms s by (auto simp: paid_text_def split: bind_splits)
    then show ?thesis
      using assms s True by (cases v) (simp_all add: recover_transaction_def paid_text_def)
  next
    case False
    then show ?thesis
      using assms s by (simp add: recover_transaction_def paid_text_def)
  qed
qed

definition token_chars :: "bytes \<Rightarrow> bool" where
  "token_chars t \<longleftrightarrow> t \<noteq> [] \<and> set t \<inter> {CHR '':'', CHR ''/'', CHR ''?'', NUL} = {}"

text \<open>
  A request for the payment state of a policy. For a well-formed URI, and provided the
  uninitialised locals happen to hold a terminator, the answer is the recorded state, but of the
  policy whose id is the requested one followed by the garbage that the local buffer held behind
  it: the copied id is not terminated. It is the requested policy exactly when that byte is zero.
\<close>

theorem acquire_payment_state:
  assumes "token_chars pid" "token_chars val"
    and "uri = ''iota:'' @ pid @ ''/request.isPayed.type?'' @ val"
    and "length uri < PROTOCOL_MAX_STR_LEN" "length (al_temp al) = PROTOCOL_MAX_STR_LEN"
    and "length (al_pol_id al) = PROTOCOL_MAX_STR_LEN" "length (al_type al) = PROTOCOL_MAX_STR_LEN"
    and "length (al_value al) = PROTOCOL_MAX_STR_LEN"
    and "al_temp al ! length uri = NUL"
    and "NUL \<in> set (drop (length pid) (al_pol_id al))"
    and "6 \<le> length (attr_type attr)" "8 \<le> length (attr_value attr)"
    and "paid_text rt (pid @ cstr (drop (length pid) (al_pol_id al))) fs = Some answer"
  shows "acquire_cb True rt cc al (Some uri) attr w fs =
     Some (0, attr\<lparr>attr_type := ''string'' @ drop 6 (attr_type attr),
                   attr_value := answer @ drop (length answer) (attr_value attr)\<rparr>, w)"
proof -
  let ?rest = "drop (Suc (length uri)) (al_temp al)"
  have tail: "drop (length uri) (al_temp al) = NUL # ?rest"
    using assms(4,5,9) Cons_nth_drop_Suc [of "length uri" "al_temp al"] by simp
  let ?t = "''request.isPayed.type''"
  have temp: "buf_blit (al_temp al) 0 uri =
      Some (''iota'' @ CHR '':'' # (pid @ CHR ''/'' # (?t @ CHR ''?'' # (val @ NUL # ?rest))))"
    using assms(4,5) tail by (simp add: buf_blit_def assms(3))
  have tok: "strtok_next (CHR '':'') (''iota'' @ CHR '':'' # r) = Some (Some ''iota'', r)"
    "strtok_next (CHR ''/'') (pid @ CHR ''/'' # r) = Some (Some pid, r)"
    "strtok_next (CHR ''?'') (?t @ CHR ''?'' # r) = Some (Some ?t, r)"
    "strtok_next (CHR ''?'') (val @ NUL # r) = Some (Some val, NUL # r)" for r
    using assms(1,2) by (auto intro!: strtok_next_token simp: token_chars_def simp del: append_Cons)
  have lens: "length pid < 256" "length val < 256"
    using assms(3,4) by auto
  let ?id = "pid @ cstr (drop (length pid) (al_pol_id al))" and ?pol = "pid @ drop (length pid) (al_pol_id al)"
  have copies: "copy_token (al_pol_id al) (Some pid) = Some ?pol"
    "copy_token (al_type al) (Some ?t) = Some (?t @ drop (length ?t) (al_type al))"
    "copy_token (al_value al) (Some val) = Some (val @ drop (length val) (al_value al))"
    using assms(6-8) lens by (simp_all add: copy_token_def buf_blit_def)
  have id: "cstr ?pol = ?id" "strlen ?pol = length ?id" "NUL \<in> set ?pol"
    using assms(1,10) by (simp_all add: token_chars_def strlen_def)
  have blits: "buf_blit (attr_type attr) 0 ''string'' = Some (''string'' @ drop 6 (attr_type attr))"
    "length a \<le> 8 \<Longrightarrow> buf_blit (attr_value attr) 0 a = Some (a @ drop (length a) (attr_value attr))" for a
    using assms(11,12) by (simp_all add: buf_blit_def eval_nat_numeral)
  from recover_paid_text [OF assms(13)]
  obtain ret where ret: "recover_transaction True rt (Some ?id) (length ?id) fs = Some ret"
    and ans: "answer = (if ret = TRANS_PAYED_VERIFIED then ''verified'' else if ret = TRANS_PAYED then ''paid'' else ''not_paid'')"
    by blast
  have "length answer \<le> 8" unfolding ans by simp
  note value_blit = blits(2) [OF this]
  have "\<not> 256 < length uri" using assms(4) by simp
  then show ?thesis
    unfolding acquire_cb_def
    by (simp only: option.case if_False temp tok copies id(1,2) ret Option.bind.simps prod.case ans [symmetric] value_blit
        blits(1) if_True HOL.simp_thms append_prefixD prefixI id(3) prefix_order.refl prefix_prefix)
qed

definition zero_locals :: acquire_locals where
  "zero_locals = \<lparr>al_temp = replicate 256 NUL, al_pol_id = replicate 256 NUL, al_type = replicate 256 NUL,
     al_value = replicate 256 NUL\<rparr>"

theorem acquire_payment_state_witness:
  "acquire_cb True logging_store (sample_client 0 False) zero_locals
      (Some (''iota:'' @ ''p7'' @ ''/request.isPayed.type?'' @ ''x'')) \<lparr>attr_type = replicate 6 NUL, attr_value = replicate 9 NUL\<rparr>
      sample_wallet [] =
     Some (0, \<lparr>attr_type = ''string'', attr_value = ''verified'' @ [NUL]\<rparr>, sample_wallet)"
  by (subst acquire_payment_state [OF _ _ refl, where answer = "''verified''"])
    (simp_all add: token_chars_def zero_locals_def paid_text_def logging_store_def)

end
