(* ===== verification/Can_Msgs.thy ===== *)
theory Can_Msgs
  imports Interfaces
begin

text \<open>
  The CAN messages of the vehicle (\<open>plugins/pip/can/can_msgs.h\<close> and \<open>can_msgs.c\<close>): the layout of
  every message as the list of its bit fields, the two unions of messages and the identifiers that the
  receiver supports. A packed structure of bit fields takes its fields from the lowest bit of the
  eight bytes, read as a little-endian number, upwards.
\<close>

section \<open>Bit fields\<close>

type_synonym layout = "(bytes \<times> nat) list"

definition width :: "layout \<Rightarrow> nat" where
  "width lay = sum_list (map snd lay)"

text \<open>Offset and width of a field.\<close>

fun field_at :: "layout \<Rightarrow> bytes \<Rightarrow> (nat \<times> nat) option" where
  "field_at [] n = None"
| "field_at ((m, w) # fs) n = (if m = n then Some (0, w) else map_option (\<lambda>(off, v). (w + off, v)) (field_at fs n))"

text \<open>Reading a field of a payload; a structure has no other fields than those of its layout.\<close>

definition get_field :: "layout \<Rightarrow> nat \<Rightarrow> bytes \<Rightarrow> nat" where
  "get_field lay payload n = (case field_at lay n of None \<Rightarrow> 0 | Some (off, w) \<Rightarrow> payload div 2 ^ off mod 2 ^ w)"

text \<open>Eight bytes as a little-endian number, and back.\<close>

definition bytes_payload :: "8 word list \<Rightarrow> nat" where
  "bytes_payload bs = foldr (\<lambda>b acc. unat b + 256 * acc) bs 0"

fun payload_bytes :: "nat \<Rightarrow> nat \<Rightarrow> 8 word list" where
  "payload_bytes 0 p = []"
| "payload_bytes (Suc k) p = of_nat p # payload_bytes k (p div 256)"

text \<open>The payload whose fields have given values.\<close>

fun pack :: "layout \<Rightarrow> (bytes \<Rightarrow> nat) \<Rightarrow> nat" where
  "pack [] f = 0"
| "pack ((n, w) # fs) f = f n mod 2 ^ w + 2 ^ w * pack fs f"

section \<open>Layouts\<close>

definition CEMBodyFr02 :: layout where
  "CEMBodyFr02 =
     [(''__padding0'', 13), (''DoorDrvrSts_UB'', 1), (''DoorDrvrSts'', 2), (''__padding1'', 2),
      (''DoorDrvrReSts'', 2), (''DoorDrvrReSts_UB'', 1), (''__padding2'', 27), (''VehMtnStChks'', 8),
      (''VehMtnStSafe'', 3), (''VehMtnStCntr'', 4), (''VehMtnStSafeGroup_UB'', 1)]"

definition CEMBodyFr05 :: layout where
  "CEMBodyFr05 =
     [(''BltLockStAtDrvrForDevErrSts2'', 1), (''BltLockStAtDrvrForBltLockSt1'', 1),
      (''BltLockStAtDrvr_UB'', 1), (''__padding0'', 5), (''BltLockStAtRowThrdLeForBltLockSts'', 1),
      (''BltLockStAtRowThrdLeForBltLockSt1'', 1), (''BltLockStAtRowThrdLeForBltLockEquid'', 1),
      (''ChrgnTyp_UB'', 1), (''__padding1'', 4), (''BltLockStAtPassForBltLockSts'', 1),
      (''BltLockStAtPassForBltLockSt1'', 1), (''BltLockStAtPass_UB'', 1), (''BltLockStAtRowThrdLe_UB'', 1),
      (''BltLockStAtRowSecLeForBltLockSts'', 1), (''BltLockStAtRowSecLeForBltLockSt1'', 1),
      (''BltLockStAtRowSecLeForBltLockEquid'', 1), (''BltLockStAtRowSecLe_UB'', 1),
      (''BltLockStAtRowSecRiForBltLockSts'', 1), (''BltLockStAtRowSecRiForBltLockSt1'', 1),
      (''BltLockStAtRowSecRiForBltLockEquid'', 1), (''BltLockStAtRowSecRi_UB'', 1),
      (''BltLockStAtRowSecMidForBltLockSts'', 1), (''BltLockStAtRowSecMidForBltLockSt1'', 1),
      (''BltLockStAtRowSecMidForBltLockEquid'', 1), (''BltLockStAtRowSecMid_UB'', 1),
      (''BltLockStAtRowThrdRiForBltLockSts'', 1), (''BltLockStAtRowThrdRiForBltLockSt1'', 1),
      (''BltLockStAtRowThrdRiForBltLockEquid'', 1), (''BltLockStAtRowThrdRi_UB'', 1), (''BrkFldLvl_UB'', 1),
      (''BrkFldLvl'', 1), (''EngCooltLvl_UB'', 1), (''EngCooltLvl'', 1), (''__padding2'', 8),
      (''ChrgnTyp'', 8), (''__padding3'', 8)]"

definition CEMBodyFr11 :: layout where
  "CEMBodyFr11 =
     [(''__padding0'', 21), (''TrSts_UB'', 1), (''TrSts'', 2), (''__padding1'', 13), (''DoorPassSts_UB'', 1),
      (''DoorPassSts'', 2), (''__padding2'', 12), (''DoorPassReSts'', 2), (''DoorPassReSts_UB'', 1),
      (''__padding3'', 9)]"

definition CEMBodyFr13 :: layout where
  "CEMBodyFr13 =
     [(''__padding0'', 8), (''HoodSts'', 2), (''HoodSts_UB'', 1), (''__padding1'', 13),
      (''LockgCenStsForUsrFb'', 3), (''LockgCenStsForUsrFb_UB'', 1), (''__padding2'', 10),
      (''DefrstSts_UB'', 1), (''__padding3'', 9), (''LockgCenSts_UB'', 1), (''LockgCenStsUpdEve'', 1),
      (''LockgCenStsLockSt'', 2), (''__padding4'', 12)]"

definition CEMBodyFr17 :: layout where
  "CEMBodyFr17 =
     [(''__padding0'', 34), (''VehSpdLgtSafeQf'', 2), (''VehSpdLgtSafeCntr'', 4), (''VehSpdLgtSafeChks'', 8),
      (''VehSpdLgtSafe'', 15), (''VehSpdLgtSafeGroup_UB'', 1)]"

definition CEMBodyFr23 :: layout where
  "CEMBodyFr23 =
     [(''__padding0'', 15), (''VehSpdIndcdQly_UB'', 1), (''__padding1'', 14), (''VehSpdIndcdQly'', 2),
      (''DstToSrv'', 15), (''__padding2'', 17)]"

definition CEMBodyFr25 :: layout where
  "CEMBodyFr25 =
     [(''TankFlapSts'', 2), (''TankFlapSts_UB'', 1), (''__padding0'', 4), (''EngSt1WdSts_UB'', 1),
      (''FuLvlIndcdVal'', 10), (''FuLvlIndcdQly'', 2), (''EngSt1WdSts'', 4), (''__padding1'', 23),
      (''FuLvlIndcd_UB'', 1), (''__padding2'', 16)]"

definition CEMBodyFr26 :: layout where
  "CEMBodyFr26 =
     [(''DrvModReq'', 4), (''DrvModReq_UB'', 1), (''__padding0'', 1), (''EngNSafe_UB'', 1),
      (''__padding1'', 13), (''EngNCntr'', 4), (''EngNChks'', 8), (''EngN'', 15), (''__padding2'', 1),
      (''EngNSafeEngNGrdt'', 16)]"

definition CEMBodyFr27 :: layout where
  "CEMBodyFr27 =
     [(''__padding0'', 8), (''SpdUnit'', 2), (''__padding1'', 3), (''FuCnsUnit'', 3), (''__padding2'', 2),
      (''DstSho'', 2), (''DstLong'', 2), (''__padding3'', 18), (''BkpOfDstTrvld'', 21),
      (''BkpOfDstTrvld_UB'', 1), (''__padding4'', 2)]"

definition CEMBodyFr28 :: layout where
  "CEMBodyFr28 =
     [(''AmbTRawVal'', 11), (''AmbTRawQly'', 2), (''__padding0'', 19), (''VehSpdIndcdVal'', 9),
      (''VehSpdIndcdUnit'', 2), (''VehSpdIndcd_UB'', 1), (''AmbTRaw_UB'', 1), (''__padding1'', 2),
      (''AmbTIndcdWithUnit_UB'', 1), (''AmbTIndcd'', 12), (''AmbTIndcdQf'', 2), (''AmbTIndcdUnit'', 2)]"

definition CEMBodyFr31 :: layout where
  "CEMBodyFr31 =
     [(''VinPosn7'', 8), (''VinPosn6'', 8), (''VinPosn5'', 8), (''VinPosn4'', 8), (''VinPosn3'', 8),
      (''VinPosn2'', 8), (''VinPosn1'', 8), (''VinBlk'', 8)]"

definition CEMBodyFr32 :: layout where
  "CEMBodyFr32 =
     [(''__padding0'', 3), (''TrLockSts_UB'', 1), (''TrLockSts'', 2), (''__padding1'', 4),
      (''CurtReDirCmd'', 2), (''__padding2'', 18), (''CurtReDirCmd_UB'', 1), (''__padding3'', 33)]"

definition CEMBodyFr33 :: layout where
  "CEMBodyFr33 =
     [(''__padding0'', 21), (''VehBattUGroup_UB'', 1), (''VehBattUSysUQf'', 2), (''VehBattUSysU'', 8),
      (''__padding1'', 12), (''ProfPenSts1'', 4), (''TirePReRi'', 2), (''__padding2'', 2),
      (''TirePFrntRi'', 2), (''TirePFrntLe'', 2), (''__padding3'', 4), (''TirePReLe'', 2), (''__padding4'', 1),
      (''ProfPenSts1_UB'', 1)]"

definition CEMBodyFr44 :: layout where
  "CEMBodyFr44 =
     [(''__padding0'', 48), (''AmbTOutOfVehAmbTOutOfVeh'', 11), (''AmbTOutOfVehAmbTOutOfVehQf'', 2),
      (''AmbTOutOfVeh_UB'', 1), (''__padding1'', 2)]"

definition POTBodyFr02 :: layout where
  "POTBodyFr02 =
     [(''__padding0'', 56), (''TrOpenerSts'', 4), (''TrOpenerSts_UB'', 1), (''__padding1'', 3)]"

definition DDMBodyFr02 :: layout where
  "DDMBodyFr02 =
     [(''__padding0'', 9), (''DrvWinPosnStsValue'', 7), (''DrvWinPosnStsAvailability'', 3),
      (''DrvWinPosnSts_UB'', 1), (''__padding1'', 12), (''WinPosnStsDrv'', 5), (''WinPosnStsDrv_UB'', 1),
      (''__padding2'', 12), (''AmbTRawAtDrvrSide_UB'', 1), (''AmbTQlyAtDrvrSide'', 2),
      (''AmbTValAtDrvrSide'', 11)]"

definition DDMBodyFr03 :: layout where
  "DDMBodyFr03 =
     [(''AmbTURawAtLeSideForObd'', 10), (''AmbTURawAtLeSideForObd_UB'', 1), (''__padding0'', 53)]"

definition PDMBodyFr02 :: layout where
  "PDMBodyFr02 =
     [(''__padding0'', 8), (''AmbTURawAtRiSideForObd'', 10), (''__padding1'', 4),
      (''AmbTURawAtRiSideForObd_UB'', 1), (''__padding2'', 14), (''WinPosnStsPass_UB'', 1),
      (''__padding3'', 5), (''WinPosnStsPass'', 5), (''AmbTValAtPassSide'', 11), (''AmbTQlyAtPassSide'', 2),
      (''AmbTRawAtPassSide_UB'', 1), (''__padding4'', 2)]"

definition VDDMChasFr04 :: layout where
  "VDDMChasFr04 =
     [(''__padding0'', 9), (''PrpsnTqForBrkRels_UB'', 1), (''__padding1'', 22), (''PrpsnTqForBrkRels'', 15),
      (''__padding2'', 17)]"

definition VDDMChasFr05 :: layout where
  "VDDMChasFr05 =
     [(''__padding0'', 2), (''VehSpdLgtSafeQf'', 2), (''VehSpdLgtSafeCntr'', 4), (''VehSpdLgtSafeChks'', 8),
      (''VehSpdLgtSafe'', 15), (''VehSpdLgtSafeGroup_UB'', 1), (''__padding1'', 1),
      (''DrvrBrkTqAtWhlsReqdGroup_UB'', 1), (''DrvrBrkTqAtWhlsReqdQf'', 2),
      (''DrvrBrkTqAtWhlsReqdDrvrBrkTqAtWhlsReqdCntr'', 4), (''DrvrBrkTqAtWhlsReqdDrvrBrkTqAtWhlsReqdChks'', 8),
      (''DrvrBrkTqAtWhlsReqd'', 16)]"

definition VDDMChasFr06 :: layout where
  "VDDMChasFr06 =
     [(''TrSts_UB'', 1), (''__padding0'', 3), (''TrSts'', 2), (''HoodSts'', 2), (''DoorPassSts'', 2),
      (''DoorPassReSts'', 2), (''DoorDrvrSts'', 2), (''__padding1'', 44), (''HoodSts_UB'', 1),
      (''DoorPassSts_UB'', 1), (''DoorPassReSts_UB'', 1), (''DoorDrvrSts_UB'', 1), (''__padding2'', 2)]"

definition VDDMChasFr08 :: layout where
  "VDDMChasFr08 =
     [(''__padding0'', 13), (''DoorDrvrReSts_UB'', 1), (''DoorDrvrReSts'', 2), (''__padding1'', 16),
      (''AmbTIndcd'', 12), (''AmbTIndcdQf'', 2), (''AmbTIndcdUnit'', 2), (''__padding2'', 1),
      (''AmbTIndcdWithUnit_UB'', 1), (''__padding3'', 14)]"

definition VDDMChasFr12 :: layout where
  "VDDMChasFr12 =
     [(''__padding0'', 47), (''BrkPedlPsdSafeGroup_UB'', 1), (''BrkPedlNotPsdSafe'', 1), (''BrkPedlPsd'', 1),
      (''BrkPedlPsdQf'', 2), (''BrkPedlPsdCntr'', 4), (''BrkPedlPsdChks'', 8)]"

definition VDDMChasFr16 :: layout where
  "VDDMChasFr16 =
     [(''__padding0'', 11), (''DrvModReq_UB'', 1), (''__padding1'', 1), (''BkpOfDstTrvld_UB'', 1),
      (''__padding2'', 12), (''DrvModReq'', 4), (''__padding3'', 11), (''BkpOfDstTrvld'', 21)]"

definition VDDMChasFr17 :: layout where
  "VDDMChasFr17 =
     [(''__padding0'', 31), (''FuLvlIndcd_UB'', 1), (''__padding1'', 16), (''FuLvlIndcdVal'', 10),
      (''FuLvlIndcdQly'', 2), (''__padding2'', 4)]"

definition VDDMChasFr19 :: layout where
  "VDDMChasFr19 =
     [(''__padding0'', 8), (''VehMtnStSafeGroup_UB'', 1), (''VehMtnStSafe'', 3), (''VehMtnStCntr'', 4),
      (''VehMtnStChks'', 8), (''VehModMngtGlbSafe1_UB'', 1), (''__padding1'', 1),
      (''CarModSubtypWdCarModSubtyp'', 3), (''CarModSts1'', 3), (''EgyLvlElecMai'', 4),
      (''EgyLvlElecSubtyp'', 4), (''PwrLvlElecMai'', 4), (''PwrLvlElecSubtyp'', 4), (''UsgModSts'', 4),
      (''VehModMngtGlbSafe1Cntr'', 4), (''VehModMngtGlbSafe1Chks'', 8)]"

definition VDDMChasFr25 :: layout where
  "VDDMChasFr25 =
     [(''VehBattUSysU'', 8), (''VehBattUSysUQf'', 2), (''EngCooltLvl_UB'', 1), (''EngCooltLvl'', 1),
      (''__padding0'', 2), (''VehBattUGroup_UB'', 1), (''__padding1'', 49)]"

definition VDDMChasFr48 :: layout where
  "VDDMChasFr48 =
     [(''BrkTqChks'', 8), (''BrkTqTotReqForPt'', 13), (''__padding0'', 3), (''BrkTqCntr'', 4),
      (''BrkTq_UB'', 1), (''__padding1'', 35)]"

definition VDDMChasFr49 :: layout where
  "VDDMChasFr49 =
     [(''WhlBrkPEstimdMax'', 8), (''BrkSysCylPMstChks'', 8), (''BrkSysCylPMstVirt'', 10),
      (''BrkSysCylPMstVirtQf'', 2), (''__padding0'', 4), (''BrkSysCylPMstTar'', 10),
      (''BrkSysCylPMstCntr'', 4), (''BrkSysCylPMstActQf'', 2), (''BrkSysCylPMstAct'', 10),
      (''BrkSysCylPMst_UB'', 1), (''WhlBrkPEstimdMax_UB'', 1), (''__padding1'', 4)]"

definition ECMChasFr03 :: layout where
  "ECMChasFr03 =
     [(''__padding0'', 15), (''PrpsnTqReReq_UB'', 1), (''__padding1'', 16), (''AccrPedlRatGrdt_UB'', 1),
      (''AccrPedlRatGrdt'', 15), (''PrpsnTqReReq'', 16)]"

definition ECMChasFr04 :: layout where
  "ECMChasFr04 =
     [(''__padding0'', 1), (''GearIndcnRec_UB'', 1), (''AccrPedlPsdAccrPedlPsdSts'', 1),
      (''AccrPedlPsdAccrPedlPsd'', 1), (''AccrPedlPsdAccrPedlPsdCntr'', 4),
      (''AccrPedlPsdAccrPedlPsdChks'', 8), (''__padding1'', 37), (''AccrPedlPsd_UB'', 1),
      (''GearShiftIndcn'', 2), (''GearTarIndcn'', 4), (''GearIndcn'', 4)]"

definition ECMChasFr05 :: layout where
  "ECMChasFr05 =
     [(''__padding0'', 18), (''EngNGrdt1Safe_UB'', 1), (''__padding1'', 17), (''EngNGrdt1Cntr'', 4),
      (''EngNGrdt1Chks'', 8), (''EngNGrdt1'', 16)]"

definition ECMChasFr06 :: layout where
  "ECMChasFr06 =
     [(''DrvrPrpsnTqReq'', 16), (''__padding0'', 2), (''EngNSafe_UB'', 1), (''DrvrPrpsnTqReq_UB'', 1),
      (''EngNCntr'', 4), (''EngNChks'', 8), (''EngN'', 15), (''__padding1'', 1), (''EngNSafeEngNGrdt'', 16)]"

definition ECMChasFr10 :: layout where
  "ECMChasFr10 =
     [(''__padding0'', 30), (''CluPedlRat_UB'', 1), (''__padding1'', 9), (''CluPedlRat'', 8),
      (''__padding2'', 16)]"

definition ECMChasFr22 :: layout where
  "ECMChasFr22 =
     [(''__padding0'', 24), (''PrpsnTqDirChks'', 8), (''PrpsnTqDirCntr'', 4), (''PrpsnTqDirAct'', 2),
      (''PrpsnTqDir_UB'', 1), (''__padding1'', 25)]"

section \<open>Messages\<close>

definition CanMsgs_BodyMessage :: "(nat \<times> layout) list" where
  "CanMsgs_BodyMessage =
     [(0x40, CEMBodyFr02), (0xB0, CEMBodyFr05), (0xE0, CEMBodyFr11), (0x100, CEMBodyFr13),
      (0x1B0, CEMBodyFr17), (0x250, CEMBodyFr23), (0x270, CEMBodyFr25), (0x300, CEMBodyFr26),
      (0x310, CEMBodyFr27), (0x1D0, CEMBodyFr28), (0x360, CEMBodyFr31), (0x380, CEMBodyFr32),
      (0x330, CEMBodyFr33), (0x259, CEMBodyFr44), (0x95, POTBodyFr02), (0x1E0, DDMBodyFr02),
      (0x130, DDMBodyFr03), (0x160, PDMBodyFr02)]"

definition CanMsgs_ChasMessage :: "(nat \<times> layout) list" where
  "CanMsgs_ChasMessage =
     [(0xD0, VDDMChasFr04), (0xE0, VDDMChasFr05), (0xF0, VDDMChasFr06), (0x3A0, VDDMChasFr08),
      (0x1C0, VDDMChasFr12), (0x1F0, VDDMChasFr16), (0x240, VDDMChasFr17), (0x2E0, VDDMChasFr19),
      (0x380, VDDMChasFr25), (0x1A, VDDMChasFr48), (0x15, VDDMChasFr49), (0x35, ECMChasFr03),
      (0x100, ECMChasFr04), (0x110, ECMChasFr05), (0x130, ECMChasFr06), (0x210, ECMChasFr10),
      (0x23A, ECMChasFr22)]"

definition supported_body_msgs :: "nat list" where
  "supported_body_msgs = [0x40, 0xB0, 0xE0, 0x100, 0x1B0, 0x250, 0x270, 0x310, 0x1D0,
     0x360, 0x380, 0x330, 0x259, 0x95, 0x1E0, 0x130, 0x160]"

definition supported_chas_msgs :: "nat list" where
  "supported_chas_msgs = [0xD0, 0xE0, 0xF0, 0x3A0, 0x1C0, 0x1F0, 0x240, 0x2E0, 0x380,
     0x1A, 0x15, 0x35, 0x100, 0x110, 0x130, 0x210, 0x23A]"

fun msg_search :: "nat list \<Rightarrow> nat \<Rightarrow> int" where
  "msg_search [] msg_id = 0"
| "msg_search (m # ms) msg_id = (if m = msg_id then 1 else msg_search ms msg_id)"

definition CanMsgs_body_msg_supported :: "nat \<Rightarrow> int" where
  "CanMsgs_body_msg_supported msg_id = msg_search supported_body_msgs msg_id"

definition CanMsgs_chas_msg_supported :: "nat \<Rightarrow> int" where
  "CanMsgs_chas_msg_supported msg_id = msg_search supported_chas_msgs msg_id"

section \<open>Lemmas on bit fields\<close>

lemma pack_less: "pack lay f < 2 ^ width lay"
proof (induction lay)
  case (Cons x fs)
  obtain n w where x: "x = (n, w)" by (cases x)
  have "f n mod 2 ^ w + 2 ^ w * pack fs f < 2 ^ w * (pack fs f + 1)" by simp
  also have "\<dots> \<le> 2 ^ w * 2 ^ width fs" using Cons.IH by (intro mult_left_mono) auto
  finally show ?case by (simp add: x width_def power_add)
qed (simp add: width_def)

lemma field_of_pack: "field_at lay n = Some (off, w) \<Longrightarrow> pack lay f div 2 ^ off mod 2 ^ w = f n mod 2 ^ w"
proof (induction lay arbitrary: off)
  case (Cons x fs)
  obtain m v where x: "x = (m, v)" by (cases x)
  show ?case
  proof (cases "m = n")
    case True
    then show ?thesis using Cons.prems x by simp
  next
    case False
    then obtain off' where off: "field_at fs n = Some (off', w)" "off = v + off'"
      using Cons.prems x by auto
    have "pack (x # fs) f div 2 ^ off = (f m mod 2 ^ v + 2 ^ v * pack fs f) div 2 ^ v div 2 ^ off'"
      by (simp add: x off power_add div_mult2_eq)
    also have "\<dots> = pack fs f div 2 ^ off'" by simp
    finally show ?thesis using Cons.IH [OF off(1)] by simp
  qed
qed simp

lemma get_field_pack:
  "field_at lay n = Some (off, w) \<Longrightarrow> get_field lay (pack lay f) n = f n mod 2 ^ w"
  by (simp add: get_field_def field_of_pack)

lemma length_payload_bytes [simp]: "length (payload_bytes k p) = k"
  by (induction k arbitrary: p) simp_all

lemma bytes_payload_bytes: "bytes_payload (payload_bytes k p) = p mod 256 ^ k"
proof (induction k arbitrary: p)
  case (Suc k)
  have "p mod 256 ^ Suc k = p mod 256 + 256 * (p div 256 mod 256 ^ k)"
    by (simp add: mod_mult2_eq)
  then show ?case
    using Suc by (simp add: bytes_payload_def unat_of_nat)
qed (simp add: bytes_payload_def)

lemma msg_search_iff: "msg_search ms i = 1 \<longleftrightarrow> i \<in> set ms" "msg_search ms i = 0 \<longleftrightarrow> i \<notin> set ms"
  by (induction ms) auto

text \<open>
  The messages fit their frames: every identifier that the receiver supports has one layout in
  its union, with distinct field names, and every layout of both unions describes exactly the 64
  bits of a frame, except \<open>0x1F0\<close> of the chassis bus, whose fields add up to 62 bits.
\<close>

theorem can_layouts_fit:
  "set supported_body_msgs \<subseteq> fst ` set CanMsgs_BodyMessage \<and> set supported_chas_msgs \<subseteq> fst ` set CanMsgs_ChasMessage \<and>
   distinct (map fst CanMsgs_BodyMessage) \<and> distinct (map fst CanMsgs_ChasMessage) \<and>
   list_all (\<lambda>(i, lay). distinct (map fst lay) \<and> width lay = 64) CanMsgs_BodyMessage \<and>
   list_all (\<lambda>(i, lay). distinct (map fst lay) \<and> width lay = (if i = 0x1F0 then 62 else 64)) CanMsgs_ChasMessage"
  by (intro conjI) code_simp+

end
