(* ===== verification/Data_Dumper.thy ===== *)
theory Data_Dumper
  imports Config_Manager
begin

text \<open>
  The data dumper (\<open>data_dumper/data_dumper.c\<close>): the list of modules that contribute to the JSON
  document, the periodic dump and the lookup by name. The JSON library is a parameter, the record
  \<open>fjson\<close>, whose objects have an abstract type; the laws the proofs use are stated by
  \<open>fjson_laws\<close>. A module is identified by its filler function, which changes the module's own
  state (the world).
\<close>

section \<open>State\<close>

record 'j fjson =
  fj_object :: 'j
  fj_string :: "bytes \<Rightarrow> 'j"
  fj_int :: "int \<Rightarrow> 'j"
  fj_add :: "'j \<Rightarrow> bytes \<Rightarrow> 'j \<Rightarrow> 'j"
  fj_entries :: "'j \<Rightarrow> (bytes \<times> 'j) list"

abbreviation (input) DATADUMPER_STR_LEN :: nat where "DATADUMPER_STR_LEN \<equiv> 128"
abbreviation (input) DATADUMPER_NAME_LEN :: nat where "DATADUMPER_NAME_LEN \<equiv> 64"

text \<open>A node of the list: a NULL filler or a NULL \<open>added_node\<close> is \<open>None\<close> or \<open>False\<close>.\<close>

record 'f filler_node =
  fn_filler :: "'f option"
  fn_name :: bytes
  fn_added :: bool

text \<open>The document: not created yet, present, or released.\<close>

datatype 'j root_ptr = RootNull | RootLive 'j | RootFreed

record ('f, 'j, 'w) datadumper =
  dd_head :: "'f filler_node"
  dd_tail :: "'f filler_node list"
  dd_root :: "'j root_ptr"
  dd_started :: int
  dd_ipaddr :: bytes
  dd_device_id :: bytes
  dd_ipport :: int
  dd_files :: "(bytes \<times> 'j) list"
  dd_world :: 'w

definition datadumper_zero :: "'w \<Rightarrow> ('f, 'j, 'w) datadumper" where
  "datadumper_zero w = \<lparr>dd_head = \<lparr>fn_filler = None, fn_name = replicate DATADUMPER_NAME_LEN NUL, fn_added = False\<rparr>,
     dd_tail = [], dd_root = RootNull, dd_started = 0,
     dd_ipaddr = ''127.0.0.1'' @ replicate (DATADUMPER_STR_LEN - 9) NUL,
     dd_device_id = replicate DATADUMPER_STR_LEN NUL, dd_ipport = 12345, dd_files = [], dd_world = w\<rparr>"

section \<open>Operations\<close>

definition datadumper_add_module_init_cb :: "'f option \<Rightarrow> bool \<Rightarrow> bytes \<Rightarrow> ('f, 'j, 'w) datadumper \<Rightarrow> ('f, 'j, 'w) datadumper" where
  "datadumper_add_module_init_cb json_filler added_node name dd =
     (let node = \<lparr>fn_filler = json_filler, fn_name = strncpy_bytes name DATADUMPER_NAME_LEN, fn_added = added_node\<rparr>
      in if fn_filler (dd_head dd) \<noteq> None then dd\<lparr>dd_tail := dd_tail dd @ [node]\<rparr>
         else dd\<lparr>dd_head := node\<rparr>)"

text \<open>The function that should release the list walks over it and changes nothing.\<close>

definition datadumper_clear_filler_node_list :: "('f, 'j, 'w) datadumper \<Rightarrow> ('f, 'j, 'w) datadumper" where
  "datadumper_clear_filler_node_list dd = dd"

text \<open>The loop over the nodes behind the head: it stops at a node without a filler.\<close>

fun fill_tail :: "'j fjson \<Rightarrow> ('f \<Rightarrow> 'w \<Rightarrow> 'j \<times> 'w) \<Rightarrow> 'f filler_node list \<Rightarrow> 'j \<Rightarrow> 'w \<Rightarrow> 'j \<times> 'w" where
  "fill_tail fj run [] obj w = (obj, w)"
| "fill_tail fj run (n # ns) obj w =
     (case fn_filler n of
        None \<Rightarrow> (obj, w)
      | Some f \<Rightarrow>
          if \<not> fn_added n then (obj, w)
          else let (v, w) = run f w in fill_tail fj run ns (fj_add fj obj (cstr (fn_name n)) v) w)"

text \<open>The start time is passed on as an \<open>int\<close> of 32 bits.\<close>

definition int32 :: "int \<Rightarrow> int" where
  "int32 t = (t + 2 ^ 31) mod 2 ^ 32 - 2 ^ 31"

definition call_all_filler_callbacks :: "'j fjson \<Rightarrow> ('f \<Rightarrow> 'w \<Rightarrow> 'j \<times> 'w) \<Rightarrow> 'j \<Rightarrow> ('f, 'j, 'w) datadumper \<Rightarrow> ('f, 'j, 'w) datadumper" where
  "call_all_filler_callbacks fj run root dd =
     (case fn_filler (dd_head dd) of
        None \<Rightarrow> dd\<lparr>dd_root := RootLive root\<rparr>
      | Some f \<Rightarrow>
          if \<not> fn_added (dd_head dd) then dd\<lparr>dd_root := RootLive root\<rparr>
          else let (v, w) = run f (dd_world dd);
                   obj = fj_add fj (fj_object fj) ''timestamp'' (fj_int fj (int32 (dd_started dd)));
                   obj = fj_add fj obj (cstr (fn_name (dd_head dd))) v;
                   (obj, w) = fill_tail fj run (dd_tail dd) obj w;
                   root = fj_add fj root ''data'' obj;
                   root = fj_add fj root ''deviceId'' (fj_string fj (cstr (dd_device_id dd)))
               in dd\<lparr>dd_root := RootLive root, dd_world := w\<rparr>)"

definition datadumper_init :: "'j fjson \<Rightarrow> ('f \<Rightarrow> 'w \<Rightarrow> 'j \<times> 'w) \<Rightarrow> config_manager \<Rightarrow> bytes \<Rightarrow> int \<Rightarrow> ('f, 'j, 'w) datadumper
    \<Rightarrow> ('f, 'j, 'w) datadumper option" where
  "datadumper_init fj run cfg junk now dd = do {
     (_, ipaddr) \<leftarrow> config_manager_get_option_string cfg ''json_interface'' ''ipaddr'' (dd_ipaddr dd) DATADUMPER_STR_LEN;
     (_, device_id) \<leftarrow> config_manager_get_option_string cfg ''config'' ''device_id'' (dd_device_id dd) DATADUMPER_STR_LEN;
     (_, ipport) \<leftarrow> config_manager_get_option_int cfg ''json_interface'' ''ipport'' junk (dd_ipport dd);
     Some (call_all_filler_callbacks fj run (fj_object fj)
       (dd\<lparr>dd_started := now, dd_ipaddr := ipaddr, dd_device_id := device_id, dd_ipport := ipport\<rparr>))
   }"

definition datadumper_set_address :: "bytes \<Rightarrow> ('f, 'j, 'w) datadumper \<Rightarrow> ('f, 'j, 'w) datadumper" where
  "datadumper_set_address new_addr dd = dd\<lparr>dd_ipaddr := strncpy_bytes new_addr DATADUMPER_STR_LEN\<rparr>"

definition datadumper_set_port :: "int \<Rightarrow> ('f, 'j, 'w) datadumper \<Rightarrow> ('f, 'j, 'w) datadumper" where
  "datadumper_set_port new_port dd = dd\<lparr>dd_ipport := new_port\<rparr>"

text \<open>\<open>file_name\<close> is the name printed for the time the document was started; \<open>locked\<close> is the outcome
  of \<open>pthread_mutex_trylock\<close>. Without a document nothing is written; a released one is used again.\<close>

definition datadumper_dump_if_needed :: "'j fjson \<Rightarrow> ('f \<Rightarrow> 'w \<Rightarrow> 'j \<times> 'w) \<Rightarrow> (int \<Rightarrow> bytes) \<Rightarrow> config_manager \<Rightarrow> bytes \<Rightarrow> int \<Rightarrow> bool
    \<Rightarrow> int \<Rightarrow> ('f, 'j, 'w) datadumper \<Rightarrow> (int \<times> ('f, 'j, 'w) datadumper) option" where
  "datadumper_dump_if_needed fj run file_name cfg junk now locked dump_period_s dd =
     (if now > dd_started dd + dump_period_s - 1 \<and> locked then do {
        files \<leftarrow> (case dd_root dd of
             RootNull \<Rightarrow> Some (dd_files dd)
           | RootLive root \<Rightarrow> Some (dd_files dd @ [(file_name (dd_started dd), root)])
           | RootFreed \<Rightarrow> None);
        dd \<leftarrow> datadumper_init fj run cfg junk now (dd\<lparr>dd_files := files\<rparr>);
        Some (1, dd)
      } else Some (0, dd))"

definition datadumper_get :: "'j fjson \<Rightarrow> bytes \<Rightarrow> ('f, 'j, 'w) datadumper \<Rightarrow> 'j option option" where
  "datadumper_get fj name dd =
     (case dd_root dd of
        RootLive root \<Rightarrow>
          Some (map_option snd (find (\<lambda>e. strncmp_eq (fst e) name (length name)) (fj_entries fj root)))
      | _ \<Rightarrow> None)"

definition datadumper_deinit :: "('f, 'j, 'w) datadumper \<Rightarrow> ('f, 'j, 'w) datadumper" where
  "datadumper_deinit dd = datadumper_clear_filler_node_list (dd\<lparr>dd_root := (if dd_root dd = RootNull then RootNull else RootFreed)\<rparr>)"

section \<open>The document\<close>

text \<open>What the JSON library promises about objects: adding a new key appends it.\<close>

definition fjson_laws :: "'j fjson \<Rightarrow> bool" where
  "fjson_laws fj \<longleftrightarrow> fj_entries fj (fj_object fj) = [] \<and>
     (\<forall>obj k v. k \<notin> fst ` set (fj_entries fj obj) \<longrightarrow> fj_entries fj (fj_add fj obj k v) = fj_entries fj obj @ [(k, v)])"

text \<open>Registering a list of modules, and what their fillers contribute in turn.\<close>

definition add_modules :: "('f \<times> bytes) list \<Rightarrow> ('f, 'j, 'w) datadumper \<Rightarrow> ('f, 'j, 'w) datadumper" where
  "add_modules ms dd = fold (\<lambda>m. datadumper_add_module_init_cb (Some (fst m)) True (snd m)) ms dd"

fun contributions :: "('f \<Rightarrow> 'w \<Rightarrow> 'j \<times> 'w) \<Rightarrow> ('f \<times> bytes) list \<Rightarrow> 'w \<Rightarrow> (bytes \<times> 'j) list" where
  "contributions run [] w = []"
| "contributions run ((f, n) # ms) w = (let (v, w) = run f w in (n, v) # contributions run ms w)"

definition module_node :: "'f \<times> bytes \<Rightarrow> 'f filler_node" where
  "module_node m = \<lparr>fn_filler = Some (fst m), fn_name = strncpy_bytes (snd m) DATADUMPER_NAME_LEN, fn_added = True\<rparr>"

lemma add_modules_tail:
  "fn_filler (dd_head dd) \<noteq> None \<Longrightarrow> add_modules ms dd = dd\<lparr>dd_tail := dd_tail dd @ map module_node ms\<rparr>"
proof (induction ms arbitrary: dd)
  case (Cons m ms)
  let ?d = "dd\<lparr>dd_tail := dd_tail dd @ [module_node m]\<rparr>"
  have "add_modules (m # ms) dd = add_modules ms ?d"
    using Cons.prems by (auto simp: add_modules_def datadumper_add_module_init_cb_def module_node_def)
  with Cons show ?case by simp
qed (simp add: add_modules_def)

lemma add_modules_zero:
  "add_modules (m # ms) (datadumper_zero w) = (datadumper_zero w)\<lparr>dd_head := module_node m, dd_tail := map module_node ms\<rparr>"
proof -
  have "add_modules (m # ms) (datadumper_zero w) = add_modules ms ((datadumper_zero w)\<lparr>dd_head := module_node m\<rparr>)"
    by (simp add: add_modules_def datadumper_add_module_init_cb_def module_node_def datadumper_zero_def)
  then show ?thesis
    by (simp add: add_modules_tail module_node_def datadumper_zero_def)
qed

lemma node_name: "NUL \<notin> set n \<Longrightarrow> length n < DATADUMPER_NAME_LEN \<Longrightarrow> cstr (strncpy_bytes n DATADUMPER_NAME_LEN) = n"
  by (simp add: strncpy_bytes_def)

lemma fill_tail_entries:
  assumes "fjson_laws fj" "\<forall>m\<in>set ms. NUL \<notin> set (snd m) \<and> length (snd m) < DATADUMPER_NAME_LEN"
    and "distinct (map fst (fj_entries fj obj) @ map snd ms)"
  shows "fj_entries fj (fst (fill_tail fj run (map module_node ms) obj w)) = fj_entries fj obj @ contributions run ms w"
  using assms(2,3)
proof (induction ms arbitrary: obj w)
  case (Cons m ms)
  obtain f n where m: "m = (f, n)" by (cases m)
  obtain v w' where run: "run f w = (v, w')" by (cases "run f w")
  have add: "fj_entries fj (fj_add fj obj n v) = fj_entries fj obj @ [(n, v)]"
    using assms(1) Cons.prems(2) m unfolding fjson_laws_def by auto
  have node: "fn_filler (module_node (f, n)) = Some f" "fn_added (module_node (f, n))" "cstr (fn_name (module_node (f, n))) = n"
    using Cons.prems(1) m by (simp_all add: node_name module_node_def)
  have "fj_entries fj (fst (fill_tail fj run (map module_node ms) (fj_add fj obj n v) w')) =
      fj_entries fj (fj_add fj obj n v) @ contributions run ms w'"
    using Cons.prems m by (intro Cons.IH) (auto simp: add)
  then show ?case by (simp add: m run node add)
qed simp

lemma init_document:
  assumes "fjson_laws fj" "ms \<noteq> []" "\<forall>m\<in>set ms. NUL \<notin> set (snd m) \<and> length (snd m) < DATADUMPER_NAME_LEN"
    and "distinct (''timestamp'' # map snd ms)"
    and "datadumper_init fj run cfg junk now (add_modules ms (datadumper_zero w)) = Some dd"
  shows "\<exists>root obj. dd_root dd = RootLive root \<and>
     fj_entries fj root = [(''data'', obj), (''deviceId'', fj_string fj (cstr (dd_device_id dd)))] \<and>
     fj_entries fj obj = (''timestamp'', fj_int fj (int32 now)) # contributions run ms w"
proof -
  obtain f n ms' where ms: "ms = (f, n) # ms'" using assms(2) by (cases ms) auto
  obtain v w' where run: "run f w = (v, w')" by (cases "run f w")
  let ?t = "fj_add fj (fj_object fj) ''timestamp'' (fj_int fj (int32 now))" and ?o = "fj_add fj (fj_add fj (fj_object fj) ''timestamp'' (fj_int fj (int32 now))) n v"
  have t: "fj_entries fj ?t = [(''timestamp'', fj_int fj (int32 now))]"
    using assms(1) by (simp add: fjson_laws_def)
  have ent: "fj_entries fj ?o = [(''timestamp'', fj_int fj (int32 now)), (n, v)]"
    using assms(1,4) t ms unfolding fjson_laws_def by auto
  have rest: "fj_entries fj (fst (fill_tail fj run (map module_node ms') ?o w')) =
      [(''timestamp'', fj_int fj (int32 now)), (n, v)] @ contributions run ms' w'"
    using fill_tail_entries [OF assms(1), of ms' ?o run w'] assms(3,4) ms ent by auto
  obtain obj w'' where obj: "fill_tail fj run (map module_node ms') ?o w' = (obj, w'')"
    by (cases "fill_tail fj run (map module_node ms') ?o w'")
  have node: "fn_filler (module_node (f, n)) = Some f" "fn_added (module_node (f, n))" "cstr (fn_name (module_node (f, n))) = n"
    using assms(3) ms by (simp_all add: node_name module_node_def)
  have root: "fj_entries fj (fj_add fj (fj_add fj (fj_object fj) ''data'' obj) ''deviceId'' d) = [(''data'', obj), (''deviceId'', d)]" for d
    using assms(1) by (simp add: fjson_laws_def)
  show ?thesis
    using assms(5) unfolding datadumper_init_def ms add_modules_zero
    by (auto simp: call_all_filler_callbacks_def node run obj root datadumper_zero_def split: bind_splits)
      (use rest obj run in simp)
qed

text \<open>
  C26. The document that \<open>datadumper_init\<close> starts has, under \<open>data\<close>, the time and one member per
  registered module, in the order of registration, with what the modules' fillers returned when they
  were called in that order, and beside it only the device id. This holds for any number of
  modules whose names are distinct and shorter than 64 characters.
\<close>

theorem document_lists_modules:
  assumes "fjson_laws fj" "ms \<noteq> []" "\<forall>m\<in>set ms. NUL \<notin> set (snd m) \<and> length (snd m) < DATADUMPER_NAME_LEN"
    and "distinct (''timestamp'' # map snd ms)"
    and "datadumper_init fj run cfg junk now (add_modules ms (datadumper_zero w)) = Some dd"
  shows "\<exists>root obj. dd_root dd = RootLive root \<and>
     fj_entries fj root = [(''data'', obj), (''deviceId'', fj_string fj (cstr (dd_device_id dd)))] \<and>
     fj_entries fj obj = (''timestamp'', fj_int fj (int32 now)) # contributions run ms w"
  by (rule init_document [OF assms])

text \<open>A JSON library with association lists, for concrete runs.\<close>

datatype jval = JObj "(bytes \<times> jval) list" | JStr bytes | JInt int

fun jval_entries :: "jval \<Rightarrow> (bytes \<times> jval) list" where
  "jval_entries (JObj es) = es"
| "jval_entries _ = []"

definition list_json :: "jval fjson" where
  "list_json = \<lparr>fj_object = JObj [], fj_string = JStr, fj_int = JInt,
     fj_add = (\<lambda>obj k v. if k \<in> fst ` set (jval_entries obj) then obj else JObj (jval_entries obj @ [(k, v)])),
     fj_entries = jval_entries\<rparr>"

lemma list_json_laws: "fjson_laws list_json"
  by (simp add: fjson_laws_def list_json_def)

definition sample_dumper :: "(nat, jval, nat) datadumper" where
  "sample_dumper = add_modules [(1, ''can_data''), (2, ''gps_data'')] (datadumper_zero 5)"

definition sample_run :: "nat \<Rightarrow> nat \<Rightarrow> jval \<times> nat" where
  "sample_run f w = (JInt (int (f + w)), w + 1)"

lemma sample_init:
  "\<exists>dd. datadumper_init list_json sample_run g_config_zero junk 100 sample_dumper = Some dd"
  by (simp add: datadumper_init_def zero_config_missing)

theorem document_lists_modules_witness:
  "\<exists>dd root obj. datadumper_init list_json sample_run g_config_zero [] 100 sample_dumper = Some dd \<and> dd_root dd = RootLive root \<and>
     map fst (fj_entries list_json root) = [''data'', ''deviceId''] \<and>
     fj_entries list_json obj = [(''timestamp'', JInt 100), (''can_data'', JInt 6), (''gps_data'', JInt 8)]"
proof -
  obtain dd where dd: "datadumper_init list_json sample_run g_config_zero [] 100 sample_dumper = Some dd"
    using sample_init by blast
  from document_lists_modules [OF list_json_laws _ _ _ dd [unfolded sample_dumper_def]] dd show ?thesis
    by (force simp: int32_def sample_run_def list_json_def)
qed

text \<open>
  The lookup by name finds no module: the modules are members of \<open>data\<close>, and the search looks at
  the top of the document only. A name that \<open>data\<close> or \<open>deviceId\<close> starts with gives that member,
  every other name, those of the registered modules included, gives NULL.
\<close>

theorem datadumper_get_top_only:
  assumes "fjson_laws fj" "ms \<noteq> []" "\<forall>m\<in>set ms. NUL \<notin> set (snd m) \<and> length (snd m) < DATADUMPER_NAME_LEN"
    and "distinct (''timestamp'' # map snd ms)"
    and "datadumper_init fj run cfg junk now (add_modules ms (datadumper_zero w)) = Some dd"
    and "NUL \<notin> set name"
  shows "\<exists>obj. datadumper_get fj name dd = Some
     (if prefix name ''data'' then Some obj
      else if prefix name ''deviceId'' then Some (fj_string fj (cstr (dd_device_id dd))) else None)"
proof -
  obtain root obj where "dd_root dd = RootLive root"
      "fj_entries fj root = [(''data'', obj), (''deviceId'', fj_string fj (cstr (dd_device_id dd)))]"
    using init_document [OF assms(1-5)] by blast
  moreover have "strncmp_eq k name (length name) \<longleftrightarrow> prefix name k" if "NUL \<notin> set k" for k
    using strncmp_eq_prefix [OF that assms(6), of "[]"] by simp
  ultimately show ?thesis
    by (intro exI [of _ obj]) (simp add: datadumper_get_def)
qed

theorem datadumper_get_top_only_witness:
  "\<exists>dd. datadumper_init list_json sample_run g_config_zero [] 100 sample_dumper = Some dd \<and>
     datadumper_get list_json ''can_data'' dd = Some None"
proof -
  obtain dd where dd: "datadumper_init list_json sample_run g_config_zero [] 100 sample_dumper = Some dd"
    using sample_init by blast
  from datadumper_get_top_only [OF list_json_laws _ _ _ dd [unfolded sample_dumper_def], of "''can_data''"] dd
  show ?thesis by simp
qed

section \<open>Periodic dumps\<close>

fun dump_calls :: "'j fjson \<Rightarrow> ('f \<Rightarrow> 'w \<Rightarrow> 'j \<times> 'w) \<Rightarrow> (int \<Rightarrow> bytes) \<Rightarrow> config_manager \<Rightarrow> bytes \<Rightarrow> int \<Rightarrow> (int \<times> bool) list
    \<Rightarrow> ('f, 'j, 'w) datadumper \<Rightarrow> ('f, 'j, 'w) datadumper option" where
  "dump_calls fj run file_name cfg junk period [] dd = Some dd"
| "dump_calls fj run file_name cfg junk period ((now, locked) # cs) dd = do {
     (_, dd) \<leftarrow> datadumper_dump_if_needed fj run file_name cfg junk now locked period dd;
     dump_calls fj run file_name cfg junk period cs dd
   }"

lemma init_keeps:
  assumes "datadumper_init fj run cfg junk now dd = Some dd'"
  shows "dd_started dd' = now" "dd_files dd' = dd_files dd" "\<exists>root. dd_root dd' = RootLive root"
  using assms by (auto simp: datadumper_init_def call_all_filler_callbacks_def Let_def
      split: bind_splits option.splits if_splits prod.splits)

text \<open>
  C27. The dump is periodic: over any sequence of calls, at any times and whether or not the lock is
  free, the documents written are those started at a chain of times, beginning with the start of the
  current document, in which each is at least one period after the one before.
\<close>

theorem dumps_are_spaced:
  assumes "dump_calls fj run file_name cfg junk period cs dd = Some dd'" "dd_root dd = RootLive root"
  shows "\<exists>ss. map fst (dd_files dd') = map fst (dd_files dd) @ map file_name ss \<and>
     hd (ss @ [dd_started dd']) = dd_started dd \<and> successively (\<lambda>a b. a + period \<le> b) (ss @ [dd_started dd'])"
  using assms
proof (induction cs arbitrary: dd root)
  case Nil
  then show ?case by (intro exI [of _ "[]"]) simp
next
  case (Cons c cs)
  obtain now locked where c: "c = (now, locked)" by (cases c)
  show ?case
  proof (cases "now > dd_started dd + period - 1 \<and> locked")
    case False
    then have "datadumper_dump_if_needed fj run file_name cfg junk now locked period dd = Some (0, dd)"
      unfolding datadumper_dump_if_needed_def by (rule if_not_P)
    then have "dump_calls fj run file_name cfg junk period cs dd = Some dd'"
      using Cons.prems(1) c by simp
    then show ?thesis using Cons by blast
  next
    case True
    let ?d = "dd\<lparr>dd_files := dd_files dd @ [(file_name (dd_started dd), root)]\<rparr>"
    obtain d1 where d1: "datadumper_init fj run cfg junk now ?d = Some d1"
        "dump_calls fj run file_name cfg junk period cs d1 = Some dd'"
      using Cons.prems c True by (auto simp: datadumper_dump_if_needed_def split: bind_splits)
    note keep = init_keeps [OF d1(1)]
    obtain ss where ss: "map fst (dd_files dd') = map fst (dd_files d1) @ map file_name ss"
        "hd (ss @ [dd_started dd']) = now" "successively (\<lambda>a b. a + period \<le> b) (ss @ [dd_started dd'])"
      using Cons.IH [OF d1(2)] keep by metis
    have "successively (\<lambda>a b. a + period \<le> b) (dd_started dd # ss @ [dd_started dd'])"
      using ss(2,3) True by (cases ss) auto
    then show ?thesis
      using ss(1) keep(2) by (intro exI [of _ "dd_started dd # ss"]) simp
  qed
qed

theorem dumps_are_spaced_witness:
  "\<exists>dd ss. dump_calls list_json sample_run (\<lambda>t. [char_of (nat t)]) g_config_zero [] 6 [(103, True), (106, False), (107, True), (112, True)]
       ((datadumper_zero 5 :: (nat, jval, nat) datadumper)\<lparr>dd_started := 100, dd_root := RootLive (JObj [])\<rparr>) = Some dd \<and>
     map fst (dd_files dd) = map (\<lambda>t. [char_of (nat t)]) ss \<and> hd (ss @ [dd_started dd]) = 100 \<and>
     successively (\<lambda>a b. a + 6 \<le> b) (ss @ [dd_started dd])"
proof -
  let ?d = "(datadumper_zero 5 :: (nat, jval, nat) datadumper)\<lparr>dd_started := 100, dd_root := RootLive (JObj [])\<rparr>"
  have "\<exists>dd. dump_calls list_json sample_run (\<lambda>t. [char_of (nat t)]) g_config_zero [] 6
      [(103, True), (106, False), (107, True), (112, True)] ?d = Some dd"
    by (simp add: datadumper_dump_if_needed_def datadumper_init_def zero_config_missing call_all_filler_callbacks_def datadumper_zero_def)
  then obtain dd where dd: "dump_calls list_json sample_run (\<lambda>t. [char_of (nat t)]) g_config_zero [] 6
      [(103, True), (106, False), (107, True), (112, True)] ?d = Some dd" by blast
  have "dd_files ?d = []" by (simp add: datadumper_zero_def)
  with dumps_are_spaced [OF dd, of "JObj []"] dd show ?thesis by auto
qed

end
