(* ===== verification/Dataset.thy ===== *)
theory Dataset
  imports Interfaces
begin

text \<open>
  Datasets (\<open>plugins/dataset/vehicle/vehicle_dataset.c\<close>): a text of option names separated by bars,
  the table of tokens made from it, and a block with one byte per option that says whether the option
  is wanted. The JSON tokeniser (jsmn) and the JSON printer (libfastjson) are parameters. The locale
  \<open>option_names\<close> states what the names of a dataset have to satisfy; the two datasets of the file
  are its instances.
\<close>

section \<open>State\<close>

record d_token =
  tok_name :: "bytes option"
  tok_val :: int

text \<open>\<open>ds_options\<close> is the text without its terminator, which \<open>strtok\<close> overwrites; \<open>ds_dataset\<close> is the
  heap block of the wanted flags.\<close>

record dataset_state =
  ds_options :: bytes
  ds_count :: nat
  ds_tokens :: "d_token list"
  ds_dataset :: "8 word list"

definition vehicledatasetdemo01_options :: bytes where
  "vehicledatasetdemo01_options =
     ''DoorDrvrReSts'' @ ''|DoorDrvrSts'' @ ''|VehMtnStSafe'' @ ''|EngCooltLvl'' @ ''|TrSts'' @ ''|DoorPassSts'' @
     ''|DoorPassReSts'' @ ''|LockgCenStsForUsrFb'' @ ''|VehSpdLgtSafe'' @ ''|FuLvlIndcdVal'' @ ''|EngN'' @
     ''|BkpOfDstTrvld'' @ ''|AmbTIndcd'' @ ''|VehSpdIndcdVal'' @ ''|VinBlk'' @ ''|VinPosn1'' @ ''|VinPosn2'' @
     ''|VinPosn3'' @ ''|VinPosn4'' @ ''|VinPosn5'' @ ''|VinPosn6'' @ ''|VinPosn7'' @ ''|TrLockSts'' @
     ''|VehBattUSysU'' @ ''|AmbTValAtDrvrSide'' @ ''|AmbTURawAtLeSideForObd'' @ ''|AmbTURawAtRiSideForObd'' @
     ''|AmbTValAtPassSide'' @ ''|DrvrBrkTqAtWhlsReqd'' @ ''|BrkPedlPsd'' @ ''|BrkTqTotReqForPt'' @ ''|GearIndcn'' @
     ''|DrvrPrpsnTqReq'' @ ''|CluPedlRat''"

definition vehicledatasetdemo02_options :: bytes where
  "vehicledatasetdemo02_options =
     ''bms_bat_voltage'' @ ''|analogue_brake_full_voltage'' @ ''|analogue_brake_off_voltage'' @
     ''|controller_temperature'' @ ''|vehicle_speed'' @ ''|motor_rpm'' @ ''|motor_speed'' @ ''|battery_voltage'' @
     ''|battery_current'' @ ''|battery_soc'' @ ''|throttle_voltage'' @ ''|brake_1_voltage'' @ ''|brake_2_voltage'' @
     ''|battery_power_percent'' @ ''|raw_battery_voltage'' @ ''|wheel_rpm_speed_sensor_based'' @
     ''|wheel_rpm_motor_based'' @ ''|trip_meter'' @ ''|remote_throttle_voltage''"

text \<open>The fields of the structures that are laid over the block, in their order.\<close>

definition can01_vehicle_dataset_fields :: "bytes list" where
  "can01_vehicle_dataset_fields =
     [''DoorDrvrSts'', ''DoorDrvrReSts'', ''VehMtnStSafe'', ''EngCooltLvl'', ''TrSts'', ''DoorPassSts'',
      ''DoorPassReSts'', ''LockgCenStsForUsrFb'', ''VehSpdLgtSafe'', ''FuLvlIndcdVal'', ''EngN'', ''BkpOfDstTrvld'',
      ''AmbTIndcd'', ''VehSpdIndcdVal'', ''VinBlk'', ''VinPosn1'', ''VinPosn2'', ''VinPosn3'', ''VinPosn4'',
      ''VinPosn5'', ''VinPosn6'', ''VinPosn7'', ''TrLockSts'', ''VehBattUSysU'', ''AmbTValAtDrvrSide'',
      ''AmbTURawAtLeSideForObd'', ''AmbTURawAtRiSideForObd'', ''AmbTValAtPassSide'', ''DrvrBrkTqAtWhlsReqd'',
      ''BrkPedlPsd'', ''BrkTqTotReqForPt'', ''GearIndcn'', ''DrvrPrpsnTqReq'', ''CluPedlRat'']"

definition canopen01_vehicle_dataset_fields :: "bytes list" where
  "canopen01_vehicle_dataset_fields =
     [''bms_bat_voltage'', ''analogue_brake_full_voltage'', ''analogue_brake_off_voltage'', ''controller_temperature'',
      ''vehicle_speed'', ''motor_rpm'', ''motor_speed'', ''battery_voltage'', ''battery_current'', ''battery_soc'',
      ''throttle_voltage'', ''brake_1_voltage'', ''brake_2_voltage'', ''battery_power_percent'',
      ''raw_battery_voltage'', ''wheel_rpm_speed_sensor_based'', ''wheel_rpm_motor_based'', ''trip_meter'',
      ''brake_light_pwm_daylight'', ''remote_throttle_voltage'']"

section \<open>Operations\<close>

text \<open>\<open>set_token\<close>: the first token whose name starts with the given one. A NULL name is dereferenced.\<close>

fun set_token :: "d_token list \<Rightarrow> bytes \<Rightarrow> int \<Rightarrow> (int \<times> d_token list) option" where
  "set_token [] name val = Some (- 1, [])"
| "set_token (t # ts) name val = do {
     tn \<leftarrow> tok_name t;
     (if strncmp_eq tn name (length name) then Some (0, t\<lparr>tok_val := val\<rparr> # ts)
      else do { (r, ts) \<leftarrow> set_token ts name val; Some (r, t # ts) })
   }"

text \<open>The text after \<open>strtok\<close> has run over it: the bar behind each token becomes a NUL.\<close>

fun strtok_mangle :: "char \<Rightarrow> bool \<Rightarrow> bytes \<Rightarrow> bytes" where
  "strtok_mangle d in_tok [] = []"
| "strtok_mangle d in_tok (c # cs) =
     (if c = NUL then c # cs
      else if c = d then (if in_tok then NUL else c) # strtok_mangle d False cs
      else c # strtok_mangle d True cs)"

definition option_count :: "bytes \<Rightarrow> nat" where
  "option_count options = 1 + length (filter (\<lambda>c. c = CHR ''|'') (cstr options))"

text \<open>\<open>dataset_init\<close>. The tokens that \<open>strtok\<close> no longer finds have a NULL name; the stores into the
  block are checked against its size.\<close>

definition dataset_init :: "dataset_state \<Rightarrow> dataset_state option" where
  "dataset_init st =
     (if ds_count st \<noteq> 0 then do {
        block \<leftarrow> buf_blit (ds_dataset st) 0 (replicate (ds_count st) 0);
        Some (st\<lparr>ds_dataset := block, ds_tokens := map (\<lambda>t. t\<lparr>tok_val := 0\<rparr>) (ds_tokens st)\<rparr>)
      } else if option_count (ds_options st) \<noteq> 1 then do {
        let n = option_count (ds_options st);
        let names = map Some (strtok_all (CHR ''|'') (ds_options st));
        block \<leftarrow> buf_blit (ds_dataset st) 0 (replicate n 0);
        Some (st\<lparr>ds_options := strtok_mangle (CHR ''|'') False (ds_options st), ds_count := n,
          ds_tokens := map (\<lambda>nm. \<lparr>tok_name = nm, tok_val = 0\<rparr>) (take n (names @ replicate n None)),
          ds_dataset := block\<rparr>)
      } else Some st)"

record json_tok =
  jt_array :: bool
  jt_start :: nat
  jt_end :: nat
  jt_size :: nat

abbreviation (input) TOK_NUM_MAX :: nat where "TOK_NUM_MAX \<equiv> 256"
abbreviation (input) TOKNAME_LEN :: nat where "TOKNAME_LEN \<equiv> 128"

text \<open>The loop over the elements of the array; an element outside the tokens that were parsed is
  uninitialised, and a name of 128 bytes or more does not fit \<open>tokname\<close>.\<close>

fun select_tokens :: "bytes \<Rightarrow> json_tok list \<Rightarrow> nat list \<Rightarrow> d_token list \<Rightarrow> d_token list option" where
  "select_tokens json toks [] ts = Some ts"
| "select_tokens json toks (i # is) ts = do {
     t \<leftarrow> buf_get toks i;
     let name = cstr (take (jt_end t - jt_start t) (drop (jt_start t) json));
     (if TOKNAME_LEN \<le> jt_end t - jt_start t then None
      else do { (_, ts) \<leftarrow> set_token ts name 1; select_tokens json toks is ts })
   }"

text \<open>\<open>dataset_from_json\<close>; \<open>jsmn_parse\<close> gives the tokens of a text, or \<open>None\<close> for an error code.\<close>

definition dataset_from_json :: "(bytes \<Rightarrow> json_tok list option) \<Rightarrow> dataset_state \<Rightarrow> bytes \<Rightarrow> dataset_state option" where
  "dataset_from_json jsmn_parse st json =
     (case jsmn_parse json of
        None \<Rightarrow> Some st
      | Some toks \<Rightarrow>
          if length toks < 1 then Some st
          else if TOK_NUM_MAX < length toks then None
          else case find (\<lambda>i. jt_array (toks ! i)) [0..<length toks] of
              None \<Rightarrow> Some st
            | Some arr_index \<Rightarrow> do {
                let arr_len = jt_size (toks ! arr_index);
                st \<leftarrow> dataset_init st;
                (if arr_len = 0 then Some st
                 else do {
                   ts \<leftarrow> select_tokens json toks [arr_index + 1 ..< arr_index + 1 + arr_len] (ds_tokens st);
                   block \<leftarrow> buf_blit (ds_dataset st) 0 (map (\<lambda>t. of_int (tok_val t)) (take (ds_count st) ts));
                   Some (st\<lparr>ds_tokens := ts, ds_dataset := block\<rparr>)
                 })
              })"

text \<open>\<open>dataset_to_json\<close>: the names of the wanted options, printed by the library as an array.\<close>

definition dataset_to_json :: "(bytes option list \<Rightarrow> bytes) \<Rightarrow> dataset_state \<Rightarrow> (int \<times> bytes) option" where
  "dataset_to_json fjson_array st =
     (if ds_count st \<le> length (ds_dataset st) \<and> ds_count st \<le> length (ds_tokens st) then
        let json = fjson_array (map (\<lambda>i. tok_name (ds_tokens st ! i))
                     (filter (\<lambda>i. ds_dataset st ! i = 1) [0..<ds_count st]))
        in Some (int (length json), json)
      else None)"

definition dataset_checked_count :: "dataset_state \<Rightarrow> nat option" where
  "dataset_checked_count st =
     (if ds_count st \<le> length (ds_dataset st)
      then Some (sum_list (map unat (take (ds_count st) (ds_dataset st)))) else None)"

text \<open>\<open>dataset_deinit\<close> frees both blocks, so any later access is outside of them; the number of options
  stays.\<close>

definition dataset_deinit :: "dataset_state \<Rightarrow> dataset_state" where
  "dataset_deinit st = st\<lparr>ds_tokens := [], ds_dataset := []\<rparr>"

section \<open>Lemmas on tokenising\<close>

text \<open>A dataset cannot be set up again after it was released.\<close>

lemma init_after_deinit: "ds_count st \<noteq> 0 \<Longrightarrow> dataset_init (dataset_deinit st) = None"
  by (simp add: dataset_init_def dataset_deinit_def buf_blit_def)

lemma split_runs_clean:
  "d \<notin> set s \<Longrightarrow> split_runs d acc s = (if rev s @ acc = [] then [] else [rev acc @ s])"
  by (induction s arbitrary: acc) auto

lemma split_runs_step:
  "d \<notin> set s \<Longrightarrow> s \<noteq> [] \<or> acc \<noteq> [] \<Longrightarrow> split_runs d acc (s @ d # r) = (rev acc @ s) # split_runs d [] r"
  by (induction s arbitrary: acc) auto

text \<open>The text of a list of option names.\<close>

fun bar_join :: "bytes list \<Rightarrow> bytes" where
  "bar_join [] = []"
| "bar_join [n] = n"
| "bar_join (n # ns) = n @ CHR ''|'' # bar_join ns"

definition name_ok :: "bytes \<Rightarrow> bool" where
  "name_ok n \<longleftrightarrow> n \<noteq> [] \<and> CHR ''|'' \<notin> set n \<and> NUL \<notin> set n \<and> length n < TOKNAME_LEN"

lemma bar_join_NUL: "\<forall>n\<in>set ns. name_ok n \<Longrightarrow> NUL \<notin> set (bar_join ns)"
  by (induction ns rule: bar_join.induct) (auto simp: name_ok_def)

lemma strtok_all_join:
  assumes "\<forall>n\<in>set ns. name_ok n"
  shows "strtok_all (CHR ''|'') (bar_join ns) = ns"
proof -
  have "split_runs (CHR ''|'') [] (bar_join ns) = ns"
    using assms
    by (induction ns rule: bar_join.induct) (simp_all add: name_ok_def split_runs_clean split_runs_step)
  then show ?thesis
    using bar_join_NUL [OF assms] by (simp add: strtok_all_def)
qed

lemma option_count_join:
  assumes "\<forall>n\<in>set ns. name_ok n" "ns \<noteq> []"
  shows "option_count (bar_join ns) = length ns"
proof -
  have no_bar: "filter (\<lambda>c. c = CHR ''|'') n = []" if "name_ok n" for n
    using that by (auto simp: name_ok_def filter_empty_conv)
  have "length (filter (\<lambda>c. c = CHR ''|'') (bar_join ns)) = length ns - 1"
    using assms by (induction ns rule: bar_join.induct) (simp_all add: no_bar)
  then show ?thesis
    using assms bar_join_NUL [OF assms(1)] by (cases ns) (simp_all add: option_count_def)
qed

section \<open>Selecting options\<close>

text \<open>The table of a dataset with the flags of the wanted options.\<close>

definition token_table :: "bytes list \<Rightarrow> bytes set \<Rightarrow> d_token list" where
  "token_table ns W = map (\<lambda>n. \<lparr>tok_name = Some n, tok_val = of_bool (n \<in> W)\<rparr>) ns"

lemma strncmp_eq_whole: "NUL \<notin> set a \<Longrightarrow> NUL \<notin> set b \<Longrightarrow> strncmp_eq a b (length b) \<longleftrightarrow> prefix b a"
  using strncmp_eq_prefix [of a b "[]"] by simp

lemma set_token_absent:
  "\<forall>n\<in>set ns. NUL \<notin> set n \<and> \<not> prefix x n \<Longrightarrow> NUL \<notin> set x \<Longrightarrow>
     set_token (token_table ns W @ ts) x v = map_option (\<lambda>(r, ts). (r, token_table ns W @ ts)) (set_token ts x v)"
  by (induction ns) (auto simp: token_table_def strncmp_eq_whole option.map_comp comp_def option.map_id split: bind_splits)

text \<open>Option names of a dataset: fit for the tokeniser, and no name starts with another one.\<close>

locale option_names =
  fixes names :: "bytes list"
  assumes names_ok: "n \<in> set names \<Longrightarrow> name_ok n"
    and several: "2 \<le> length names"
    and distinct_names: "distinct names"
    and prefix_free: "n \<in> set names \<Longrightarrow> n' \<in> set names \<Longrightarrow> prefix n n' \<Longrightarrow> n = n'"
begin

lemma init_tokens:
  assumes "length (ds_dataset st) = k" "length names \<le> k" "ds_count st = 0" "ds_options st = bar_join names"
  shows "\<exists>st'. dataset_init st = Some st' \<and> ds_count st' = length names \<and> ds_tokens st' = token_table names {} \<and>
     ds_dataset st' = replicate (length names) 0 @ drop (length names) (ds_dataset st)"
proof -
  have "names \<noteq> []" using several by auto
  then show ?thesis
    using assms option_count_join [of names] strtok_all_join [of names] names_ok several
    by (simp add: dataset_init_def buf_blit_def token_table_def Let_def comp_def)
qed

lemma set_token_name:
  assumes "x \<in> set names"
  shows "set_token (token_table names W) x 1 = Some (0, token_table names (insert x W))"
proof -
  obtain as bs where split: "names = as @ x # bs" using assms by (meson split_list)
  have x: "NUL \<notin> set x" "x \<notin> set as" "x \<notin> set bs"
    using names_ok [OF assms] distinct_names split by (auto simp: name_ok_def)
  have "\<forall>n\<in>set as. NUL \<notin> set n \<and> \<not> prefix x n"
    using names_ok prefix_free [OF assms] x split by (auto simp: name_ok_def)
  then have "set_token (token_table as W @ token_table (x # bs) W) x 1 =
      Some (0, token_table as W @ \<lparr>tok_name = Some x, tok_val = 1\<rparr> # token_table bs W)"
    using x by (subst set_token_absent) (simp_all add: token_table_def strncmp_eq_whole)
  moreover have "token_table as (insert x W) = token_table as W" "token_table bs (insert x W) = token_table bs W"
    using x by (auto simp: token_table_def)
  ultimately show ?thesis
    by (simp add: split token_table_def)
qed

lemma reset_tokens:
  assumes "length (ds_dataset st) = k" "length names \<le> k" "ds_count st = length names" "ds_tokens st = token_table names W"
  shows "dataset_init st = Some (st\<lparr>ds_dataset := replicate (length names) 0 @ drop (length names) (ds_dataset st),
     ds_tokens := token_table names {}\<rparr>)"
  using assms several by (auto simp: dataset_init_def buf_blit_def token_table_def comp_def)

lemma select_names:
  assumes "\<forall>k<length sel. i + k < length toks \<and> jt_start (toks ! (i + k)) + length (sel ! k) = jt_end (toks ! (i + k)) \<and>
      take (length (sel ! k)) (drop (jt_start (toks ! (i + k))) json) = sel ! k"
    and "set sel \<subseteq> set names"
  shows "select_tokens json toks [i..<i + length sel] (token_table names W) = Some (token_table names (set sel \<union> W))"
  using assms
proof (induction sel arbitrary: i W)
  case (Cons x sel)
  have x: "x \<in> set names" "name_ok x" using Cons.prems(2) names_ok by auto
  have i: "i < length toks" "jt_start (toks ! i) + length x = jt_end (toks ! i)"
    "take (length x) (drop (jt_start (toks ! i)) json) = x"
    using Cons.prems(1) [THEN spec, of 0] by simp_all
  have rest: "select_tokens json toks [Suc i..<Suc i + length sel] (token_table names (insert x W)) =
      Some (token_table names (set sel \<union> insert x W))"
    using Cons.prems(2) Cons.prems(1) [THEN spec, of "Suc k" for k] by (intro Cons.IH) auto
  have "jt_end (toks ! i) - jt_start (toks ! i) = length x" using i(2) by simp
  then show ?case
    using i x rest set_token_name [OF x(1), of W]
    by (simp add: upt_conv_Cons buf_get_def name_ok_def Let_def del: upt_Suc)
qed simp

text \<open>What the two printing operations make of a table of flags.\<close>

lemma flags_read:
  assumes "ds_count st = length names" "ds_tokens st = token_table names W"
    and "ds_dataset st = map (\<lambda>n. of_bool (n \<in> W)) names @ r"
  shows "dataset_to_json fa st = (let json = fa (map Some (filter (\<lambda>n. n \<in> W) names)) in Some (int (length json), json))"
    and "dataset_checked_count st = Some (card (set names \<inter> W))"
proof -
  have "map (\<lambda>i. tok_name (ds_tokens st ! i)) (filter (\<lambda>i. ds_dataset st ! i = 1) [0..<length names]) =
      map (\<lambda>i. Some (names ! i)) (filter (\<lambda>i. names ! i \<in> W) [0..<length names])"
    using assms by (intro map_cong filter_cong) (auto simp: token_table_def nth_append)
  also have "\<dots> = map Some (map ((!) names) (filter (\<lambda>i. names ! i \<in> W) [0..<length names]))"
    by simp
  also have "map ((!) names) (filter (\<lambda>i. names ! i \<in> W) [0..<length names]) = filter (\<lambda>n. n \<in> W) names"
    using filter_map [of "\<lambda>n. n \<in> W" "(!) names" "[0..<length names]"] by (simp add: comp_def map_nth)
  finally show "dataset_to_json fa st = (let json = fa (map Some (filter (\<lambda>n. n \<in> W) names)) in Some (int (length json), json))"
    using assms by (simp add: dataset_to_json_def token_table_def)
  have "sum_list (map unat (map (\<lambda>n. of_bool (n \<in> W) :: 8 word) ns)) = length (filter (\<lambda>n. n \<in> W) ns)" for ns :: "bytes list"
    by (induction ns) auto
  moreover have "length (filter (\<lambda>n. n \<in> W) names) = card (set names \<inter> W)"
    using distinct_names by (metis distinct_card distinct_filter inter_set_filter Int_commute)
  ultimately show "dataset_checked_count st = Some (card (set names \<inter> W))"
    using assms by (simp add: dataset_checked_count_def)
qed

lemma from_json_flags:
  assumes "ds_count st = length names" "ds_tokens st = token_table names W" "length names \<le> length (ds_dataset st)"
    and "jsmn_parse json = Some toks" "length toks \<le> TOK_NUM_MAX"
    and "find (\<lambda>i. jt_array (toks ! i)) [0..<length toks] = Some a" "jt_size (toks ! a) = length sel" "sel \<noteq> []"
    and "\<forall>k<length sel. a + 1 + k < length toks \<and>
      jt_start (toks ! (a + 1 + k)) + length (sel ! k) = jt_end (toks ! (a + 1 + k)) \<and>
      take (length (sel ! k)) (drop (jt_start (toks ! (a + 1 + k))) json) = sel ! k"
    and "set sel \<subseteq> set names"
  shows "\<exists>st'. dataset_from_json jsmn_parse st json = Some st' \<and> ds_count st' = length names \<and>
     ds_tokens st' = token_table names (set sel) \<and>
     ds_dataset st' = map (\<lambda>n. of_bool (n \<in> set sel)) names @ drop (length names) (ds_dataset st)"
proof -
  have "toks \<noteq> []" using assms(6) by auto
  note init = reset_tokens [OF refl assms(3,1,2)]
  have sel: "select_tokens json toks [a + 1..<a + 1 + length sel] (token_table names {}) = Some (token_table names (set sel))"
    using select_names [OF assms(9,10), of "{}"] by simp
  have vals: "map (\<lambda>t. of_int (tok_val t)) (token_table names V) = map (\<lambda>n. of_bool (n \<in> V)) names" for V
    by (simp add: token_table_def comp_def)
  have "length (token_table names V) = length names" for V by (simp add: token_table_def)
  then show ?thesis
    using assms init sel vals \<open>toks \<noteq> []\<close>
    by (simp add: dataset_from_json_def Let_def buf_blit_def not_less del: upt_Suc)
qed

end

section \<open>The two vehicle datasets\<close>

definition names_check :: "bytes list \<Rightarrow> bool" where
  "names_check ns \<longleftrightarrow> 2 \<le> length ns \<and> distinct ns \<and> list_all name_ok ns \<and>
     list_all (\<lambda>n. list_all (\<lambda>n'. prefix n n' \<longrightarrow> n = n') ns) ns"

lemma names_check_option_names: "names_check ns \<Longrightarrow> option_names ns"
  by unfold_locales (auto simp: names_check_def list_all_iff)

definition demo01_names :: "bytes list" where
  "demo01_names = strtok_all (CHR ''|'') vehicledatasetdemo01_options"

definition demo02_names :: "bytes list" where
  "demo02_names = strtok_all (CHR ''|'') vehicledatasetdemo02_options"

lemma demo01_list: "demo01_names = ''DoorDrvrReSts'' # ''DoorDrvrSts'' # drop 2 can01_vehicle_dataset_fields"
  by code_simp

lemma demo02_list: "demo02_names = filter (\<lambda>n. n \<noteq> ''brake_light_pwm_daylight'') canopen01_vehicle_dataset_fields"
  by code_simp

lemma demo_checks: "names_check demo01_names" "names_check demo02_names"
  by code_simp+

lemma demo_texts: "bar_join demo01_names = vehicledatasetdemo01_options" "bar_join demo02_names = vehicledatasetdemo02_options"
  by code_simp+

lemma demo_lengths: "length demo01_names = 34" "length demo02_names = 19"
  by code_simp+

interpretation demo01: option_names demo01_names
  by (rule names_check_option_names [OF demo_checks(1)])

interpretation demo02: option_names demo02_names
  by (rule names_check_option_names [OF demo_checks(2)])

section \<open>Properties\<close>

text \<open>What jsmn promises for a text whose first array lists the strings \<open>sel\<close>: one token for each,
  behind the token of the array, that spans it.\<close>

definition json_selects :: "(bytes \<Rightarrow> json_tok list option) \<Rightarrow> bytes \<Rightarrow> bytes list \<Rightarrow> bool" where
  "json_selects jsmn_parse json sel \<longleftrightarrow> sel \<noteq> [] \<and>
     (case jsmn_parse json of None \<Rightarrow> False
      | Some toks \<Rightarrow> length toks \<le> TOK_NUM_MAX \<and>
         (case find (\<lambda>i. jt_array (toks ! i)) [0..<length toks] of None \<Rightarrow> False
          | Some a \<Rightarrow> jt_size (toks ! a) = length sel \<and>
              (\<forall>k<length sel. a + 1 + k < length toks \<and>
                jt_start (toks ! (a + 1 + k)) + length (sel ! k) = jt_end (toks ! (a + 1 + k)) \<and>
                take (length (sel ! k)) (drop (jt_start (toks ! (a + 1 + k))) json) = sel ! k)))"

definition fresh_dataset :: "bytes \<Rightarrow> 8 word list \<Rightarrow> dataset_state" where
  "fresh_dataset options block = \<lparr>ds_options = options, ds_count = 0, ds_tokens = [], ds_dataset = block\<rparr>"

context option_names
begin

lemma selection:
  assumes "json_selects jsmn_parse json sel" "set sel \<subseteq> set names" "length names \<le> length block"
  shows "\<exists>st st'. dataset_init (fresh_dataset (bar_join names) block) = Some st \<and> dataset_from_json jsmn_parse st json = Some st' \<and>
     ds_count st' = length names \<and> ds_tokens st' = token_table names (set sel) \<and>
     ds_dataset st' = map (\<lambda>n. of_bool (n \<in> set sel)) names @ drop (length names) block"
proof -
  obtain st where st: "dataset_init (fresh_dataset (bar_join names) block) = Some st" "ds_count st = length names"
      "ds_tokens st = token_table names {}" "ds_dataset st = replicate (length names) 0 @ drop (length names) block"
    using init_tokens [of "fresh_dataset (bar_join names) block"] assms(3) by (auto simp: fresh_dataset_def)
  from assms(1) obtain toks a where json: "sel \<noteq> []" "jsmn_parse json = Some toks" "length toks \<le> TOK_NUM_MAX"
      "find (\<lambda>i. jt_array (toks ! i)) [0..<length toks] = Some a" "jt_size (toks ! a) = length sel"
      "\<forall>k<length sel. a + 1 + k < length toks \<and>
        jt_start (toks ! (a + 1 + k)) + length (sel ! k) = jt_end (toks ! (a + 1 + k)) \<and>
        take (length (sel ! k)) (drop (jt_start (toks ! (a + 1 + k))) json) = sel ! k"
    unfolding json_selects_def by (auto split: option.splits)
  have "length names \<le> length (ds_dataset st)" using st(4) assms(3) by simp
  from from_json_flags [where jsmn_parse = jsmn_parse and json = json and sel = sel and a = a and toks = toks,
      OF st(2,3) this json(2-5,1,6) assms(2)] st show ?thesis by auto
qed

lemma selection_printed:
  assumes "json_selects jsmn_parse json sel" "set sel \<subseteq> set names" "length names \<le> length block"
  shows "\<exists>st st'. dataset_init (fresh_dataset (bar_join names) block) = Some st \<and> dataset_from_json jsmn_parse st json = Some st' \<and>
     map_option snd (dataset_to_json fa st') = Some (fa (map Some (filter (\<lambda>n. n \<in> set sel) names))) \<and>
     dataset_checked_count st' = Some (card (set sel))"
proof -
  obtain st st' where st: "dataset_init (fresh_dataset (bar_join names) block) = Some st"
      "dataset_from_json jsmn_parse st json = Some st'" "ds_count st' = length names"
      "ds_tokens st' = token_table names (set sel)"
      "ds_dataset st' = map (\<lambda>n. of_bool (n \<in> set sel)) names @ drop (length names) block"
    using selection [OF assms] by blast
  moreover have "set names \<inter> set sel = set sel" using assms(2) by blast
  ultimately show ?thesis
    using flags_read(1) [OF st(3-5), of fa] flags_read(2) [OF st(3-5)] by (simp add: Let_def)
qed

end

text \<open>
  C17. Selecting options round-trips: after the dataset is set up from either option text and a JSON
  array of option names is read, printing the dataset gives exactly the selected names, in the
  order of the options, and the count is the number of different names. The order and repetitions in
  the array do not matter, and nothing of an earlier content of the block is left.
\<close>

theorem dataset_selection_roundtrip:
  assumes "(options, names) \<in> {(vehicledatasetdemo01_options, demo01_names), (vehicledatasetdemo02_options, demo02_names)}"
    and "json_selects jsmn_parse json sel" "set sel \<subseteq> set names" "length names \<le> length block"
  shows "\<exists>st st'. dataset_init (fresh_dataset options block) = Some st \<and> dataset_from_json jsmn_parse st json = Some st' \<and>
     map_option snd (dataset_to_json fjson_array st') = Some (fjson_array (map Some (filter (\<lambda>n. n \<in> set sel) names))) \<and>
     dataset_checked_count st' = Some (card (set sel))"
  using assms demo01.selection_printed [of jsmn_parse json sel block fjson_array]
    demo02.selection_printed [of jsmn_parse json sel block fjson_array]
  by (auto simp: demo_texts)

text \<open>A tokeniser for one text, for concrete runs.\<close>

definition sample_jsmn :: "bytes \<Rightarrow> json_tok list option" where
  "sample_jsmn json = Some [\<lparr>jt_array = True, jt_start = 0, jt_end = 21, jt_size = 1\<rparr>,
     \<lparr>jt_array = False, jt_start = 2, jt_end = 13, jt_size = 0\<rparr>]"

definition sample_json :: bytes where
  "sample_json = ''['' @ [CHR 0x22] @ ''DoorDrvrSts'' @ [CHR 0x22] @ '']''"

lemma sample_selects: "json_selects sample_jsmn sample_json [''DoorDrvrSts'']"
  by code_simp

lemma sample_in_names: "set [''DoorDrvrSts''] \<subseteq> set demo01_names"
  by code_simp

theorem dataset_selection_roundtrip_witness:
  "\<exists>st st'. dataset_init (fresh_dataset vehicledatasetdemo01_options (replicate 34 7)) = Some st \<and>
     dataset_from_json sample_jsmn st sample_json = Some st' \<and>
     map_option snd (dataset_to_json (\<lambda>ns. concat (map the ns)) st') = Some ''DoorDrvrSts'' \<and>
     dataset_checked_count st' = Some 1"
proof -
  have "filter (\<lambda>n. n \<in> set [''DoorDrvrSts'']) demo01_names = [''DoorDrvrSts'']"
    by code_simp
  then show ?thesis
    using dataset_selection_roundtrip [OF _ sample_selects sample_in_names, of vehicledatasetdemo01_options "replicate 34 7"
        "\<lambda>ns. concat (map the ns)"] by (simp add: demo_lengths)
qed

text \<open>
  Setting up a dataset is defined exactly when its block has a byte for every option: with the 34
  options of the CAN dataset and a block of the size of the 20 byte CANopen structure, as the
  CANopen receiver does it, the initialisation writes behind the block.
\<close>

theorem dataset_init_in_bounds:
  assumes "option_count options \<noteq> 1"
  shows "dataset_init (fresh_dataset options block) = None \<longleftrightarrow> length block < option_count options"
  using assms by (auto simp: dataset_init_def fresh_dataset_def buf_blit_def Let_def)

theorem dataset_init_in_bounds_witness:
  "dataset_init (fresh_dataset vehicledatasetdemo01_options (replicate (length canopen01_vehicle_dataset_fields) 0)) = None"
proof -
  have "option_count vehicledatasetdemo01_options = 34" by code_simp
  then show ?thesis
    using dataset_init_in_bounds [of vehicledatasetdemo01_options] by (simp add: canopen01_vehicle_dataset_fields_def)
qed

text \<open>The byte of a structure field in the block.\<close>

definition struct_field :: "bytes list \<Rightarrow> 'a list \<Rightarrow> bytes \<Rightarrow> 'a option" where
  "struct_field fs block f = map_of (zip fs block) f"

definition swapped_door :: "bytes \<Rightarrow> bytes" where
  "swapped_door f = (if f = ''DoorDrvrSts'' then ''DoorDrvrReSts'' else if f = ''DoorDrvrReSts'' then ''DoorDrvrSts'' else f)"

lemma demo01_fields: "demo01_names = map swapped_door can01_vehicle_dataset_fields" "distinct can01_vehicle_dataset_fields"
  by code_simp+

lemma flags_after_selection:
  assumes "json_selects jsmn_parse json sel" "set sel \<subseteq> set demo01_names" "length block = 34"
  shows "\<exists>st st'. dataset_init (fresh_dataset vehicledatasetdemo01_options block) = Some st \<and>
     dataset_from_json jsmn_parse st json = Some st' \<and>
     (\<forall>f\<in>set can01_vehicle_dataset_fields.
        struct_field can01_vehicle_dataset_fields (ds_dataset st') f = Some (of_bool (swapped_door f \<in> set sel)))"
proof -
  obtain st st' where st: "dataset_init (fresh_dataset vehicledatasetdemo01_options block) = Some st"
      "dataset_from_json jsmn_parse st json = Some st'"
      "ds_dataset st' = map (\<lambda>n. of_bool (n \<in> set sel)) demo01_names @ drop (length demo01_names) block"
    using demo01.selection [OF assms(1,2), of block] assms(3) by (auto simp: demo_texts demo_lengths)
  have "map_of (zip can01_vehicle_dataset_fields (map (\<lambda>f. of_bool (swapped_door f \<in> set sel) :: 8 word)
      can01_vehicle_dataset_fields)) f = Some (of_bool (swapped_door f \<in> set sel))"
    if "f \<in> set can01_vehicle_dataset_fields" for f
    using that by (simp add: map_of_zip_map)
  then show ?thesis
    using st assms(3) demo_lengths(1) by (simp add: struct_field_def demo01_fields(1) comp_def)
qed

text \<open>
  The wanted flags of the CAN receiver are the selected options, except for the two doors on the
  driver's side: the structure that is laid over the block lists them in the other order than the
  option text, so selecting one of them sets the flag of the other.
\<close>

theorem wanted_flag_of_option:
  assumes "json_selects jsmn_parse json sel" "set sel \<subseteq> set demo01_names" "length block = 34"
    and "f \<in> set can01_vehicle_dataset_fields"
  shows "\<exists>st st'. dataset_init (fresh_dataset vehicledatasetdemo01_options block) = Some st \<and>
     dataset_from_json jsmn_parse st json = Some st' \<and>
     struct_field can01_vehicle_dataset_fields (ds_dataset st') f =
       Some (of_bool ((if f = ''DoorDrvrSts'' then ''DoorDrvrReSts'' else if f = ''DoorDrvrReSts'' then ''DoorDrvrSts'' else f)
          \<in> set sel))"
  using flags_after_selection [OF assms(1-3)] assms(4) by (fastforce simp: swapped_door_def)

theorem wanted_flag_of_option_witness:
  "\<exists>st st'. dataset_init (fresh_dataset vehicledatasetdemo01_options (replicate 34 7)) = Some st \<and>
     dataset_from_json sample_jsmn st sample_json = Some st' \<and>
     struct_field can01_vehicle_dataset_fields (ds_dataset st') ''DoorDrvrReSts'' = Some 1"
proof -
  have "''DoorDrvrReSts'' \<in> set can01_vehicle_dataset_fields" by code_simp
  from wanted_flag_of_option [OF sample_selects sample_in_names _ this, of "replicate 34 7"] show ?thesis by simp
qed

end
