(* ===== verification/Single_Float.thy ===== *)
theory Single_Float
  imports Complex_Main
begin

text \<open>
  Arithmetic in single and double precision. A value of the types \<open>float\<close> and \<open>double\<close> of C is its
  rational number; \<open>float_round\<close> and \<open>double_round\<close> are rounding to the nearest number with a
  significand of 24 and 53 bits, ties to even, for normal numbers. An operation is the exact operation,
  rounded. The locale \<open>binary_format\<close> has the lemmas for both formats.
\<close>

section \<open>Rounding\<close>

definition round_half_even :: "rat \<Rightarrow> int" where
  "round_half_even m =
     (let f = \<lfloor>m\<rfloor>; d = m - of_int f
      in if d < 1 / 2 then f else if d > 1 / 2 then f + 1 else if even f then f else f + 1)"

text \<open>A format has a significand of \<open>p + 1\<close> bits and exponents from \<open>lo\<close> to \<open>hi\<close>.\<close>

definition binary_exponent :: "int \<Rightarrow> int \<Rightarrow> rat \<Rightarrow> int option" where
  "binary_exponent lo hi x = find (\<lambda>k. 2 powi k \<le> x \<and> x < 2 powi (k + 1)) [lo..hi]"

definition round_magnitude :: "nat \<Rightarrow> int \<Rightarrow> int \<Rightarrow> rat \<Rightarrow> rat" where
  "round_magnitude p lo hi x =
     (case binary_exponent lo hi x of
        None \<Rightarrow> 0
      | Some k \<Rightarrow> of_int (round_half_even (x / 2 powi (k - int p))) * 2 powi (k - int p))"

definition round_binary :: "nat \<Rightarrow> int \<Rightarrow> int \<Rightarrow> rat \<Rightarrow> rat" where
  "round_binary p lo hi x = (if x < 0 then - round_magnitude p lo hi (- x) else round_magnitude p lo hi x)"

definition float_round :: "rat \<Rightarrow> rat" where
  "float_round = round_binary 23 (- 126) 127"

definition double_round :: "rat \<Rightarrow> rat" where
  "double_round = round_binary 52 (- 1022) 1023"

section \<open>Lemmas on rounding\<close>

lemma exponent_unique:
  fixes x :: rat
  assumes "2 powi k \<le> x" "x < 2 powi (k + 1)" "2 powi j \<le> x" "x < 2 powi (j + 1)"
  shows "j = k"
proof (rule ccontr)
  assume "j \<noteq> k"
  then have "j + 1 \<le> k \<or> k + 1 \<le> j" by linarith
  then have "(2 :: rat) powi (j + 1) \<le> 2 powi k \<or> (2 :: rat) powi (k + 1) \<le> 2 powi j"
    by (auto intro: power_int_increasing)
  then show False using assms by auto
qed

lemma find_SomeD: "find P xs = Some x \<Longrightarrow> P x \<and> x \<in> set xs"
  by (induction xs) (auto split: if_splits)

lemma round_half_even_of_int [simp]: "round_half_even (of_int n) = n"
  by (simp add: round_half_even_def)

lemma round_half_even_ge: "of_int n \<le> m \<Longrightarrow> n \<le> round_half_even m"
proof -
  assume "of_int n \<le> m"
  then have "n \<le> \<lfloor>m\<rfloor>" by (simp add: le_floor_iff)
  then show ?thesis by (simp add: round_half_even_def Let_def)
qed

lemma round_half_even_le: "of_int (round_half_even m) \<le> m + 1"
proof -
  have "of_int (round_half_even m) \<le> (of_int (\<lfloor>m\<rfloor> + 1) :: rat)"
    by (simp add: round_half_even_def Let_def del: of_int_add)
  also have "\<dots> \<le> m + 1" by simp
  finally show ?thesis .
qed

locale binary_format =
  fixes p :: nat and lo hi :: int
  assumes small_exponents: "lo \<le> - 100"
    and large_exponents: "int p \<le> hi"
begin

lemma exponent_Some: "binary_exponent lo hi x = Some k \<Longrightarrow> 2 powi k \<le> x \<and> x < 2 powi (k + 1)"
  unfolding binary_exponent_def by (drule find_SomeD) blast

lemma exponent_eq:
  assumes "2 powi k \<le> x" "x < 2 powi (k + 1)" "lo \<le> k" "k \<le> hi"
  shows "binary_exponent lo hi x = Some k"
proof -
  have "k \<in> set [lo..hi]" using assms(3,4) by (simp only: set_upto atLeastAtMost_iff)
  then have "binary_exponent lo hi x \<noteq> None"
    using assms(1,2) unfolding binary_exponent_def find_None_iff by blast
  then obtain j where j: "binary_exponent lo hi x = Some j" by blast
  with exponent_Some [OF j] assms(1,2) exponent_unique [of k x j] show ?thesis by simp
qed

text \<open>A number with a significand of at most \<open>p + 1\<close> bits is not changed.\<close>

lemma magnitude_exact:
  assumes "2 powi k \<le> x" "x < 2 powi (k + 1)" "lo \<le> k" "k \<le> hi" "x = of_int n * 2 powi (k - int p)"
  shows "round_magnitude p lo hi x = x"
proof -
  have "x / 2 powi (k - int p) = of_int n" using assms(5) by simp
  then show ?thesis
    unfolding round_magnitude_def exponent_eq [OF assms(1-4)] option.case using assms(5) by simp
qed

text \<open>Rounding does not cross a power of two downwards, and keeps the sign.\<close>

lemma magnitude_ge_power:
  assumes "2 powi k \<le> x" "x < 2 powi (hi + 1)" "lo \<le> k"
  shows "2 powi k \<le> round_magnitude p lo hi x"
proof -
  have "\<exists>j. k \<le> j \<and> j \<le> hi \<and> 2 powi j \<le> x \<and> x < 2 powi (j + 1)"
  proof -
    define js where "js = {j. k \<le> j \<and> j \<le> hi \<and> 2 powi j \<le> x}"
    have fin: "finite js" by (rule finite_subset [of _ "{k..hi}"]) (auto simp: js_def)
    have "k \<le> hi"
    proof (rule ccontr)
      assume "\<not> k \<le> hi"
      then have "(2 :: rat) powi (hi + 1) \<le> 2 powi k" by (intro power_int_increasing) auto
      then show False using assms by simp
    qed
    then have "k \<in> js" using assms(1) by (simp add: js_def)
    then have m: "Max js \<in> js" using fin by (intro Max_in) auto
    moreover have "x < 2 powi (Max js + 1)"
    proof (rule ccontr)
      assume c: "\<not> x < 2 powi (Max js + 1)"
      have "Max js + 1 \<le> hi"
      proof (rule ccontr)
        assume "\<not> Max js + 1 \<le> hi"
        then have "Max js + 1 = (hi + 1)" using m by (auto simp: js_def)
        then show False using c assms(2) by simp
      qed
      then have "Max js + 1 \<in> js" using c m by (auto simp: js_def)
      then show False using Max_ge [OF fin, of "Max js + 1"] by simp
    qed
    ultimately show ?thesis by (auto simp: js_def)
  qed
  then obtain j where j: "k \<le> j" "j \<le> hi" "2 powi j \<le> x" "x < 2 powi (j + 1)" by blast
  have e: "binary_exponent lo hi x = Some j" using j assms(3) by (intro exponent_eq) auto
  have p: "(2 :: rat) powi j = 2 ^ p * 2 powi (j - int p)" by (simp add: power_int_diff)
  have "of_int (2 ^ p) \<le> x / 2 powi (j - int p)" using j(3) by (simp add: p pos_le_divide_eq)
  then have "2 ^ p \<le> round_half_even (x / 2 powi (j - int p))" by (rule round_half_even_ge)
  then have "(2 ^ p :: rat) \<le> of_int (round_half_even (x / 2 powi (j - int p)))"
    by (metis of_int_le_iff of_int_numeral of_int_power)
  then have "(2 :: rat) ^ p * 2 powi (j - int p) \<le> round_magnitude p lo hi x"
    by (simp add: round_magnitude_def e)
  moreover have "(2 :: rat) powi k \<le> 2 powi j" using j(1) by (intro power_int_increasing) auto
  ultimately show ?thesis using p by simp
qed

lemma magnitude_nonneg: "0 \<le> round_magnitude p lo hi x"
proof (cases "binary_exponent lo hi x")
  case (Some k)
  then have "0 \<le> x" using exponent_Some [OF Some] by (meson less_le_trans zero_less_power_int order.strict_implies_order zero_less_numeral)
  then have "0 \<le> round_half_even (x / 2 powi (k - int p))"
    by (intro round_half_even_ge) simp
  then show ?thesis by (simp add: round_magnitude_def Some)
qed (simp add: round_magnitude_def)

lemma magnitude_zero [simp]: "round_magnitude p lo hi 0 = 0"
proof -
  have "binary_exponent lo hi 0 = None"
  proof (rule ccontr)
    assume "binary_exponent lo hi 0 \<noteq> None"
    then obtain k where "binary_exponent lo hi 0 = Some k" by blast
    then have "(2 :: rat) powi k \<le> 0" by (rule exponent_Some [THEN conjunct1])
    moreover have "(0 :: rat) < 2 powi k" by simp
    ultimately show False by linarith
  qed
  then show ?thesis by (simp add: round_magnitude_def)
qed

text \<open>Small fractions with a power of two below are exact.\<close>

lemma magnitude_dyadic:
  assumes "n < 2 ^ (p + 1)" "j \<le> 100"
  shows "round_magnitude p lo hi (of_nat n / 2 ^ j) = of_nat n / 2 ^ j"
proof (cases "n = 0")
  case False
  then obtain k where k: "2 ^ k \<le> n" "n < 2 ^ (k + 1)" using ex_power_ivl1 [of 2 n] by auto
  have "(2 :: nat) ^ k < 2 ^ (p + 1)" using k(1) assms(1) by (rule le_less_trans)
  then have k24: "k < p + 1" by (rule power_less_imp_less_exp [rotated]) simp
  have lower: "(2 :: rat) ^ k \<le> of_nat n" using k(1) by (metis of_nat_le_iff of_nat_numeral of_nat_power)
  have upper: "of_nat n < (2 :: rat) ^ (k + 1)" using k(2) by (metis of_nat_less_iff of_nat_numeral of_nat_power)
  have e: "(2 :: rat) powi (int k - int j) = 2 ^ k / 2 ^ j" "(2 :: rat) powi (int k - int j + 1) = 2 ^ (k + 1) / 2 ^ j"
    by (simp_all add: power_int_diff power_int_add)
  have shift: "(2 :: rat) ^ (p - k) * 2 powi (int k - int j - int p) = 1 / 2 ^ j"
  proof -
    have "(2 :: rat) ^ (p - k) = 2 powi (int p - int k)" using k24 by (simp add: power_int_def)
    then show ?thesis by (simp add: power_int_add [symmetric] power_int_minus divide_inverse)
  qed
  show ?thesis
  proof (rule magnitude_exact)
    show "2 powi (int k - int j) \<le> of_nat n / (2 :: rat) ^ j" using lower by (simp add: e divide_right_mono)
    show "of_nat n / (2 :: rat) ^ j < 2 powi (int k - int j + 1)" using upper by (simp only: e) (simp add: divide_strict_right_mono)
    show "of_nat n / 2 ^ j = of_int (int n * 2 ^ (p - k)) * (2 :: rat) powi (int k - int j - int p)"
      using shift by (simp add: mult.assoc)
  qed (use k24 assms(2) small_exponents large_exponents in auto)
qed simp

lemma magnitude_le_double:
  assumes "0 \<le> x"
  shows "round_magnitude p lo hi x \<le> 2 * x"
proof (cases "binary_exponent lo hi x")
  case (Some k)
  let ?u = "(2 :: rat) powi (k - int p)"
  have u: "0 < ?u" by simp
  have "?u \<le> 2 powi k" by (intro power_int_increasing) auto
  then have "?u \<le> x" using exponent_Some [OF Some] by linarith
  moreover have "of_int (round_half_even (x / ?u)) \<le> x / ?u + 1" by (rule round_half_even_le)
  then have "of_int (round_half_even (x / ?u)) * ?u \<le> (x / ?u + 1) * ?u"
    using u by (intro mult_right_mono) auto
  moreover have "(x / ?u + 1) * ?u = x + ?u" using u by (simp add: distrib_right)
  ultimately show ?thesis unfolding round_magnitude_def Some option.case by linarith
qed (use assms in \<open>simp add: round_magnitude_def\<close>)

text \<open>Signed numbers.\<close>

lemma round_nonneg_eq: "0 \<le> x \<Longrightarrow> round_binary p lo hi x = round_magnitude p lo hi x"
  by (simp add: round_binary_def)

lemma round_zero: "round_binary p lo hi 0 = 0"
  by (simp add: round_binary_def)

lemma round_minus: "round_binary p lo hi (- x) = - round_binary p lo hi x"
  by (simp add: round_binary_def)

lemma round_nonneg: "0 \<le> x \<Longrightarrow> 0 \<le> round_binary p lo hi x"
  by (simp add: round_nonneg_eq magnitude_nonneg)

lemma round_ge_power: "2 powi k \<le> x \<Longrightarrow> x < 2 powi (hi + 1) \<Longrightarrow> lo \<le> k \<Longrightarrow> 2 powi k \<le> round_binary p lo hi x"
  using magnitude_ge_power [of k x] zero_less_power_int [of "2 :: rat" k] round_nonneg_eq [of x] by linarith

lemma round_le_double: "0 \<le> x \<Longrightarrow> round_binary p lo hi x \<le> 2 * x"
  by (simp add: round_nonneg_eq magnitude_le_double)

lemma round_dyadic: "n < 2 ^ (p + 1) \<Longrightarrow> j \<le> 100 \<Longrightarrow> round_binary p lo hi (of_nat n / 2 ^ j) = of_nat n / 2 ^ j"
  using magnitude_dyadic [of n j] by (simp add: round_nonneg_eq)

lemma round_small_int:
  assumes "\<bar>i\<bar> < 2 ^ (p + 1)" "j \<le> 100"
  shows "round_binary p lo hi (of_int i / 2 ^ j) = of_int i / 2 ^ j"
proof (cases "0 \<le> i")
  case True
  then show ?thesis using round_dyadic [of "nat i" j] assms by (simp add: nat_less_iff)
next
  case False
  then have "round_binary p lo hi (- (of_int i / 2 ^ j)) = - (of_int i / 2 ^ j)"
    using round_dyadic [of "nat (- i)" j] assms by (simp add: nat_less_iff)
  then show ?thesis by (simp add: round_minus)
qed

end

interpretation single: binary_format 23 "- 126" 127
  by unfold_locales simp_all

interpretation double: binary_format 52 "- 1022" 1023
  by unfold_locales simp_all

lemmas float_round_zero [simp] = single.round_zero [folded float_round_def]
lemmas float_round_minus [simp] = single.round_minus [folded float_round_def]
lemmas float_round_nonneg = single.round_nonneg [folded float_round_def]
lemmas float_round_le_double = single.round_le_double [folded float_round_def]
lemmas double_round_nonneg = double.round_nonneg [folded double_round_def]

lemma float_round_ge_power: "2 powi k \<le> x \<Longrightarrow> x < 2 powi 128 \<Longrightarrow> - 126 \<le> k \<Longrightarrow> 2 powi k \<le> float_round x"
  using single.round_ge_power [of k x] by (simp add: float_round_def)

lemma float_round_dyadic: "n < 2 ^ 24 \<Longrightarrow> j \<le> 100 \<Longrightarrow> float_round (of_nat n / 2 ^ j) = of_nat n / 2 ^ j"
  using single.round_dyadic [of n j] by (simp add: float_round_def)

lemma float_round_fraction: "\<bar>i\<bar> < 2 ^ 24 \<Longrightarrow> j \<le> 100 \<Longrightarrow> float_round (of_int i / 2 ^ j) = of_int i / 2 ^ j"
  using single.round_small_int [of i j] by (simp add: float_round_def)

lemma double_round_fraction: "\<bar>i\<bar> < 2 ^ 53 \<Longrightarrow> j \<le> 100 \<Longrightarrow> double_round (of_int i / 2 ^ j) = of_int i / 2 ^ j"
  using double.round_small_int [of i j] by (simp add: double_round_def)

end
