(* ===== verification/Can_Receiver.thy ===== *)
theory Can_Receiver
  imports Can_Msgs Data_Dumper Dataset Single_Float
begin

text \<open>
  The CAN receiver (\<open>plugins/pip/can/pip_plugin_can.c\<close>): the JSON objects it keeps for the wanted
  signals, the two callbacks that take a frame of the body bus or of the chassis bus apart, and the
  life of the plugin. The values are the JSON values that the code adds; a number of type \<open>double\<close> is
  its rational number, and every operation on such numbers is rounded. Each callback ends with
  \<open>datadumper_dump_if_needed\<close>; whether that has built a new document, with new objects from the filler, is the
  argument \<open>refilled\<close>. The text of the frame that \<open>can_chas_frame_read_cb\<close>
  prints to a local buffer of 1024 bytes is not used, and the one of the other callback is compiled for debugging only.
\<close>

section \<open>State\<close>

datatype can_signal =
    AmbTIndcd | FuLvlIndcdVal | LockgCenStsForUsrFb | TrSts | DoorDrvrSts | DoorDrvrReSts | DoorPassSts
  | DoorPassReSts | DrvrBrkTqAtWhlsReqd | DrvrPrpsnTqReq | CluPedlRat | BrkPedlPsd

text \<open>The structure field of the wanted flag, and the name in the JSON document.\<close>

fun signal_field :: "can_signal \<Rightarrow> bytes" where
  "signal_field AmbTIndcd = ''AmbTIndcd''"
| "signal_field FuLvlIndcdVal = ''FuLvlIndcdVal''"
| "signal_field LockgCenStsForUsrFb = ''LockgCenStsForUsrFb''"
| "signal_field TrSts = ''TrSts''"
| "signal_field DoorDrvrSts = ''DoorDrvrSts''"
| "signal_field DoorDrvrReSts = ''DoorDrvrReSts''"
| "signal_field DoorPassSts = ''DoorPassSts''"
| "signal_field DoorPassReSts = ''DoorPassReSts''"
| "signal_field DrvrBrkTqAtWhlsReqd = ''DrvrBrkTqAtWhlsReqd''"
| "signal_field DrvrPrpsnTqReq = ''DrvrPrpsnTqReq''"
| "signal_field CluPedlRat = ''CluPedlRat''"
| "signal_field BrkPedlPsd = ''BrkPedlPsd''"

fun signal_json_name :: "can_signal \<Rightarrow> bytes" where
  "signal_json_name AmbTIndcd = ''ambient_air_temperature''"
| "signal_json_name FuLvlIndcdVal = ''fuel_tank_level''"
| "signal_json_name LockgCenStsForUsrFb = ''central_locking_status_for_user_feedback''"
| "signal_json_name TrSts = ''trunk_status''"
| "signal_json_name DoorDrvrSts = ''driver_door_status''"
| "signal_json_name DoorDrvrReSts = ''driver_door_rear_status''"
| "signal_json_name DoorPassSts = ''passenger_door_status''"
| "signal_json_name DoorPassReSts = ''passenger_door_rear_status''"
| "signal_json_name DrvrBrkTqAtWhlsReqd = ''requested_brake_torque_at_wheels''"
| "signal_json_name DrvrPrpsnTqReq = ''requested_propulsion_torque''"
| "signal_json_name CluPedlRat = ''clutch_pedal_position''"
| "signal_json_name BrkPedlPsd = ''brake_pedal_pressed''"

datatype can_value = CvText bytes | CvInt nat | CvDouble rat | CvObject "(bytes \<times> can_value) list"

text \<open>The objects: NULL, or an object and the value it has got. The wanted flags are read from the
  dataset block.\<close>

type_synonym can_objects = "can_signal \<Rightarrow> can_value option option"

definition wanted_signal :: "8 word list \<Rightarrow> can_signal \<Rightarrow> 8 word" where
  "wanted_signal block s =
     (case struct_field can01_vehicle_dataset_fields block (signal_field s) of None \<Rightarrow> 0 | Some b \<Rightarrow> b)"

record can_frame =
  can_id :: "32 word"
  can_data :: "8 word list"

section \<open>Building the document\<close>

definition can_signal_order :: "can_signal list" where
  "can_signal_order = [AmbTIndcd, FuLvlIndcdVal, LockgCenStsForUsrFb, TrSts, DoorDrvrSts, DoorDrvrReSts, DoorPassSts,
     DoorPassReSts, DrvrBrkTqAtWhlsReqd, DrvrPrpsnTqReq, CluPedlRat, BrkPedlPsd]"

text \<open>One block of \<open>can_json_filler\<close>: a new object with its name in the array, or NULL.\<close>

definition fill_signal :: "8 word list \<Rightarrow> can_signal \<Rightarrow> can_objects \<times> bytes list \<Rightarrow> can_objects \<times> bytes list" where
  "fill_signal block s r =
     (if wanted_signal block s = 1 then ((fst r)(s := Some None), snd r @ [signal_json_name s])
      else ((fst r)(s := None), snd r))"

definition can_json_filler :: "8 word list \<Rightarrow> can_objects \<Rightarrow> can_objects \<times> bytes list" where
  "can_json_filler block ob = fold (fill_signal block) can_signal_order (ob, [])"

lemma signal_in_order: "s \<in> set can_signal_order"
  by (cases s) (simp_all add: can_signal_order_def)

lemma signal_field_known: "signal_field s \<in> set can01_vehicle_dataset_fields"
proof -
  have "list_all (\<lambda>s. signal_field s \<in> set can01_vehicle_dataset_fields) can_signal_order" by code_simp
  then show ?thesis using signal_in_order [of s] by (simp add: list_all_iff)
qed

text \<open>The filler makes an object for every wanted signal and lists them in order.\<close>

lemma fill_signals:
  "fold (fill_signal block) ss (ob, ns) =
     (\<lambda>s. if s \<in> set ss then (if wanted_signal block s = 1 then Some None else None) else ob s,
      ns @ map signal_json_name (filter (\<lambda>s. wanted_signal block s = 1) ss))"
  by (induction ss arbitrary: ob ns) (auto simp: fill_signal_def fun_eq_iff)

lemma can_json_filler_eq:
  "can_json_filler block ob =
     (\<lambda>s. if wanted_signal block s = 1 then Some None else None,
      map signal_json_name (filter (\<lambda>s. wanted_signal block s = 1) can_signal_order))"
  using signal_in_order by (simp add: can_json_filler_def fill_signals)

section \<open>Interpreting values\<close>

definition gen_interpreted_door_status :: "nat \<Rightarrow> can_value" where
  "gen_interpreted_door_status status =
     CvObject [(''value'', CvText (if status = 0 then ''Unknown'' else if status = 1 then ''Opened''
        else if status = 2 then ''Closed'' else ''ERROR''))]"

definition gen_interpreted_lock_status :: "nat \<Rightarrow> can_value" where
  "gen_interpreted_lock_status status =
     CvObject [(''value'', CvText (if status = 0 then ''Undefined'' else if status = 1 then ''Opened''
        else if status = 2 then ''Closed'' else if status = 3 then ''Locked'' else if status = 4 then ''Safe''
        else ''ERROR''))]"

definition gen_interpreted_temperature_unit :: "nat \<Rightarrow> can_value" where
  "gen_interpreted_temperature_unit status =
     CvObject [(''value'', CvText (if status = 0 then ''C'' else if status = 1 then ''F''
        else if status = 2 then ''Unknown unit'' else ''ERROR''))]"

definition fuel_value :: "nat \<Rightarrow> can_value" where
  "fuel_value raw = CvObject [(''value'', CvDouble (double_round (of_nat raw * double_round (1 / 5)))), (''unit'', CvText ''l'')]"

definition temperature_value :: "nat \<Rightarrow> nat \<Rightarrow> can_value" where
  "temperature_value raw unit =
     CvObject [(''value'', CvDouble (double_round (double_round (of_nat raw * double_round (1 / 10)) - 100))), (''unit'', gen_interpreted_temperature_unit unit)]"

definition clutch_value :: "nat \<Rightarrow> can_value" where
  "clutch_value raw = CvDouble (double_round (of_nat raw * double_round (392156862745 / 10 ^ 12)))"

section \<open>Frames\<close>

text \<open>The objects after \<open>datadumper_dump_if_needed\<close>.\<close>

definition after_dump :: "8 word list \<Rightarrow> bool \<Rightarrow> can_objects \<Rightarrow> can_objects" where
  "after_dump block refilled ob = (if refilled then fst (can_json_filler block ob) else ob)"

definition be2le :: "8 word list \<Rightarrow> 8 word list" where
  "be2le bs = map (\<lambda>i. bs ! (7 - i)) [0..<8]"

text \<open>Adding a value to the object of a signal that is wanted and whose object exists.\<close>

definition add_value :: "bool \<Rightarrow> can_signal \<Rightarrow> can_value \<Rightarrow> can_objects \<Rightarrow> can_objects" where
  "add_value guard s v ob = (if guard \<and> ob s \<noteq> None then ob(s := Some (Some v)) else ob)"

text \<open>The tests of a signal: its update bit, and its flag, which the body bus compares with one for
  all signals but the two of the passenger's doors.\<close>

definition sig_on :: "8 word list \<Rightarrow> layout \<Rightarrow> nat \<Rightarrow> bytes \<Rightarrow> can_signal \<Rightarrow> bool" where
  "sig_on block lay p ub s \<longleftrightarrow> get_field lay p ub = 1 \<and> wanted_signal block s = 1"

definition sig_on_nonzero :: "8 word list \<Rightarrow> layout \<Rightarrow> nat \<Rightarrow> bytes \<Rightarrow> can_signal \<Rightarrow> bool" where
  "sig_on_nonzero block lay p ub s \<longleftrightarrow> get_field lay p ub = 1 \<and> wanted_signal block s \<noteq> 0"

text \<open>Case \<open>0x1D0\<close> of the body bus, which case \<open>0x270\<close> falls into.\<close>

definition body_case_0x1D0 :: "8 word list \<Rightarrow> nat \<Rightarrow> can_objects \<Rightarrow> can_objects" where
  "body_case_0x1D0 block p ob =
     add_value (sig_on block CEMBodyFr28 p ''AmbTIndcdWithUnit_UB'' AmbTIndcd) AmbTIndcd
       (temperature_value (get_field CEMBodyFr28 p ''AmbTIndcd'') (get_field CEMBodyFr28 p ''AmbTIndcdUnit'')) ob"

definition can_body_frame_read_cb :: "8 word list \<Rightarrow> bool \<Rightarrow> can_frame \<Rightarrow> can_objects \<Rightarrow> can_objects \<times> can_frame" where
  "can_body_frame_read_cb block refilled frame ob =
     (let frame = frame\<lparr>can_data := be2le (can_data frame)\<rparr>;
          canid = unat (can_id frame AND 0x7FF);
          p = bytes_payload (can_data frame);
          ob' =
            (if CanMsgs_body_msg_supported canid = 0 then ob
             else if canid = 0x40 then
               (let ob = add_value (sig_on block CEMBodyFr02 p ''DoorDrvrReSts_UB'' DoorDrvrReSts) DoorDrvrReSts
                      (gen_interpreted_door_status (get_field CEMBodyFr02 p ''DoorDrvrReSts'')) ob
                in add_value (sig_on block CEMBodyFr02 p ''DoorDrvrSts_UB'' DoorDrvrSts) DoorDrvrSts
                      (gen_interpreted_door_status (get_field CEMBodyFr02 p ''DoorDrvrSts'')) ob)
             else if canid = 0xE0 then
               (let ob = add_value (sig_on block CEMBodyFr11 p ''TrSts_UB'' TrSts) TrSts
                      (gen_interpreted_door_status (get_field CEMBodyFr11 p ''TrSts'')) ob;
                    ob = add_value (sig_on_nonzero block CEMBodyFr11 p ''DoorPassSts_UB'' DoorPassSts) DoorPassSts
                      (gen_interpreted_door_status (get_field CEMBodyFr11 p ''DoorPassSts'')) ob
                in add_value (sig_on_nonzero block CEMBodyFr11 p ''DoorPassReSts_UB'' DoorPassReSts) DoorPassReSts
                      (gen_interpreted_door_status (get_field CEMBodyFr11 p ''DoorPassReSts'')) ob)
             else if canid = 0x100 then
               add_value (sig_on block CEMBodyFr13 p ''LockgCenStsForUsrFb_UB'' LockgCenStsForUsrFb) LockgCenStsForUsrFb
                 (CvObject [(''value'', gen_interpreted_lock_status (get_field CEMBodyFr13 p ''LockgCenStsForUsrFb''))]) ob
             else if canid = 0x270 then
               (let ob = add_value (sig_on block CEMBodyFr25 p ''FuLvlIndcd_UB'' FuLvlIndcdVal) FuLvlIndcdVal
                      (fuel_value (get_field CEMBodyFr25 p ''FuLvlIndcdVal'')) ob
                in body_case_0x1D0 block p ob)
             else if canid = 0x1D0 then body_case_0x1D0 block p ob
             else ob)
      in (after_dump block refilled ob', frame))"

definition can_chas_frame_read_cb :: "8 word list \<Rightarrow> bool \<Rightarrow> can_frame \<Rightarrow> can_objects \<Rightarrow> can_objects \<times> can_frame" where
  "can_chas_frame_read_cb block refilled frame ob =
     (let frame = frame\<lparr>can_data := be2le (can_data frame)\<rparr>;
          canid = unat (can_id frame AND 0x7FF);
          p = bytes_payload (can_data frame);
          ob' =
            (if CanMsgs_chas_msg_supported canid = 0 then ob
             else if canid = 0xE0 then
               add_value (sig_on block VDDMChasFr05 p ''DrvrBrkTqAtWhlsReqdGroup_UB'' DrvrBrkTqAtWhlsReqd) DrvrBrkTqAtWhlsReqd
                 (CvInt (get_field VDDMChasFr05 p ''DrvrBrkTqAtWhlsReqd'')) ob
             else if canid = 0xF0 then
               (let ob = add_value (sig_on block VDDMChasFr06 p ''TrSts_UB'' TrSts) TrSts
                      (gen_interpreted_door_status (get_field VDDMChasFr06 p ''TrSts'')) ob;
                    ob = add_value (sig_on block VDDMChasFr06 p ''DoorPassReSts_UB'' DoorPassReSts) DoorPassReSts
                      (gen_interpreted_door_status (get_field VDDMChasFr06 p ''DoorPassReSts'')) ob;
                    ob = add_value (sig_on block VDDMChasFr06 p ''DoorDrvrSts_UB'' DoorDrvrSts) DoorDrvrSts
                      (gen_interpreted_door_status (get_field VDDMChasFr06 p ''DoorDrvrSts'')) ob
                in add_value (sig_on block VDDMChasFr06 p ''DoorPassSts_UB'' DoorPassSts) DoorPassSts
                      (gen_interpreted_door_status (get_field VDDMChasFr06 p ''DoorPassSts'')) ob)
             else if canid = 0x3A0 then
               (let ob = add_value (sig_on block VDDMChasFr08 p ''DoorDrvrReSts_UB'' DoorDrvrReSts) DoorDrvrReSts
                      (gen_interpreted_door_status (get_field VDDMChasFr08 p ''DoorDrvrReSts'')) ob
                in add_value (sig_on block VDDMChasFr08 p ''AmbTIndcdWithUnit_UB'' AmbTIndcd) AmbTIndcd
                      (temperature_value (get_field VDDMChasFr08 p ''AmbTIndcd'') (get_field VDDMChasFr08 p ''AmbTIndcdUnit'')) ob)
             else if canid = 0x1C0 then
               add_value (sig_on block VDDMChasFr12 p ''BrkPedlPsdSafeGroup_UB'' BrkPedlPsd) BrkPedlPsd
                 (CvInt (get_field VDDMChasFr12 p ''BrkPedlPsd'')) ob
             else if canid = 0x240 then
               add_value (sig_on block VDDMChasFr17 p ''FuLvlIndcd_UB'' FuLvlIndcdVal) FuLvlIndcdVal
                 (fuel_value (get_field VDDMChasFr17 p ''FuLvlIndcdVal'')) ob
             else if canid = 0x130 then
               add_value (sig_on block ECMChasFr06 p ''DrvrPrpsnTqReq_UB'' DrvrPrpsnTqReq) DrvrPrpsnTqReq
                 (CvInt (get_field ECMChasFr06 p ''DrvrPrpsnTqReq'')) ob
             else if canid = 0x210 then
               add_value (sig_on block ECMChasFr10 p ''CluPedlRat_UB'' CluPedlRat) CluPedlRat
                 (clutch_value (get_field ECMChasFr10 p ''CluPedlRat'')) ob
             else ob)
      in (after_dump block refilled ob', frame))"

section \<open>The plugin\<close>

text \<open>The name of a bus is cut to five characters for the reading thread.\<close>

definition canthread_init :: "bytes \<Rightarrow> bytes \<Rightarrow> bytes option" where
  "canthread_init bus_name can_bus_name = buf_blit bus_name 0 (strncpy_bytes can_bus_name 5)"

record can_plugin =
  cp_dataset :: dataset_state
  cp_body_chan :: bytes
  cp_chas_chan :: bytes
  cp_body_bus :: bytes
  cp_chas_bus :: bytes
  cp_in_use :: bool

abbreviation (input) MAX_STR_SIZE :: nat where "MAX_STR_SIZE \<equiv> 256"

definition canreceiver_init :: "'f \<Rightarrow> config_manager \<Rightarrow> can_plugin \<Rightarrow> ('f, 'j, 'w) datadumper \<Rightarrow> (can_plugin \<times> ('f, 'j, 'w) datadumper) option" where
  "canreceiver_init filler cfg cp dd = do {
     let dd = datadumper_add_module_init_cb (Some filler) True ''can_data'' dd;
     (_, body_chan) \<leftarrow> config_manager_get_option_string cfg ''can_receiver'' ''can_body_channel'' (cp_body_chan cp) MAX_STR_SIZE;
     (_, chas_chan) \<leftarrow> config_manager_get_option_string cfg ''can_receiver'' ''can_chas_channel'' (cp_chas_chan cp) MAX_STR_SIZE;
     body_bus \<leftarrow> canthread_init (cp_body_bus cp) body_chan;
     chas_bus \<leftarrow> canthread_init (cp_chas_bus cp) chas_chan;
     Some (cp\<lparr>cp_body_chan := body_chan, cp_chas_chan := chas_chan, cp_body_bus := body_bus, cp_chas_bus := chas_bus,
       cp_in_use := True\<rparr>, dd)
   }"

text \<open>\<open>block\<close> is the content of the new heap block for the flags.\<close>

definition pip_plugin_can_initializer :: "'f \<Rightarrow> config_manager \<Rightarrow> 8 word list \<Rightarrow> can_plugin \<Rightarrow> ('f, 'j, 'w) datadumper
    \<Rightarrow> (int \<times> can_plugin \<times> ('f, 'j, 'w) datadumper) option" where
  "pip_plugin_can_initializer filler cfg block cp dd = do {
     ds \<leftarrow> dataset_init ((cp_dataset cp)\<lparr>ds_options := vehicledatasetdemo01_options, ds_dataset := block\<rparr>);
     (cp, dd) \<leftarrow> canreceiver_init filler cfg (cp\<lparr>cp_dataset := ds\<rparr>) dd;
     Some (0, cp, dd)
   }"

definition set_dataset_cb :: "(bytes \<Rightarrow> json_tok list option) \<Rightarrow> bytes \<Rightarrow> can_plugin \<Rightarrow> (int \<times> can_plugin) option" where
  "set_dataset_cb jsmn_parse json cp = do {
     ds \<leftarrow> dataset_from_json jsmn_parse (cp_dataset cp) json;
     Some (0, cp\<lparr>cp_dataset := ds\<rparr>)
   }"

definition get_dataset_cb :: "(bytes option list \<Rightarrow> bytes) \<Rightarrow> can_plugin \<Rightarrow> (int \<times> bytes) option" where
  "get_dataset_cb fjson_array cp = dataset_to_json fjson_array (cp_dataset cp)"

text \<open>The outcomes of stopping the two threads are parameters.\<close>

definition canreceiver_deinit :: "bool \<Rightarrow> bool \<Rightarrow> can_plugin \<Rightarrow> int \<times> can_plugin" where
  "canreceiver_deinit chas_joined body_joined cp =
     (if \<not> chas_joined then (1, cp)
      else if \<not> body_joined then (2, cp)
      else (0, cp\<lparr>cp_dataset := dataset_deinit (cp_dataset cp), cp_in_use := False\<rparr>))"

text \<open>\<open>canreceiver_get_body_channel\<close> and \<open>canreceiver_get_chas_channel\<close> copy into a buffer of the given
  length; \<open>None\<close> stands for a NULL buffer.\<close>

definition copy_channel :: "bytes \<Rightarrow> bytes option \<Rightarrow> int \<Rightarrow> bytes option option" where
  "copy_channel chan channel_buff channel_buff_len =
     (case channel_buff of
        None \<Rightarrow> Some None
      | Some b \<Rightarrow> if channel_buff_len \<le> 0 then Some (Some b)
                  else map_option Some (buf_blit b 0 (take (min MAX_STR_SIZE (nat channel_buff_len)) chan)))"

definition canreceiver_get_body_channel :: "can_plugin \<Rightarrow> bytes option \<Rightarrow> int \<Rightarrow> bytes option option" where
  "canreceiver_get_body_channel cp channel_buff channel_buff_len = copy_channel (cp_body_chan cp) channel_buff channel_buff_len"

definition canreceiver_get_chas_channel :: "can_plugin \<Rightarrow> bytes option \<Rightarrow> int \<Rightarrow> bytes option option" where
  "canreceiver_get_chas_channel cp channel_buff channel_buff_len = copy_channel (cp_chas_chan cp) channel_buff channel_buff_len"

section \<open>Frames with given field values\<close>

definition can_encode :: "nat \<Rightarrow> layout \<Rightarrow> (bytes \<Rightarrow> nat) \<Rightarrow> can_frame" where
  "can_encode i lay f = \<lparr>can_id = of_nat i, can_data = rev (payload_bytes 8 (pack lay f))\<rparr>"

definition fits :: "layout \<Rightarrow> (bytes \<Rightarrow> nat) \<Rightarrow> bool" where
  "fits lay f \<longleftrightarrow> list_all (\<lambda>(n, w). f n < 2 ^ w) lay"

lemma be2le_rev: "length bs = 8 \<Longrightarrow> be2le (rev bs) = bs"
  by (rule nth_equalityI) (auto simp: be2le_def rev_nth)

lemma encode_payload:
  "width lay = 64 \<Longrightarrow> bytes_payload (be2le (can_data (can_encode i lay f))) = pack lay f"
  using pack_less [of lay f] by (simp add: can_encode_def be2le_rev bytes_payload_bytes)

lemma field_at_fits: "field_at lay n = Some (off, w) \<Longrightarrow> fits lay f \<Longrightarrow> f n < 2 ^ w"
  by (induction lay arbitrary: off) (auto simp: fits_def split: if_splits)

text \<open>With values that fit their fields, reading a field of the frame gives the value.\<close>

lemma get_field_fits: "field_at lay n \<noteq> None \<Longrightarrow> fits lay f \<Longrightarrow> get_field lay (pack lay f) n = f n"
  using get_field_pack [of lay n _ _ f] field_at_fits [of lay n _ _ f] by force

section \<open>The receiver against a table of signals\<close>

text \<open>For a message: its layout, and the signals it carries, with the update bit and the meaning of the
  field values.\<close>

type_synonym signal_entry = "can_signal \<times> bytes \<times> ((bytes \<Rightarrow> nat) \<Rightarrow> can_value)"

definition body_table :: "(nat \<times> layout \<times> signal_entry list) list" where
  "body_table =
     [(0x40, CEMBodyFr02,
        [(DoorDrvrReSts, ''DoorDrvrReSts_UB'', \<lambda>f. gen_interpreted_door_status (f ''DoorDrvrReSts'')),
         (DoorDrvrSts, ''DoorDrvrSts_UB'', \<lambda>f. gen_interpreted_door_status (f ''DoorDrvrSts''))]),
      (0xE0, CEMBodyFr11,
        [(TrSts, ''TrSts_UB'', \<lambda>f. gen_interpreted_door_status (f ''TrSts'')),
         (DoorPassSts, ''DoorPassSts_UB'', \<lambda>f. gen_interpreted_door_status (f ''DoorPassSts'')),
         (DoorPassReSts, ''DoorPassReSts_UB'', \<lambda>f. gen_interpreted_door_status (f ''DoorPassReSts''))]),
      (0x100, CEMBodyFr13,
        [(LockgCenStsForUsrFb, ''LockgCenStsForUsrFb_UB'',
          \<lambda>f. CvObject [(''value'', gen_interpreted_lock_status (f ''LockgCenStsForUsrFb''))])]),
      (0x1D0, CEMBodyFr28,
        [(AmbTIndcd, ''AmbTIndcdWithUnit_UB'', \<lambda>f. temperature_value (f ''AmbTIndcd'') (f ''AmbTIndcdUnit''))])]"

definition chas_table :: "(nat \<times> layout \<times> signal_entry list) list" where
  "chas_table =
     [(0xE0, VDDMChasFr05,
        [(DrvrBrkTqAtWhlsReqd, ''DrvrBrkTqAtWhlsReqdGroup_UB'', \<lambda>f. CvInt (f ''DrvrBrkTqAtWhlsReqd''))]),
      (0xF0, VDDMChasFr06,
        [(TrSts, ''TrSts_UB'', \<lambda>f. gen_interpreted_door_status (f ''TrSts'')),
         (DoorPassReSts, ''DoorPassReSts_UB'', \<lambda>f. gen_interpreted_door_status (f ''DoorPassReSts'')),
         (DoorDrvrSts, ''DoorDrvrSts_UB'', \<lambda>f. gen_interpreted_door_status (f ''DoorDrvrSts'')),
         (DoorPassSts, ''DoorPassSts_UB'', \<lambda>f. gen_interpreted_door_status (f ''DoorPassSts''))]),
      (0x3A0, VDDMChasFr08,
        [(DoorDrvrReSts, ''DoorDrvrReSts_UB'', \<lambda>f. gen_interpreted_door_status (f ''DoorDrvrReSts'')),
         (AmbTIndcd, ''AmbTIndcdWithUnit_UB'', \<lambda>f. temperature_value (f ''AmbTIndcd'') (f ''AmbTIndcdUnit''))]),
      (0x1C0, VDDMChasFr12, [(BrkPedlPsd, ''BrkPedlPsdSafeGroup_UB'', \<lambda>f. CvInt (f ''BrkPedlPsd''))]),
      (0x240, VDDMChasFr17, [(FuLvlIndcdVal, ''FuLvlIndcd_UB'', \<lambda>f. fuel_value (f ''FuLvlIndcdVal''))]),
      (0x130, ECMChasFr06, [(DrvrPrpsnTqReq, ''DrvrPrpsnTqReq_UB'', \<lambda>f. CvInt (f ''DrvrPrpsnTqReq''))]),
      (0x210, ECMChasFr10, [(CluPedlRat, ''CluPedlRat_UB'', \<lambda>f. clutch_value (f ''CluPedlRat''))])]"

definition apply_entry :: "8 word list \<Rightarrow> (bytes \<Rightarrow> nat) \<Rightarrow> signal_entry \<Rightarrow> can_objects \<Rightarrow> can_objects" where
  "apply_entry block f e ob =
     (case e of (s, ub, dec) \<Rightarrow> add_value (f ub = 1 \<and> wanted_signal block s = 1) s (dec f) ob)"

lemma unat_can_id:
  assumes "i < 2048"
  shows "unat ((of_nat i :: 32 word) AND 0x7FF) = i"
proof -
  have "(of_nat i :: 32 word) AND 0x7FF = take_bit 11 (of_nat i)"
    by (simp add: take_bit_eq_mask mask_eq_exp_minus_1)
  then show ?thesis
    using assms by (simp add: take_bit_eq_mod unat_mod unat_of_nat)
qed

lemma can_id_encode: "i < 2048 \<Longrightarrow> unat (can_id (can_encode i lay f) AND 0x7FF) = i"
  by (simp add: can_encode_def unat_can_id)

lemma can_data_update: "can_id (frame\<lparr>can_data := d\<rparr>) = can_id frame" "can_data (frame\<lparr>can_data := d\<rparr>) = d"
  by simp_all

text \<open>The layouts of the tables are as wide as a frame and have the fields that are read.\<close>

definition fields_in :: "layout \<Rightarrow> bytes list \<Rightarrow> bool" where
  "fields_in lay ns \<longleftrightarrow> width lay = 64 \<and> list_all (\<lambda>n. field_at lay n \<noteq> None) ns"

lemma fields_in_read:
  "fields_in lay ns \<Longrightarrow> fits lay f \<Longrightarrow> n \<in> set ns \<Longrightarrow> get_field lay (pack lay f) n = f n"
  by (rule get_field_fits) (auto simp: fields_in_def list_all_iff)

lemma fields_in_payload:
  "fields_in lay ns \<Longrightarrow> bytes_payload (be2le (can_data (can_encode i lay f))) = pack lay f"
  by (simp add: fields_in_def encode_payload)

lemma table_fields:
  "fields_in CEMBodyFr02 [''DoorDrvrReSts_UB'', ''DoorDrvrReSts'', ''DoorDrvrSts_UB'', ''DoorDrvrSts'']"
  "fields_in CEMBodyFr11 [''TrSts_UB'', ''TrSts'', ''DoorPassSts_UB'', ''DoorPassSts'', ''DoorPassReSts_UB'', ''DoorPassReSts'']"
  "fields_in CEMBodyFr13 [''LockgCenStsForUsrFb_UB'', ''LockgCenStsForUsrFb'']"
  "fields_in CEMBodyFr28 [''AmbTIndcdWithUnit_UB'', ''AmbTIndcd'', ''AmbTIndcdUnit'']"
  "fields_in VDDMChasFr05 [''DrvrBrkTqAtWhlsReqdGroup_UB'', ''DrvrBrkTqAtWhlsReqd'']"
  "fields_in VDDMChasFr06 [''TrSts_UB'', ''TrSts'', ''DoorPassReSts_UB'', ''DoorPassReSts'', ''DoorDrvrSts_UB'', ''DoorDrvrSts'',
     ''DoorPassSts_UB'', ''DoorPassSts'']"
  "fields_in VDDMChasFr08 [''DoorDrvrReSts_UB'', ''DoorDrvrReSts'', ''AmbTIndcdWithUnit_UB'', ''AmbTIndcd'', ''AmbTIndcdUnit'']"
  "fields_in VDDMChasFr12 [''BrkPedlPsdSafeGroup_UB'', ''BrkPedlPsd'']"
  "fields_in VDDMChasFr17 [''FuLvlIndcd_UB'', ''FuLvlIndcdVal'']"
  "fields_in ECMChasFr06 [''DrvrPrpsnTqReq_UB'', ''DrvrPrpsnTqReq'']"
  "fields_in ECMChasFr10 [''CluPedlRat_UB'', ''CluPedlRat'']"
  "fields_in CEMBodyFr25 [''FuLvlIndcd_UB'', ''FuLvlIndcdVal'']"
  by code_simp+

lemmas frame_simps = Let_def can_id_encode can_data_update CanMsgs_body_msg_supported_def CanMsgs_chas_msg_supported_def
  supported_body_msgs_def supported_chas_msgs_def body_case_0x1D0_def sig_on_def sig_on_nonzero_def apply_entry_def

lemma flag_nonzero: "wanted_signal block s \<in> {0, 1} \<Longrightarrow> wanted_signal block s \<noteq> 0 \<longleftrightarrow> wanted_signal block s = 1"
  by auto

lemma body_0x40:
  assumes "fits CEMBodyFr02 f"
  shows "fst (can_body_frame_read_cb block refilled (can_encode 0x40 CEMBodyFr02 f) ob) =
     after_dump block refilled (fold (apply_entry block f) (snd (snd (body_table ! 0))) ob)"
  unfolding can_body_frame_read_cb_def
  by (simp add: frame_simps body_table_def fields_in_payload [OF table_fields(1)]
      fields_in_read [OF table_fields(1) assms(1)])

lemma body_0xE0:
  assumes "fits CEMBodyFr11 f" "\<forall>s. wanted_signal block s \<in> {0, 1}"
  shows "fst (can_body_frame_read_cb block refilled (can_encode 0xE0 CEMBodyFr11 f) ob) =
     after_dump block refilled (fold (apply_entry block f) (snd (snd (body_table ! 1))) ob)"
  unfolding can_body_frame_read_cb_def
  by (simp add: frame_simps body_table_def fields_in_payload [OF table_fields(2)]
      fields_in_read [OF table_fields(2) assms(1)] flag_nonzero [OF assms(2) [THEN spec]])

lemma body_0x100:
  assumes "fits CEMBodyFr13 f"
  shows "fst (can_body_frame_read_cb block refilled (can_encode 0x100 CEMBodyFr13 f) ob) =
     after_dump block refilled (fold (apply_entry block f) (snd (snd (body_table ! 2))) ob)"
  unfolding can_body_frame_read_cb_def
  by (simp add: frame_simps body_table_def fields_in_payload [OF table_fields(3)]
      fields_in_read [OF table_fields(3) assms(1)])

lemma body_0x1D0:
  assumes "fits CEMBodyFr28 f"
  shows "fst (can_body_frame_read_cb block refilled (can_encode 0x1D0 CEMBodyFr28 f) ob) =
     after_dump block refilled (fold (apply_entry block f) (snd (snd (body_table ! 3))) ob)"
  unfolding can_body_frame_read_cb_def
  by (simp add: frame_simps body_table_def fields_in_payload [OF table_fields(4)]
      fields_in_read [OF table_fields(4) assms(1)])

lemma chas_0xE0:
  assumes "fits VDDMChasFr05 f"
  shows "fst (can_chas_frame_read_cb block refilled (can_encode 0xE0 VDDMChasFr05 f) ob) =
     after_dump block refilled (fold (apply_entry block f) (snd (snd (chas_table ! 0))) ob)"
  unfolding can_chas_frame_read_cb_def
  by (simp add: frame_simps chas_table_def fields_in_payload [OF table_fields(5)]
      fields_in_read [OF table_fields(5) assms(1)])

lemma chas_0xF0:
  assumes "fits VDDMChasFr06 f"
  shows "fst (can_chas_frame_read_cb block refilled (can_encode 0xF0 VDDMChasFr06 f) ob) =
     after_dump block refilled (fold (apply_entry block f) (snd (snd (chas_table ! 1))) ob)"
  unfolding can_chas_frame_read_cb_def
  by (simp add: frame_simps chas_table_def fields_in_payload [OF table_fields(6)]
      fields_in_read [OF table_fields(6) assms(1)])

lemma chas_0x3A0:
  assumes "fits VDDMChasFr08 f"
  shows "fst (can_chas_frame_read_cb block refilled (can_encode 0x3A0 VDDMChasFr08 f) ob) =
     after_dump block refilled (fold (apply_entry block f) (snd (snd (chas_table ! 2))) ob)"
  unfolding can_chas_frame_read_cb_def
  by (simp add: frame_simps chas_table_def fields_in_payload [OF table_fields(7)]
      fields_in_read [OF table_fields(7) assms(1)])

lemma chas_0x1C0:
  assumes "fits VDDMChasFr12 f"
  shows "fst (can_chas_frame_read_cb block refilled (can_encode 0x1C0 VDDMChasFr12 f) ob) =
     after_dump block refilled (fold (apply_entry block f) (snd (snd (chas_table ! 3))) ob)"
  unfolding can_chas_frame_read_cb_def
  by (simp add: frame_simps chas_table_def fields_in_payload [OF table_fields(8)]
      fields_in_read [OF table_fields(8) assms(1)])

lemma chas_0x240:
  assumes "fits VDDMChasFr17 f"
  shows "fst (can_chas_frame_read_cb block refilled (can_encode 0x240 VDDMChasFr17 f) ob) =
     after_dump block refilled (fold (apply_entry block f) (snd (snd (chas_table ! 4))) ob)"
  unfolding can_chas_frame_read_cb_def
  by (simp add: frame_simps chas_table_def fields_in_payload [OF table_fields(9)]
      fields_in_read [OF table_fields(9) assms(1)])

lemma chas_0x130:
  assumes "fits ECMChasFr06 f"
  shows "fst (can_chas_frame_read_cb block refilled (can_encode 0x130 ECMChasFr06 f) ob) =
     after_dump block refilled (fold (apply_entry block f) (snd (snd (chas_table ! 5))) ob)"
  unfolding can_chas_frame_read_cb_def
  by (simp add: frame_simps chas_table_def fields_in_payload [OF table_fields(10)]
      fields_in_read [OF table_fields(10) assms(1)])

lemma chas_0x210:
  assumes "fits ECMChasFr10 f"
  shows "fst (can_chas_frame_read_cb block refilled (can_encode 0x210 ECMChasFr10 f) ob) =
     after_dump block refilled (fold (apply_entry block f) (snd (snd (chas_table ! 6))) ob)"
  unfolding can_chas_frame_read_cb_def
  by (simp add: frame_simps chas_table_def fields_in_payload [OF table_fields(11)]
      fields_in_read [OF table_fields(11) assms(1)])

text \<open>
  C16. The switch statements of the two callbacks follow a table: for every message but \<open>0x270\<close> that the
  receiver interprets, and all values of its fields, a frame that carries these values changes exactly
  the objects of the signals listed for the message, each only when its update bit is set, its flag
  is one and its object exists, and to the interpretation of the field. The bytes are reversed and
  the fields cut out correctly. When the period of the dump is over, the objects are then replaced by those of a new
  document, which have no values yet.
\<close>

theorem can_frames_follow_table:
  assumes "\<forall>s. wanted_signal block s \<in> {0, 1}"
  shows "(\<forall>(i, lay, es)\<in>set body_table. fits lay f \<longrightarrow>
       fst (can_body_frame_read_cb block refilled (can_encode i lay f) ob) = after_dump block refilled (fold (apply_entry block f) es ob)) \<and>
     (\<forall>(i, lay, es)\<in>set chas_table. fits lay f \<longrightarrow>
       fst (can_chas_frame_read_cb block refilled (can_encode i lay f) ob) = after_dump block refilled (fold (apply_entry block f) es ob))"
proof (intro conjI ballI; clarify)
  fix i lay es assume "(i, lay, es) \<in> set body_table" "fits lay f"
  then show "fst (can_body_frame_read_cb block refilled (can_encode i lay f) ob) = after_dump block refilled (fold (apply_entry block f) es ob)"
    using body_0x40 [of f block refilled ob] body_0xE0 [OF _ assms, of f refilled ob] body_0x100 [of f block refilled ob] body_0x1D0 [of f block refilled ob]
    by (auto simp: body_table_def)
next
  fix i lay es assume "(i, lay, es) \<in> set chas_table" "fits lay f"
  then show "fst (can_chas_frame_read_cb block refilled (can_encode i lay f) ob) = after_dump block refilled (fold (apply_entry block f) es ob)"
    using chas_0xE0 [of f block refilled ob] chas_0xF0 [of f block refilled ob] chas_0x3A0 [of f block refilled ob] chas_0x1C0 [of f block refilled ob] chas_0x240 [of f block refilled ob] chas_0x130 [of f block refilled ob] chas_0x210 [of f block refilled ob]
    by (auto simp: chas_table_def)
qed

definition all_wanted :: "8 word list" where
  "all_wanted = replicate 34 1"

lemma wanted_all: "wanted_signal all_wanted s = 1"
proof -
  have "list_all (\<lambda>s. wanted_signal all_wanted s = 1) can_signal_order" by code_simp
  then show ?thesis using signal_in_order [of s] by (simp add: list_all_iff)
qed

theorem can_frames_follow_table_witness:
  "fst (can_body_frame_read_cb all_wanted False (can_encode 0x40 CEMBodyFr02 (\<lambda>_. 1)) (\<lambda>_. Some None)) DoorDrvrSts =
     Some (Some (CvObject [(''value'', CvText ''Opened'')]))"
proof -
  have "\<forall>s. wanted_signal all_wanted s \<in> {0, 1}" by (simp add: wanted_all)
  note table = can_frames_follow_table [OF this, of "\<lambda>_. 1" False "\<lambda>_. Some None", THEN conjunct1]
  have "body_table ! 0 \<in> set body_table" by (simp add: body_table_def)
  from table [THEN bspec, OF this] have "fits CEMBodyFr02 (\<lambda>_. 1) \<longrightarrow>
      fst (can_body_frame_read_cb all_wanted False (can_encode 0x40 CEMBodyFr02 (\<lambda>_. 1)) (\<lambda>_. Some None)) =
      fold (apply_entry all_wanted (\<lambda>_. 1)) (snd (snd (body_table ! 0))) (\<lambda>_. Some None)"
    by (simp add: body_table_def after_dump_def)
  moreover have "fits CEMBodyFr02 (\<lambda>_. 1)" by (simp add: fits_def CEMBodyFr02_def)
  ultimately show ?thesis
    by (simp add: body_table_def apply_entry_def add_value_def wanted_all gen_interpreted_door_status_def)
qed

section \<open>The fuel level message\<close>

lemma shared_bits:
  "field_at CEMBodyFr28 ''AmbTIndcdWithUnit_UB'' = Some (47, 1)" "field_at CEMBodyFr25 ''FuLvlIndcd_UB'' = Some (47, 1)"
  "field_at CEMBodyFr28 ''AmbTIndcd'' = Some (48, 12)" "field_at CEMBodyFr28 ''AmbTIndcdUnit'' = Some (62, 2)"
  "field_at CEMBodyFr25 ''__padding2'' = Some (48, 16)"
  by code_simp+

text \<open>
  The case for the fuel level (\<open>0x270\<close>) lacks its break: a frame that updates the fuel level also
  updates the ambient temperature, since the update bits of the two messages are the same bit of the
  frame. With the unused bits of the fuel message zero, a wanted temperature becomes minus one hundred
  degrees.
\<close>

theorem fuel_frame_resets_temperature:
  assumes "fits CEMBodyFr25 f" "f ''FuLvlIndcd_UB'' = 1" "f ''__padding2'' = 0"
    and "wanted_signal block AmbTIndcd = 1" "ob AmbTIndcd \<noteq> None"
  shows "fst (can_body_frame_read_cb block False (can_encode 0x270 CEMBodyFr25 f) ob) AmbTIndcd =
     Some (Some (CvObject [(''value'', CvDouble (- 100)), (''unit'', CvObject [(''value'', CvText ''C'')])]))"
proof -
  let ?p = "pack CEMBodyFr25 f"
  have hundred: "double_round (double_round 0 - 100) = - 100"
    using double_round_fraction [of 0 0] double_round_fraction [of "- 100" 0] by simp
  have ub: "get_field CEMBodyFr28 ?p ''AmbTIndcdWithUnit_UB'' = 1"
    using field_of_pack [OF shared_bits(2), of f] assms(2) by (simp add: get_field_def shared_bits(1))
  have "?p < 2 ^ 64" using pack_less [of CEMBodyFr25 f] table_fields(12) by (simp add: fields_in_def)
  moreover have "?p div 2 ^ 48 mod 2 ^ 16 = 0"
    using field_of_pack [OF shared_bits(5), of f] assms(3) by simp
  ultimately have "?p div 2 ^ 48 = 0"
    by (metis (no_types, lifting) add_num_simps less_mult_imp_div_less mod_less numeral_plus_numeral power_add)
  then have "?p div 2 ^ 62 = 0" "get_field CEMBodyFr28 ?p ''AmbTIndcd'' = 0"
    by (simp_all add: get_field_def shared_bits(3) div_eq_0_iff)
  then have "get_field CEMBodyFr28 ?p ''AmbTIndcd'' = 0" "get_field CEMBodyFr28 ?p ''AmbTIndcdUnit'' = 0"
    by (simp_all add: get_field_def shared_bits(4))
  then show ?thesis
    unfolding can_body_frame_read_cb_def
    using assms ub
    by (simp add: frame_simps fields_in_payload [OF table_fields(12)] add_value_def temperature_value_def after_dump_def
        hundred gen_interpreted_temperature_unit_def)
qed

theorem fuel_frame_resets_temperature_witness:
  "fst (can_body_frame_read_cb all_wanted False (can_encode 0x270 CEMBodyFr25 (\<lambda>n. of_bool (n = ''FuLvlIndcd_UB''))) (\<lambda>_. Some None)) AmbTIndcd =
     Some (Some (CvObject [(''value'', CvDouble (- 100)), (''unit'', CvObject [(''value'', CvText ''C'')])]))"
  by (rule fuel_frame_resets_temperature) (simp_all add: fits_def CEMBodyFr25_def wanted_all)

end
