(* ===== verification/Can_Thread.thy ===== *)
theory Can_Thread
  imports Can_Receiver
begin

text \<open>
  The connection to a CAN bus and the thread that reads it (\<open>plugins/pip/can/can_linux.c\<close>,
  \<open>plugins/pip/can/can_thread.c\<close>; the CANopen plugin has copies of both files). The outcomes of the
  system calls are parameters: the three calls of \<open>can_open\<close>, and one event for each call of
  \<open>select\<close> or \<open>recvmsg\<close>.
\<close>

section \<open>State\<close>

record can_conn =
  cc_sock :: int
  cc_ifr_name :: bytes
  cc_end_loop :: int

abbreviation (input) CAN_OPEN_NO_ERROR :: int where "CAN_OPEN_NO_ERROR \<equiv> 0"
abbreviation (input) CAN_OPEN_CONNECTION_ERROR :: int where "CAN_OPEN_CONNECTION_ERROR \<equiv> - 1"
abbreviation (input) CAN_OPEN_SOCKET_ERROR :: int where "CAN_OPEN_SOCKET_ERROR \<equiv> - 2"
abbreviation (input) CAN_OPEN_IOCTL_ERROR :: int where "CAN_OPEN_IOCTL_ERROR \<equiv> - 3"
abbreviation (input) CAN_OPEN_BIND_ERROR :: int where "CAN_OPEN_BIND_ERROR \<equiv> - 4"
abbreviation (input) CAN_DEVICE_NAME_LEN :: nat where "CAN_DEVICE_NAME_LEN \<equiv> 5"

section \<open>The connection\<close>

text \<open>\<open>can_open\<close>: \<open>s\<close>, \<open>ioctl_ok\<close> and \<open>bind_ok\<close> are the results of \<open>socket\<close>, \<open>ioctl\<close> and \<open>bind\<close>. The
  first \<open>None\<close> of the result is undefined behaviour; a NULL connection is the argument \<open>None\<close>.\<close>

definition can_open :: "int \<Rightarrow> bool \<Rightarrow> bool \<Rightarrow> can_conn option \<Rightarrow> bytes option \<Rightarrow> (int \<times> can_conn option) option" where
  "can_open s ioctl_ok bind_ok can_connection can_device =
     (case can_connection of
        None \<Rightarrow> Some (CAN_OPEN_CONNECTION_ERROR, None)
      | Some c \<Rightarrow>
          (let c = c\<lparr>cc_sock := s\<rparr>
           in if s < 0 then Some (CAN_OPEN_SOCKET_ERROR, Some c)
              else do {
                let blank = replicate (length (cc_ifr_name c)) NUL;
                name \<leftarrow> buf_blit blank 0 (case can_device of None \<Rightarrow> ''can0'' | Some d \<Rightarrow> strncpy_bytes d CAN_DEVICE_NAME_LEN);
                let c = c\<lparr>cc_ifr_name := name\<rparr>;
                (if \<not> ioctl_ok then Some (CAN_OPEN_IOCTL_ERROR, Some c)
                 else if \<not> bind_ok then Some (CAN_OPEN_BIND_ERROR, Some c)
                 else Some (CAN_OPEN_NO_ERROR, Some (c\<lparr>cc_end_loop := 0\<rparr>)))
              }))"

text \<open>\<open>can_end_loop\<close> has no return statement; its result is not used.\<close>

definition can_end_loop :: "can_conn \<Rightarrow> can_conn" where
  "can_end_loop c = c\<lparr>cc_end_loop := 1\<rparr>"

text \<open>\<open>can_send_frame\<close>: the frames handed to \<open>write\<close>; \<open>write_ok\<close> says whether it took the whole frame.\<close>

definition can_send_frame :: "bool \<Rightarrow> can_conn option \<Rightarrow> 'frame option \<Rightarrow> int \<times> 'frame list" where
  "can_send_frame write_ok can_connection frame =
     (case (can_connection, frame) of
        (Some c, Some f) \<Rightarrow> (if write_ok then 0 else - 2, [f])
      | _ \<Rightarrow> (- 1, []))"

definition can_close :: "can_conn option \<Rightarrow> int \<times> int list" where
  "can_close can_connection = (case can_connection of None \<Rightarrow> (- 1, []) | Some c \<Rightarrow> (0, [cc_sock c]))"

section \<open>The reading loop\<close>

text \<open>What happens in a round: \<open>select\<close> fails, nothing is there, \<open>recvmsg\<close> fails, gives too few bytes, or
  gives a frame. \<open>EndLoop\<close> is the other thread's call of \<open>can_end_loop\<close> before the round.\<close>

datatype 'frame can_event =
    SelectFails int
  | NothingThere
  | ReceiveFails
  | ReceiveShort
  | Received 'frame
  | EndLoop

text \<open>The state of the thread: its connection, what the callback has made of the frames so far, and the
  result of the loop once it has ended. \<open>ret\<close> is the last result of \<open>select\<close>, 0 or 1 when it did not
  fail.\<close>

record ('frame, 's) reader =
  rd_conn :: can_conn
  rd_state :: 's
  rd_ret :: int
  rd_result :: "int option"

text \<open>One event. The loop condition is tested before each round, also before the first.\<close>

definition reader_event :: "('frame \<Rightarrow> 's \<Rightarrow> 's) option \<Rightarrow> 'frame can_event \<Rightarrow> ('frame, 's) reader \<Rightarrow> ('frame, 's) reader" where
  "reader_event frame_read_cb e r =
     (if e = EndLoop then r\<lparr>rd_conn := can_end_loop (rd_conn r)\<rparr>
      else if rd_result r \<noteq> None then r
      else if cc_end_loop (rd_conn r) = 1 then r\<lparr>rd_result := Some (rd_ret r)\<rparr>
      else (case e of
          SelectFails ret \<Rightarrow> r\<lparr>rd_ret := ret, rd_result := Some ret\<rparr>
        | NothingThere \<Rightarrow> r\<lparr>rd_ret := 0\<rparr>
        | ReceiveFails \<Rightarrow> r\<lparr>rd_ret := 1, rd_result := Some (- 2)\<rparr>
        | ReceiveShort \<Rightarrow> r\<lparr>rd_ret := 1, rd_result := Some (- 3)\<rparr>
        | Received f \<Rightarrow> r\<lparr>rd_ret := 1, rd_state := (case frame_read_cb of None \<Rightarrow> rd_state r | Some cb \<Rightarrow> cb f (rd_state r))\<rparr>
        | EndLoop \<Rightarrow> r))"

definition can_read_loop :: "('frame \<Rightarrow> 's \<Rightarrow> 's) option \<Rightarrow> 'frame can_event list \<Rightarrow> ('frame, 's) reader \<Rightarrow> ('frame, 's) reader" where
  "can_read_loop frame_read_cb es r = fold (reader_event frame_read_cb) es r"

text \<open>The body of the thread: the connection is opened, with whatever result, then read until the loop
  ends, and then closed. A negative socket is put into the set for \<open>select\<close> all the same, which is
  undefined. \<open>c\<close> is the connection as the main thread has left it, by \<open>canthread_stop\<close> perhaps.\<close>

definition can_thread :: "int \<Rightarrow> bool \<Rightarrow> bool \<Rightarrow> bytes \<Rightarrow> ('frame \<Rightarrow> 's \<Rightarrow> 's) option \<Rightarrow> 'frame can_event list \<Rightarrow> can_conn \<Rightarrow> 's
    \<Rightarrow> ('frame, 's) reader option" where
  "can_thread s ioctl_ok bind_ok can_bus_name frame_read_cb es c state = do {
     (_, c) \<leftarrow> can_open s ioctl_ok bind_ok (Some c) (Some can_bus_name);
     c \<leftarrow> c;
     (if cc_end_loop c \<noteq> 1 \<and> cc_sock c < 0 then None
      else Some (can_read_loop frame_read_cb es \<lparr>rd_conn = c, rd_state = state, rd_ret = 0, rd_result = None\<rparr>))
   }"

section \<open>Starting and stopping the thread\<close>

definition canthread_start :: "bool \<Rightarrow> int" where
  "canthread_start create_ok = (if create_ok then 0 else 1)"

definition canthread_stop :: "bool \<Rightarrow> can_conn \<Rightarrow> int \<times> can_conn" where
  "canthread_stop join_ok c = (if join_ok then 0 else 1, can_end_loop c)"

section \<open>Lemmas\<close>

fun frames_of :: "'frame can_event list \<Rightarrow> 'frame list" where
  "frames_of [] = []"
| "frames_of (Received f # es) = f # frames_of es"
| "frames_of (_ # es) = frames_of es"

text \<open>Events that leave the loop running.\<close>

definition harmless :: "'frame can_event \<Rightarrow> bool" where
  "harmless e \<longleftrightarrow> (case e of NothingThere \<Rightarrow> True | Received f \<Rightarrow> True | _ \<Rightarrow> False)"

lemma reader_runs:
  "list_all harmless es \<Longrightarrow> rd_result r = None \<Longrightarrow> cc_end_loop (rd_conn r) \<noteq> 1 \<Longrightarrow>
   \<exists>r'. can_read_loop (Some cb) es r = r' \<and> rd_conn r' = rd_conn r \<and> rd_result r' = None \<and>
     rd_state r' = fold cb (frames_of es) (rd_state r)"
proof (induction es arbitrary: r)
  case (Cons e es)
  then show ?case
    by (cases e) (simp_all add: can_read_loop_def reader_event_def harmless_def)
qed (simp add: can_read_loop_def)

lemma reader_ended: "rd_result r \<noteq> None \<Longrightarrow> rd_result (can_read_loop cb es r) = rd_result r \<and> rd_state (can_read_loop cb es r) = rd_state r"
  by (induction es arbitrary: r) (auto simp: can_read_loop_def reader_event_def)

lemma reader_stopped:
  assumes "cc_end_loop (rd_conn r) = 1" "rd_result r = None" "e \<noteq> EndLoop"
  shows "rd_result (can_read_loop cb (e # es) r) = Some (rd_ret r) \<and> rd_state (can_read_loop cb (e # es) r) = rd_state r"
  using assms reader_ended [of "r\<lparr>rd_result := Some (rd_ret r)\<rparr>" cb es]
  by (simp add: can_read_loop_def reader_event_def)

lemma loop_append: "can_read_loop cb (es @ fs) r = can_read_loop cb fs (can_read_loop cb es r)"
  by (simp add: can_read_loop_def)

lemma open_connection:
  assumes "0 \<le> s" "length (cc_ifr_name c) = 16"
  shows "\<exists>c'. can_open s True True (Some c) (Some bus) = Some (0, Some c') \<and> cc_sock c' = s \<and> cc_end_loop c' = 0"
proof -
  have "length (strncpy_bytes bus 5) = 5" by (simp add: strncpy_bytes_def strlen_def)
  then show ?thesis using assms by (simp add: can_open_def buf_blit_def)
qed

lemma open_after_stop:
  "0 \<le> s \<Longrightarrow> can_open s True True (Some (can_end_loop c)) d = can_open s True True (Some c) d"
  by (simp add: can_open_def can_end_loop_def Let_def cong: option.case_cong)

section \<open>Properties\<close>

text \<open>
  C21. A thread that could open its bus hands every received frame to the callback, in order and once,
  as long as nothing fails. After \<open>can_end_loop\<close> it handles no further frame and the loop ends with its
  next round, whatever that round would have brought; but a stop from before the bus was opened is
  forgotten, and the thread goes on as if there had been none.
\<close>

theorem can_thread_delivers:
  assumes "0 \<le> s" "length (cc_ifr_name c) = 16" "list_all harmless es" "e \<noteq> EndLoop"
  shows "\<exists>r r'. can_thread s True True bus (Some cb) es c st = Some r \<and>
      can_thread s True True bus (Some cb) es (snd (canthread_stop joined c)) st = Some r \<and>
      rd_result r = None \<and> rd_state r = fold cb (frames_of es) st \<and>
      can_thread s True True bus (Some cb) (es @ EndLoop # e # es') c st = Some r' \<and>
      rd_result r' \<noteq> None \<and> rd_state r' = fold cb (frames_of es) st"
proof -
  obtain c' where c': "can_open s True True (Some c) (Some bus) = Some (0, Some c')" "cc_sock c' = s" "cc_end_loop c' = 0"
    using open_connection [OF assms(1,2)] by blast
  let ?r0 = "\<lparr>rd_conn = c', rd_state = st, rd_ret = 0, rd_result = None\<rparr>"
  obtain r where r: "can_read_loop (Some cb) es ?r0 = r" "rd_conn r = c'" "rd_result r = None" "rd_state r = fold cb (frames_of es) st"
    using reader_runs [OF assms(3), of ?r0 cb] c'(3) by auto
  have t: "can_thread s True True bus (Some cb) xs c st = Some (can_read_loop (Some cb) xs ?r0)" for xs
    using c' assms(1) by (simp add: can_thread_def)
  have t': "can_thread s True True bus (Some cb) es (snd (canthread_stop joined c)) st = Some r"
    using t [of es] r(1) by (simp add: can_thread_def canthread_stop_def open_after_stop [OF assms(1)])
  let ?stopped = "r\<lparr>rd_conn := can_end_loop c'\<rparr>"
  have "can_read_loop (Some cb) (es @ EndLoop # e # es') ?r0 = can_read_loop (Some cb) (e # es') ?stopped"
    using r(1,2) unfolding loop_append by (simp add: can_read_loop_def reader_event_def)
  moreover have "rd_result (can_read_loop (Some cb) (e # es') ?stopped) = Some (rd_ret r) \<and>
      rd_state (can_read_loop (Some cb) (e # es') ?stopped) = rd_state r"
    using reader_stopped [of ?stopped e "Some cb" es'] assms(4) r(3) by (simp add: can_end_loop_def)
  ultimately show ?thesis using t [of es] t [of "es @ EndLoop # e # es'"] t' r by auto
qed

definition fresh_conn :: can_conn where
  "fresh_conn = \<lparr>cc_sock = 0, cc_ifr_name = replicate 16 NUL, cc_end_loop = 0\<rparr>"

theorem can_thread_delivers_witness:
  "\<exists>r r'. can_thread 3 True True ''can0'' (Some (\<lambda>f s. s @ [f])) [Received (7 :: nat), NothingThere, Received 8] fresh_conn [] = Some r \<and>
     rd_state r = [7, 8] \<and> rd_result r = None \<and>
     can_thread 3 True True ''can0'' (Some (\<lambda>f s. s @ [f])) ([Received (7 :: nat), NothingThere, Received 8] @ [EndLoop, Received 9]) fresh_conn [] =
       Some r' \<and> rd_state r' = [7, 8] \<and> rd_result r' \<noteq> None"
proof -
  have "list_all harmless [Received (7 :: nat), NothingThere, Received 8]" by (simp add: harmless_def)
  from can_thread_delivers [OF _ _ this, of 3 fresh_conn "Received 9" "''can0''" "\<lambda>f s. s @ [f]" "[]" True "[]"] show ?thesis
    by (simp add: fresh_conn_def) blast
qed

end
