(* ===== verification/Word_Flags.thy ===== *)
theory Word_Flags
  imports C_Prelude
begin

unbundle bit_operations_syntax

text \<open>Single bits of machine words, for the flags that the drivers set, clear and test.\<close>

lemma bit_single: "bit (push_bit k 1 :: 'a::len word) n \<longleftrightarrow> n = k \<and> k < LENGTH('a)"
  by (auto simp: bit_simps)

lemma and_single: "n < LENGTH('a) \<Longrightarrow> (w :: 'a::len word) AND push_bit n 1 = 0 \<longleftrightarrow> \<not> bit w n"
  using and_exp_eq_0_iff_not_bit [of w n] by (simp add: push_bit_eq_mult)

lemma words_eqI:
  assumes "\<And>n. n < LENGTH('a) \<Longrightarrow> bit v n = bit w n"
  shows "v = (w :: 'a::len word)"
  using assms by (intro bit_eqI) simp

end
