(* ===== verification/Can_Lib.thy ===== *)
theory Can_Lib
  imports Can_Thread Word_Flags
begin

unbundle bit_operations_syntax

text \<open>
  Frames as text (\<open>plugins/pip/can/lib.c\<close>, which the CANopen plugin has a copy of): the compact format
  that is parsed and printed, the long format, and the description of error frames; and the function of
  \<open>can_linux.c\<close> that sends a frame given as text. A buffer is written by \<open>buf_blit\<close>; \<open>None\<close> is an access
  outside of it.
\<close>

section \<open>Frames\<close>

abbreviation (input) CAN_EFF_FLAG :: "32 word" where "CAN_EFF_FLAG \<equiv> 0x80000000"
abbreviation (input) CAN_RTR_FLAG :: "32 word" where "CAN_RTR_FLAG \<equiv> 0x40000000"
abbreviation (input) CAN_ERR_FLAG :: "32 word" where "CAN_ERR_FLAG \<equiv> 0x20000000"
abbreviation (input) CAN_SFF_MASK :: "32 word" where "CAN_SFF_MASK \<equiv> 0x7FF"
abbreviation (input) CAN_EFF_MASK :: "32 word" where "CAN_EFF_MASK \<equiv> 0x1FFFFFFF"
abbreviation (input) CAN_ERR_MASK :: "32 word" where "CAN_ERR_MASK \<equiv> 0x1FFFFFFF"

record text_frame =
  tf_id :: "32 word"
  tf_dlc :: "8 word"
  tf_data :: "8 word list"

definition zero_frame :: text_frame where
  "zero_frame = \<lparr>tf_id = 0, tf_dlc = 0, tf_data = replicate 8 0\<rparr>"

section \<open>Parsing\<close>

definition asc2nibble :: "char \<Rightarrow> 8 word" where
  "asc2nibble c =
     (if 48 \<le> char_code c \<and> char_code c \<le> 57 then of_int (char_code c - 48)
      else if 65 \<le> char_code c \<and> char_code c \<le> 70 then of_int (char_code c - 65 + 10)
      else if 97 \<le> char_code c \<and> char_code c \<le> 102 then of_int (char_code c - 97 + 10)
      else 16)"

text \<open>The loop of \<open>hexstring2candata\<close> from the byte \<open>i\<close> on: a byte gets its upper half before its lower
  digit is looked at.\<close>

fun hex_pairs :: "bytes \<Rightarrow> nat \<Rightarrow> 8 word list \<Rightarrow> int \<times> 8 word list" where
  "hex_pairs (a # b # rest) i data =
     (if asc2nibble a > 0x0F then (1, data)
      else let data = data[i := push_bit 4 (asc2nibble a)]
           in if asc2nibble b > 0x0F then (1, data)
              else hex_pairs rest (Suc i) (data[i := data ! i OR asc2nibble b]))"
| "hex_pairs _ i data = (0, data)"

definition hexstring2candata :: "bytes \<Rightarrow> text_frame \<Rightarrow> int \<times> text_frame" where
  "hexstring2candata arg cf =
     (let len = strlen arg
      in if len = 0 \<or> len mod 2 \<noteq> 0 \<or> len > 16 then (1, cf)
         else let (code, data) = hex_pairs (cstr arg) 0 (tf_data cf) in (code, cf\<lparr>tf_data := data\<rparr>))"

text \<open>The digits of the identifier: whether all are digits, and the identifier so far. A digit that
  is shifted beyond bit 31 of its \<open>int\<close> keeps the bits it has there.\<close>

primrec parse_id :: "bytes \<Rightarrow> 32 word \<Rightarrow> bool \<times> 32 word" where
  "parse_id [] ident = (True, ident)"
| "parse_id (c # cs) ident =
     (if asc2nibble c > 0x0F then (False, ident)
      else parse_id cs (ident OR push_bit (length cs * 4) (ucast (asc2nibble c))))"

text \<open>The loop over at most eight bytes, from the byte \<open>i\<close> on, at the text \<open>s\<close>.\<close>

primrec parse_data :: "nat \<Rightarrow> bytes \<Rightarrow> nat \<Rightarrow> 8 word list \<Rightarrow> int \<times> nat \<times> 8 word list" where
  "parse_data 0 s i data = (0, i, data)"
| "parse_data (Suc k) s i data =
     (let s = (if chr_at s = CHR ''.'' then tl s else s)
      in if s = [] then (0, i, data)
         else if asc2nibble (hd s) > 0x0F then (1, i, data)
         else let data = data[i := push_bit 4 (asc2nibble (hd s))]
              in if asc2nibble (chr_at (tl s)) > 0x0F then (1, i, data)
                 else parse_data k (drop 2 s) (Suc i) (data[i := data ! i OR asc2nibble (chr_at (tl s))]))"

definition parse_rest :: "bytes \<Rightarrow> text_frame \<Rightarrow> int \<times> text_frame" where
  "parse_rest s cf =
     (if chr_at s = CHR ''R'' \<or> chr_at s = CHR ''r'' then (0, cf\<lparr>tf_id := tf_id cf OR CAN_RTR_FLAG\<rparr>)
      else let (code, dlc, data) = parse_data 8 s 0 (tf_data cf)
           in if code = 0 then (0, cf\<lparr>tf_data := data, tf_dlc := of_nat dlc\<rparr>) else (1, cf\<lparr>tf_data := data\<rparr>))"

text \<open>A text of four to seven characters is read at index 8 all the same.\<close>

definition parse_canframe :: "bytes \<Rightarrow> (int \<times> text_frame) option" where
  "parse_canframe cs =
     (let s = cstr cs; cf = zero_frame
      in if length s < 4 then Some (1, cf)
         else if s ! 3 = CHR ''#'' then
           (let (ok, ident) = parse_id (take 3 s) 0; cf = cf\<lparr>tf_id := ident\<rparr>
            in Some (if \<not> ok then (1, cf) else parse_rest (drop 4 s) cf))
         else do {
           c \<leftarrow> buf_get cs 8;
           Some (if c \<noteq> CHR ''#'' then (1, cf)
                 else let (ok, ident) = parse_id (take 8 cs) 0
                      in if \<not> ok then (1, cf\<lparr>tf_id := ident\<rparr>)
                         else let ident = (if ident AND CAN_ERR_FLAG = 0 then ident OR CAN_EFF_FLAG else ident)
                              in parse_rest (drop 9 s) (cf\<lparr>tf_id := ident\<rparr>))
         })"

section \<open>Printing\<close>

text \<open>The conversions \<open>%0nX\<close> and \<open>%nX\<close>, for a number of at most \<open>n\<close> digits.\<close>

definition hex_char :: "'a::len word \<Rightarrow> char" where
  "hex_char w = ''0123456789ABCDEF'' ! unat w"

primrec hex_fixed :: "nat \<Rightarrow> 'a::len word \<Rightarrow> bytes" where
  "hex_fixed 0 w = []"
| "hex_fixed (Suc n) w = hex_char (take_bit 4 (drop_bit (n * 4) w)) # hex_fixed n w"

definition hex_blank :: "nat \<Rightarrow> 'a::len word \<Rightarrow> bytes" where
  "hex_blank n w =
     (let ds = hex_fixed n w; zs = takeWhile (\<lambda>c. c = CHR ''0'') (butlast ds)
      in replicate (length zs) (CHR '' '') @ drop (length zs) ds)"

definition frame_dlc :: "text_frame \<Rightarrow> nat" where
  "frame_dlc cf = (if tf_dlc cf > 8 then 8 else unat (tf_dlc cf))"

primrec data_text :: "bool \<Rightarrow> 8 word list \<Rightarrow> bytes" where
  "data_text sep [] = []"
| "data_text sep (b # bs) = hex_fixed 2 b @ (if sep \<and> bs \<noteq> [] then ''.'' else []) @ data_text sep bs"

definition canframe_text :: "text_frame \<Rightarrow> bool \<Rightarrow> bytes" where
  "canframe_text cf sep =
     (if tf_id cf AND CAN_ERR_FLAG \<noteq> 0 then hex_fixed 8 (tf_id cf AND (CAN_ERR_MASK OR CAN_ERR_FLAG))
      else if tf_id cf AND CAN_EFF_FLAG \<noteq> 0 then hex_fixed 8 (tf_id cf AND CAN_EFF_MASK)
      else hex_fixed 3 (tf_id cf AND CAN_SFF_MASK)) @ ''#'' @
     (if tf_id cf AND CAN_RTR_FLAG \<noteq> 0 then ''R'' else data_text sep (take (frame_dlc cf) (tf_data cf)))"

definition sprint_canframe :: "bytes \<Rightarrow> text_frame \<Rightarrow> bool \<Rightarrow> bytes option" where
  "sprint_canframe buf cf sep = buf_blit buf 0 (canframe_text cf sep @ [NUL])"

text \<open>What is printed to the stream, through a local buffer of unknown content.\<close>

definition fprint_canframe :: "bytes \<Rightarrow> text_frame \<Rightarrow> bytes option \<Rightarrow> bool \<Rightarrow> bytes option" where
  "fprint_canframe junk cf eol sep = do {
     buf \<leftarrow> sprint_canframe (take 34 junk) cf sep;
     Some (cstr buf @ (case eol of None \<Rightarrow> [] | Some e \<Rightarrow> e))
   }"

section \<open>The long format\<close>

abbreviation (input) CANLIB_VIEW_ASCII :: "32 word" where "CANLIB_VIEW_ASCII \<equiv> 0x1"
abbreviation (input) CANLIB_VIEW_BINARY :: "32 word" where "CANLIB_VIEW_BINARY \<equiv> 0x2"
abbreviation (input) CANLIB_VIEW_SWAP :: "32 word" where "CANLIB_VIEW_SWAP \<equiv> 0x4"
abbreviation (input) CANLIB_VIEW_ERROR :: "32 word" where "CANLIB_VIEW_ERROR \<equiv> 0x8"
abbreviation (input) SWAP_DELIMITER :: char where "SWAP_DELIMITER \<equiv> CHR 0x60"

definition bin_text :: "8 word \<Rightarrow> bytes" where
  "bin_text b = map (\<lambda>j. if push_bit j 1 AND b \<noteq> 0 then CHR ''1'' else CHR ''0'') [7, 6, 5, 4, 3, 2, 1, 0]"

definition printable :: "8 word \<Rightarrow> char" where
  "printable b = (if b > 0x1F \<and> b < 0x7F then char_of (unat b) else CHR ''.'')"

text \<open>The data with a character before each byte, the last byte first when swapped, and the column
  behind it: \<open>bs\<close> are the bytes of the frame, \<open>%*s\<close> fills up on the left.\<close>

definition long_data_text :: "(8 word \<Rightarrow> bytes) \<Rightarrow> bool \<Rightarrow> 8 word list \<Rightarrow> bytes" where
  "long_data_text digits swap bs =
     (if swap then concat (map (\<lambda>i. (if i = length bs - 1 then CHR '' '' else SWAP_DELIMITER) # digits (bs ! i)) (rev [0..<length bs]))
      else concat (map (\<lambda>b. CHR '' '' # digits b) bs))"

definition right_aligned :: "nat \<Rightarrow> bytes \<Rightarrow> bytes" where
  "right_aligned w s = replicate (w - length s) (CHR '' '') @ s"

definition long_tail_text :: "text_frame \<Rightarrow> 32 word \<Rightarrow> nat \<Rightarrow> 8 word list \<Rightarrow> bytes" where
  "long_tail_text cf view dlen bs =
     (if tf_id cf AND CAN_ERR_FLAG \<noteq> 0 then right_aligned (dlen * (8 - length bs) + 13) ''ERRORFRAME''
      else if view AND CANLIB_VIEW_ASCII \<noteq> 0 then
        (let j = dlen * (8 - length bs) + 4
         in if view AND CANLIB_VIEW_SWAP \<noteq> 0 then right_aligned j [SWAP_DELIMITER] @ rev (map printable bs) @ [SWAP_DELIMITER]
            else right_aligned j [CHR 0x27] @ map printable bs @ [CHR 0x27])
      else [])"

definition long_canframe_text :: "text_frame \<Rightarrow> 32 word \<Rightarrow> bytes" where
  "long_canframe_text cf view =
     (let bs = take (frame_dlc cf) (tf_data cf);
          binary = (view AND CANLIB_VIEW_BINARY \<noteq> 0)
      in (if tf_id cf AND CAN_ERR_FLAG \<noteq> 0 then hex_blank 8 (tf_id cf AND (CAN_ERR_MASK OR CAN_ERR_FLAG))
          else if tf_id cf AND CAN_EFF_FLAG \<noteq> 0 then hex_blank 8 (tf_id cf AND CAN_EFF_MASK)
          else hex_blank 3 (tf_id cf AND CAN_SFF_MASK)) @ ''  ['' @ [''0123456789'' ! frame_dlc cf] @ '']'' @
         (if tf_id cf AND CAN_RTR_FLAG \<noteq> 0 then '' remote request''
          else long_data_text (if binary then bin_text else hex_fixed 2) (view AND CANLIB_VIEW_SWAP \<noteq> 0) bs @
            long_tail_text cf view (if binary then 9 else 3) bs))"

definition sprint_long_canframe :: "bytes \<Rightarrow> text_frame \<Rightarrow> 32 word \<Rightarrow> bytes option" where
  "sprint_long_canframe buf cf view = buf_blit buf 0 (long_canframe_text cf view @ [NUL])"

section \<open>Error frames\<close>

definition error_classes :: "bytes list" where
  "error_classes = [''tx-timeout'', ''lost-arbitration'', ''controller-problem'', ''protocol-violation'', ''transceiver-status'',
     ''no-acknowledgement-on-tx'', ''bus-off'', ''bus-error'', ''restarted-after-bus-off'']"

definition controller_problems :: "bytes list" where
  "controller_problems = [''rx-overflow'', ''tx-overflow'', ''rx-error-warning'', ''tx-error-warning'', ''rx-error-passive'', ''tx-error-passive'']"

definition protocol_violation_types :: "bytes list" where
  "protocol_violation_types = [''single-bit-error'', ''frame-format-error'', ''bit-stuffing-error'', ''tx-dominant-bit-error'',
     ''tx-recessive-bit-error'', ''bus-overload'', ''back-to-error-active'', ''error-on-tx'']"

definition protocol_violation_locations :: "bytes list" where
  "protocol_violation_locations = [''unspecified'', ''unspecified'', ''id.28-to-id.28'', ''start-of-frame'', ''bit-srtr'', ''bit-ide'',
     ''id.20-to-id.18'', ''id.17-to-id.13'', ''crc-sequence'', ''reserved-bit-0'', ''data-field'', ''data-length-code'',
     ''bit-rtr'', ''reserved-bit-1'', ''id.4-to-id.0'', ''id.12-to-id.5'', ''unspecified'', ''active-error-flag'', ''intermission'',
     ''tolerate-dominant-bits'', ''unspecified'', ''unspecified'', ''passive-error-flag'', ''error-delimiter'', ''crc-delimiter'',
     ''acknowledge-slot'', ''end-of-frame'', ''acknowledge-delimiter'', ''overload-flag'', ''unspecified'', ''unspecified'', ''unspecified'']"

text \<open>A byte in decimal digits.\<close>

definition dec_byte :: "8 word \<Rightarrow> bytes" where
  "dec_byte b =
     (let v = unat b; digit = (\<lambda>d. ''0123456789'' ! d)
      in if v < 10 then [digit v] else if v < 100 then [digit (v div 10), digit (v mod 10)]
         else [digit (v div 100), digit (v div 10 mod 10), digit (v mod 10)])"

text \<open>
  \<open>n += snprintf(buf + n, len - n, s)\<close> on the position and the buffer: what does not fit is cut off, but the
  position moves by the whole text. Behind the end the difference \<open>len - n\<close> is negative, so that as an
  unsigned number it is no limit any more: the write is outside of the buffer. The functions for the
  parts get the place and the room that is left; without room they do nothing.
\<close>

type_synonym printer = "nat \<times> bytes"

definition snprintf_at :: "nat \<Rightarrow> bytes \<Rightarrow> printer \<Rightarrow> printer option" where
  "snprintf_at len s p =
     (let (n, buf) = p
      in if len < n then None
         else if n = len then Some (n + length s, buf)
         else do { buf \<leftarrow> buf_blit buf n (take (len - n - 1) s @ [NUL]); Some (n + length s, buf) })"

primrec error_data_loop :: "nat \<Rightarrow> 8 word \<Rightarrow> bytes list \<Rightarrow> nat \<Rightarrow> nat \<Rightarrow> printer \<Rightarrow> printer option" where
  "error_data_loop len err [] i count p = Some p"
| "error_data_loop len err (a # arr) i count p =
     (if err AND push_bit i 1 \<noteq> 0 then do {
        p \<leftarrow> (if count \<noteq> 0 then snprintf_at len '','' p else Some p);
        p \<leftarrow> snprintf_at len a p;
        error_data_loop len err arr (Suc i) (Suc count) p
      } else error_data_loop len err arr (Suc i) count p)"

definition snprintf_error_data :: "nat \<Rightarrow> 8 word \<Rightarrow> bytes list \<Rightarrow> printer \<Rightarrow> printer option" where
  "snprintf_error_data len err arr p =
     (if err = 0 \<or> fst p = len then Some p else error_data_loop len err arr 0 0 p)"

definition snprintf_error_lostarb :: "nat \<Rightarrow> text_frame \<Rightarrow> printer \<Rightarrow> printer option" where
  "snprintf_error_lostarb len cf p =
     (if fst p = len then Some p else snprintf_at len (''{at bit '' @ dec_byte (tf_data cf ! 0) @ ''}'') p)"

definition snprintf_error_ctrl :: "nat \<Rightarrow> text_frame \<Rightarrow> printer \<Rightarrow> printer option" where
  "snprintf_error_ctrl len cf p =
     (if fst p = len then Some p
      else do {
        p \<leftarrow> snprintf_at len ''{'' p;
        p \<leftarrow> snprintf_error_data len (tf_data cf ! 1) controller_problems p;
        snprintf_at len ''}'' p
      })"

definition snprintf_error_prot :: "nat \<Rightarrow> text_frame \<Rightarrow> printer \<Rightarrow> printer option" where
  "snprintf_error_prot len cf p =
     (if fst p = len then Some p
      else do {
        p \<leftarrow> snprintf_at len ''{{'' p;
        p \<leftarrow> snprintf_error_data len (tf_data cf ! 2) protocol_violation_types p;
        p \<leftarrow> snprintf_at len ''}{'' p;
        p \<leftarrow> (if tf_data cf ! 3 > 0 \<and> unat (tf_data cf ! 3) < length protocol_violation_locations
             then snprintf_at len (protocol_violation_locations ! unat (tf_data cf ! 3)) p else Some p);
        snprintf_at len ''}}'' p
      })"

primrec error_class_loop :: "nat \<Rightarrow> text_frame \<Rightarrow> bytes \<Rightarrow> 32 word \<Rightarrow> bytes list \<Rightarrow> nat \<Rightarrow> nat \<Rightarrow> printer \<Rightarrow> printer option" where
  "error_class_loop len cf sep cls [] i classes p = Some p"
| "error_class_loop len cf sep cls (c # cs) i classes p =
     (let mask = push_bit i 1
      in if cls AND mask \<noteq> 0 then do {
           p \<leftarrow> (if classes \<noteq> 0 then snprintf_at len sep p else Some p);
           p \<leftarrow> snprintf_at len c p;
           p \<leftarrow> (if mask = 2 then snprintf_error_lostarb len cf p else Some p);
           p \<leftarrow> (if mask = 4 then snprintf_error_ctrl len cf p else Some p);
           p \<leftarrow> (if mask = 8 then snprintf_error_prot len cf p else Some p);
           error_class_loop len cf sep cls cs (Suc i) (Suc classes) p
         } else error_class_loop len cf sep cls cs (Suc i) classes p)"

definition snprintf_can_error_frame :: "bytes \<Rightarrow> nat \<Rightarrow> text_frame \<Rightarrow> bytes option \<Rightarrow> bytes option" where
  "snprintf_can_error_frame buf len cf sep =
     (if tf_id cf AND CAN_ERR_FLAG = 0 then Some buf
      else let cls = tf_id cf AND CAN_EFF_MASK
           in if cls > push_bit (length error_classes) 1 then Some buf
              else do {
                let sep = (case sep of None \<Rightarrow> '','' | Some s \<Rightarrow> s);
                p \<leftarrow> error_class_loop len cf sep cls error_classes 0 0 (0, buf);
                p \<leftarrow> (if tf_data cf ! 6 \<noteq> 0 \<or> tf_data cf ! 7 \<noteq> 0 then do {
                       p \<leftarrow> snprintf_at len sep p;
                       snprintf_at len (''error-counter-tx-rx{{'' @ dec_byte (tf_data cf ! 6) @ ''}{'' @ dec_byte (tf_data cf ! 7) @ ''}}'') p
                     } else Some p);
                Some (snd p)
              })"

abbreviation (input) MAX_LONG_CANFRAME_SIZE :: nat where "MAX_LONG_CANFRAME_SIZE \<equiv> 256"

definition fprint_long_canframe :: "bytes \<Rightarrow> text_frame \<Rightarrow> bytes option \<Rightarrow> 32 word \<Rightarrow> bytes option" where
  "fprint_long_canframe junk cf eol view = do {
     buf \<leftarrow> sprint_long_canframe (take MAX_LONG_CANFRAME_SIZE junk) cf view;
     more \<leftarrow> (if view AND CANLIB_VIEW_ERROR \<noteq> 0 \<and> tf_id cf AND CAN_ERR_FLAG \<noteq> 0 then do {
                buf \<leftarrow> snprintf_can_error_frame buf MAX_LONG_CANFRAME_SIZE cf (Some [newline, CHR 0x09]);
                Some ([newline, CHR 0x09] @ cstr buf)
              } else Some []);
     Some (cstr buf @ more @ (case eol of None \<Rightarrow> [] | Some e \<Rightarrow> e))
   }"

section \<open>Sending\<close>

abbreviation (input) CAN_SEND_NO_ERROR :: int where "CAN_SEND_NO_ERROR \<equiv> 0"

text \<open>The result and the frames handed to \<open>write\<close>; \<open>write_ok\<close> says whether it took the whole frame. Unlike in
  \<open>can_send_frame\<close>, the connection is not compared with NULL.\<close>

definition can_send_frame_str :: "bool \<Rightarrow> can_conn option \<Rightarrow> bytes option \<Rightarrow> (int \<times> text_frame list) option" where
  "can_send_frame_str write_ok can_connection frame_data =
     (case frame_data of
        None \<Rightarrow> Some (- 1, [])
      | Some s \<Rightarrow> do {
          (code, frame) \<leftarrow> parse_canframe s;
          (if code \<noteq> 0 then Some (- 1, [])
           else case can_connection of
               None \<Rightarrow> None
             | Some c \<Rightarrow> Some (if write_ok then CAN_SEND_NO_ERROR else - 2, [frame]))
        })"

section \<open>Lemmas on the compact format\<close>

lemma nibble_value: "n < 16 \<Longrightarrow> asc2nibble (''0123456789ABCDEF'' ! n) = of_nat n"
proof -
  have "\<forall>n\<in>set [0..<16]. asc2nibble (''0123456789ABCDEF'' ! n) = of_nat n" by code_simp
  then show "n < 16 \<Longrightarrow> ?thesis" by auto
qed

lemma nibble_plain: "n < 16 \<Longrightarrow> \<not> asc2nibble (''0123456789ABCDEF'' ! n) > 0x0F \<and>
    ''0123456789ABCDEF'' ! n \<notin> {NUL, CHR ''#'', CHR ''.'', CHR ''R'', CHR ''r''}"
proof -
  have "\<forall>n\<in>set [0..<16]. \<not> asc2nibble (''0123456789ABCDEF'' ! n) > 0x0F \<and>
      ''0123456789ABCDEF'' ! n \<notin> {NUL, CHR ''#'', CHR ''.'', CHR ''R'', CHR ''r''}" by code_simp
  then show "n < 16 \<Longrightarrow> ?thesis" by auto
qed

lemma nibble_less: "unat (take_bit 4 w :: 'a::len word) < 16"
  using take_bit_nat_less_exp [of 4 "unat w"] by (simp add: unsigned_take_bit_eq)

lemma hex_char_value: "asc2nibble (hex_char (take_bit 4 w :: 'a::len word)) = ucast (take_bit 4 w)"
  using nibble_value [OF nibble_less [of w]] by (simp add: hex_char_def)

lemma hex_char_digit [simp]: "\<not> asc2nibble (hex_char (take_bit 4 w :: 'a::len word)) > 0x0F"
  using nibble_plain [OF nibble_less [of w]] by (simp add: hex_char_def)

lemma hex_char_plain [simp]:
  "hex_char (take_bit 4 w :: 'a::len word) \<noteq> NUL" "hex_char (take_bit 4 w :: 'a::len word) \<noteq> CHR ''#''"
  "hex_char (take_bit 4 w :: 'a::len word) \<noteq> CHR ''.''" "hex_char (take_bit 4 w :: 'a::len word) \<noteq> CHR ''R''"
  "hex_char (take_bit 4 w :: 'a::len word) \<noteq> CHR ''r''"
  using nibble_plain [OF nibble_less [of w]] by (simp_all add: hex_char_def)

lemma length_hex_fixed [simp]: "length (hex_fixed n w) = n"
  by (induction n) simp_all

lemma hex_fixed_plain [simp]: "NUL \<notin> set (hex_fixed n w)" "CHR ''#'' \<notin> set (hex_fixed n w)"
  by (induction n) (simp_all add: hex_char_plain [symmetric])

lemma parse_id_hex:
  "parse_id (hex_fixed n (w :: 32 word)) ident = (True, ident OR take_bit (n * 4) w)"
proof (induction n arbitrary: ident)
  case (Suc n)
  have "push_bit (n * 4) (ucast (asc2nibble (hex_char (take_bit 4 (drop_bit (n * 4) w))))) OR take_bit (n * 4) w = take_bit (Suc n * 4) w"
    unfolding hex_char_value by (rule bit_eqI) (auto simp: bit_simps)
  then show ?case using Suc by (simp add: or.assoc)
qed simp

lemma byte_halves: "push_bit 4 (asc2nibble (hex_char (take_bit 4 (drop_bit 4 b)))) OR asc2nibble (hex_char (take_bit 4 b)) = (b :: 8 word)"
  unfolding hex_char_value by (rule bit_eqI) (auto simp: bit_simps)

lemma parse_byte:
  assumes "i < length data"
  shows "parse_data (Suc k) (hex_fixed 2 b @ s) i data = parse_data k s (Suc i) (data[i := b])"
    "parse_data (Suc k) (CHR ''.'' # hex_fixed 2 b @ s) i data = parse_data k s (Suc i) (data[i := b])"
  using assms by (simp_all add: numeral_2_eq_2 byte_halves)

lemma parse_data_text:
  "i + length bs = n \<Longrightarrow> n \<le> length data \<Longrightarrow> length bs \<le> k \<Longrightarrow>
     parse_data k (data_text sep bs) i data = (0, n, take i data @ bs @ drop n data)"
proof (induction bs arbitrary: i k data)
  case Nil
  then show ?case by (cases k) simp_all
next
  case (Cons b bs)
  then obtain m where k: "k = Suc m" by (cases k) auto
  have rest: "parse_data m (data_text sep bs) (Suc i) (data[i := b]) = (0, n, take i data @ (b # bs) @ drop n data)"
    using Cons.prems k by (subst Cons.IH) (simp_all add: take_Suc_conv_app_nth)
  have dot: "parse_data m (CHR ''.'' # data_text sep bs) (Suc i) (data[i := b]) = parse_data m (data_text sep bs) (Suc i) (data[i := b])"
    if more: "bs \<noteq> []"
  proof -
    obtain b' bs' m' where bs: "bs = b' # bs'" "m = Suc m'" using more Cons.prems(3) k by (cases bs; cases m) simp_all
    have "Suc i < length (data[i := b])" using Cons.prems bs by simp
    from parse_byte [OF this] show ?thesis by (simp only: bs data_text.simps append_Cons)
  qed
  show ?case using Cons.prems(1,2) rest dot k parse_byte(1) [of i data m b]
    by (cases "sep \<and> bs \<noteq> []") (auto simp del: parse_data.simps)
qed


text \<open>The frames that have a text: no bits of the identifier that their format does not print, and no
  data behind the length, nor with a remote request.\<close>

definition canonical_frame :: "text_frame \<Rightarrow> bool" where
  "canonical_frame cf \<longleftrightarrow> length (tf_data cf) = 8 \<and> tf_dlc cf \<le> 8 \<and>
     drop (unat (tf_dlc cf)) (tf_data cf) = replicate (8 - unat (tf_dlc cf)) 0 \<and>
     (tf_id cf AND CAN_RTR_FLAG \<noteq> 0 \<longrightarrow> tf_dlc cf = 0) \<and>
     (if tf_id cf AND CAN_ERR_FLAG \<noteq> 0 then tf_id cf AND (CAN_RTR_FLAG OR CAN_EFF_FLAG) = 0
      else tf_id cf AND CAN_EFF_FLAG \<noteq> 0 \<or> tf_id cf AND NOT (CAN_SFF_MASK OR CAN_RTR_FLAG) = 0)"

lemma flags:
  "CAN_EFF_FLAG = push_bit 31 1" "CAN_RTR_FLAG = push_bit 30 1" "CAN_ERR_FLAG = push_bit 29 1"
  "CAN_SFF_MASK = mask 11" "CAN_EFF_MASK = mask 29"
  by (simp_all add: mask_eq_exp_minus_1)

lemma flag_bit: "n < 32 \<Longrightarrow> (w :: 32 word) AND push_bit n 1 = 0 \<longleftrightarrow> \<not> bit w n"
  using and_single [of n w] by simp

lemma flag_bits: "bit CAN_EFF_FLAG n = (n = 31)" "bit CAN_RTR_FLAG n = (n = 30)" "bit CAN_ERR_FLAG n = (n = 29)"
  unfolding flags bit_single by simp_all

lemma plain_text: "NUL \<notin> set (canframe_text cf sep)"
proof -
  have "NUL \<notin> set (data_text sep bs)" for bs by (induction bs) simp_all
  then show ?thesis by (simp add: canframe_text_def)
qed

lemma length_data_text: "length (data_text sep bs) + (if bs = [] then 0 else 1) \<le> 3 * length bs"
  by (induction bs) auto

lemma length_canframe_text: "length (canframe_text cf sep) \<le> 32"
proof -
  have "length (data_text sep (take (frame_dlc cf) (tf_data cf))) \<le> 23"
    using length_data_text [of sep "take (frame_dlc cf) (tf_data cf)"] word_le_nat_alt [of "tf_dlc cf" 8]
    by (auto simp: frame_dlc_def not_less split: if_splits)
  then show ?thesis by (simp add: canframe_text_def)
qed

lemma parse_rest_text:
  assumes "length (tf_data cf) = 8" "tf_dlc cf \<le> 8" "drop (unat (tf_dlc cf)) (tf_data cf) = replicate (8 - unat (tf_dlc cf)) 0"
    and "bit (tf_id cf) 30 \<longrightarrow> tf_dlc cf = 0"
  shows "parse_rest (if bit (tf_id cf) 30 then ''R'' else data_text sep (take (frame_dlc cf) (tf_data cf)))
      (zero_frame\<lparr>tf_id := ident\<rparr>) = (0, cf\<lparr>tf_id := ident OR (if bit (tf_id cf) 30 then CAN_RTR_FLAG else 0)\<rparr>)"
proof (cases "bit (tf_id cf) 30")
  case True
  then show ?thesis using assms by (cases cf) (simp add: parse_rest_def zero_frame_def)
next
  case False
  let ?n = "unat (tf_dlc cf)"
  have n: "?n \<le> 8" "frame_dlc cf = ?n" using assms(2) by (auto simp: word_le_nat_alt word_less_nat_alt frame_dlc_def)
  have first: "chr_at (data_text sep bs) \<noteq> CHR ''R'' \<and> chr_at (data_text sep bs) \<noteq> CHR ''r''" for bs
    by (cases bs) (simp_all add: numeral_2_eq_2)
  have "parse_data 8 (data_text sep (take ?n (tf_data cf))) 0 (replicate 8 0) = (0, ?n, take ?n (tf_data cf) @ drop ?n (replicate 8 0))"
    using parse_data_text [of 0 "take ?n (tf_data cf)" ?n "replicate 8 0" 8 sep] n assms(1) by simp
  then have "parse_data 8 (data_text sep (take ?n (tf_data cf))) 0 (replicate 8 0) = (0, ?n, tf_data cf)"
    using assms(3) append_take_drop_id [of ?n "tf_data cf"] by simp
  then show ?thesis using False first n by (cases cf) (simp add: parse_rest_def zero_frame_def)
qed

lemma hex_fixed_nth: "i < n \<Longrightarrow> hex_fixed n w ! i \<noteq> CHR ''#''"
  using nth_mem [of i "hex_fixed n w"] hex_fixed_plain(2) [of n w] by (metis length_hex_fixed)

lemma parse_eight:
  assumes "NUL \<notin> set t"
  shows "parse_canframe (hex_fixed 8 w @ CHR ''#'' # t @ NUL # rest) =
    Some (parse_rest t (zero_frame\<lparr>tf_id := (if bit w 29 then w else w OR CAN_EFF_FLAG)\<rparr>))"
proof -
  have s: "cstr (hex_fixed 8 w @ CHR ''#'' # t @ NUL # rest) = hex_fixed 8 w @ CHR ''#'' # t" using assms by simp
  have "take_bit 32 w = w" using take_bit_length_eq [of w] by simp
  then have "parse_id (hex_fixed 8 w) 0 = (True, w)" by (simp add: parse_id_hex)
  then show ?thesis using hex_fixed_nth [of 3 8 w] flag_bit [of 29 w]
    unfolding parse_canframe_def Let_def s by (simp add: nth_append buf_get_def)
qed

lemma parse_three:
  assumes "NUL \<notin> set t"
  shows "parse_canframe (hex_fixed 3 w @ CHR ''#'' # t @ NUL # rest) = Some (parse_rest t (zero_frame\<lparr>tf_id := take_bit 12 w\<rparr>))"
proof -
  have s: "cstr (hex_fixed 3 w @ CHR ''#'' # t @ NUL # rest) = hex_fixed 3 w @ CHR ''#'' # t" using assms by simp
  have "parse_id (hex_fixed 3 w) 0 = (True, take_bit 12 w)" by (simp add: parse_id_hex)
  then show ?thesis unfolding parse_canframe_def Let_def s by (simp add: nth_append)
qed

text \<open>The identifiers of the three formats.\<close>

lemma bits_below:
  assumes "\<And>n. n < 32 \<Longrightarrow> bit v n = bit w n"
  shows "v = (w :: 32 word)"
  using assms by (intro words_eqI) simp

lemma identifiers:
  fixes w :: "32 word"
  shows "w AND (CAN_RTR_FLAG OR CAN_EFF_FLAG) = 0 \<Longrightarrow> w AND (CAN_ERR_MASK OR CAN_ERR_FLAG) = w \<and> \<not> bit w 30"
    and "w AND CAN_EFF_FLAG \<noteq> 0 \<Longrightarrow> \<not> bit w 29 \<Longrightarrow>
      ((w AND CAN_EFF_MASK) OR CAN_EFF_FLAG) OR (if bit w 30 then CAN_RTR_FLAG else 0) = w \<and> \<not> bit (w AND CAN_EFF_MASK) 29"
    and "w AND NOT (CAN_SFF_MASK OR CAN_RTR_FLAG) = 0 \<Longrightarrow>
      take_bit 12 (w AND CAN_SFF_MASK) OR (if bit w 30 then CAN_RTR_FLAG else 0) = w"
proof -
  have top: "n < 32 \<Longrightarrow> n < 29 \<or> n = 29 \<or> n = 30 \<or> n = 31" for n :: nat by auto
  show "w AND (CAN_ERR_MASK OR CAN_ERR_FLAG) = w \<and> \<not> bit w 30" if "w AND (CAN_RTR_FLAG OR CAN_EFF_FLAG) = 0"
  proof -
    have "bit (w AND (CAN_RTR_FLAG OR CAN_EFF_FLAG)) n = False" for n using that by simp
    from this [of 30] this [of 31] have "\<not> bit w 30" "\<not> bit w 31" unfolding flags by (simp_all add: bit_simps)
    then show ?thesis unfolding flags by (auto intro!: bits_below simp: bit_simps dest!: top)
  qed
  show "((w AND CAN_EFF_MASK) OR CAN_EFF_FLAG) OR (if bit w 30 then CAN_RTR_FLAG else 0) = w \<and> \<not> bit (w AND CAN_EFF_MASK) 29"
    if "w AND CAN_EFF_FLAG \<noteq> 0" "\<not> bit w 29"
  proof -
    have "bit w 31" using that(1) flag_bit [of 31 w] unfolding flags by simp
    then show ?thesis using that(2) unfolding flags(4,5) by (auto intro!: bits_below simp: bit_simps flag_bits simp del: bit_numeral_word_iff dest!: top)
  qed
  show "take_bit 12 (w AND CAN_SFF_MASK) OR (if bit w 30 then CAN_RTR_FLAG else 0) = w"
    if "w AND NOT (CAN_SFF_MASK OR CAN_RTR_FLAG) = 0"
  proof -
    have "bit (w AND NOT (CAN_SFF_MASK OR CAN_RTR_FLAG)) n \<longleftrightarrow> bit w n \<and> \<not> (n < 11 \<or> n = 30)" for n
      unfolding flags(4) by (auto simp: bit_simps flag_bits simp del: bit_numeral_word_iff dest: bit_imp_le_length)
    then have low: "bit w n \<Longrightarrow> n < 12 \<and> n < 11 \<or> n = 30" for n unfolding that by fastforce
    show ?thesis
    proof (rule bits_below)
      fix n :: nat assume "n < 32"
      then show "bit (take_bit 12 (w AND CAN_SFF_MASK) OR (if bit w 30 then CAN_RTR_FLAG else 0)) n = bit w n"
        using low [of n] unfolding flags(4) by (cases "n = 30") (auto simp: bit_simps flag_bits simp del: bit_numeral_word_iff)
    qed
qed
qed

section \<open>Lemmas on error frames\<close>

text \<open>The text of an error frame, without a buffer.\<close>

primrec separated :: "bytes \<Rightarrow> bytes list \<Rightarrow> bytes" where
  "separated sep [] = []"
| "separated sep (x # xs) = sep @ x @ separated sep xs"

primrec joined :: "bytes \<Rightarrow> bytes list \<Rightarrow> bytes" where
  "joined sep [] = []"
| "joined sep (x # xs) = x @ separated sep xs"

definition chosen :: "'a::len word \<Rightarrow> bytes list \<Rightarrow> nat \<Rightarrow> (nat \<times> bytes) list" where
  "chosen bits names i = filter (\<lambda>(j, _). bit bits j) (enumerate i names)"

definition bits_text :: "8 word \<Rightarrow> bytes list \<Rightarrow> bytes" where
  "bits_text err names = joined '','' (map snd (chosen err names 0))"

definition class_text :: "text_frame \<Rightarrow> nat \<times> bytes \<Rightarrow> bytes" where
  "class_text cf c = snd c @
     (if fst c = 1 then ''{at bit '' @ dec_byte (tf_data cf ! 0) @ ''}''
      else if fst c = 2 then ''{'' @ bits_text (tf_data cf ! 1) controller_problems @ ''}''
      else if fst c = 3 then ''{{'' @ bits_text (tf_data cf ! 2) protocol_violation_types @ ''}{'' @
        (if tf_data cf ! 3 > 0 \<and> unat (tf_data cf ! 3) < length protocol_violation_locations
         then protocol_violation_locations ! unat (tf_data cf ! 3) else []) @ ''}}''
      else [])"

definition error_text :: "text_frame \<Rightarrow> bytes \<Rightarrow> bytes" where
  "error_text cf sep =
     joined sep (map (class_text cf) (chosen (tf_id cf AND CAN_EFF_MASK) error_classes 0)) @
     (if tf_data cf ! 6 \<noteq> 0 \<or> tf_data cf ! 7 \<noteq> 0
      then sep @ ''error-counter-tx-rx{{'' @ dec_byte (tf_data cf ! 6) @ ''}{'' @ dec_byte (tf_data cf ! 7) @ ''}}'' else [])"

text \<open>The buffer holds a text so far; an operation prints a text when it appends it as long as it fits.\<close>

definition holds :: "nat \<Rightarrow> bytes \<Rightarrow> bytes \<Rightarrow> printer \<Rightarrow> bool" where
  "holds len old t p \<longleftrightarrow> fst p = length t \<and> length (snd p) = len \<and> NUL \<notin> set t \<and>
     (if t = [] then snd p = old else \<exists>r. snd p = t @ NUL # r)"

definition prints :: "nat \<Rightarrow> bytes \<Rightarrow> (printer \<Rightarrow> printer option) \<Rightarrow> bytes \<Rightarrow> bool" where
  "prints len old f s \<longleftrightarrow>
     (\<forall>t p. holds len old t p \<and> length t + length s < len \<longrightarrow> (\<exists>q. f p = Some q \<and> holds len old (t @ s) q))"

lemma prints_skip: "prints len old Some []"
  by (simp add: prints_def)

lemma prints_at: "s \<noteq> [] \<Longrightarrow> NUL \<notin> set s \<Longrightarrow> prints len old (snprintf_at len s) s"
  by (auto simp: prints_def holds_def snprintf_at_def buf_blit_def split: if_splits)

lemma prints_bind:
  assumes "prints len old f s" "prints len old g s'"
  shows "prints len old (\<lambda>p. f p \<bind> g) (s @ s')"
  unfolding prints_def
proof (intro allI impI)
  fix t p assume h: "holds len old t p \<and> length t + length (s @ s') < len"
  then obtain q where q: "f p = Some q" "holds len old (t @ s) q" using assms(1) [unfolded prints_def, rule_format, of t p] by auto
  then show "\<exists>r. f p \<bind> g = Some r \<and> holds len old (t @ s @ s') r"
    using assms(2) [unfolded prints_def, rule_format, of "t @ s" q] h by auto
qed

lemma prints_unless: "prints len old f s \<Longrightarrow> prints len old (\<lambda>p. if fst p = len then Some p else f p) s"
  by (auto simp: prints_def holds_def)

lemma chosen_simps [simp]: "chosen bits [] i = []"
  "chosen bits (a # as) i = (if bit bits i then [(i, a)] else []) @ chosen bits as (Suc i)"
  by (simp_all add: chosen_def)

lemma byte_flag: "n < 8 \<Longrightarrow> (b :: 8 word) AND push_bit n 1 = 0 \<longleftrightarrow> \<not> bit b n"
  using and_single [of n b] by simp

lemma error_data_loop_step:
  assumes "i < 8"
  shows "bit err i \<Longrightarrow> error_data_loop len err (a # names) i 0 = (\<lambda>p. snprintf_at len a p \<bind> error_data_loop len err names (Suc i) 1)"
    and "bit err i \<Longrightarrow> 0 < count \<Longrightarrow> error_data_loop len err (a # names) i count =
      (\<lambda>p. snprintf_at len '','' p \<bind> (\<lambda>p. snprintf_at len a p \<bind> error_data_loop len err names (Suc i) (Suc count)))"
    and "\<not> bit err i \<Longrightarrow> error_data_loop len err (a # names) i count = error_data_loop len err names (Suc i) count"
  using byte_flag [OF assms, of err] by (simp_all add: fun_eq_iff)

lemma error_data_loop_prints:
  "i + length names \<le> 8 \<Longrightarrow> \<forall>a\<in>set names. a \<noteq> [] \<and> NUL \<notin> set a \<Longrightarrow>
     prints len old (error_data_loop len err names i count)
       ((if count = 0 then joined '','' else separated '','') (map snd (chosen err names i)))"
proof (induction names arbitrary: i count)
  case Nil
  have "error_data_loop len err [] i count = Some" by (rule ext) simp
  then show ?case using prints_skip by simp
next
  case (Cons a names)
  have i: "i < 8" using Cons.prems(1) by simp
  note step = error_data_loop_step [OF i]
  have rest: "prints len old (error_data_loop len err names (Suc i) count)
      ((if count = 0 then joined '','' else separated '','') (map snd (chosen err names (Suc i))))" for count
    using Cons by simp
  have a: "prints len old (snprintf_at len a) a" "prints len old (snprintf_at len '','') '',''"
    using Cons.prems(2) by (auto intro: prints_at)
  show ?case
  proof (cases "bit err i")
    case True
    then show ?thesis
      using prints_bind [OF a(1) rest [of 1]] prints_bind [OF a(2) prints_bind [OF a(1) rest [of "Suc count"]]] step(1,2)
      by (cases "count = 0") (simp_all del: error_data_loop.simps)
  next
    case False
    then show ?thesis using rest [of count] step(3) by (simp del: error_data_loop.simps)
  qed
qed

lemma names_plain:
  "\<forall>a\<in>set controller_problems. a \<noteq> [] \<and> NUL \<notin> set a" "\<forall>a\<in>set protocol_violation_types. a \<noteq> [] \<and> NUL \<notin> set a"
  "\<forall>a\<in>set protocol_violation_locations. a \<noteq> [] \<and> NUL \<notin> set a" "\<forall>a\<in>set error_classes. a \<noteq> [] \<and> NUL \<notin> set a"
  by code_simp+

lemma names_length:
  "length controller_problems = 6" "length protocol_violation_types = 8" "length protocol_violation_locations = 32" "length error_classes = 9"
  by code_simp+

lemma error_data_prints:
  assumes "length names \<le> 8" "\<forall>a\<in>set names. a \<noteq> [] \<and> NUL \<notin> set a"
  shows "prints len old (snprintf_error_data len err names) (bits_text err names)"
proof (cases "err = 0")
  case True
  have "snprintf_error_data len 0 names = Some" "chosen (0 :: 8 word) names 0 = []"
    by (auto simp: snprintf_error_data_def chosen_def fun_eq_iff)
  then show ?thesis using True prints_skip by (simp add: bits_text_def)
next
  case False
  then have "snprintf_error_data len err names = (\<lambda>p. if fst p = len then Some p else error_data_loop len err names 0 0 p)"
    by (auto simp: snprintf_error_data_def fun_eq_iff)
  then show ?thesis
    using prints_unless [OF error_data_loop_prints [of 0 names len old err 0]] assms by (simp add: bits_text_def)
qed

lemma dec_byte_plain: "NUL \<notin> set (dec_byte b)"
proof -
  have "\<forall>d\<in>set [0..<10]. ''0123456789'' ! d \<noteq> NUL" by code_simp
  then have d: "d < 10 \<Longrightarrow> ''0123456789'' ! d \<noteq> NUL" for d by auto
  have "unat b < 256" using unsigned_less [of b, where ?'a = nat] by simp
  then have "unat b div 100 < 10" by simp
  then show ?thesis
    using d [of "unat b"] d [of "unat b div 10"] d [of "unat b mod 10"] d [of "unat b div 100"] d [of "unat b div 10 mod 10"]
    unfolding dec_byte_def Let_def by (auto simp del: nth_Cons_numeral simp: not_less)
qed

text \<open>Each class prints its text.\<close>

definition class_printer :: "nat \<Rightarrow> text_frame \<Rightarrow> nat \<times> bytes \<Rightarrow> printer \<Rightarrow> printer option" where
  "class_printer len cf c p = do {
     p \<leftarrow> snprintf_at len (snd c) p;
     p \<leftarrow> (if fst c = 1 then snprintf_error_lostarb len cf p else Some p);
     p \<leftarrow> (if fst c = 2 then snprintf_error_ctrl len cf p else Some p);
     (if fst c = 3 then snprintf_error_prot len cf p else Some p)
   }"

lemma lostarb_prints: "prints len old (snprintf_error_lostarb len cf) (''{at bit '' @ dec_byte (tf_data cf ! 0) @ ''}'')"
proof -
  have "prints len old (snprintf_at len (''{at bit '' @ dec_byte (tf_data cf ! 0) @ ''}'')) (''{at bit '' @ dec_byte (tf_data cf ! 0) @ ''}'')"
    using dec_byte_plain by (intro prints_at) auto
  then show ?thesis using prints_unless snprintf_error_lostarb_def by presburger
qed

lemma ctrl_prints: "prints len old (snprintf_error_ctrl len cf) (''{'' @ bits_text (tf_data cf ! 1) controller_problems @ ''}'')"
proof -
  have "prints len old (\<lambda>p. snprintf_at len ''{'' p \<bind> (\<lambda>p. snprintf_error_data len (tf_data cf ! 1) controller_problems p \<bind> snprintf_at len ''}''))
      (''{'' @ bits_text (tf_data cf ! 1) controller_problems @ ''}'')"
    using names_plain names_length by (intro prints_bind prints_at error_data_prints) auto
  from prints_unless [OF this] show ?thesis unfolding snprintf_error_ctrl_def .
qed

lemma prot_prints:
  "prints len old (snprintf_error_prot len cf) (''{{'' @ bits_text (tf_data cf ! 2) protocol_violation_types @ ''}{'' @
     (if tf_data cf ! 3 > 0 \<and> unat (tf_data cf ! 3) < length protocol_violation_locations
      then protocol_violation_locations ! unat (tf_data cf ! 3) else []) @ ''}}'')"
proof -
  have loc: "prints len old (\<lambda>p. if c \<and> n < length protocol_violation_locations then snprintf_at len (protocol_violation_locations ! n) p else Some p)
      (if c \<and> n < length protocol_violation_locations then protocol_violation_locations ! n else [])" for c n
    using names_plain(3) prints_skip by (auto simp: fun_eq_iff intro!: prints_at)
  have "prints len old (\<lambda>p. snprintf_at len ''{{'' p \<bind> (\<lambda>p. snprintf_error_data len (tf_data cf ! 2) protocol_violation_types p \<bind>
      (\<lambda>p. snprintf_at len ''}{'' p \<bind> (\<lambda>p. (if tf_data cf ! 3 > 0 \<and> unat (tf_data cf ! 3) < length protocol_violation_locations
        then snprintf_at len (protocol_violation_locations ! unat (tf_data cf ! 3)) p else Some p) \<bind> snprintf_at len ''}}''))))
      (''{{'' @ bits_text (tf_data cf ! 2) protocol_violation_types @ ''}{'' @
        (if tf_data cf ! 3 > 0 \<and> unat (tf_data cf ! 3) < length protocol_violation_locations
         then protocol_violation_locations ! unat (tf_data cf ! 3) else []) @ ''}}'')"
    using names_plain names_length by (intro prints_bind prints_at error_data_prints loc) auto
  from prints_unless [OF this] show ?thesis unfolding snprintf_error_prot_def .
qed

lemma prints_when: "prints len old f s \<Longrightarrow> prints len old (\<lambda>p. if c then f p else Some p) (if c then s else [])"
  using prints_skip by (auto simp: fun_eq_iff)

lemma class_prints:
  assumes "snd c \<noteq> []" "NUL \<notin> set (snd c)"
  shows "prints len old (class_printer len cf c) (class_text cf c)"
proof -
  have "prints len old (class_printer len cf c) (snd c @ (if fst c = 1 then ''{at bit '' @ dec_byte (tf_data cf ! 0) @ ''}'' else []) @
      (if fst c = 2 then ''{'' @ bits_text (tf_data cf ! 1) controller_problems @ ''}'' else []) @
      (if fst c = 3 then ''{{'' @ bits_text (tf_data cf ! 2) protocol_violation_types @ ''}{'' @
        (if tf_data cf ! 3 > 0 \<and> unat (tf_data cf ! 3) < length protocol_violation_locations
         then protocol_violation_locations ! unat (tf_data cf ! 3) else []) @ ''}}'' else []))"
    unfolding class_printer_def
    by (intro prints_bind prints_when prints_at lostarb_prints ctrl_prints prot_prints assms)
  then show ?thesis by (auto simp: class_text_def)
qed

lemma masks: "i < 9 \<Longrightarrow> (push_bit i 1 = (2 :: 32 word)) = (i = 1) \<and> (push_bit i 1 = (4 :: 32 word)) = (i = 2) \<and>
    (push_bit i 1 = (8 :: 32 word)) = (i = 3)"
proof -
  have "\<forall>i\<in>set [0..<9]. (push_bit i 1 = (2 :: 32 word)) = (i = 1) \<and> (push_bit i 1 = (4 :: 32 word)) = (i = 2) \<and>
      (push_bit i 1 = (8 :: 32 word)) = (i = 3)" by code_simp
  then show "i < 9 \<Longrightarrow> ?thesis" by auto
qed

lemma error_class_loop_step:
  assumes "i < 9"
  shows "bit cls i \<Longrightarrow> error_class_loop len cf sep cls (c # cs) i 0 =
      (\<lambda>p. class_printer len cf (i, c) p \<bind> error_class_loop len cf sep cls cs (Suc i) 1)"
    and "bit cls i \<Longrightarrow> 0 < classes \<Longrightarrow> error_class_loop len cf sep cls (c # cs) i classes =
      (\<lambda>p. snprintf_at len sep p \<bind> (\<lambda>p. class_printer len cf (i, c) p \<bind> error_class_loop len cf sep cls cs (Suc i) (Suc classes)))"
    and "\<not> bit cls i \<Longrightarrow> error_class_loop len cf sep cls (c # cs) i classes = error_class_loop len cf sep cls cs (Suc i) classes"
  using flag_bit [of i cls] masks [OF assms] assms by (simp_all add: fun_eq_iff class_printer_def Let_def)

lemma error_class_loop_prints:
  assumes "sep \<noteq> []" "NUL \<notin> set sep"
  shows "i + length cs \<le> 9 \<Longrightarrow> \<forall>a\<in>set cs. a \<noteq> [] \<and> NUL \<notin> set a \<Longrightarrow>
     prints len old (error_class_loop len cf sep cls cs i classes)
       ((if classes = 0 then joined sep else separated sep) (map (class_text cf) (chosen cls cs i)))"
proof (induction cs arbitrary: i classes)
  case Nil
  have "error_class_loop len cf sep cls [] i classes = Some" by (rule ext) simp
  then show ?case using prints_skip by simp
next
  case (Cons c cs)
  have i: "i < 9" using Cons.prems(1) by simp
  note step = error_class_loop_step [OF i]
  have rest: "prints len old (error_class_loop len cf sep cls cs (Suc i) classes)
      ((if classes = 0 then joined sep else separated sep) (map (class_text cf) (chosen cls cs (Suc i))))" for classes
    using Cons by simp
  have a: "prints len old (class_printer len cf (i, c)) (class_text cf (i, c))" "prints len old (snprintf_at len sep) sep"
    using Cons.prems(2) assms by (auto intro: prints_at class_prints)
  show ?case
  proof (cases "bit cls i")
    case True
    then show ?thesis
      using prints_bind [OF a(1) rest [of 1]] prints_bind [OF a(2) prints_bind [OF a(1) rest [of "Suc classes"]]] step(1,2)
      by (cases "classes = 0") (simp_all del: error_class_loop.simps)
  next
    case False
    then show ?thesis using rest [of classes] step(3) by (simp del: error_class_loop.simps)
  qed
qed

lemma bind_snd: "(f \<bind> (\<lambda>p. g p \<bind> (\<lambda>p. Some (snd p)))) = map_option snd (f \<bind> g)"
proof (cases f)
  case (Some p)
  then show ?thesis by (cases "g p") simp_all
qed simp

lemma error_frame_prints:
  assumes "tf_id cf AND CAN_ERR_FLAG \<noteq> 0" "tf_id cf AND CAN_EFF_MASK \<le> 0x200" "length (error_text cf sep) < len"
    and "sep \<noteq> []" "NUL \<notin> set sep" "length buf = len"
  shows "\<exists>q. snprintf_can_error_frame buf len cf (Some sep) = Some (snd q) \<and> holds len buf (error_text cf sep) q"
proof -
  let ?f = "\<lambda>p. error_class_loop len cf sep (tf_id cf AND CAN_EFF_MASK) error_classes 0 0 p \<bind>
    (\<lambda>p. if tf_data cf ! 6 \<noteq> 0 \<or> tf_data cf ! 7 \<noteq> 0 then snprintf_at len sep p \<bind>
       snprintf_at len (''error-counter-tx-rx{{'' @ dec_byte (tf_data cf ! 6) @ ''}{'' @ dec_byte (tf_data cf ! 7) @ ''}}'') else Some p)"
  have "prints len buf (error_class_loop len cf sep (tf_id cf AND CAN_EFF_MASK) error_classes 0 0)
      (joined sep (map (class_text cf) (chosen (tf_id cf AND CAN_EFF_MASK) error_classes 0)))"
    using error_class_loop_prints [of sep 0 error_classes len buf cf _ 0] assms(4,5) names_plain names_length by simp
  then have p: "prints len buf ?f (error_text cf sep)"
    unfolding error_text_def using assms(4,5) dec_byte_plain by (intro prints_bind prints_when prints_at) auto
  have h: "holds len buf [] (0, buf)" using assms(6) by (simp add: holds_def)
  have "\<exists>q. ?f (0, buf) = Some q \<and> holds len buf ([] @ error_text cf sep) q"
    by (rule p [unfolded prints_def, rule_format]) (use h assms(3) in simp)
  then obtain q where q: "?f (0, buf) = Some q" "holds len buf (error_text cf sep) q" by auto
  have "snprintf_can_error_frame buf len cf (Some sep) = map_option snd (?f (0, buf))"
    using assms(1) leD [OF assms(2)] by (simp add: snprintf_can_error_frame_def names_length bind_snd Let_def)
  then have "snprintf_can_error_frame buf len cf (Some sep) = Some (snd q)" unfolding q(1) by simp
  then show ?thesis using q(2) by blast
qed

section \<open>Lemmas on the long format\<close>

lemma length_hex_blank [simp]: "length (hex_blank n w) = n"
proof -
  have "length (takeWhile (\<lambda>c. c = CHR ''0'') (butlast (hex_fixed n w))) \<le> n"
    by (rule le_trans [OF length_takeWhile_le]) simp
  then show ?thesis by (simp add: hex_blank_def Let_def)
qed

lemma hex_blank_plain [simp]: "NUL \<notin> set (hex_blank n w)"
  using hex_fixed_plain(1) [of n w] by (auto simp: hex_blank_def Let_def dest: in_set_dropD)

lemma printable_plain [simp]: "printable b \<noteq> NUL"
proof -
  have "char_of (unat b) \<noteq> NUL" if "b > 0x1F" "b < 0x7F"
  proof
    assume "char_of (unat b) = NUL"
    then have "of_char (char_of (unat b) :: char) = (0 :: nat)" by simp
    then show False using that by (simp add: word_less_nat_alt)
  qed
  then show ?thesis by (simp add: printable_def)
qed

lemma bin_text_facts: "length (bin_text b) = 8 \<and> NUL \<notin> set (bin_text b)"
  by (simp add: bin_text_def)

lemma long_data_text_facts:
  assumes "\<And>b. length (digits b) = d \<and> NUL \<notin> set (digits b)"
  shows "length (long_data_text digits swap bs) = Suc d * length bs \<and> NUL \<notin> set (long_data_text digits swap bs)"
proof -
  have len: "length (digits b) = d" and plain: "NUL \<notin> set (digits b)" for b using assms by simp_all
  show ?thesis using plain by (auto simp: long_data_text_def length_concat comp_def sum_list_triv len)
qed

lemma length_right_aligned: "length s \<le> w \<Longrightarrow> length (right_aligned w s) = w"
  by (simp add: right_aligned_def)

lemma long_tail_text_facts:
  assumes "length bs \<le> 8"
  shows "length (long_tail_text cf view dlen bs) \<le> dlen * (8 - length bs) + 13 \<and> NUL \<notin> set (long_tail_text cf view dlen bs)"
  using assms by (auto simp: long_tail_text_def Let_def length_right_aligned) (auto simp: right_aligned_def printable_plain [symmetric])

lemma long_canframe_text_facts: "length (long_canframe_text cf view) < 100 \<and> NUL \<notin> set (long_canframe_text cf view)"
proof -
  let ?bs = "take (frame_dlc cf) (tf_data cf)"
  let ?binary = "view AND CANLIB_VIEW_BINARY \<noteq> 0"
  let ?d = "if ?binary then 8 else 2 :: nat"
  have dlc: "frame_dlc cf \<le> 8" by (auto simp: frame_dlc_def word_less_nat_alt not_less)
  then have bs: "length ?bs \<le> 8" by simp
  have "\<forall>n\<in>set [0..<9]. ''0123456789'' ! n \<noteq> NUL" by code_simp
  then have digit: "''0123456789'' ! frame_dlc cf \<noteq> NUL" using dlc by auto
  have data: "length (long_data_text (if ?binary then bin_text else hex_fixed 2) swap ?bs) = Suc ?d * length ?bs \<and>
      NUL \<notin> set (long_data_text (if ?binary then bin_text else hex_fixed 2) swap ?bs)" for swap
    using bin_text_facts by (intro long_data_text_facts) simp
  have tail: "length (long_tail_text cf view (if ?binary then 9 else 3) ?bs) \<le> (if ?binary then 9 else 3) * (8 - length ?bs) + 13 \<and>
      NUL \<notin> set (long_tail_text cf view (if ?binary then 9 else 3) ?bs)"
    by (rule long_tail_text_facts [OF bs])
  have "Suc ?d * length ?bs + ((if ?binary then 9 else 3) * (8 - length ?bs) + 13) \<le> 85" using bs by auto
  then have "length (long_data_text (if ?binary then bin_text else hex_fixed 2) (view AND CANLIB_VIEW_SWAP \<noteq> 0) ?bs @
      long_tail_text cf view (if ?binary then 9 else 3) ?bs) \<le> 85"
    using data [of "view AND CANLIB_VIEW_SWAP \<noteq> 0"] tail by (simp only: length_append) linarith
  then show ?thesis using data tail digit unfolding long_canframe_text_def Let_def by simp
qed

section \<open>Positions\<close>

text \<open>Where the operations write depends only on the position, not on what the buffer holds.\<close>

definition same_place :: "printer \<Rightarrow> printer \<Rightarrow> bool" where
  "same_place p q \<longleftrightarrow> fst p = fst q \<and> length (snd p) = length (snd q)"

definition placed :: "(printer \<Rightarrow> printer option) \<Rightarrow> bool" where
  "placed f \<longleftrightarrow> (\<forall>p q. same_place p q \<longrightarrow> rel_option same_place (f p) (f q))"

lemma placed_skip: "placed Some"
  by (simp add: placed_def)

lemma placed_at: "placed (snprintf_at len s)"
  by (auto simp: placed_def same_place_def snprintf_at_def buf_blit_def split: if_splits)

lemma placed_bind: "placed f \<Longrightarrow> placed g \<Longrightarrow> placed (\<lambda>p. f p \<bind> g)"
  unfolding placed_def
proof (intro allI impI)
  fix p q assume h: "\<forall>p q. same_place p q \<longrightarrow> rel_option same_place (f p) (f q)"
    "\<forall>p q. same_place p q \<longrightarrow> rel_option same_place (g p) (g q)" "same_place p q"
  then have "rel_option same_place (f p) (f q)" by blast
  then show "rel_option same_place (f p \<bind> g) (f q \<bind> g)" using h(2) by cases auto
qed

lemma placed_if: "placed f \<Longrightarrow> placed g \<Longrightarrow> placed (\<lambda>p. if c then f p else g p)"
  by (cases c) simp_all

lemma placed_unless: "placed f \<Longrightarrow> placed (\<lambda>p. if fst p = len then Some p else f p)"
  by (auto simp: placed_def same_place_def)

lemmas placed_rules = placed_bind placed_if placed_unless placed_at placed_skip

lemma placed_data_loop: "placed (error_data_loop len err names i count)"
proof (induction names arbitrary: i count)
  case Nil
  have "error_data_loop len err [] i count = Some" by (rule ext) simp
  then show ?case using placed_skip by simp
next
  case (Cons a names)
  have "error_data_loop len err (a # names) i count = (\<lambda>p. if err AND push_bit i 1 \<noteq> 0
      then (if count \<noteq> 0 then snprintf_at len '','' p else Some p) \<bind>
        (\<lambda>p. snprintf_at len a p \<bind> error_data_loop len err names (Suc i) (Suc count))
      else error_data_loop len err names (Suc i) count p)"
    by (rule ext) (simp only: error_data_loop.simps)
  then show ?case by (simp only:) (intro placed_rules Cons)
qed

lemma placed_parts:
  "placed (snprintf_error_data len err names)" "placed (snprintf_error_lostarb len cf)"
  "placed (snprintf_error_ctrl len cf)" "placed (snprintf_error_prot len cf)"
proof -
  have "snprintf_error_data len err names = (\<lambda>p. if err = 0 then Some p else if fst p = len then Some p else error_data_loop len err names 0 0 p)"
    for err names by (auto simp: snprintf_error_data_def fun_eq_iff)
  then have data: "placed (snprintf_error_data len err names)" for err names
    using placed_if [OF placed_skip placed_unless [OF placed_data_loop]] by presburger
  show "placed (snprintf_error_data len err names)" by (rule data)
  show "placed (snprintf_error_lostarb len cf)" unfolding snprintf_error_lostarb_def by (intro placed_rules)
  show "placed (snprintf_error_ctrl len cf)" unfolding snprintf_error_ctrl_def by (intro placed_rules data)
  show "placed (snprintf_error_prot len cf)" unfolding snprintf_error_prot_def by (intro placed_rules data)
qed

lemma placed_class_loop: "placed (error_class_loop len cf sep cls cs i classes)"
proof (induction cs arbitrary: i classes)
  case Nil
  have "error_class_loop len cf sep cls [] i classes = Some" by (rule ext) simp
  then show ?case using placed_skip by simp
next
  case (Cons c cs)
  have "error_class_loop len cf sep cls (c # cs) i classes = (\<lambda>p. if cls AND push_bit i 1 \<noteq> 0
      then (if classes \<noteq> 0 then snprintf_at len sep p else Some p) \<bind> (\<lambda>p. snprintf_at len c p \<bind>
        (\<lambda>p. (if push_bit i 1 = (2 :: 32 word) then snprintf_error_lostarb len cf p else Some p) \<bind>
        (\<lambda>p. (if push_bit i 1 = (4 :: 32 word) then snprintf_error_ctrl len cf p else Some p) \<bind>
        (\<lambda>p. (if push_bit i 1 = (8 :: 32 word) then snprintf_error_prot len cf p else Some p) \<bind>
        error_class_loop len cf sep cls cs (Suc i) (Suc classes)))))
      else error_class_loop len cf sep cls cs (Suc i) classes p)"
    by (rule ext) (simp only: error_class_loop.simps Let_def)
  then show ?case by (simp only:) (intro placed_rules placed_parts Cons)
qed

lemma rel_option_None: "rel_option R x y \<Longrightarrow> x = None \<longleftrightarrow> y = None"
  by (cases x; cases y) simp_all

lemma error_frame_place:
  assumes "length buf = length buf'"
  shows "snprintf_can_error_frame buf len cf sep = None \<longleftrightarrow> snprintf_can_error_frame buf' len cf sep = None"
proof -
  let ?f = "\<lambda>s. \<lambda>p. error_class_loop len cf s (tf_id cf AND CAN_EFF_MASK) error_classes 0 0 p \<bind>
    (\<lambda>p. if tf_data cf ! 6 \<noteq> 0 \<or> tf_data cf ! 7 \<noteq> 0 then snprintf_at len s p \<bind>
       snprintf_at len (''error-counter-tx-rx{{'' @ dec_byte (tf_data cf ! 6) @ ''}{'' @ dec_byte (tf_data cf ! 7) @ ''}}'') else Some p)"
  have "placed (?f s)" for s by (intro placed_rules placed_class_loop)
  moreover have "same_place (0, buf) (0, buf')" using assms by (simp add: same_place_def)
  ultimately have "rel_option same_place (?f s (0, buf)) (?f s (0, buf'))" for s by (simp add: placed_def)
  then have "?f s (0, buf) = None \<longleftrightarrow> ?f s (0, buf') = None" for s by (rule rel_option_None)
  then show ?thesis by (auto simp: snprintf_can_error_frame_def bind_snd Let_def split: option.splits)
qed

section \<open>Properties\<close>

text \<open>
  C32. The compact format reads back: the text of every frame that has one, with or without separators,
  is parsed to that frame, whatever follows the text in memory; and printing it never leaves the
  buffer.
\<close>

theorem canframe_roundtrip:
  assumes "canonical_frame cf" "34 \<le> length junk"
  shows "parse_canframe (canframe_text cf sep @ NUL # rest) = Some (0, cf) \<and>
    fprint_canframe junk cf (Some eol) sep = Some (canframe_text cf sep @ eol)"
proof
  let ?w = "tf_id cf"
  let ?t = "if bit ?w 30 then ''R'' else data_text sep (take (frame_dlc cf) (tf_data cf))"
  note flag = flag_bit [of 29 ?w] flag_bit [of 30 ?w] flag_bit [of 31 ?w]
  have rest: "parse_rest ?t (zero_frame\<lparr>tf_id := ident\<rparr>) = (0, cf\<lparr>tf_id := ident OR (if bit ?w 30 then CAN_RTR_FLAG else 0)\<rparr>)" for ident
    using assms(1) flag by (intro parse_rest_text) (simp_all add: canonical_frame_def)
  have plain: "NUL \<notin> set ?t" using plain_text [of cf sep] flag by (simp add: canframe_text_def split: if_splits)
  consider (err) "bit ?w 29" "?w AND (CAN_RTR_FLAG OR CAN_EFF_FLAG) = 0"
    | (eff) "\<not> bit ?w 29" "?w AND CAN_EFF_FLAG \<noteq> 0"
    | (sff) "\<not> bit ?w 29" "?w AND CAN_EFF_FLAG = 0" "?w AND NOT (CAN_SFF_MASK OR CAN_RTR_FLAG) = 0"
    using assms(1) flag by (auto simp: canonical_frame_def split: if_splits)
  then show "parse_canframe (canframe_text cf sep @ NUL # rest) = Some (0, cf)"
  proof cases
    case err
    then have "canframe_text cf sep = hex_fixed 8 ?w @ CHR ''#'' # ?t"
      using flag identifiers(1) by (simp add: canframe_text_def)
    then show ?thesis using parse_eight [OF plain, of ?w] rest [of ?w] err identifiers(1) by simp
  next
    case eff
    then have "canframe_text cf sep = hex_fixed 8 (?w AND CAN_EFF_MASK) @ CHR ''#'' # ?t"
      using flag by (simp add: canframe_text_def)
    then show ?thesis
      using parse_eight [OF plain, of "?w AND CAN_EFF_MASK"] rest [of "(?w AND CAN_EFF_MASK) OR CAN_EFF_FLAG"]
        identifiers(2) [OF eff(2,1)] by simp
  next
    case sff
    then have "canframe_text cf sep = hex_fixed 3 (?w AND CAN_SFF_MASK) @ CHR ''#'' # ?t"
      using flag by (simp add: canframe_text_def)
    then show ?thesis
      using parse_three [OF plain, of "?w AND CAN_SFF_MASK"] rest [of "take_bit 12 (?w AND CAN_SFF_MASK)"]
        identifiers(3) [OF sff(3)] by simp
  qed
  show "fprint_canframe junk cf (Some eol) sep = Some (canframe_text cf sep @ eol)"
    using assms(2) length_canframe_text [of cf sep] plain_text [of cf sep]
    by (simp add: fprint_canframe_def sprint_canframe_def buf_blit_def)
qed

theorem canframe_roundtrip_witness:
  "parse_canframe (''123#11.22.33'' @ [NUL]) = Some (0, \<lparr>tf_id = 0x123, tf_dlc = 3, tf_data = [0x11, 0x22, 0x33, 0, 0, 0, 0, 0]\<rparr>)"
proof -
  let ?cf = "\<lparr>tf_id = 0x123, tf_dlc = 3, tf_data = [0x11, 0x22, 0x33, 0, 0, 0, 0, 0]\<rparr>"
  have c: "canonical_frame ?cf" by code_simp
  have t: "canframe_text ?cf True = ''123#11.22.33''" by code_simp
  from canframe_roundtrip [OF c, of "replicate 34 NUL" True "[]"] t show ?thesis by simp
qed

text \<open>An error frame with every error of the controller and of the protocol.\<close>

definition crowded_frame :: text_frame where
  "crowded_frame = \<lparr>tf_id = 0x2000000F, tf_dlc = 8, tf_data = [0, 0x3F, 0xFF, 2, 0, 0, 0, 0]\<rparr>"

lemma crowded_overflows: "snprintf_can_error_frame (replicate 256 NUL) 256 crowded_frame (Some [newline, CHR 0x09]) = None"
  by code_simp

text \<open>
  C33. The description of an error frame whose text is shorter than the buffer of 256 bytes is printed
  completely behind the frame, except that a frame without any error has the frame printed again in the place of the
  description. A frame with many errors at once makes the printer write behind the buffer.
\<close>

theorem error_frame_printed:
  assumes "tf_id cf AND CAN_ERR_FLAG \<noteq> 0" "tf_id cf AND CAN_EFF_MASK \<le> 0x200" "view AND CANLIB_VIEW_ERROR \<noteq> 0"
    and "MAX_LONG_CANFRAME_SIZE \<le> length junk"
  shows "(length (error_text cf [newline, CHR 0x09]) < MAX_LONG_CANFRAME_SIZE \<longrightarrow>
      fprint_long_canframe junk cf (Some eol) view =
        Some (long_canframe_text cf view @ [newline, CHR 0x09] @
          (if error_text cf [newline, CHR 0x09] = [] then long_canframe_text cf view else error_text cf [newline, CHR 0x09]) @ eol)) \<and>
     fprint_long_canframe junk crowded_frame (Some eol) view = None"
proof -
  let ?sep = "[newline, CHR 0x09]"
  have printed: "\<exists>buf. sprint_long_canframe (take 256 junk) f view = Some buf \<and> length buf = 256 \<and> cstr buf = long_canframe_text f view" for f
    using long_canframe_text_facts [of f view] assms(4) by (simp add: sprint_long_canframe_def buf_blit_def)
  obtain buf where buf: "sprint_long_canframe (take 256 junk) cf view = Some buf" "length buf = 256" "cstr buf = long_canframe_text cf view"
    using printed by blast
  have "fprint_long_canframe junk cf (Some eol) view = Some (long_canframe_text cf view @ ?sep @
      (if error_text cf ?sep = [] then long_canframe_text cf view else error_text cf ?sep) @ eol)" if short: "length (error_text cf ?sep) < 256"
  proof -
    obtain q where q: "snprintf_can_error_frame buf 256 cf (Some ?sep) = Some (snd q)" "holds 256 buf (error_text cf ?sep) q"
      using error_frame_prints [OF assms(1,2) short _ _ buf(2)] by auto
    have "cstr (snd q) = (if error_text cf ?sep = [] then long_canframe_text cf view else error_text cf ?sep)"
      using q(2) buf(3) by (auto simp: holds_def split: if_splits)
    then show ?thesis using buf q(1) assms(1,3) by (simp add: fprint_long_canframe_def)
  qed
  moreover obtain b where b: "sprint_long_canframe (take 256 junk) crowded_frame view = Some b" "length b = 256" using printed by blast
  have "snprintf_can_error_frame b 256 crowded_frame (Some ?sep) = None"
    using error_frame_place [of b "replicate 256 NUL"] b(2) crowded_overflows by simp
  then have "fprint_long_canframe junk crowded_frame (Some eol) view = None"
    using b(1) assms(3) by (simp add: fprint_long_canframe_def crowded_frame_def)
  ultimately show ?thesis by blast
qed

theorem error_frame_printed_witness:
  "fprint_long_canframe (replicate 256 NUL) \<lparr>tf_id = 0x20000001, tf_dlc = 1, tf_data = [7, 0, 0, 0, 0, 0, 0, 0]\<rparr> (Some []) 8 =
     Some (''20000001  [1] 07                        ERRORFRAME'' @ [newline, CHR 0x09] @ ''tx-timeout'')"
proof -
  let ?cf = "\<lparr>tf_id = 0x20000001, tf_dlc = 1, tf_data = [7, 0, 0, 0, 0, 0, 0, 0]\<rparr>"
  have e: "error_text ?cf [newline, CHR 0x09] = ''tx-timeout''" by code_simp
  have l: "long_canframe_text ?cf 8 = ''20000001  [1] 07                        ERRORFRAME''" by code_simp
  have "(0x20000001 :: 32 word) AND 0x1FFFFFFF \<le> 0x200" by simp
  then show ?thesis using error_frame_printed [of ?cf 8 "replicate 256 NUL" "[]"] e l by simp
qed

end
