(* ===== verification/Minmea.thy ===== *)
theory Minmea
  imports Single_Float C_Prelude "HOL-Library.Word" "HOL-Library.Signed_Division"
begin

unbundle bit_operations_syntax

text \<open>
  The parser of NMEA sentences (\<open>plugins/pip/gps/minmea/minmea.c\<close> and \<open>minmea.h\<close>) as far as the GPS
  receiver uses it: the check of a sentence, the scanner for its fields, the parsers of RMC and GGA
  sentences, and the conversion of coordinates. A sentence is the bytes of a buffer, of which the code
  reads those before the first NUL. \<open>None\<close> is undefined behaviour: the overflow of a 32 bit integer.
\<close>

section \<open>Checking a sentence\<close>

definition isprint :: "char \<Rightarrow> bool" where
  "isprint c \<longleftrightarrow> 32 \<le> char_code c \<and> char_code c \<le> 126"

definition hex2int :: "char \<Rightarrow> int" where
  "hex2int c =
     (if 48 \<le> char_code c \<and> char_code c \<le> 57 then char_code c - 48
      else if 65 \<le> char_code c \<and> char_code c \<le> 70 then char_code c - 65 + 10
      else if 97 \<le> char_code c \<and> char_code c \<le> 102 then char_code c - 97 + 10
      else - 1)"

definition xor_bytes :: "bytes \<Rightarrow> 8 word" where
  "xor_bytes s = foldl (\<lambda>checksum c. checksum XOR of_char c) 0 s"

definition minmea_checksum :: "bytes \<Rightarrow> 8 word" where
  "minmea_checksum sentence =
     (let s = cstr sentence;
          s = (if chr_at s = CHR ''$'' then tl s else s)
      in xor_bytes (takeWhile (\<lambda>c. c \<noteq> CHR ''*'') s))"

abbreviation (input) MINMEA_MAX_LENGTH :: nat where "MINMEA_MAX_LENGTH \<equiv> 80"

text \<open>The characters between the dollar sign and the asterisk, and what may stand at the end.\<close>

definition body_char :: "char \<Rightarrow> bool" where
  "body_char c \<longleftrightarrow> c \<noteq> CHR ''*'' \<and> isprint c"

definition line_end :: "bytes \<Rightarrow> bool" where
  "line_end s \<longleftrightarrow> s = [] \<or> s = [CHR 0x0A] \<or> s = [CHR 0x0D, CHR 0x0A]"

definition minmea_check :: "bytes \<Rightarrow> bool \<Rightarrow> bool" where
  "minmea_check sentence strict =
     (let s = cstr sentence
      in if MINMEA_MAX_LENGTH + 3 < length s then False
         else if chr_at s \<noteq> CHR ''$'' then False
         else let checksum = xor_bytes (takeWhile body_char (tl s));
                  s = dropWhile body_char (tl s)
              in if chr_at s = CHR ''*'' then
                   (let upper = hex2int (chr_at (drop 1 s))
                    in if upper = - 1 then False
                       else let lower = hex2int (chr_at (drop 2 s))
                            in if lower = - 1 then False
                               else if uint checksum \<noteq> (push_bit 4 upper OR lower) then False
                               else line_end (drop 3 s))
                 else if strict then False
                 else line_end s)"

section \<open>Scanning the fields\<close>

definition minmea_isfield :: "char \<Rightarrow> bool" where
  "minmea_isfield c \<longleftrightarrow> isprint c \<and> c \<noteq> CHR '','' \<and> c \<noteq> CHR ''*''"

record minmea_float =
  mf_value :: int
  mf_scale :: int

text \<open>What a format character stores through its pointer.\<close>

datatype scan_arg =
    ArgChar char
  | ArgInt int
  | ArgFloat minmea_float
  | ArgText bytes
  | ArgDate int int int
  | ArgTime int int int int

text \<open>The loop of a fractional field over \<open>sign\<close>, \<open>value\<close> and \<open>scale\<close>, a character at a time. The outer option is undefined
  behaviour, the inner one a parse error.\<close>

abbreviation (input) INT_LEAST32_MAX :: int where "INT_LEAST32_MAX \<equiv> 2147483647"

datatype float_step = FloatNext int int int | FloatStop int int int | FloatError | FloatOverflow

definition float_char :: "char \<Rightarrow> int \<Rightarrow> int \<Rightarrow> int \<Rightarrow> float_step" where
  "float_char c sign val scale =
     (if c = CHR ''+'' \<and> sign = 0 \<and> val = - 1 then FloatNext 1 val scale
      else if c = CHR ''-'' \<and> sign = 0 \<and> val = - 1 then FloatNext (- 1) val scale
      else if isdigit c then
        (let digit = digit_val c;
             v = (if val = - 1 then 0 else val)
         in if v > (INT_LEAST32_MAX - digit) div 10 then
              (if scale \<noteq> 0 then FloatStop sign v scale else FloatError)
            else if scale = 0 then FloatNext sign (10 * v + digit) 0
            else if INT_LEAST32_MAX < scale * 10 then FloatOverflow
            else FloatNext sign (10 * v + digit) (scale * 10))
      else if c = CHR ''.'' \<and> scale = 0 then FloatNext sign val 1
      else if c = CHR '' '' then
        (if sign \<noteq> 0 \<or> val \<noteq> - 1 \<or> scale \<noteq> 0 then FloatError else FloatNext sign val scale)
      else FloatError)"

primrec float_loop :: "bytes \<Rightarrow> int \<Rightarrow> int \<Rightarrow> int \<Rightarrow> (int \<times> int \<times> int) option option" where
  "float_loop [] sign val scale = Some (Some (sign, val, scale))"
| "float_loop (c # field) sign val scale =
     (if \<not> minmea_isfield c then Some (Some (sign, val, scale))
      else case float_char c sign val scale of
          FloatNext sign val scale \<Rightarrow> float_loop field sign val scale
        | FloatStop sign val scale \<Rightarrow> Some (Some (sign, val, scale))
        | FloatError \<Rightarrow> Some None
        | FloatOverflow \<Rightarrow> None)"

definition scan_float :: "bytes option \<Rightarrow> minmea_float option option" where
  "scan_float field = do {
     res \<leftarrow> (case field of None \<Rightarrow> Some (Some (0, - 1, 0)) | Some f \<Rightarrow> float_loop f 0 (- 1) 0);
     Some (case res of
         None \<Rightarrow> None
       | Some (sign, val, scale) \<Rightarrow>
           if (sign \<noteq> 0 \<or> scale \<noteq> 0) \<and> val = - 1 then None
           else (let (val, scale) = (if val = - 1 then (0, 0) else if scale = 0 then (val, 1) else (val, scale))
                 in Some \<lparr>mf_value = (if sign \<noteq> 0 then val * sign else val), mf_scale = scale\<rparr>))
   }"

definition scan_direction :: "bytes option \<Rightarrow> int option" where
  "scan_direction field =
     (case field of
        None \<Rightarrow> Some 0
      | Some f \<Rightarrow>
          if minmea_isfield (chr_at f) then
            (if chr_at f = CHR ''N'' \<or> chr_at f = CHR ''E'' then Some 1
             else if chr_at f = CHR ''S'' \<or> chr_at f = CHR ''W'' then Some (- 1)
             else None)
          else Some 0)"

text \<open>Where \<open>strtol\<close> stops: behind the digits, or at the start when there are none.\<close>

definition strtol_end :: "bytes \<Rightarrow> bytes" where
  "strtol_end s =
     (let t = dropWhile isspace s;
          u = (if chr_at t = CHR ''-'' \<or> chr_at t = CHR ''+'' then tl t else t)
      in if isdigit (chr_at u) then dropWhile isdigit u else s)"

definition scan_int :: "bytes option \<Rightarrow> int option" where
  "scan_int field =
     (case field of
        None \<Rightarrow> Some 0
      | Some f \<Rightarrow> if minmea_isfield (chr_at (strtol_end f)) then None else Some (atoi f))"

definition two_digits :: "bytes \<Rightarrow> int" where
  "two_digits s = strtol10 (take 2 s)"

definition six_digits :: "bytes \<Rightarrow> bool" where
  "six_digits s \<longleftrightarrow> 6 \<le> length s \<and> list_all isdigit (take 6 s)"

definition scan_date :: "bytes option \<Rightarrow> scan_arg option" where
  "scan_date field =
     (case field of
        None \<Rightarrow> Some (ArgDate (- 1) (- 1) (- 1))
      | Some f \<Rightarrow>
          if \<not> minmea_isfield (chr_at f) then Some (ArgDate (- 1) (- 1) (- 1))
          else if \<not> six_digits f then None
          else Some (ArgDate (two_digits f) (two_digits (drop 2 f)) (two_digits (drop 4 f))))"

text \<open>The fraction of a second: at most six digits are used.\<close>

primrec micro_loop :: "bytes \<Rightarrow> 32 word \<Rightarrow> 32 word \<Rightarrow> 32 word" where
  "micro_loop [] val scale = val * scale"
| "micro_loop (c # field) val scale =
     (if isdigit c \<and> scale > 1 then micro_loop field (val * 10 + of_int (digit_val c)) (scale div 10) else val * scale)"

definition scan_time :: "bytes option \<Rightarrow> scan_arg option" where
  "scan_time field =
     (case field of
        None \<Rightarrow> Some (ArgTime (- 1) (- 1) (- 1) (- 1))
      | Some f \<Rightarrow>
          if \<not> minmea_isfield (chr_at f) then Some (ArgTime (- 1) (- 1) (- 1) (- 1))
          else if \<not> six_digits f then None
          else Some (ArgTime (two_digits f) (two_digits (drop 2 f)) (two_digits (drop 4 f))
                 (if chr_at (drop 6 f) = CHR ''.'' then sint (micro_loop (drop 7 f) 0 1000000) else 0)))"

definition scan_type :: "bytes option \<Rightarrow> bytes option" where
  "scan_type field =
     (case field of
        None \<Rightarrow> None
      | Some f \<Rightarrow>
          if chr_at f = CHR ''$'' \<and> 6 \<le> length f \<and> list_all minmea_isfield (take 5 (drop 1 f))
          then Some (take 5 (drop 1 f)) else None)"

text \<open>One format character but the semicolon: what it stores, nothing for the underscore. The outer
  option is undefined behaviour, the inner one a parse error.\<close>

definition scan_field :: "char \<Rightarrow> bytes option \<Rightarrow> scan_arg list option option" where
  "scan_field ty field =
     (if ty = CHR ''c'' then
        Some (Some [ArgChar (case field of None \<Rightarrow> NUL | Some f \<Rightarrow> if minmea_isfield (chr_at f) then chr_at f else NUL)])
      else if ty = CHR ''d'' then Some (map_option (\<lambda>v. [ArgInt v]) (scan_direction field))
      else if ty = CHR ''f'' then map_option (map_option (\<lambda>v. [ArgFloat v])) (scan_float field)
      else if ty = CHR ''i'' then Some (map_option (\<lambda>v. [ArgInt v]) (scan_int field))
      else if ty = CHR ''s'' then
        Some (Some [ArgText (case field of None \<Rightarrow> [] | Some f \<Rightarrow> takeWhile minmea_isfield f)])
      else if ty = CHR ''t'' then Some (map_option (\<lambda>v. [ArgText v]) (scan_type field))
      else if ty = CHR ''D'' then Some (map_option (\<lambda>v. [v]) (scan_date field))
      else if ty = CHR ''T'' then Some (map_option (\<lambda>v. [v]) (scan_time field))
      else if ty = CHR ''_'' then Some (Some [])
      else Some None)"

definition next_field :: "bytes \<Rightarrow> bytes \<times> bytes option" where
  "next_field sentence =
     (let s = dropWhile minmea_isfield sentence
      in if chr_at s = CHR '','' then (tl s, Some (tl s)) else (s, None))"

fun scan_loop :: "bytes \<Rightarrow> bytes \<Rightarrow> bytes option \<Rightarrow> bool \<Rightarrow> scan_arg list option option" where
  "scan_loop [] sentence field optional = Some (Some [])"
| "scan_loop (ty # format) sentence field optional =
     (if ty = CHR '';'' then scan_loop format sentence field True
      else if field = None \<and> \<not> optional then Some None
      else do {
        res \<leftarrow> scan_field ty field;
        (case res of
           None \<Rightarrow> Some None
         | Some as \<Rightarrow>
             let (sentence, field) = next_field sentence
             in map_option (map_option (\<lambda>bs. as @ bs)) (scan_loop format sentence field optional))
      })"

text \<open>\<open>minmea_scan\<close>: all stored values when it succeeds. What a failing scan has stored before is not
  read by any caller.\<close>

definition minmea_scan :: "bytes \<Rightarrow> bytes \<Rightarrow> scan_arg list option option" where
  "minmea_scan sentence format = scan_loop format (cstr sentence) (Some (cstr sentence)) False"

section \<open>Sentences\<close>

datatype minmea_sentence_id =
    MINMEA_INVALID | MINMEA_UNKNOWN | MINMEA_SENTENCE_RMC | MINMEA_SENTENCE_GGA | MINMEA_SENTENCE_GSA
  | MINMEA_SENTENCE_GLL | MINMEA_SENTENCE_GST | MINMEA_SENTENCE_GSV | MINMEA_SENTENCE_VTG | MINMEA_SENTENCE_ZDA

definition minmea_sentence_id :: "bytes \<Rightarrow> bool \<Rightarrow> minmea_sentence_id" where
  "minmea_sentence_id sentence strict =
     (if \<not> minmea_check sentence strict then MINMEA_INVALID
      else case minmea_scan sentence ''t'' of
          Some (Some [ArgText ty]) \<Rightarrow>
            (let t = drop 2 ty
             in if t = ''RMC'' then MINMEA_SENTENCE_RMC
                else if t = ''GGA'' then MINMEA_SENTENCE_GGA
                else if t = ''GSA'' then MINMEA_SENTENCE_GSA
                else if t = ''GLL'' then MINMEA_SENTENCE_GLL
                else if t = ''GST'' then MINMEA_SENTENCE_GST
                else if t = ''GSV'' then MINMEA_SENTENCE_GSV
                else if t = ''VTG'' then MINMEA_SENTENCE_VTG
                else if t = ''ZDA'' then MINMEA_SENTENCE_ZDA
                else MINMEA_UNKNOWN)
        | _ \<Rightarrow> MINMEA_INVALID)"

record minmea_sentence_rmc =
  rmc_time :: scan_arg
  rmc_valid :: bool
  rmc_latitude :: minmea_float
  rmc_longitude :: minmea_float
  rmc_speed :: minmea_float
  rmc_course :: minmea_float
  rmc_date :: scan_arg
  rmc_variation :: minmea_float

record minmea_sentence_gga =
  gga_time :: scan_arg
  gga_latitude :: minmea_float
  gga_longitude :: minmea_float
  gga_fix_quality :: int
  gga_satellites_tracked :: int
  gga_hdop :: minmea_float
  gga_altitude :: minmea_float
  gga_altitude_units :: char
  gga_height :: minmea_float
  gga_height_units :: char
  gga_dgps_age :: minmea_float

definition directed :: "minmea_float \<Rightarrow> int \<Rightarrow> minmea_float" where
  "directed f d = f\<lparr>mf_value := mf_value f * d\<rparr>"

definition minmea_parse_rmc :: "bytes \<Rightarrow> minmea_sentence_rmc option option" where
  "minmea_parse_rmc sentence = do {
     res \<leftarrow> minmea_scan sentence ''tTcfdfdffDfd'';
     Some (case res of
         Some [ArgText ty, time, ArgChar validity, ArgFloat lat, ArgInt lat_dir, ArgFloat lon, ArgInt lon_dir,
               ArgFloat speed, ArgFloat course, date, ArgFloat variation, ArgInt var_dir] \<Rightarrow>
           (if drop 2 ty \<noteq> ''RMC'' then None
            else Some \<lparr>rmc_time = time, rmc_valid = (validity = CHR ''A''), rmc_latitude = directed lat lat_dir,
              rmc_longitude = directed lon lon_dir, rmc_speed = speed, rmc_course = course, rmc_date = date,
              rmc_variation = directed variation var_dir\<rparr>)
       | _ \<Rightarrow> None)
   }"

definition minmea_parse_gga :: "bytes \<Rightarrow> minmea_sentence_gga option option" where
  "minmea_parse_gga sentence = do {
     res \<leftarrow> minmea_scan sentence ''tTfdfdiiffcfcf_'';
     Some (case res of
         Some [ArgText ty, time, ArgFloat lat, ArgInt lat_dir, ArgFloat lon, ArgInt lon_dir, ArgInt quality, ArgInt sats,
               ArgFloat hdop, ArgFloat altitude, ArgChar altitude_units, ArgFloat height, ArgChar height_units, ArgFloat age] \<Rightarrow>
           (if drop 2 ty \<noteq> ''GGA'' then None
            else Some \<lparr>gga_time = time, gga_latitude = directed lat lat_dir, gga_longitude = directed lon lon_dir,
              gga_fix_quality = quality, gga_satellites_tracked = sats, gga_hdop = hdop, gga_altitude = altitude,
              gga_altitude_units = altitude_units, gga_height = height, gga_height_units = height_units, gga_dgps_age = age\<rparr>)
       | _ \<Rightarrow> None)
   }"

text \<open>A coordinate in degrees: \<open>Some None\<close> is the not-a-number of an unknown value. The operands are
  truncated towards zero, and the last division and addition are in single precision.\<close>

definition minmea_tocoord :: "minmea_float \<Rightarrow> rat option option" where
  "minmea_tocoord f =
     (if mf_scale f = 0 then Some None
      else if INT_LEAST32_MAX < mf_scale f * 100 then None
      else let degrees = mf_value f sdiv (mf_scale f * 100);
               minutes = mf_value f smod (mf_scale f * 100)
           in Some (Some (float_round (float_round (of_int degrees) +
                float_round (float_round (of_int minutes) / float_round (of_int (60 * mf_scale f)))))))"

section \<open>Lemmas on the check\<close>

lemma xor_bytes_from: "foldl (\<lambda>checksum c. checksum XOR of_char c) w s = w XOR xor_bytes s"
proof (induction s arbitrary: w)
  case (Cons c s)
  show ?case
    using Cons [of "w XOR of_char c"] Cons [of "0 XOR of_char c"] by (simp add: xor_bytes_def xor.assoc)
qed (simp add: xor_bytes_def)

lemma xor_bytes_simps [simp]:
  "xor_bytes [] = 0"
  "xor_bytes (c # s) = of_char c XOR xor_bytes s"
  using xor_bytes_from [of "of_char c" s] by (simp_all add: xor_bytes_def)

lemma xor_bytes_append: "xor_bytes (a @ b) = xor_bytes a XOR xor_bytes b"
  by (induction a) (simp_all add: xor.assoc)

lemma byte_of_char_inj: "(of_char c :: 8 word) = of_char d \<longleftrightarrow> c = d"
proof
  assume eq: "(of_char c :: 8 word) = of_char d"
  have u: "unat (of_char x :: 8 word) = of_char x" for x
  proof -
    have "unat (of_char x :: 8 word) = unat (of_nat (of_char x) :: 8 word)" by (simp only: of_nat_of_char)
    also have "\<dots> = of_char x mod 256" by (simp only: unat_of_nat take_bit_eq_mod) simp
    also have "\<dots> = of_char x" by (rule of_char_mod_256)
    finally show ?thesis .
  qed
  from arg_cong [OF eq, of unat] have "(of_char c :: nat) = of_char d" unfolding u .
  then show "c = d" by (simp only: of_char_eq_iff)
qed simp

lemma hex2int_range: "hex2int c = - 1 \<or> 0 \<le> hex2int c \<and> hex2int c < 16"
  by (auto simp: hex2int_def)

lemma nibbles:
  assumes "0 \<le> l" "l < 16"
  shows "push_bit 4 h OR l = 16 * h + (l :: int)"
proof -
  have "take_bit 4 l = l" using assms by (simp add: take_bit_int_eq_self_iff)
  then have low: "bit l n \<Longrightarrow> n < 4" for n by (metis bit_take_bit_iff)
  have "push_bit 4 h + l = push_bit 4 h OR l"
    by (rule disjunctive_add) (auto simp: bit_push_bit_iff dest: low)
  then show ?thesis by (simp add: push_bit_eq_mult)
qed

text \<open>A sentence as the standard describes it: a dollar sign, printable characters, an asterisk, the
  exclusive or of the characters in hexadecimal, and the end of a line. The check value may be missing
  when the check is not strict.\<close>

definition nmea_sentence :: "bool \<Rightarrow> bytes \<Rightarrow> bool" where
  "nmea_sentence strict s \<longleftrightarrow> length s \<le> 83 \<and>
     (\<exists>body tail. s = CHR ''$'' # body @ tail \<and> list_all body_char body \<and>
        ((\<exists>h l e. tail = CHR ''*'' # h # l # e \<and> hex2int h \<noteq> - 1 \<and> hex2int l \<noteq> - 1 \<and>
            16 * hex2int h + hex2int l = uint (xor_bytes body) \<and> line_end e) \<or>
         \<not> strict \<and> line_end tail))"

lemma take_body: "list_all body_char body \<Longrightarrow> \<not> body_char (chr_at tail) \<or> tail = [] \<Longrightarrow>
    takeWhile body_char (body @ tail) = body \<and> dropWhile body_char (body @ tail) = tail"
  by (cases tail) (auto simp: list_all_iff takeWhile_append dropWhile_append)

lemma tail_stops: "line_end tail \<or> (\<exists>t. tail = CHR ''*'' # t) \<Longrightarrow> \<not> body_char (chr_at tail) \<or> tail = []"
  by (auto simp: line_end_def body_char_def isprint_def char_code_def)

lemma hex_exists: "hex2int (chr_at s) \<noteq> - 1 \<Longrightarrow> \<exists>h t. s = h # t"
  by (cases s) (auto simp: chr_at_def hex2int_def char_code_def)

lemma check_grammar:
  assumes "NUL \<notin> set s"
  shows "minmea_check s strict \<longleftrightarrow> nmea_sentence strict s"
proof
  assume "nmea_sentence strict s"
  then obtain body tail where s: "length s \<le> 83" "s = CHR ''$'' # body @ tail" "list_all body_char body" and
    tail: "(\<exists>h l e. tail = CHR ''*'' # h # l # e \<and> hex2int h \<noteq> - 1 \<and> hex2int l \<noteq> - 1 \<and>
            16 * hex2int h + hex2int l = uint (xor_bytes body) \<and> line_end e) \<or> \<not> strict \<and> line_end tail"
    unfolding nmea_sentence_def by blast
  have "\<not> body_char (chr_at tail) \<or> tail = []" using tail by (intro tail_stops) blast
  note split = take_body [OF s(3) this]
  show "minmea_check s strict"
  proof (cases "\<exists>h l e. tail = CHR ''*'' # h # l # e \<and> hex2int h \<noteq> - 1 \<and> hex2int l \<noteq> - 1 \<and>
            16 * hex2int h + hex2int l = uint (xor_bytes body) \<and> line_end e")
    case True
    then obtain h l e where e: "tail = CHR ''*'' # h # l # e" "hex2int h \<noteq> - 1" "hex2int l \<noteq> - 1"
      "16 * hex2int h + hex2int l = uint (xor_bytes body)" "line_end e" by blast
    then show ?thesis
      using s split assms nibbles [of "hex2int l" "hex2int h"] hex2int_range [of l] by (simp add: minmea_check_def Let_def)
  next
    case False
    then have "\<not> strict" "line_end tail" using tail by auto
    then show ?thesis
      using s split assms by (auto simp: minmea_check_def Let_def line_end_def)
  qed
next
  assume c: "minmea_check s strict"
  let ?body = "takeWhile body_char (tl s)" let ?tail = "dropWhile body_char (tl s)"
  have s: "s = CHR ''$'' # ?body @ ?tail" "length s \<le> 83"
    using c assms by (cases s; simp add: minmea_check_def chr_at_def Let_def split: if_splits)+
  have b: "list_all body_char ?body" by (auto simp: list_all_iff dest: set_takeWhileD)
  show "nmea_sentence strict s"
  proof (cases "chr_at ?tail = CHR ''*''")
    case True
    then have h: "hex2int (chr_at (drop 1 ?tail)) \<noteq> - 1" "hex2int (chr_at (drop 2 ?tail)) \<noteq> - 1"
      "uint (xor_bytes ?body) = (push_bit 4 (hex2int (chr_at (drop 1 ?tail))) OR hex2int (chr_at (drop 2 ?tail)))"
      "line_end (drop 3 ?tail)"
      using c assms by (simp_all add: minmea_check_def Let_def split: if_splits)
    obtain t1 where t1: "?tail = CHR ''*'' # t1" using True by (cases ?tail) (auto simp: chr_at_def)
    obtain h0 t2 where t2: "t1 = h0 # t2" using h(1) t1 hex_exists [of t1] by auto
    obtain l0 e where e: "t2 = l0 # e" using h(2) t1 t2 hex_exists [of t2] by (auto simp: numeral_2_eq_2)
    have "16 * hex2int h0 + hex2int l0 = uint (xor_bytes ?body)" "line_end e" "hex2int h0 \<noteq> - 1" "hex2int l0 \<noteq> - 1"
      using h t1 t2 e nibbles [of "hex2int l0" "hex2int h0"] hex2int_range [of l0]
      by (simp_all add: numeral_2_eq_2 numeral_3_eq_3)
    then show ?thesis using s b t1 t2 e unfolding nmea_sentence_def by metis
  next
    case False
    then have "\<not> strict" "line_end ?tail"
      using c assms by (simp_all add: minmea_check_def Let_def split: if_splits)
    then show ?thesis using s b unfolding nmea_sentence_def by metis
  qed
qed

text \<open>The first asterisk divides a sentence.\<close>

lemma asterisk_unique:
  "CHR ''*'' \<notin> set a \<Longrightarrow> CHR ''*'' \<notin> set b \<Longrightarrow> a @ CHR ''*'' # s = b @ CHR ''*'' # t \<Longrightarrow> a = b \<and> s = t"
proof (induction a arbitrary: b)
  case Nil
  then show ?case by (cases b) auto
next
  case (Cons x a)
  then show ?case by (cases b) auto
qed

lemma strict_sentence:
  assumes "nmea_sentence True (CHR ''$'' # s)"
  obtains body h l e where "s = body @ CHR ''*'' # h # l # e" "CHR ''*'' \<notin> set body"
    "16 * hex2int h + hex2int l = uint (xor_bytes body)"
  using assms by (auto simp: nmea_sentence_def list_all_iff body_char_def)

lemma xor_cancel: "(a :: 8 word) XOR b = a XOR c \<longleftrightarrow> b = c"
proof
  assume "a XOR b = a XOR c"
  then have "a XOR (a XOR b) = a XOR (a XOR c)" by simp
  then show "b = c" by (simp only: xor.assoc [symmetric] xor_self_eq xor.left_neutral)
qed simp

lemma one_change:
  assumes "nmea_sentence True (CHR ''$'' # a @ c # b)" "nmea_sentence True (CHR ''$'' # a @ c' # b)"
    and "CHR ''*'' \<notin> set a" "c \<noteq> CHR ''*''" "c' \<noteq> CHR ''*''"
  shows "c = c'"
proof -
  obtain body h l e where s: "a @ c # b = body @ CHR ''*'' # h # l # e" "CHR ''*'' \<notin> set body"
      "16 * hex2int h + hex2int l = uint (xor_bytes body)" by (rule strict_sentence [OF assms(1)])
  have "CHR ''*'' \<in> set (a @ c # b)" unfolding s(1) by simp
  then have "CHR ''*'' \<in> set b" using assms(3,4) by auto
  then obtain b1 b2 where b: "b = b1 @ CHR ''*'' # b2" "CHR ''*'' \<notin> set b1" by (meson split_list_first)
  obtain body' h' l' e' where s': "a @ c' # b = body' @ CHR ''*'' # h' # l' # e'" "CHR ''*'' \<notin> set body'"
      "16 * hex2int h' + hex2int l' = uint (xor_bytes body')" by (rule strict_sentence [OF assms(2)])
  have "(a @ c # b1) = body \<and> b2 = h # l # e"
    using s(1,2) b assms(3,4) by (intro asterisk_unique) auto
  moreover have "(a @ c' # b1) = body' \<and> b2 = h' # l' # e'"
    using s'(1,2) b assms(3,5) by (intro asterisk_unique) auto
  ultimately have "uint (xor_bytes (a @ c # b1)) = uint (xor_bytes (a @ c' # b1))"
    using s(3) s'(3) by simp
  then have "xor_bytes (a @ c # b1) = xor_bytes (a @ c' # b1)" by (simp only: word_uint_eq_iff)
  then have "xor_bytes a XOR (of_char c XOR xor_bytes b1) = xor_bytes a XOR (of_char c' XOR xor_bytes b1)"
    by (simp add: xor_bytes_append)
  then have "(of_char c :: 8 word) = of_char c'"
    by (simp only: xor_cancel xor.commute [of _ "xor_bytes b1"])
  then show ?thesis by (simp only: byte_of_char_inj)
qed

section \<open>Lemmas on fractional fields\<close>

lemma digit_range: "isdigit c \<Longrightarrow> 0 \<le> digit_val c \<and> digit_val c \<le> 9"
  by (auto simp: isdigit_def digit_val_def)

lemma digit_isfield: "isdigit c \<Longrightarrow> minmea_isfield c"
  by (auto simp: isdigit_def minmea_isfield_def isprint_def char_code_def)

lemma digit_not_special: "isdigit c \<Longrightarrow> c \<noteq> CHR ''+'' \<and> c \<noteq> CHR ''-'' \<and> c \<noteq> CHR ''.'' \<and> c \<noteq> CHR '' ''"
  by (auto simp: isdigit_def char_code_def)

lemma scan_digits_ge: "0 \<le> acc \<Longrightarrow> acc \<le> scan_digits acc ds"
proof (induction ds arbitrary: acc)
  case (Cons d ds)
  then have "isdigit d \<Longrightarrow> acc \<le> acc * 10 + digit_val d \<and> acc * 10 + digit_val d \<le> scan_digits (acc * 10 + digit_val d) ds"
    using digit_range [of d] Cons.IH [of "acc * 10 + digit_val d"] by simp
  then show ?case by auto
qed simp

lemma scan_digits_append: "list_all isdigit ds \<Longrightarrow> scan_digits acc (ds @ es) = scan_digits (scan_digits acc ds) es"
  by (induction ds arbitrary: acc) simp_all

lemma float_char_digit:
  assumes "isdigit c" "- 1 \<le> val" "v = (if val = - 1 then 0 else val)" "10 * v + digit_val c \<le> INT_LEAST32_MAX"
  shows "float_char c sign val scale =
     (if scale = 0 then FloatNext sign (10 * v + digit_val c) 0
      else if INT_LEAST32_MAX < scale * 10 then FloatOverflow
      else FloatNext sign (10 * v + digit_val c) (scale * 10))"
proof -
  have "\<not> v > (INT_LEAST32_MAX - digit_val c) div 10" using assms(4) by presburger
  then show ?thesis using digit_not_special [OF assms(1)] assms(1,3) by (simp add: float_char_def Let_def)
qed

lemma float_loop_int:
  "list_all isdigit ds \<Longrightarrow> 0 \<le> val \<Longrightarrow> scan_digits val ds \<le> INT_LEAST32_MAX \<Longrightarrow>
     float_loop (ds @ rest) sign val 0 = float_loop rest sign (scan_digits val ds) 0"
proof (induction ds arbitrary: val)
  case (Cons d ds)
  have d: "isdigit d" "0 \<le> digit_val d" using Cons.prems(1) digit_range by auto
  then have "10 * val + digit_val d \<le> INT_LEAST32_MAX"
    using Cons.prems scan_digits_ge [of "val * 10 + digit_val d" ds] by simp
  then show ?case
    using Cons d float_char_digit [of d val val sign 0] digit_isfield [OF d(1)] by (simp add: mult.commute)
qed simp

lemma float_loop_frac:
  "list_all isdigit ds \<Longrightarrow> 0 \<le> val \<Longrightarrow> 0 < scale \<Longrightarrow> scan_digits val ds \<le> INT_LEAST32_MAX \<Longrightarrow>
     scale * 10 ^ length ds \<le> INT_LEAST32_MAX \<Longrightarrow>
     float_loop (ds @ rest) sign val scale = float_loop rest sign (scan_digits val ds) (scale * 10 ^ length ds)"
proof (induction ds arbitrary: val scale)
  case (Cons d ds)
  have d: "isdigit d" "0 \<le> digit_val d" using Cons.prems(1) digit_range by auto
  then have "10 * val + digit_val d \<le> INT_LEAST32_MAX"
    using Cons.prems scan_digits_ge [of "val * 10 + digit_val d" ds] by simp
  moreover have "scale * 10 \<le> scale * 10 ^ length (d # ds)"
    using Cons.prems(3) by (simp add: mult.left_commute)
  then have "scale * 10 \<le> INT_LEAST32_MAX" using Cons.prems(5) by linarith
  ultimately show ?case
    using Cons d float_char_digit [of d val val sign scale] digit_isfield [OF d(1)] by (simp add: ac_simps)
qed simp

lemma float_loop_end: "\<not> minmea_isfield (chr_at rest) \<Longrightarrow> float_loop rest sign val scale = Some (Some (sign, val, scale))"
  by (cases rest) simp_all

lemma point_char: "sign \<in> {- 1, 0, 1} \<Longrightarrow> 0 \<le> val \<Longrightarrow> float_loop (CHR ''.'' # f) sign val 0 = float_loop f sign val 1"
  by (auto simp: float_char_def minmea_isfield_def isprint_def isdigit_def char_code_def)

lemma float_loop_sign:
  "float_loop (CHR ''+'' # f) 0 (- 1) 0 = float_loop f 1 (- 1) 0"
  "float_loop (CHR ''-'' # f) 0 (- 1) 0 = float_loop f (- 1) (- 1) 0"
  by (simp_all add: float_char_def minmea_isfield_def isprint_def char_code_def)

lemma float_loop_first: "ds \<noteq> [] \<Longrightarrow> list_all isdigit ds \<Longrightarrow> float_loop (ds @ f) sign (- 1) 0 = float_loop (ds @ f) sign 0 0"
  by (cases ds) (auto simp: float_char_def dest: digit_not_special digit_isfield)

lemma float_number:
  assumes "ds \<noteq> []" "list_all isdigit ds" "list_all isdigit es" "length es \<le> 9" "scan_digits 0 (ds @ es) \<le> INT_LEAST32_MAX"
    and "\<not> minmea_isfield (chr_at rest)" "sign \<in> {- 1, 0, 1}"
  shows "float_loop (ds @ CHR ''.'' # es @ rest) sign (- 1) 0 = Some (Some (sign, scan_digits 0 (ds @ es), 10 ^ length es))"
proof -
  have n: "0 \<le> scan_digits 0 ds" "scan_digits 0 ds \<le> INT_LEAST32_MAX"
    using scan_digits_ge [of 0 ds] scan_digits_ge [of "scan_digits 0 ds" es] assms(2,5) by (simp_all add: scan_digits_append)
  have "(10 :: int) ^ length es \<le> 10 ^ 9" using assms(4) by (intro power_increasing) auto
  then show ?thesis
    using assms n by (simp add: float_loop_first float_loop_int point_char float_loop_frac float_loop_end scan_digits_append del: float_loop.simps(2))
qed

lemma zero_decimals: "0 < scale \<Longrightarrow> INT_LEAST32_MAX < scale * 10 ^ n \<Longrightarrow> scale \<le> INT_LEAST32_MAX \<Longrightarrow>
    float_loop (replicate n (CHR ''0'') @ rest) sign 0 scale = None"
proof (induction n arbitrary: scale)
  case (Suc n)
  have z: "isdigit (CHR ''0'')" "digit_val (CHR ''0'') = 0" by (simp_all add: isdigit_def digit_val_def char_code_def)
  then show ?case
    using Suc float_char_digit [OF z(1), of 0 0 sign scale] digit_isfield [OF z(1)] by (simp add: mult.assoc)
qed simp

section \<open>Properties\<close>

text \<open>
  C31. The check accepts exactly the sentences of the standard: a dollar sign, printable characters
  other than the asterisk, then, always when strict, an asterisk with the exclusive or of these
  characters in two hexadecimal digits, and the end of a line; at most 83 characters in all. So no
  accepted sentence stays acceptable when one character before the asterisk is changed.
\<close>

theorem minmea_check_grammar:
  assumes "NUL \<notin> set s"
  shows "(minmea_check s strict \<longleftrightarrow> nmea_sentence strict s) \<and>
     (minmea_check s True \<longrightarrow> s = CHR ''$'' # a @ c # b \<longrightarrow> CHR ''*'' \<notin> set (a @ [c, c']) \<longrightarrow> c' \<notin> {c, NUL} \<longrightarrow>
        \<not> minmea_check (CHR ''$'' # a @ c' # b) True)"
proof (intro conjI impI)
  show "minmea_check s strict \<longleftrightarrow> nmea_sentence strict s" by (rule check_grammar [OF assms])
  assume h: "minmea_check s True" "s = CHR ''$'' # a @ c # b" "CHR ''*'' \<notin> set (a @ [c, c'])" "c' \<notin> {c, NUL}"
  have "NUL \<notin> set (CHR ''$'' # a @ c' # b)" using assms h(2,4) by auto
  then show "\<not> minmea_check (CHR ''$'' # a @ c' # b) True"
    using check_grammar [of s True] check_grammar [of "CHR ''$'' # a @ c' # b" True] one_change [of a c b c'] assms h by auto
qed

theorem minmea_check_grammar_witness:
  "nmea_sentence True ''$GPGLL,1*4D'' \<and> \<not> minmea_check ''$GPGLL,2*4D'' True"
proof -
  have n: "NUL \<notin> set ''$GPGLL,1*4D''" by simp
  have c: "minmea_check ''$GPGLL,1*4D'' True" by code_simp
  from minmea_check_grammar [OF n, of True "''GPGLL,''" "CHR ''1''" "''*4D''" "CHR ''2''"] c show ?thesis by simp
qed

text \<open>
  A fractional field is read exactly as long as its digits without the point fit 31 bits and at most
  nine of them are decimals: the value is the number that the digits spell, with the sign, and
  the scale is ten to the number of decimals. With more than nine decimals a number that starts with enough zeros
  overflows the 32 bit scale.
\<close>

theorem fractional_field:
  assumes "ds \<noteq> []" "list_all isdigit ds" "list_all isdigit es" "\<not> minmea_isfield (chr_at rest)"
    and "(sg, sign) \<in> {([], 1), (''+'', 1), (''-'', - 1)}"
  shows "(length es \<le> 9 \<and> scan_digits 0 (ds @ es) \<le> INT_LEAST32_MAX \<longrightarrow>
      scan_float (Some (sg @ ds @ CHR ''.'' # es @ rest)) =
        Some (Some \<lparr>mf_value = sign * scan_digits 0 (ds @ es), mf_scale = 10 ^ length es\<rparr>)) \<and>
     (9 < length es \<longrightarrow> scan_float (Some (''0.'' @ replicate (length es) (CHR ''0'') @ rest)) = None)"
proof (intro conjI impI)
  let ?n = "scan_digits 0 (ds @ es)"
  have n: "0 \<le> ?n" by (rule scan_digits_ge) simp
  assume h: "length es \<le> 9 \<and> ?n \<le> INT_LEAST32_MAX"
  have run: "float_loop (ds @ CHR ''.'' # es @ rest) si (- 1) 0 = Some (Some (si, ?n, 10 ^ length es))"
    if "si \<in> {- 1, 0, 1}" for si
    using float_number [OF assms(1-3) _ _ assms(4) that] h by simp
  show "scan_float (Some (sg @ ds @ CHR ''.'' # es @ rest)) = Some (Some \<lparr>mf_value = sign * ?n, mf_scale = 10 ^ length es\<rparr>)"
    using assms(5) n run [of 0] run [of 1] run [of "- 1"]
    by (auto simp: scan_float_def float_loop_sign simp del: float_loop.simps(2))
next
  assume many: "9 < length es"
  have z: "isdigit (CHR ''0'')" "digit_val (CHR ''0'') = 0" by (simp_all add: isdigit_def digit_val_def char_code_def)
  have "float_loop (CHR ''0'' # f) 0 (- 1) 0 = float_loop f 0 0 0" for f
    using float_char_digit [OF z(1), of "- 1" 0 0 0] z digit_isfield [OF z(1)] by simp
  moreover have "(10 :: int) ^ 10 \<le> 10 ^ length es" using many by (intro power_increasing) auto
  then have "float_loop (replicate (length es) (CHR ''0'') @ rest) 0 0 1 = None"
    by (intro zero_decimals) auto
  ultimately show "scan_float (Some (''0.'' @ replicate (length es) (CHR ''0'') @ rest)) = None"
    by (simp add: scan_float_def point_char del: float_loop.simps(2))
qed

theorem fractional_field_witness:
  "scan_float (Some ''-4807.038,N'') = Some (Some \<lparr>mf_value = - 4807038, mf_scale = 1000\<rparr>) \<and>
   scan_float (Some ''0.0000000000,N'') = None"
proof -
  have d: "list_all isdigit ''4807''" "list_all isdigit ''038''" "list_all isdigit ''0380000000''" by code_simp+
  have r: "\<not> minmea_isfield (chr_at '',N'')" by code_simp
  have n: "scan_digits 0 ''4807038'' = 4807038" by code_simp
  from fractional_field [OF _ d(1,2) r, of "''-''" "- 1"] fractional_field [OF _ d(1,3) r, of "''-''" "- 1"] n show ?thesis
    by (simp add: numeral_eq_Suc)
qed

end
