(* ===== verification/Minmea_Sentences.thy ===== *)
theory Minmea_Sentences
  imports Minmea
begin

text \<open>
  The rest of the NMEA library (\<open>plugins/pip/gps/minmea/minmea.c\<close>, \<open>minmea.h\<close>): the sentences that the
  receiver does not use, the talker, times, and the conversions of fixed-point numbers. As in \<open>Minmea\<close>, the
  outer option is undefined behaviour and the inner one the result \<open>false\<close>.
\<close>

section \<open>Sentences\<close>

definition minmea_talker_id :: "bytes \<Rightarrow> bytes option option" where
  "minmea_talker_id sentence = do {
     res \<leftarrow> minmea_scan sentence ''t'';
     Some (case res of Some [ArgText ty] \<Rightarrow> Some (take 2 ty) | _ \<Rightarrow> None)
   }"

record minmea_sentence_gsa =
  gsa_mode :: char
  gsa_fix_type :: int
  gsa_sats :: "int list"
  gsa_pdop :: minmea_float
  gsa_hdop :: minmea_float
  gsa_vdop :: minmea_float

record minmea_sentence_gll =
  gll_latitude :: minmea_float
  gll_longitude :: minmea_float
  gll_time :: scan_arg
  gll_status :: char
  gll_mode :: char

record minmea_sentence_gst =
  gst_time :: scan_arg
  gst_rms_deviation :: minmea_float
  gst_semi_major_deviation :: minmea_float
  gst_semi_minor_deviation :: minmea_float
  gst_semi_major_orientation :: minmea_float
  gst_latitude_error_deviation :: minmea_float
  gst_longitude_error_deviation :: minmea_float
  gst_altitude_error_deviation :: minmea_float

record minmea_sat_info =
  sat_nr :: int
  sat_elevation :: int
  sat_azimuth :: int
  sat_snr :: int

record minmea_sentence_gsv =
  gsv_total_msgs :: int
  gsv_msg_nr :: int
  gsv_total_sats :: int
  gsv_sats :: "minmea_sat_info list"

record minmea_sentence_vtg =
  vtg_true_track_degrees :: minmea_float
  vtg_magnetic_track_degrees :: minmea_float
  vtg_speed_knots :: minmea_float
  vtg_speed_kph :: minmea_float
  vtg_faa_mode :: char

record minmea_sentence_zda =
  zda_time :: scan_arg
  zda_date :: scan_arg
  zda_hour_offset :: int
  zda_minute_offset :: int

text \<open>The values of consecutive integer fields.\<close>

fun arg_ints :: "scan_arg list \<Rightarrow> int list option" where
  "arg_ints [] = Some []"
| "arg_ints (ArgInt i # as) = map_option (\<lambda>is. i # is) (arg_ints as)"
| "arg_ints _ = None"

definition minmea_parse_gsa :: "bytes \<Rightarrow> minmea_sentence_gsa option option" where
  "minmea_parse_gsa sentence = do {
     res \<leftarrow> minmea_scan sentence ''tciiiiiiiiiiiiifff'';
     Some (case res of
         Some (ArgText ty # ArgChar mode # ArgInt fix_type # args) \<Rightarrow>
           (case (arg_ints (take 12 args), drop 12 args) of
              (Some sats, [ArgFloat pdop, ArgFloat hdop, ArgFloat vdop]) \<Rightarrow>
                (if drop 2 ty \<noteq> ''GSA'' then None
                 else Some \<lparr>gsa_mode = mode, gsa_fix_type = fix_type, gsa_sats = sats, gsa_pdop = pdop, gsa_hdop = hdop, gsa_vdop = vdop\<rparr>)
            | _ \<Rightarrow> None)
       | _ \<Rightarrow> None)
   }"

definition minmea_parse_gll :: "bytes \<Rightarrow> minmea_sentence_gll option option" where
  "minmea_parse_gll sentence = do {
     res \<leftarrow> minmea_scan sentence ''tfdfdTc;c'';
     Some (case res of
         Some [ArgText ty, ArgFloat lat, ArgInt lat_dir, ArgFloat lon, ArgInt lon_dir, time, ArgChar status, ArgChar mode] \<Rightarrow>
           (if drop 2 ty \<noteq> ''GLL'' then None
            else Some \<lparr>gll_latitude = directed lat lat_dir, gll_longitude = directed lon lon_dir, gll_time = time,
              gll_status = status, gll_mode = mode\<rparr>)
       | _ \<Rightarrow> None)
   }"

definition minmea_parse_gst :: "bytes \<Rightarrow> minmea_sentence_gst option option" where
  "minmea_parse_gst sentence = do {
     res \<leftarrow> minmea_scan sentence ''tTfffffff'';
     Some (case res of
         Some [ArgText ty, time, ArgFloat rms, ArgFloat major, ArgFloat minor, ArgFloat orientation, ArgFloat lat, ArgFloat lon, ArgFloat alt] \<Rightarrow>
           (if drop 2 ty \<noteq> ''GST'' then None
            else Some \<lparr>gst_time = time, gst_rms_deviation = rms, gst_semi_major_deviation = major,
              gst_semi_minor_deviation = minor, gst_semi_major_orientation = orientation,
              gst_latitude_error_deviation = lat, gst_longitude_error_deviation = lon, gst_altitude_error_deviation = alt\<rparr>)
       | _ \<Rightarrow> None)
   }"

fun sat_infos :: "int list \<Rightarrow> minmea_sat_info list" where
  "sat_infos (nr # elevation # azimuth # snr # rest) =
     \<lparr>sat_nr = nr, sat_elevation = elevation, sat_azimuth = azimuth, sat_snr = snr\<rparr> # sat_infos rest"
| "sat_infos _ = []"

definition minmea_parse_gsv :: "bytes \<Rightarrow> minmea_sentence_gsv option option" where
  "minmea_parse_gsv sentence = do {
     res \<leftarrow> minmea_scan sentence ''tiii;iiiiiiiiiiiiiiii'';
     Some (case res of
         Some (ArgText ty # args) \<Rightarrow>
           (case arg_ints args of
              Some (total_msgs # msg_nr # total_sats # sats) \<Rightarrow>
                (if drop 2 ty \<noteq> ''GSV'' then None
                 else Some \<lparr>gsv_total_msgs = total_msgs, gsv_msg_nr = msg_nr, gsv_total_sats = total_sats, gsv_sats = sat_infos sats\<rparr>)
            | _ \<Rightarrow> None)
       | _ \<Rightarrow> None)
   }"

definition minmea_parse_vtg :: "bytes \<Rightarrow> minmea_sentence_vtg option option" where
  "minmea_parse_vtg sentence = do {
     res \<leftarrow> minmea_scan sentence ''tfcfcfcfc;c'';
     Some (case res of
         Some [ArgText ty, ArgFloat true_track, ArgChar c_true, ArgFloat magnetic, ArgChar c_magnetic, ArgFloat knots, ArgChar c_knots,
               ArgFloat kph, ArgChar c_kph, ArgChar c_faa_mode] \<Rightarrow>
           (if drop 2 ty \<noteq> ''VTG'' then None
            else if c_true \<noteq> CHR ''T'' \<or> c_magnetic \<noteq> CHR ''M'' \<or> c_knots \<noteq> CHR ''N'' \<or> c_kph \<noteq> CHR ''K'' then None
            else Some \<lparr>vtg_true_track_degrees = true_track, vtg_magnetic_track_degrees = magnetic,
              vtg_speed_knots = knots, vtg_speed_kph = kph, vtg_faa_mode = c_faa_mode\<rparr>)
       | _ \<Rightarrow> None)
   }"

text \<open>\<open>abs\<close> of the smallest integer is undefined.\<close>

definition minmea_parse_zda :: "bytes \<Rightarrow> minmea_sentence_zda option option" where
  "minmea_parse_zda sentence = do {
     res \<leftarrow> minmea_scan sentence ''tTiiiii'';
     (case res of
        Some [ArgText ty, time, ArgInt day, ArgInt month, ArgInt year, ArgInt hour_offset, ArgInt minute_offset] \<Rightarrow>
          (if drop 2 ty \<noteq> ''ZDA'' then Some None
           else if hour_offset = - INT_LEAST32_MAX - 1 then None
           else if \<bar>hour_offset\<bar> > 13 \<or> minute_offset > 59 \<or> minute_offset < 0 then Some None
           else Some (Some \<lparr>zda_time = time, zda_date = ArgDate day month year, zda_hour_offset = hour_offset,
             zda_minute_offset = minute_offset\<rparr>))
      | _ \<Rightarrow> Some None)
   }"

section \<open>Conversions\<close>

text \<open>\<open>minmea_rescale\<close> with the divisions of C, which truncate; \<open>None\<close> is a division by zero or an overflow.\<close>

definition fits32 :: "int \<Rightarrow> int option" where
  "fits32 v = (if - INT_LEAST32_MAX - 1 \<le> v \<and> v \<le> INT_LEAST32_MAX then Some v else None)"

definition minmea_rescale :: "minmea_float \<Rightarrow> int \<Rightarrow> int option" where
  "minmea_rescale f new_scale =
     (if mf_scale f = 0 then Some 0
      else if mf_scale f = new_scale then Some (mf_value f)
      else if mf_scale f > new_scale then
        (if new_scale = 0 then None
         else do {
           n \<leftarrow> fits32 (mf_value f + (((of_bool (mf_value f > 0) - of_bool (mf_value f < 0)) * mf_scale f) sdiv new_scale) sdiv 2);
           (if mf_scale f sdiv new_scale = 0 then None else fits32 (n sdiv (mf_scale f sdiv new_scale)))
         })
      else fits32 (mf_value f * (new_scale sdiv mf_scale f)))"

definition minmea_tofloat :: "minmea_float \<Rightarrow> rat option" where
  "minmea_tofloat f =
     (if mf_scale f = 0 then None
      else Some (float_round (float_round (of_int (mf_value f)) / float_round (of_int (mf_scale f)))))"

text \<open>\<open>timegm\<close>: the seconds since 1970 of a date of the Gregorian calendar, counted from the first of March
  of the year 0; months outside of the year move the year. The fields are taken as numbers for which no
  \<open>int\<close> overflows, as the parsers deliver them.\<close>

definition days_before :: "int \<Rightarrow> int \<Rightarrow> int" where
  "days_before year month =
     (let y = year + month div 12;
          m = month mod 12;
          (y, m) = (if m < 2 then (y - 1, m + 10) else (y, m - 2))
      in 365 * y + y div 4 - y div 100 + y div 400 + (153 * m + 2) div 5 - 719468)"

definition timegm :: "int \<Rightarrow> int \<Rightarrow> int \<Rightarrow> int \<Rightarrow> int \<Rightarrow> int \<Rightarrow> int" where
  "timegm tm_year tm_mon tm_mday tm_hour tm_min tm_sec =
     ((days_before (tm_year + 1900) tm_mon + tm_mday - 1) * 24 + tm_hour) * 3600 + tm_min * 60 + tm_sec"

definition minmea_gettime :: "int \<Rightarrow> int \<Rightarrow> int \<Rightarrow> int \<Rightarrow> int \<Rightarrow> int \<Rightarrow> int \<Rightarrow> (int \<times> int) option" where
  "minmea_gettime day month year hours minutes seconds microseconds =
     (if year = - 1 \<or> hours = - 1 then None
      else
        let tm_year = (if year < 80 then 2000 + year - 1900 else if year \<ge> 1900 then year - 1900 else year);
            timestamp = timegm tm_year (month - 1) day hours minutes seconds
        in if timestamp \<noteq> - 1 then Some (timestamp, microseconds * 1000) else None)"

section \<open>Lemmas on integer fields\<close>

text \<open>Fields of digits, each behind a comma, up to a tail that is empty or starts with an asterisk.\<close>

definition fields_text :: "bytes list \<Rightarrow> bytes \<Rightarrow> bytes" where
  "fields_text fs tail = concat (map (\<lambda>d. CHR '','' # d) fs) @ tail"

definition stops :: "bytes \<Rightarrow> bool" where
  "stops tail \<longleftrightarrow> tail = [] \<or> (\<exists>t. tail = CHR ''*'' # t)"

definition number :: "bytes \<Rightarrow> bool" where
  "number d \<longleftrightarrow> list_all isdigit d \<and> scan_digits 0 d \<le> INT_LEAST32_MAX"

lemma fields_text_simps [simp]:
  "fields_text [] tail = tail" "fields_text (d # fs) tail = CHR '','' # d @ fields_text fs tail"
  by (simp_all add: fields_text_def)

lemma stops_next: "stops tail \<Longrightarrow> next_field tail = (tail, None)"
  by (auto simp: stops_def next_field_def chr_at_def minmea_isfield_def Let_def)

lemma field_ends: "stops tail \<Longrightarrow> \<not> isdigit (chr_at (fields_text fs tail)) \<and> \<not> minmea_isfield (chr_at (fields_text fs tail)) \<and>
    \<not> isspace (chr_at (fields_text fs tail)) \<and> chr_at (fields_text fs tail) \<notin> {CHR ''-'', CHR ''+''}"
  by (cases fs) (auto simp: stops_def chr_at_def isdigit_def isspace_def minmea_isfield_def isprint_def char_code_def)

lemma digits_field: "list_all isdigit d \<Longrightarrow> list_all minmea_isfield d"
  by (auto simp: list_all_iff dest: digit_isfield)

lemma next_of_field:
  assumes "list_all isdigit d" "stops tail"
  shows "next_field (d @ fields_text fs tail) =
    (case fs of [] \<Rightarrow> (tail, None) | e # es \<Rightarrow> (e @ fields_text es tail, Some (e @ fields_text es tail)))"
proof -
  have "dropWhile minmea_isfield (d @ fields_text fs tail) = fields_text fs tail"
    using digits_field [OF assms(1)] field_ends [OF assms(2), of fs]
    by (cases "fields_text fs tail") (auto simp: dropWhile_append3 list_all_iff chr_at_def dropWhile_append)
  then show ?thesis using assms(2) by (cases fs) (auto simp: next_field_def Let_def chr_at_def stops_def)
qed

lemma scan_digits_stop: "\<not> isdigit (chr_at r) \<Longrightarrow> scan_digits acc r = acc"
  by (cases r) (simp_all add: chr_at_def)

lemma head_or: "chr_at (d @ r) = (if d = [] then chr_at r else hd d)"
  by (cases d) (simp_all add: chr_at_def)

lemma digit_plain: "isdigit c \<Longrightarrow> \<not> isspace c \<and> c \<noteq> CHR ''-'' \<and> c \<noteq> CHR ''+'' \<and> c \<noteq> NUL"
  by (auto simp: isdigit_def isspace_def char_code_def)

lemma no_space: "\<not> isspace (chr_at s) \<Longrightarrow> dropWhile isspace s = s"
  by (cases s) (simp_all add: chr_at_def)

lemma scan_int_number:
  assumes "number d" "stops tail" "NUL \<notin> set (fields_text fs tail)"
  shows "scan_int (Some (d @ fields_text fs tail)) = Some (scan_digits 0 d)"
proof -
  let ?r = "fields_text fs tail"
  have d: "list_all isdigit d" and small: "scan_digits 0 d \<le> INT_LEAST32_MAX" using assms(1) by (simp_all add: number_def)
  note ends = field_ends [OF assms(2), of fs]
  have nul: "NUL \<notin> set (d @ ?r)" using d assms(3) digit_plain by (auto simp: list_all_iff)
  have first: "\<not> isspace (chr_at (d @ ?r)) \<and> chr_at (d @ ?r) \<noteq> CHR ''-'' \<and> chr_at (d @ ?r) \<noteq> CHR ''+''"
    using ends d digit_plain [of "hd d"] by (cases d) (auto simp: head_or)
  have "scan_digits 0 (d @ ?r) = scan_digits 0 d"
    using ends by (simp add: scan_digits_append [OF d] scan_digits_stop)
  moreover have "0 \<le> scan_digits 0 d" using scan_digits_ge [of 0 d] by simp
  ultimately have "atoi (d @ ?r) = scan_digits 0 d"
    using first small by (simp add: atoi_def strtol10_def cstr_id [OF nul] no_space Let_def to_int32_def)
  moreover have "dropWhile isdigit (d @ ?r) = ?r"
    using d ends by (cases ?r) (auto simp: list_all_iff chr_at_def dropWhile_append)
  then have "strtol_end (d @ ?r) = (if d = [] then d @ ?r else ?r)"
    using first ends d by (cases d) (auto simp: strtol_end_def no_space Let_def head_or)
  then have "\<not> minmea_isfield (chr_at (strtol_end (d @ ?r)))" using ends by simp
  ultimately show ?thesis by (simp add: scan_int_def)
qed

lemma append_one [simp]: "(@) [x] = (#) x"
  by (rule ext) simp

text \<open>The scanner at an integer field, behind the last field, and over the type.\<close>

lemma scan_step:
  assumes "number d" "stops tail" "NUL \<notin> set (fields_text fs tail)"
  shows "scan_loop (CHR ''i'' # format) (d @ fields_text fs tail) (Some (d @ fields_text fs tail)) opt =
    map_option (map_option (\<lambda>bs. ArgInt (scan_digits 0 d) # bs))
      (case fs of [] \<Rightarrow> scan_loop format tail None opt
       | e # es \<Rightarrow> scan_loop format (e @ fields_text es tail) (Some (e @ fields_text es tail)) opt)"
  using assms next_of_field [of d tail fs] scan_int_number [OF assms]
  by (cases fs) (simp_all add: scan_field_def number_def)

lemma scan_missing:
  assumes "stops tail"
  shows "scan_loop (replicate n (CHR ''i'')) tail None True = Some (Some (replicate n (ArgInt 0)))"
  using stops_next [OF assms] by (induction n) (simp_all add: scan_field_def scan_int_def)

lemma scan_optional:
  assumes "stops tail"
  shows "list_all number (d # fs) \<Longrightarrow> NUL \<notin> set (fields_text fs tail) \<Longrightarrow> length fs < n \<Longrightarrow>
    scan_loop (replicate n (CHR ''i'')) (d @ fields_text fs tail) (Some (d @ fields_text fs tail)) True =
      Some (Some (map (\<lambda>d. ArgInt (scan_digits 0 d)) (d # fs) @ replicate (n - Suc (length fs)) (ArgInt 0)))"
proof (induction fs arbitrary: d n)
  case Nil
  then obtain m where "n = Suc m" by (cases n) auto
  then show ?case using Nil scan_step [OF _ assms, of d "[]" "replicate m (CHR ''i'')" True] scan_missing [OF assms]
    by simp
next
  case (Cons e es)
  then obtain m where "n = Suc m" by (cases n) auto
  then show ?case using Cons scan_step [OF _ assms, of d "e # es" "replicate m (CHR ''i'')" True] by simp
qed

lemma scan_rest:
  assumes "stops tail" "list_all number fs" "NUL \<notin> set (fields_text fs tail)" "length fs \<le> n"
  shows "(case fs of [] \<Rightarrow> scan_loop (replicate n (CHR ''i'')) tail None True
      | e # es \<Rightarrow> scan_loop (replicate n (CHR ''i'')) (e @ fields_text es tail) (Some (e @ fields_text es tail)) True) =
    Some (Some (map (\<lambda>d. ArgInt (scan_digits 0 d)) fs @ replicate (n - length fs) (ArgInt 0)))"
  using assms by (cases fs) (simp_all add: scan_missing scan_optional)

lemma scan_type_step:
  assumes "length ty = 5" "list_all minmea_isfield ty"
  shows "scan_loop (CHR ''t'' # format) (CHR ''$'' # ty @ fields_text (d # fs) tail) (Some (CHR ''$'' # ty @ fields_text (d # fs) tail)) opt =
    map_option (map_option (\<lambda>bs. ArgText ty # bs))
      (scan_loop format (d @ fields_text fs tail) (Some (d @ fields_text fs tail)) opt)"
proof -
  have "minmea_isfield (CHR ''$'')" "\<not> minmea_isfield (CHR '','')" by (simp_all add: minmea_isfield_def isprint_def char_code_def)
  then have "next_field (CHR ''$'' # ty @ fields_text (d # fs) tail) = (d @ fields_text fs tail, Some (d @ fields_text fs tail))"
    using assms(2) by (simp add: next_field_def dropWhile_append2 list_all_iff chr_at_def)
  then show ?thesis using assms by (simp add: scan_field_def scan_type_def chr_at_def)
qed

lemma arg_ints_padded: "arg_ints (map (ArgInt \<circ> f) xs @ replicate k (ArgInt i)) = Some (map f xs @ replicate k i)"
proof (induction xs)
  case Nil
  show ?case by (induction k) simp_all
qed simp

lemma nearest: "p \<le> a + k div 2 \<Longrightarrow> a + k div 2 < p + k \<Longrightarrow> 1 < k \<Longrightarrow>
    2 * \<bar>p - a\<bar> \<le> k \<and> (2 * \<bar>p - a\<bar> = k \<longrightarrow> a < p)" for a k p :: int
  by presburger

section \<open>Properties\<close>

text \<open>
  A GSV sentence is parsed to the numbers of its fields: the three counts, and four numbers for
  each satellite that it lists; the satellites up to the fourth that are missing are zero.
\<close>

theorem gsv_fields:
  assumes "list_all number (msgs # nr # in_view # sats)" "length sats \<le> 16" "stops tail" "NUL \<notin> set tail"
    and "length talker = 2" "list_all minmea_isfield talker" "NUL \<notin> set talker"
  shows "minmea_parse_gsv (CHR ''$'' # talker @ ''GSV'' @ fields_text (msgs # nr # in_view # sats) tail) =
    Some (Some \<lparr>gsv_total_msgs = scan_digits 0 msgs, gsv_msg_nr = scan_digits 0 nr, gsv_total_sats = scan_digits 0 in_view,
      gsv_sats = sat_infos (map (scan_digits 0) sats @ replicate (16 - length sats) 0)\<rparr>)"
proof -
  let ?fs = "msgs # nr # in_view # sats"
  let ?ty = "talker @ ''GSV''"
  let ?s = "CHR ''$'' # ?ty @ fields_text ?fs tail"
  have num: "number msgs" "number nr" "number in_view" "list_all number sats" using assms(1) by simp_all
  have plain: "NUL \<notin> set d" if "number d" for d using that digit_plain by (auto simp: number_def list_all_iff)
  have nul: "NUL \<notin> set (fields_text fs tail)" if "list_all number fs" for fs
    using that assms(4) by (induction fs) (auto dest: plain)
  have "NUL \<notin> set ?s" using nul [OF assms(1)] assms(7) by simp
  then have whole: "cstr ?s = ?s" by (rule cstr_id)
  let ?rep = "replicate 16 (CHR ''i'')"
  have format: "''tiii;iiiiiiiiiiiiiiii'' = CHR ''t'' # CHR ''i'' # CHR ''i'' # CHR ''i'' # CHR '';'' # ?rep" by code_simp
  have semi: "scan_loop (CHR '';'' # ?rep) b f False = scan_loop ?rep b f True" for b f by simp
  have ty: "length ?ty = 5" "list_all minmea_isfield ?ty"
    using assms(5,6) by (simp_all add: minmea_isfield_def isprint_def char_code_def)
  have vals: "map (\<lambda>d. ArgInt (scan_digits 0 d)) sats @ replicate k (ArgInt 0) = map ArgInt (map (scan_digits 0) sats @ replicate k 0)" for k
    by simp
  have "minmea_scan ?s ''tiii;iiiiiiiiiiiiiiii'' = Some (Some (ArgText ?ty # map ArgInt (scan_digits 0 msgs #
      scan_digits 0 nr # scan_digits 0 in_view # map (scan_digits 0) sats @ replicate (16 - length sats) 0)))"
    unfolding minmea_scan_def whole format scan_type_step [OF ty]
    using scan_rest [OF assms(3) num(4) nul [OF num(4)] assms(2)] num nul
    by (simp add: vals scan_step [OF _ assms(3)] semi cong: list.case_cong del: fields_text_simps scan_loop.simps)
  then show ?thesis using assms(5) by (simp add: minmea_parse_gsv_def arg_ints_padded del: fields_text_simps)
qed

theorem gsv_fields_witness:
  "minmea_parse_gsv ''$GPGSV,3,3,11,22,42,067,42*70'' = Some (Some \<lparr>gsv_total_msgs = 3, gsv_msg_nr = 3, gsv_total_sats = 11,
     gsv_sats = \<lparr>sat_nr = 22, sat_elevation = 42, sat_azimuth = 67, sat_snr = 42\<rparr> #
       replicate 3 \<lparr>sat_nr = 0, sat_elevation = 0, sat_azimuth = 0, sat_snr = 0\<rparr>\<rparr>)"
proof -
  have n: "list_all number (''3'' # ''3'' # ''11'' # [''22'', ''42'', ''067'', ''42''])" by code_simp
  have t: "stops ''*70''" by (simp add: stops_def)
  have p: "list_all minmea_isfield ''GP''" by code_simp
  have v: "scan_digits 0 ''3'' = 3" "scan_digits 0 ''11'' = 11" "scan_digits 0 ''22'' = 22" "scan_digits 0 ''42'' = 42"
    "scan_digits 0 ''067'' = 67" by code_simp+
  from gsv_fields [OF n _ t _ _ p] v show ?thesis by (simp add: numeral_eq_Suc)
qed

text \<open>
  Rescaling to a coarser scale rounds to the nearest value, a half away from zero, and not
  towards zero; rescaling back to the finer scale is exact.
\<close>

theorem rescale_rounds:
  assumes "0 < new_scale" "1 < k" "\<bar>v\<bar> + k div 2 \<le> INT_LEAST32_MAX"
  shows "\<exists>r. minmea_rescale \<lparr>mf_value = v, mf_scale = k * new_scale\<rparr> new_scale = Some r \<and>
      2 * \<bar>r * k - v\<bar> \<le> k \<and> (2 * \<bar>r * k - v\<bar> = k \<longrightarrow> \<bar>v\<bar> < \<bar>r * k\<bar>) \<and>
      (\<bar>r * k\<bar> \<le> INT_LEAST32_MAX \<longrightarrow> minmea_rescale \<lparr>mf_value = r, mf_scale = new_scale\<rparr> (k * new_scale) = Some (r * k))"
proof -
  let ?q = "(\<bar>v\<bar> + k div 2) div k"
  have fine: "new_scale < k * new_scale" using assms(1,2) by simp
  have quot: "(k * new_scale) sdiv new_scale = k" "(- (k * new_scale)) sdiv new_scale = - k"
    using assms(1,2) by (simp_all add: signed_divide_int_def sgn_mult abs_mult)
  have half: "k sdiv 2 = k div 2" "(- k) sdiv 2 = - (k div 2)"
    using assms(2) by (simp_all add: signed_divide_int_def)
  have n: "fits32 (v + (((of_bool (v > 0) - of_bool (v < 0)) * (k * new_scale)) sdiv new_scale) sdiv 2) =
      Some (v + sgn v * (k div 2))"
    using assms quot half by (cases "v = 0"; cases "0 < v") (auto simp: fits32_def)
  have d: "(v + sgn v * (k div 2)) sdiv k = sgn v * ?q"
    using assms by (auto simp: signed_divide_int_def sgn_if)
  have q: "?q * k \<le> \<bar>v\<bar> + k div 2 \<and> \<bar>v\<bar> + k div 2 < ?q * k + k"
    using assms(2) div_mult_mod_eq [of "\<bar>v\<bar> + k div 2" k] pos_mod_bound [of k "\<bar>v\<bar> + k div 2"] pos_mod_sign [of k "\<bar>v\<bar> + k div 2"]
    by linarith
  have q0: "0 \<le> ?q" using assms(2) by (simp add: pos_imp_zdiv_nonneg_iff)
  have "?q \<le> \<bar>v\<bar> + k div 2" using q q0 assms(2) by (smt (verit) mult_le_cancel_left1)
  then have "\<bar>sgn v * ?q\<bar> \<le> INT_LEAST32_MAX" using assms(3) q0 by (auto simp: abs_mult abs_sgn_eq)
  then have down: "minmea_rescale \<lparr>mf_value = v, mf_scale = k * new_scale\<rparr> new_scale = Some (sgn v * ?q)"
    using n d quot fine assms by (simp add: minmea_rescale_def fits32_def abs_le_iff)
  have near: "2 * \<bar>?q * k - \<bar>v\<bar>\<bar> \<le> k \<and> (2 * \<bar>?q * k - \<bar>v\<bar>\<bar> = k \<longrightarrow> \<bar>v\<bar> < ?q * k)"
    using nearest [of "?q * k" "\<bar>v\<bar>" k] q assms(2) by blast
  have sign: "\<bar>sgn v * ?q * k - v\<bar> = \<bar>?q * k - \<bar>v\<bar>\<bar>" "v \<noteq> 0 \<Longrightarrow> \<bar>sgn v * ?q * k\<bar> = ?q * k" "v = 0 \<Longrightarrow> ?q * k = 0"
    using q0 assms(2) by (auto simp: sgn_if abs_mult)
  have up: "minmea_rescale \<lparr>mf_value = r, mf_scale = new_scale\<rparr> (k * new_scale) = Some (r * k)" if "\<bar>r * k\<bar> \<le> INT_LEAST32_MAX" for r
    using that fine quot assms(1) by (auto simp: minmea_rescale_def fits32_def abs_le_iff)
  have tie: "\<bar>v\<bar> < \<bar>sgn v * ?q * k\<bar>" if "2 * \<bar>sgn v * ?q * k - v\<bar> = k"
  proof -
    have half: "2 * \<bar>?q * k - \<bar>v\<bar>\<bar> = k" using that sign(1) by simp
    then have "v \<noteq> 0" using sign(3) assms(2) by auto
    then show ?thesis using near half sign(2) by presburger
  qed
  show ?thesis
  proof (intro exI conjI impI)
    show "minmea_rescale \<lparr>mf_value = v, mf_scale = k * new_scale\<rparr> new_scale = Some (sgn v * ?q)" by (rule down)
    show "2 * \<bar>sgn v * ?q * k - v\<bar> \<le> k" unfolding sign(1) using near by blast
  qed (blast intro: tie up)+
qed

theorem rescale_rounds_witness: "minmea_rescale \<lparr>mf_value = 15, mf_scale = 10\<rparr> 1 = Some 2"
proof -
  obtain r where r: "minmea_rescale \<lparr>mf_value = 15, mf_scale = 10\<rparr> 1 = Some r" "2 * \<bar>r * 10 - 15\<bar> \<le> 10"
      "2 * \<bar>r * 10 - 15\<bar> = 10 \<longrightarrow> (15 :: int) < \<bar>r * 10\<bar>"
    using rescale_rounds [of 1 10 15] by auto
  then have "r = 2" by arith
  then show ?thesis using r(1) by simp
qed

end
