(* ===== verification/Gps_Receiver.thy ===== *)
theory Gps_Receiver
  imports Minmea Data_Dumper
begin

text \<open>
  The GPS receiver (\<open>plugins/pip/gps/pip_plugin_gps.c\<close>): the thread that puts NMEA sentences together
  from what the serial line delivers and keeps the location in the JSON document. Opening and
  configuring the line are system calls. The mutex is not modelled: a token is handled as a whole.
\<close>

section \<open>State\<close>

abbreviation (input) GPS_SENTENCE_BUFF_LEN :: nat where "GPS_SENTENCE_BUFF_LEN \<equiv> 83"
abbreviation (input) GPS_READ_BUFF_LEN :: nat where "GPS_READ_BUFF_LEN \<equiv> 100"
abbreviation (input) GPS_PORTNAME_LEN :: nat where "GPS_PORTNAME_LEN \<equiv> 64"

text \<open>The object \<open>fj_obj_location\<close>: NULL before the document was first built, then an object with or
  without a value, the latitude and the longitude.\<close>

type_synonym gps_location = "(rat \<times> rat) option option"

record gps_receiver =
  nmea_sentence_buffer :: bytes
  nmea_sentence_next_idx :: nat
  fj_obj_location :: gps_location

text \<open>\<open>gps_json_filler\<close>: a new object for the location, with its name only; the names in the array.\<close>

definition gps_json_filler :: "gps_receiver \<Rightarrow> gps_receiver \<times> bytes list" where
  "gps_json_filler g = (g\<lparr>fj_obj_location := Some None\<rparr>, [''location''])"

section \<open>A complete sentence\<close>

text \<open>Adding the value to the location object, which must exist.\<close>

definition set_location :: "rat \<times> rat \<Rightarrow> gps_location \<Rightarrow> gps_location option" where
  "set_location v loc = (case loc of None \<Rightarrow> None | Some _ \<Rightarrow> Some (Some (Some v)))"

definition locate :: "bool \<Rightarrow> minmea_float \<Rightarrow> minmea_float \<Rightarrow> gps_location \<Rightarrow> gps_location option" where
  "locate known latitude longitude loc =
     (if known then do {
        lat \<leftarrow> minmea_tocoord latitude;
        lon \<leftarrow> minmea_tocoord longitude;
        lat \<leftarrow> lat;
        lon \<leftarrow> lon;
        set_location (lat, lon) loc
      } else set_location (0, 0) loc)"

definition handle_sentence :: "bytes \<Rightarrow> gps_location \<Rightarrow> gps_location option" where
  "handle_sentence buffer loc =
     (case minmea_sentence_id buffer False of
        MINMEA_SENTENCE_GGA \<Rightarrow> do {
          parsed \<leftarrow> minmea_parse_gga buffer;
          (case parsed of
             None \<Rightarrow> Some loc
           | Some frame \<Rightarrow>
               locate (mf_scale (gga_latitude frame) \<noteq> 0 \<and> mf_scale (gga_longitude frame) \<noteq> 0)
                 (gga_latitude frame) (gga_longitude frame) loc)
        }
      | MINMEA_SENTENCE_RMC \<Rightarrow> do {
          parsed \<leftarrow> minmea_parse_rmc buffer;
          (case parsed of
             None \<Rightarrow> Some loc
           | Some frame \<Rightarrow>
               locate (mf_scale (rmc_latitude frame) \<noteq> 0 \<and> mf_scale (rmc_longitude frame) \<noteq> 0 \<and> mf_scale (rmc_speed frame) \<noteq> 0)
                 (rmc_latitude frame) (rmc_longitude frame) loc)
        }
      | _ \<Rightarrow> Some loc)"

text \<open>The buffer that is handed to the parser must contain a terminator.\<close>

definition process_sentence :: "bytes \<Rightarrow> gps_location \<Rightarrow> gps_location option" where
  "process_sentence buffer loc = (if NUL \<in> set buffer then handle_sentence buffer loc else None)"

section \<open>Tokens\<close>

text \<open>One token of the line. \<open>refilled\<close> says whether the call of \<open>datadumper_dump_if_needed\<close> at the end
  has built a new document, which calls the filler.\<close>

definition starts_sentence :: "bytes \<Rightarrow> bool" where
  "starts_sentence token \<longleftrightarrow> chr_at token = CHR ''$'' \<or> chr_at token = CHR ''!''"

definition gps_token :: "bytes \<Rightarrow> bool \<Rightarrow> gps_receiver \<Rightarrow> gps_receiver option" where
  "gps_token token refilled g = do {
     g \<leftarrow> (if starts_sentence token then do {
            loc \<leftarrow> process_sentence (nmea_sentence_buffer g) (fj_obj_location g);
            buf \<leftarrow> buf_blit (replicate GPS_SENTENCE_BUFF_LEN NUL) 0 token;
            Some (g\<lparr>fj_obj_location := loc, nmea_sentence_buffer := buf, nmea_sentence_next_idx := length token\<rparr>)
          } else do {
            buf \<leftarrow> buf_blit (nmea_sentence_buffer g) (nmea_sentence_next_idx g) token;
            Some (g\<lparr>nmea_sentence_buffer := buf, nmea_sentence_next_idx := nmea_sentence_next_idx g + length token\<rparr>)
          });
     Some (if refilled then fst (gps_json_filler g) else g)
   }"

fun gps_token_loop :: "(bytes \<times> bool) list \<Rightarrow> gps_receiver \<Rightarrow> gps_receiver option" where
  "gps_token_loop [] g = Some g"
| "gps_token_loop ((token, refilled) # ts) g = do { g \<leftarrow> gps_token token refilled g; gps_token_loop ts g }"

text \<open>\<open>strtok\<close> with two separators.\<close>

definition line_tokens :: "bytes \<Rightarrow> bytes list" where
  "line_tokens buffer = strtok_all newline (map (\<lambda>c. if c = CHR 0x0D then newline else c) buffer)"

section \<open>The thread\<close>

text \<open>The result of \<open>read\<close>, with a flag for each token as above. The terminator is written behind the
  bytes that were read, also when these fill the buffer. The list ends where \<open>end_thread\<close> is set.\<close>

datatype gps_read = ReadFails | ReadEnds | ReadData bytes "nat \<Rightarrow> bool"

fun gps_thread_loop :: "gps_read list \<Rightarrow> gps_receiver \<Rightarrow> gps_receiver option" where
  "gps_thread_loop [] g = Some g"
| "gps_thread_loop (ReadFails # rs) g = Some g"
| "gps_thread_loop (ReadEnds # rs) g = Some g"
| "gps_thread_loop (ReadData data refilled # rs) g =
     (if GPS_READ_BUFF_LEN \<le> length data then None
      else do {
        let tokens = line_tokens data;
        g \<leftarrow> gps_token_loop (zip tokens (map refilled [0..<length tokens])) g;
        gps_thread_loop rs g
      })"

definition gpsreceiver_init :: "'f \<Rightarrow> config_manager \<Rightarrow> bytes \<Rightarrow> ('f, 'j, 'w) datadumper \<Rightarrow> (int \<times> bytes \<times> ('f, 'j, 'w) datadumper) option" where
  "gpsreceiver_init filler cfg portname dd = do {
     (_, portname) \<leftarrow> config_manager_get_option_string cfg ''gps_recv'' ''serialportname'' portname GPS_PORTNAME_LEN;
     Some (0, portname, datadumper_add_module_init_cb (Some filler) True ''gps_data'' dd)
   }"

section \<open>Lemmas\<close>

text \<open>The buffer holds the characters of the sentence that is being collected, then zeros.\<close>

definition gps_wf :: "gps_receiver \<Rightarrow> bytes \<Rightarrow> bool" where
  "gps_wf g sentence \<longleftrightarrow> NUL \<notin> set sentence \<and> length sentence \<le> 83 \<and>
     nmea_sentence_buffer g = sentence @ replicate (83 - length sentence) NUL \<and>
     nmea_sentence_next_idx g = length sentence"

lemma scan_cstr [simp]: "minmea_scan (cstr s) format = minmea_scan s format"
  by (simp add: minmea_scan_def)

lemma sentence_id_cstr [simp]: "minmea_sentence_id (cstr s) strict = minmea_sentence_id s strict"
  by (simp add: minmea_sentence_id_def minmea_check_def)

lemma parse_cstr [simp]:
  "minmea_parse_gga (cstr s) = minmea_parse_gga s" "minmea_parse_rmc (cstr s) = minmea_parse_rmc s"
  by (simp_all add: minmea_parse_gga_def minmea_parse_rmc_def)

lemma handle_padded: "handle_sentence (s @ NUL # r) loc = handle_sentence s loc"
proof -
  have "handle_sentence b loc = handle_sentence (cstr b) loc" for b
    by (simp only: handle_sentence_def sentence_id_cstr parse_cstr)
  then show ?thesis by (metis cstr_append_NUL)
qed

lemma process_wf:
  assumes "gps_wf g s"
  shows "process_sentence (nmea_sentence_buffer g) loc = (if length s < 83 then handle_sentence s loc else None)"
proof (cases "length s < 83")
  case True
  then obtain k where "83 - length s = Suc k" by (metis Suc_diff_Suc)
  then show ?thesis using assms True handle_padded [of s] by (simp add: gps_wf_def process_sentence_def)
next
  case False
  then show ?thesis using assms by (simp add: gps_wf_def process_sentence_def)
qed

lemma token_continues:
  assumes "gps_wf g s" "NUL \<notin> set token" "\<not> starts_sentence token"
  shows "gps_token token refilled g =
     (if length s + length token \<le> 83 then
        Some (g\<lparr>nmea_sentence_buffer := (s @ token) @ replicate (83 - length (s @ token)) NUL,
          nmea_sentence_next_idx := length (s @ token),
          fj_obj_location := (if refilled then Some None else fj_obj_location g)\<rparr>)
      else None)"
  using assms by (simp add: gps_token_def gps_wf_def buf_blit_def gps_json_filler_def)

lemma token_starts:
  assumes "gps_wf g s" "NUL \<notin> set token" "starts_sentence token"
  shows "gps_token token refilled g =
     (if length s < 83 \<and> length token \<le> 83 then do {
        loc \<leftarrow> handle_sentence s (fj_obj_location g);
        Some (g\<lparr>nmea_sentence_buffer := token @ replicate (83 - length token) NUL,
          nmea_sentence_next_idx := length token,
          fj_obj_location := (if refilled then Some None else loc)\<rparr>)
      } else None)"
  using assms by (cases "handle_sentence s (fj_obj_location g)")
    (simp_all add: gps_token_def process_wf buf_blit_def gps_json_filler_def)

text \<open>The pieces of one sentence: the first starts it, the others do not.\<close>

definition pieces :: "bytes list \<Rightarrow> bool" where
  "pieces ps \<longleftrightarrow> ps \<noteq> [] \<and> starts_sentence (hd ps) \<and> (\<forall>p\<in>set (tl ps). \<not> starts_sentence p) \<and> (\<forall>p\<in>set ps. NUL \<notin> set p)"

lemma continuation:
  "gps_wf g s \<Longrightarrow> \<forall>p\<in>set ps. \<not> starts_sentence p \<and> NUL \<notin> set p \<Longrightarrow> length rs = length ps \<Longrightarrow>
     length s + length (concat ps) \<le> 83 \<Longrightarrow>
     \<exists>g'. gps_token_loop (zip ps rs) g = Some g' \<and> gps_wf g' (s @ concat ps) \<and>
       (fj_obj_location g \<noteq> None \<longrightarrow> fj_obj_location g' \<noteq> None)"
proof (induction ps arbitrary: g s rs)
  case (Cons p ps)
  obtain r rs' where rs: "rs = r # rs'" "length rs' = length ps" using Cons.prems(3) by (cases rs) auto
  obtain g1 where g1: "gps_token p r g = Some g1" "gps_wf g1 (s @ p)"
      "fj_obj_location g \<noteq> None \<longrightarrow> fj_obj_location g1 \<noteq> None"
    using token_continues [OF Cons.prems(1), of p r] Cons.prems(1,2,4) by (simp add: gps_wf_def)
  have "\<exists>g'. gps_token_loop (zip ps rs') g1 = Some g' \<and> gps_wf g' ((s @ p) @ concat ps) \<and>
       (fj_obj_location g1 \<noteq> None \<longrightarrow> fj_obj_location g' \<noteq> None)"
    using Cons.prems(2,4) by (intro Cons.IH [OF g1(2) _ rs(2)]) auto
  then show ?case using g1 rs by auto
qed simp

lemma too_long:
  "gps_wf g s \<Longrightarrow> \<forall>p\<in>set ps. \<not> starts_sentence p \<and> NUL \<notin> set p \<Longrightarrow> length rs = length ps \<Longrightarrow>
     83 < length s + length (concat ps) \<Longrightarrow> gps_token_loop (zip ps rs) g = None"
proof (induction ps arbitrary: g s rs)
  case (Cons p ps)
  obtain r rs' where rs: "rs = r # rs'" "length rs' = length ps" using Cons.prems(3) by (cases rs) auto
  show ?case
  proof (cases "length s + length p \<le> 83")
    case True
    then obtain g1 where g1: "gps_token p r g = Some g1" "gps_wf g1 (s @ p)"
      using token_continues [OF Cons.prems(1), of p r] Cons.prems(1,2) by (simp add: gps_wf_def)
    have "gps_token_loop (zip ps rs') g1 = None"
      using Cons.prems(2,4) by (intro Cons.IH [OF g1(2) _ rs(2)]) auto
    then show ?thesis using g1 rs by simp
  next
    case False
    then show ?thesis using token_continues [OF Cons.prems(1), of p r] Cons.prems(2) rs by simp
  qed
qed (simp add: gps_wf_def)

lemma token_loop_append: "gps_token_loop (as @ bs) g = do { g \<leftarrow> gps_token_loop as g; gps_token_loop bs g }"
proof (induction as arbitrary: g)
  case (Cons a as)
  then show ?case by (cases a; cases "gps_token (fst a) (snd a) g") auto
qed simp

lemma locate_keeps: "locate known lat lon loc = Some loc' \<Longrightarrow> loc' \<noteq> None"
  by (auto simp: locate_def set_location_def split: if_splits option.splits bind_splits)

lemma handle_keeps: "handle_sentence s loc = Some loc' \<Longrightarrow> loc \<noteq> None \<Longrightarrow> loc' \<noteq> None"
  by (auto simp: handle_sentence_def dest: locate_keeps split: option.splits bind_splits minmea_sentence_id.splits)

lemma first_piece:
  assumes "gps_wf g s0" "length s0 < 83" "handle_sentence s0 (fj_obj_location g) \<noteq> None" "fj_obj_location g \<noteq> None"
    and "starts_sentence p" "NUL \<notin> set p" "length p \<le> 83"
  shows "\<exists>g'. gps_token p r g = Some g' \<and> gps_wf g' p \<and> fj_obj_location g' \<noteq> None"
proof -
  obtain loc where loc: "handle_sentence s0 (fj_obj_location g) = Some loc" "loc \<noteq> None"
    using assms(3,4) handle_keeps by blast
  then show ?thesis
    using token_starts [OF assms(1,6,5), of r] assms(2,6,7) by (simp add: gps_wf_def)
qed

lemma all_pieces:
  assumes "gps_wf g s0" "length s0 < 83" "handle_sentence s0 (fj_obj_location g) \<noteq> None" "fj_obj_location g \<noteq> None"
    and "pieces ps" "length rs = length ps"
  shows "length (concat ps) \<le> 83 \<longrightarrow>
      (\<exists>g'. gps_token_loop (zip ps rs) g = Some g' \<and> gps_wf g' (concat ps) \<and> fj_obj_location g' \<noteq> None)"
    and "83 < length (concat ps) \<longrightarrow> gps_token_loop (zip ps rs) g = None"
proof -
  obtain p ps' where ps: "ps = p # ps'" using assms(5) by (cases ps) (auto simp: pieces_def)
  obtain r rs' where rs: "rs = r # rs'" "length rs' = length ps'" using assms(6) ps by (cases rs) auto
  have p: "starts_sentence p" "NUL \<notin> set p" "\<forall>p\<in>set ps'. \<not> starts_sentence p \<and> NUL \<notin> set p"
    using assms(5) ps by (auto simp: pieces_def)
  note first = first_piece [OF assms(1-4) p(1,2), of r]
  show "length (concat ps) \<le> 83 \<longrightarrow>
      (\<exists>g'. gps_token_loop (zip ps rs) g = Some g' \<and> gps_wf g' (concat ps) \<and> fj_obj_location g' \<noteq> None)"
  proof
    assume len: "length (concat ps) \<le> 83"
    then obtain g1 where g1: "gps_token p r g = Some g1" "gps_wf g1 p" "fj_obj_location g1 \<noteq> None"
      using first ps by auto
    from continuation [OF g1(2) p(3) rs(2)] len ps g1 rs
    show "\<exists>g'. gps_token_loop (zip ps rs) g = Some g' \<and> gps_wf g' (concat ps) \<and> fj_obj_location g' \<noteq> None" by auto
  qed
  show "83 < length (concat ps) \<longrightarrow> gps_token_loop (zip ps rs) g = None"
  proof
    assume len: "83 < length (concat ps)"
    show "gps_token_loop (zip ps rs) g = None"
    proof (cases "length p \<le> 83")
      case True
      then obtain g1 where g1: "gps_token p r g = Some g1" "gps_wf g1 p" using first by auto
      from too_long [OF g1(2) p(3) rs(2)] len ps g1 rs show ?thesis by simp
    next
      case False
      then show ?thesis using token_starts [OF assms(1) p(2,1), of r] ps rs by simp
    qed
  qed
qed

section \<open>Properties\<close>

text \<open>
  C30. The location in the document follows the receiver: however the line cuts a GGA sentence of at most
  82 characters into tokens, when the next sentence begins, the location is the coordinates of
  this sentence. A sentence of 83 characters or more is undefined behaviour: it overruns the buffer or
  leaves it without a terminator.
\<close>

theorem gps_location_follows:
  assumes "gps_wf g s0" "length s0 < 83" "handle_sentence s0 (fj_obj_location g) \<noteq> None" "fj_obj_location g \<noteq> None"
    and "pieces ps" "length rs = length ps"
    and "starts_sentence q" "NUL \<notin> set q" "length q \<le> 83"
  shows "(length (concat ps) < 83 \<and> minmea_sentence_id (concat ps) False = MINMEA_SENTENCE_GGA \<and>
      minmea_parse_gga (concat ps) = Some (Some f) \<and> minmea_tocoord (gga_latitude f) = Some (Some lat) \<and>
      minmea_tocoord (gga_longitude f) = Some (Some lon) \<longrightarrow>
      (\<exists>g'. gps_token_loop (zip ps rs @ [(q, False)]) g = Some g' \<and> fj_obj_location g' = Some (Some (lat, lon)) \<and> gps_wf g' q)) \<and>
     (83 \<le> length (concat ps) \<longrightarrow> gps_token_loop (zip ps rs @ [(q, False)]) g = None)"
proof (intro conjI impI)
  note run = all_pieces [OF assms(1-6)]
  show "\<exists>g'. gps_token_loop (zip ps rs @ [(q, False)]) g = Some g' \<and> fj_obj_location g' = Some (Some (lat, lon)) \<and> gps_wf g' q"
    if h: "length (concat ps) < 83 \<and> minmea_sentence_id (concat ps) False = MINMEA_SENTENCE_GGA \<and>
      minmea_parse_gga (concat ps) = Some (Some f) \<and> minmea_tocoord (gga_latitude f) = Some (Some lat) \<and>
      minmea_tocoord (gga_longitude f) = Some (Some lon)"
  proof -
    obtain g1 where g1: "gps_token_loop (zip ps rs) g = Some g1" "gps_wf g1 (concat ps)" "fj_obj_location g1 \<noteq> None"
      using run(1) h by auto
    have "mf_scale (gga_latitude f) \<noteq> 0" "mf_scale (gga_longitude f) \<noteq> 0"
      using h by (auto simp: minmea_tocoord_def)
    then have "handle_sentence (concat ps) (fj_obj_location g1) = Some (Some (Some (lat, lon)))"
      using h g1(3) by (auto simp: handle_sentence_def locate_def set_location_def)
    then show ?thesis
      using g1 token_starts [OF g1(2) assms(8,7), of False] h assms(8,9) by (simp add: token_loop_append gps_wf_def)
  qed
  show "gps_token_loop (zip ps rs @ [(q, False)]) g = None" if "83 \<le> length (concat ps)"
  proof (cases "length (concat ps) = 83")
    case True
    then obtain g1 where g1: "gps_token_loop (zip ps rs) g = Some g1" "gps_wf g1 (concat ps)"
      using run(1) by auto
    then show ?thesis using token_starts [OF g1(2) assms(8,7), of False] True by (simp add: token_loop_append)
  next
    case False
    then show ?thesis using run(2) that by (simp add: token_loop_append)
  qed
qed

definition fresh_gps :: gps_receiver where
  "fresh_gps = \<lparr>nmea_sentence_buffer = replicate 83 NUL, nmea_sentence_next_idx = 0, fj_obj_location = Some None\<rparr>"

theorem gps_location_follows_witness:
  "\<exists>g' lat lon. gps_token_loop [(''$GPGGA,123519,4807.038,N,0113'', False), (''1.000,E,1,08,0.9,545.4,M,46.9,M,,*47'', True),
      (''$GPRMC'', False)] fresh_gps = Some g' \<and> fj_obj_location g' = Some (Some (lat, lon))"
proof -
  let ?ps = "[''$GPGGA,123519,4807.038,N,0113'', ''1.000,E,1,08,0.9,545.4,M,46.9,M,,*47'']"
  have wf: "gps_wf fresh_gps []" "handle_sentence [] (fj_obj_location fresh_gps) \<noteq> None" "fj_obj_location fresh_gps \<noteq> None"
    by (simp_all add: gps_wf_def fresh_gps_def handle_sentence_def minmea_sentence_id_def minmea_check_def)
  have ps: "pieces ?ps" by (simp add: pieces_def starts_sentence_def)
  have id: "minmea_sentence_id (concat ?ps) False = MINMEA_SENTENCE_GGA" by code_simp
  have "map_option (map_option (\<lambda>f. (gga_latitude f, gga_longitude f))) (minmea_parse_gga (concat ?ps)) =
      Some (Some (\<lparr>mf_value = 4807038, mf_scale = 1000\<rparr>, \<lparr>mf_value = 1131000, mf_scale = 1000\<rparr>))" by code_simp
  then obtain f where f: "minmea_parse_gga (concat ?ps) = Some (Some f)" "gga_latitude f = \<lparr>mf_value = 4807038, mf_scale = 1000\<rparr>"
      "gga_longitude f = \<lparr>mf_value = 1131000, mf_scale = 1000\<rparr>" by auto
  obtain lat lon where "minmea_tocoord (gga_latitude f) = Some (Some lat)" "minmea_tocoord (gga_longitude f) = Some (Some lon)"
    using f by (simp add: minmea_tocoord_def)
  with gps_location_follows [OF wf(1) _ wf(2,3) ps, of "[False, True]" "''$GPRMC''" f lat lon] id f(1) show ?thesis
    by (auto simp: starts_sentence_def)
qed

end
