(* ===== verification/Obdii.thy ===== *)
theory Obdii
  imports Single_Float C_Prelude "HOL-Library.Word"
begin

unbundle bit_operations_syntax

text \<open>
  The OBD-II library (\<open>plugins/pip/obdii/ejv_obdii/OBDII.c\<close> and \<open>OBDIICommunication.c\<close>) as the OBDII
  plugin uses it: the table of commands, the check and the decoding of a response, a query, and the
  set of commands that a vehicle supports. The descriptions of the commands are left out. Allocation
  succeeds; \<open>None\<close> is an access outside of the received bytes or of a block, or a call through NULL.
\<close>

section \<open>Commands\<close>

datatype response_type = TypeBitfield | TypeNumeric | TypeString | TypeOther

datatype decoder =
    DecodeBitfield | DecodeEngineRPMs | DecodeTimingAdvance | DecodeTemperature | DecodePercentage | DecodeFuelTrim
  | DecodeFuelPressure | DecodeDTCs | DecodeVIN | DecodeOxygenSensorValues | DecodeThrottlePosition
  | DecodeMAFAirFlowRate | DecodeSingleByteBitfield | DecodeTwoByteBitfield | DecodeUInt16 | DecodeFuelRailPressure
  | DecodeFuelRailGaugePressure | DecodeOxygenSensorValues2 | DecodeUInt8 | DecodeEGRError | DecodeVaporPressure
  | DecodeOxygenSensorValues3 | DecodeCatalystTemperature | DecodeControlModuleVoltage | DecodeAbsoluteLoadValue
  | DecodeFuelAirEquivalence | DecodeNop | DecodeNULL

record obdii_command =
  cmd_mode :: "8 word"
  cmd_pid :: "8 word"
  cmd_type :: response_type
  cmd_length :: nat
  cmd_decoder :: decoder

definition obd_command :: "8 word \<Rightarrow> 8 word \<Rightarrow> response_type \<Rightarrow> nat \<Rightarrow> decoder \<Rightarrow> obdii_command" where
  "obd_command m p t l d = \<lparr>cmd_mode = m, cmd_pid = p, cmd_type = t, cmd_length = l, cmd_decoder = d\<rparr>"

abbreviation (input) VARIABLE_RESPONSE_LENGTH :: nat where "VARIABLE_RESPONSE_LENGTH \<equiv> 0"

definition OBDIIMode1Commands :: "obdii_command list" where
  "OBDIIMode1Commands =
     [obd_command 0x01 0x00 TypeBitfield 6 DecodeBitfield, obd_command 0x01 0x01 TypeBitfield 6 DecodeBitfield,
      obd_command 0x01 0x02 TypeOther 4 DecodeNop, obd_command 0x01 0x03 TypeBitfield 4 DecodeTwoByteBitfield,
      obd_command 0x01 0x04 TypeNumeric 3 DecodePercentage, obd_command 0x01 0x05 TypeNumeric 3 DecodeTemperature,
      obd_command 0x01 0x06 TypeNumeric 3 DecodeFuelTrim, obd_command 0x01 0x07 TypeNumeric 3 DecodeFuelTrim,
      obd_command 0x01 0x08 TypeNumeric 3 DecodeFuelTrim, obd_command 0x01 0x09 TypeNumeric 3 DecodeFuelTrim,
      obd_command 0x01 0x0A TypeNumeric 3 DecodeFuelPressure, obd_command 0x01 0x0B TypeNumeric 3 DecodeUInt8,
      obd_command 0x01 0x0C TypeNumeric 4 DecodeEngineRPMs, obd_command 0x01 0x0D TypeNumeric 3 DecodeUInt8,
      obd_command 0x01 0x0E TypeNumeric 3 DecodeTimingAdvance, obd_command 0x01 0x0F TypeNumeric 3 DecodeTemperature,
      obd_command 0x01 0x10 TypeNumeric 4 DecodeMAFAirFlowRate, obd_command 0x01 0x11 TypeNumeric 3 DecodeThrottlePosition,
      obd_command 0x01 0x12 TypeBitfield 3 DecodeSingleByteBitfield,
      obd_command 0x01 0x13 TypeBitfield 3 DecodeSingleByteBitfield,
      obd_command 0x01 0x14 TypeOther 4 DecodeOxygenSensorValues,
      obd_command 0x01 0x15 TypeOther 4 DecodeOxygenSensorValues,
      obd_command 0x01 0x16 TypeOther 4 DecodeOxygenSensorValues,
      obd_command 0x01 0x17 TypeOther 4 DecodeOxygenSensorValues,
      obd_command 0x01 0x18 TypeOther 4 DecodeOxygenSensorValues,
      obd_command 0x01 0x19 TypeOther 4 DecodeOxygenSensorValues,
      obd_command 0x01 0x1A TypeOther 4 DecodeOxygenSensorValues,
      obd_command 0x01 0x1B TypeOther 4 DecodeOxygenSensorValues,
      obd_command 0x01 0x1C TypeBitfield 3 DecodeSingleByteBitfield,
      obd_command 0x01 0x1D TypeBitfield 3 DecodeSingleByteBitfield,
      obd_command 0x01 0x1E TypeBitfield 3 DecodeSingleByteBitfield, obd_command 0x01 0x1F TypeNumeric 4 DecodeUInt16,
      obd_command 0x01 0x20 TypeBitfield 6 DecodeBitfield, obd_command 0x01 0x21 TypeNumeric 4 DecodeUInt16,
      obd_command 0x01 0x22 TypeNumeric 4 DecodeFuelRailPressure,
      obd_command 0x01 0x23 TypeNumeric 4 DecodeFuelRailGaugePressure,
      obd_command 0x01 0x24 TypeOther 6 DecodeOxygenSensorValues2,
      obd_command 0x01 0x25 TypeOther 6 DecodeOxygenSensorValues2,
      obd_command 0x01 0x26 TypeOther 6 DecodeOxygenSensorValues2,
      obd_command 0x01 0x27 TypeOther 6 DecodeOxygenSensorValues2,
      obd_command 0x01 0x28 TypeOther 6 DecodeOxygenSensorValues2,
      obd_command 0x01 0x29 TypeOther 6 DecodeOxygenSensorValues2,
      obd_command 0x01 0x2A TypeOther 6 DecodeOxygenSensorValues2,
      obd_command 0x01 0x2B TypeOther 6 DecodeOxygenSensorValues2, obd_command 0x01 0x2C TypeNumeric 3 DecodePercentage,
      obd_command 0x01 0x2D TypeNumeric 3 DecodeEGRError, obd_command 0x01 0x2E TypeNumeric 3 DecodePercentage,
      obd_command 0x01 0x2F TypeNumeric 3 DecodePercentage, obd_command 0x01 0x30 TypeNumeric 3 DecodeUInt8,
      obd_command 0x01 0x31 TypeNumeric 4 DecodeUInt16, obd_command 0x01 0x32 TypeNumeric 4 DecodeVaporPressure,
      obd_command 0x01 0x33 TypeNumeric 3 DecodeUInt8, obd_command 0x01 0x34 TypeOther 6 DecodeOxygenSensorValues3,
      obd_command 0x01 0x35 TypeOther 6 DecodeOxygenSensorValues3,
      obd_command 0x01 0x36 TypeOther 6 DecodeOxygenSensorValues3,
      obd_command 0x01 0x37 TypeOther 6 DecodeOxygenSensorValues3,
      obd_command 0x01 0x38 TypeOther 6 DecodeOxygenSensorValues3,
      obd_command 0x01 0x39 TypeOther 6 DecodeOxygenSensorValues3,
      obd_command 0x01 0x3A TypeOther 6 DecodeOxygenSensorValues3,
      obd_command 0x01 0x3B TypeOther 6 DecodeOxygenSensorValues3,
      obd_command 0x01 0x3C TypeNumeric 4 DecodeCatalystTemperature,
      obd_command 0x01 0x3D TypeNumeric 4 DecodeCatalystTemperature,
      obd_command 0x01 0x3E TypeNumeric 4 DecodeCatalystTemperature,
      obd_command 0x01 0x3F TypeNumeric 4 DecodeCatalystTemperature, obd_command 0x01 0x40 TypeBitfield 6 DecodeBitfield,
      obd_command 0x01 0x41 TypeBitfield 6 DecodeBitfield, obd_command 0x01 0x42 TypeNumeric 4 DecodeControlModuleVoltage,
      obd_command 0x01 0x43 TypeNumeric 4 DecodeAbsoluteLoadValue,
      obd_command 0x01 0x44 TypeNumeric 4 DecodeFuelAirEquivalence, obd_command 0x01 0x45 TypeNumeric 3 DecodePercentage,
      obd_command 0x01 0x46 TypeNumeric 3 DecodeTemperature, obd_command 0x01 0x47 TypeNumeric 3 DecodePercentage,
      obd_command 0x01 0x48 TypeNumeric 3 DecodePercentage, obd_command 0x01 0x49 TypeNumeric 3 DecodePercentage,
      obd_command 0x01 0x4A TypeNumeric 3 DecodePercentage, obd_command 0x01 0x4B TypeNumeric 3 DecodePercentage,
      obd_command 0x01 0x4C TypeNumeric 3 DecodePercentage, obd_command 0x01 0x4D TypeNumeric 4 DecodeUInt16,
      obd_command 0x01 0x4E TypeNumeric 4 DecodeUInt16]"

definition OBDIIMode3Command :: obdii_command where
  "OBDIIMode3Command = obd_command 0x03 0 TypeOther VARIABLE_RESPONSE_LENGTH DecodeDTCs"

definition OBDIIMode9Commands :: "obdii_command list" where
  "OBDIIMode9Commands =
     [obd_command 0x09 0x00 TypeBitfield 6 DecodeBitfield, obd_command 0x09 0x01 TypeNumeric 3 DecodeNULL,
      obd_command 0x09 0x02 TypeString VARIABLE_RESPONSE_LENGTH DecodeVIN]"

text \<open>The members of \<open>OBDIICommands\<close>, in order.\<close>

definition OBDIICommands :: "obdii_command list" where
  "OBDIICommands = OBDIIMode1Commands @ [OBDIIMode3Command] @ OBDIIMode9Commands"

section \<open>Decoding\<close>

text \<open>The union of a response, by the member that was stored last. \<open>ValOxygen\<close> has the voltage or the
  current, and the fuel trim or the equivalence ratio.\<close>

datatype obd_value =
    ValNone
  | ValNumeric rat
  | ValBitfield "32 word"
  | ValText "8 word list"
  | ValCodes "bytes list"
  | ValOxygen rat rat

abbreviation (input) dbl :: "rat \<Rightarrow> rat" where "dbl \<equiv> double_round"
abbreviation (input) flt :: "rat \<Rightarrow> rat" where "flt \<equiv> float_round"

text \<open>A byte and a pair of bytes of the payload as numbers.\<close>

definition u8 :: "8 word list \<Rightarrow> nat \<Rightarrow> rat option" where
  "u8 p i = map_option (\<lambda>b. of_int (uint b)) (buf_get p i)"

definition u16 :: "8 word list \<Rightarrow> nat \<Rightarrow> rat option" where
  "u16 p i = do { a \<leftarrow> buf_get p i; b \<leftarrow> buf_get p (i + 1); Some (of_int (push_bit 8 (uint a) OR uint b)) }"

definition RawToAscii :: "nat \<Rightarrow> char" where
  "RawToAscii raw = (if raw > 9 then char_of (65 + raw - 10) else char_of (48 + raw))"

definition trouble_code :: "8 word \<Rightarrow> 8 word \<Rightarrow> bytes" where
  "trouble_code a b =
     [''PCBU'' ! unat (drop_bit 6 a), char_of (48 + unat (drop_bit 4 (a AND 0x30))), RawToAscii (unat (a AND 0x0F)),
      RawToAscii (unat (drop_bit 4 b)), RawToAscii (unat (b AND 0x0F))]"

fun trouble_codes :: "8 word list \<Rightarrow> bytes list" where
  "trouble_codes (a # b # rest) = trouble_code a b # trouble_codes rest"
| "trouble_codes _ = []"

definition numeric :: "rat option \<Rightarrow> (bool \<times> obd_value) option" where
  "numeric v = map_option (\<lambda>x. (True, ValNumeric (flt x))) v"

fun run_decoder :: "decoder \<Rightarrow> 8 word list \<Rightarrow> (bool \<times> obd_value) option" where
  "run_decoder DecodeBitfield p = do {
     a \<leftarrow> buf_get p 2; b \<leftarrow> buf_get p 3; c \<leftarrow> buf_get p 4; d \<leftarrow> buf_get p 5;
     Some (True, ValBitfield (push_bit 24 (ucast a) OR push_bit 16 (ucast b) OR push_bit 8 (ucast c) OR ucast d))
   }"
| "run_decoder DecodeEngineRPMs p =
     numeric (do { a \<leftarrow> u8 p 2; b \<leftarrow> u8 p 3; Some (dbl (dbl (dbl (256 * a) + b) / 4)) })"
| "run_decoder DecodeTimingAdvance p = numeric (do { a \<leftarrow> u8 p 2; Some (dbl (dbl (a / 2) - 64)) })"
| "run_decoder DecodeTemperature p = numeric (do { a \<leftarrow> u8 p 2; Some (a - 40) })"
| "run_decoder DecodePercentage p = numeric (do { a \<leftarrow> u8 p 2; Some (dbl (a / dbl (255 / 100))) })"
| "run_decoder DecodeFuelTrim p = numeric (do { a \<leftarrow> u8 p 2; Some (dbl (dbl (a / dbl (128 / 100)) - 100)) })"
| "run_decoder DecodeFuelPressure p = numeric (do { a \<leftarrow> u8 p 2; Some (3 * a) })"
| "run_decoder DecodeDTCs p =
     (if length p < 2 \<or> odd (length p - 2) then Some (False, ValNone)
      else Some (True, ValCodes (trouble_codes (drop 2 p))))"
| "run_decoder DecodeVIN p =
     (if length p < 2 then None else Some (True, ValText (takeWhile (\<lambda>b. b \<noteq> 0) (drop 2 p))))"
| "run_decoder DecodeOxygenSensorValues p = do {
     a \<leftarrow> u8 p 2; b \<leftarrow> u8 p 3;
     Some (True, ValOxygen (flt (dbl (a / 200))) (flt (dbl (dbl (dbl (100 / 128) * b) - 100))))
   }"
| "run_decoder DecodeThrottlePosition p = numeric (do { a \<leftarrow> u8 p 2; Some (dbl (dbl (100 / 255) * a)) })"
| "run_decoder DecodeMAFAirFlowRate p = numeric (do { w \<leftarrow> u16 p 2; Some (dbl (w / 100)) })"
| "run_decoder DecodeSingleByteBitfield p = do { a \<leftarrow> buf_get p 2; Some (True, ValBitfield (ucast a)) }"
| "run_decoder DecodeTwoByteBitfield p = do {
     a \<leftarrow> buf_get p 2; b \<leftarrow> buf_get p 3; Some (True, ValBitfield (push_bit 8 (ucast a) OR ucast b))
   }"
| "run_decoder DecodeUInt16 p = numeric (u16 p 2)"
| "run_decoder DecodeFuelRailPressure p = numeric (do { w \<leftarrow> u16 p 2; Some (dbl (dbl (79 / 1000) * w)) })"
| "run_decoder DecodeFuelRailGaugePressure p = numeric (do { w \<leftarrow> u16 p 2; Some (10 * w) })"
| "run_decoder DecodeOxygenSensorValues2 p = do {
     v \<leftarrow> u16 p 4; r \<leftarrow> u16 p 2;
     Some (True, ValOxygen (flt (dbl (dbl (8 / 65536) * v))) (flt (dbl (dbl (2 / 65536) * r))))
   }"
| "run_decoder DecodeUInt8 p = numeric (u8 p 2)"
| "run_decoder DecodeEGRError p = numeric (do { a \<leftarrow> u8 p 2; Some (dbl (dbl (dbl (100 / 128) * a) - 100)) })"
| "run_decoder DecodeVaporPressure p = numeric (do {
     a \<leftarrow> buf_get p 2; b \<leftarrow> buf_get p 3; Some (dbl (of_int (push_bit 8 (sint a) OR uint b) / 4))
   })"
| "run_decoder DecodeOxygenSensorValues3 p = do {
     r \<leftarrow> u16 p 2; c \<leftarrow> u16 p 4;
     Some (True, ValOxygen (flt (dbl (dbl (c / 256) - 128))) (flt (dbl (dbl (2 / 65536) * r))))
   }"
| "run_decoder DecodeCatalystTemperature p = numeric (do { w \<leftarrow> u16 p 2; Some (dbl (dbl (w / 10) - 40)) })"
| "run_decoder DecodeControlModuleVoltage p = numeric (do { w \<leftarrow> u16 p 2; Some (dbl (w / 1000)) })"
| "run_decoder DecodeAbsoluteLoadValue p = numeric (do { w \<leftarrow> u16 p 2; Some (dbl (dbl (100 / 255) * w)) })"
| "run_decoder DecodeFuelAirEquivalence p = numeric (do { w \<leftarrow> u16 p 2; Some (dbl (dbl (2 / 65536) * w)) })"
| "run_decoder DecodeNop p = Some (True, ValNone)"
| "run_decoder DecodeNULL p = None"

definition OBDIIResponseSuccessful :: "obdii_command \<Rightarrow> 8 word list \<Rightarrow> bool" where
  "OBDIIResponseSuccessful command payload =
     (if payload = [] then False
      else if cmd_length command \<noteq> VARIABLE_RESPONSE_LENGTH \<and> length payload \<noteq> cmd_length command then False
      else if uint (payload ! 0) \<noteq> uint (cmd_mode command) + 0x40 then False
      else if cmd_mode command = 0x01 \<or> cmd_mode command = 0x09 then
        2 \<le> length payload \<and> payload ! 1 = cmd_pid command
      else True)"

record obdii_response =
  rsp_success :: bool
  rsp_value :: obd_value

definition no_response :: obdii_response where
  "no_response = \<lparr>rsp_success = False, rsp_value = ValNone\<rparr>"

definition OBDIIDecodeResponseForCommand :: "obdii_command \<Rightarrow> 8 word list \<Rightarrow> obdii_response option" where
  "OBDIIDecodeResponseForCommand command payload =
     (if payload = [] then Some no_response
      else if OBDIIResponseSuccessful command payload then do {
        (success, v) \<leftarrow> run_decoder (cmd_decoder command) payload;
        Some \<lparr>rsp_success = success, rsp_value = v\<rparr>
      } else Some no_response)"

section \<open>Queries\<close>

abbreviation (input) MAX_ISOTP_PAYLOAD :: nat where "MAX_ISOTP_PAYLOAD \<equiv> 4095"

text \<open>\<open>OBDIIPerformQuery\<close>: \<open>answer\<close> is the datagram that arrives within the second, or \<open>None\<close> when
  writing, waiting or reading fails; more bytes than fit the array are cut off.\<close>

definition OBDIIPerformQuery :: "8 word list option \<Rightarrow> obdii_command \<Rightarrow> obdii_response option" where
  "OBDIIPerformQuery answer command =
     (case answer of
        None \<Rightarrow> Some no_response
      | Some datagram \<Rightarrow>
          (let n = (if cmd_length command = VARIABLE_RESPONSE_LENGTH then MAX_ISOTP_PAYLOAD else cmd_length command);
               payload = take n datagram
           in if cmd_length command \<noteq> VARIABLE_RESPONSE_LENGTH \<and> length payload \<noteq> cmd_length command then Some no_response
              else OBDIIDecodeResponseForCommand command payload))"

section \<open>Decoding stays inside the payload\<close>

text \<open>The number of bytes that a decoder reads.\<close>

fun decoder_reads :: "decoder \<Rightarrow> nat option" where
  "decoder_reads DecodeNULL = None"
| "decoder_reads DecodeNop = Some 0"
| "decoder_reads DecodeDTCs = Some 0"
| "decoder_reads DecodeVIN = Some 2"
| "decoder_reads d =
     Some (if d \<in> {DecodeBitfield, DecodeOxygenSensorValues2, DecodeOxygenSensorValues3} then 6
           else if d \<in> {DecodeTimingAdvance, DecodeTemperature, DecodePercentage, DecodeFuelTrim, DecodeFuelPressure,
             DecodeThrottlePosition, DecodeSingleByteBitfield, DecodeUInt8, DecodeEGRError} then 3
           else 4)"

lemma decoder_in_bounds: "decoder_reads d = Some n \<Longrightarrow> n \<le> length p \<Longrightarrow> run_decoder d p \<noteq> None"
  by (cases d) (auto simp: u8_def u16_def buf_get_def numeric_def)

lemma table_lengths:
  "\<forall>c \<in> set OBDIICommands. c = OBDIIMode9Commands ! 1 \<or>
     (case decoder_reads (cmd_decoder c) of
        None \<Rightarrow> False
      | Some n \<Rightarrow> n \<le> cmd_length c \<or> cmd_length c = 0 \<and> n \<le> (if cmd_mode c = 0x01 \<or> cmd_mode c = 0x09 then 2 else 0))"
  by code_simp

lemma successful_length:
  assumes "OBDIIResponseSuccessful c p"
  shows "cmd_length c \<noteq> 0 \<Longrightarrow> length p = cmd_length c"
    and "cmd_mode c = 0x01 \<or> cmd_mode c = 0x09 \<Longrightarrow> 2 \<le> length p"
  using assms by (auto simp: OBDIIResponseSuccessful_def split: if_splits)

lemma query_in_bounds:
  assumes "c \<in> set OBDIICommands" "c \<noteq> OBDIIMode9Commands ! 1"
  shows "OBDIIPerformQuery answer c \<noteq> None"
proof -
  have "run_decoder (cmd_decoder c) p \<noteq> None" if ok: "OBDIIResponseSuccessful c p" for p
  proof -
    obtain n where "decoder_reads (cmd_decoder c) = Some n"
      "n \<le> cmd_length c \<or> cmd_length c = 0 \<and> n \<le> (if cmd_mode c = 0x01 \<or> cmd_mode c = 0x09 then 2 else 0)"
      using bspec [OF table_lengths assms(1)] assms(2) by (auto split: option.splits)
    moreover from this have "n \<le> length p"
      using successful_length [OF ok] by (cases "cmd_length c = 0") (auto split: if_splits)
    ultimately show ?thesis using decoder_in_bounds [of "cmd_decoder c" n p] by blast
  qed
  then have "OBDIIDecodeResponseForCommand c p \<noteq> None" for p
    by (cases "OBDIIResponseSuccessful c p") (fastforce simp: OBDIIDecodeResponseForCommand_def)+
  then show ?thesis by (auto simp: OBDIIPerformQuery_def Let_def split: option.splits)
qed

text \<open>
  Querying a command of the tables stays inside the bytes that were received, whatever they are. The one
  exception is the message count of mode 9: its decoder is NULL, and the program jumps there exactly for
  the well-formed answers, those of three bytes that repeat the mode and the command.\<close>

theorem decoding_in_bounds:
  assumes "c \<in> set OBDIICommands"
  shows "OBDIIPerformQuery answer c = None \<longleftrightarrow>
    c = OBDIIMode9Commands ! 1 \<and> (\<exists>n rest. answer = Some (0x49 # 0x01 # n # rest))"
proof (cases "c = OBDIIMode9Commands ! 1")
  case False
  then show ?thesis using query_in_bounds [OF assms] by simp
next
  case True
  then have c: "cmd_mode c = 9" "cmd_pid c = 1" "cmd_length c = 3" "cmd_decoder c = DecodeNULL"
    by (simp_all add: OBDIIMode9Commands_def obd_command_def)
  have three: "min (length d) 3 = 3 \<longleftrightarrow> (\<exists>x y z rest. d = x # y # z # rest)" for d :: "8 word list"
    by (cases d; cases "tl d"; cases "tl (tl d)") auto
  have mode: "uint x = 73 \<longleftrightarrow> x = 0x49" for x :: "8 word" by (simp add: word_uint_eq_iff)
  note query = OBDIIPerformQuery_def OBDIIDecodeResponseForCommand_def OBDIIResponseSuccessful_def
  have "OBDIIPerformQuery answer c = None \<longleftrightarrow> (\<exists>n rest. answer = Some (0x49 # 0x01 # n # rest))"
  proof (cases "\<exists>x y z rest. answer = Some (x # y # z # rest)")
    case True
    then show ?thesis by (auto simp: query c mode Let_def split: if_splits)
  next
    case False
    then have "answer = Some d \<Longrightarrow> min (length d) 3 \<noteq> 3" for d by (auto simp: three)
    then show ?thesis using False by (auto simp: query c Let_def split: option.splits)
  qed
  then show ?thesis using True by simp
qed

theorem decoding_in_bounds_witness:
  "OBDIIPerformQuery (Some [0x49, 0x01, 5]) (OBDIIMode9Commands ! 1) = None \<and>
   OBDIIPerformQuery (Some [0x41, 0x0C]) (OBDIIMode1Commands ! 0x0C) \<noteq> None"
proof -
  have "OBDIIMode9Commands ! 1 \<in> set OBDIICommands" "OBDIIMode1Commands ! 0x0C \<in> set OBDIICommands"
    "OBDIIMode1Commands ! 0x0C \<noteq> OBDIIMode9Commands ! 1" by code_simp+
  then show ?thesis using decoding_in_bounds by simp
qed

lemma byte_parts:
  "unat (drop_bit 6 a) = unat a div 64" "unat (drop_bit 4 (a AND 0x30)) = unat a div 16 mod 4"
  "unat (a AND 0x0F) = unat a mod 16" "unat (drop_bit 4 a) = unat a div 16"
  for a :: "8 word"
proof -
  have masks: "(0x0F :: 8 word) = mask 4" "drop_bit 4 (0x30 :: 8 word) = mask 2" by code_simp+
  have "unat (drop_bit n a) = unat a div 2 ^ n" for n by (simp only: unat_drop_bit_eq) (simp only: drop_bit_eq_div)
  from this [of 6] this [of 4] show "unat (drop_bit 6 a) = unat a div 64" and
    high: "unat (drop_bit 4 a) = unat a div 16" by simp_all
  have "drop_bit 4 (a AND 0x30) = take_bit 2 (drop_bit 4 a)"
    by (simp only: drop_bit_and masks take_bit_eq_mask)
  then have "unat (drop_bit 4 (a AND 0x30)) = take_bit 2 (unat a div 16)"
    by (simp only: unsigned_take_bit_eq high)
  then show "unat (drop_bit 4 (a AND 0x30)) = unat a div 16 mod 4"
    by (simp only: take_bit_eq_mod) simp
  have "a AND 0x0F = take_bit 4 a" by (simp only: masks take_bit_eq_mask)
  then have "unat (a AND 0x0F) = take_bit 4 (unat a)" by (simp only: unsigned_take_bit_eq)
  then show "unat (a AND 0x0F) = unat a mod 16" by (simp only: take_bit_eq_mod) simp
qed

lemma RawToAscii_inj: "m < 16 \<Longrightarrow> n < 16 \<Longrightarrow> RawToAscii m = RawToAscii n \<Longrightarrow> m = n"
proof -
  have "\<forall>m \<in> set [0..<16]. \<forall>n \<in> set [0..<16]. RawToAscii m = RawToAscii n \<longrightarrow> m = n" by code_simp
  then show "m < 16 \<Longrightarrow> n < 16 \<Longrightarrow> RawToAscii m = RawToAscii n \<Longrightarrow> m = n" by simp
qed

lemma PCBU_inj: "m < 4 \<Longrightarrow> n < 4 \<Longrightarrow> ''PCBU'' ! m = ''PCBU'' ! n \<Longrightarrow> m = n"
  by (subst (asm) nth_eq_iff_index_eq) auto

lemma digit_inj: "m < 4 \<Longrightarrow> n < 4 \<Longrightarrow> char_of (48 + m) = (char_of (48 + n) :: char) \<Longrightarrow> m = (n :: nat)"
  using RawToAscii_inj [of m n] by (simp add: RawToAscii_def)

lemma byte_less: "unat (a :: 8 word) < 256"
  using unsigned_less [of a] by simp

lemma trouble_code_eqD:
  assumes "trouble_code a b = trouble_code a' b'"
  shows "a = a' \<and> b = b'"
proof -
  have "''PCBU'' ! (unat a div 64) = ''PCBU'' ! (unat a' div 64)"
    "char_of (48 + unat a div 16 mod 4) = (char_of (48 + unat a' div 16 mod 4) :: char)"
    "RawToAscii (unat a mod 16) = RawToAscii (unat a' mod 16)"
    "RawToAscii (unat b div 16) = RawToAscii (unat b' div 16)" "RawToAscii (unat b mod 16) = RawToAscii (unat b' mod 16)"
    using assms unfolding trouble_code_def unfolding byte_parts(2) unfolding byte_parts(1,3,4)
    by (simp_all only: list.inject)
  note chars = this
  have small: "unat w div 64 < 4" "unat w div 16 mod 4 < 4" "unat w mod 16 < 16" "unat w div 16 < 16" for w :: "8 word"
    using byte_less [of w] by linarith+
  have "unat a div 64 = unat a' div 64" by (rule PCBU_inj [OF small(1) small(1) chars(1)])
  moreover have "unat a div 16 mod 4 = unat a' div 16 mod 4" by (rule digit_inj [OF small(2) small(2) chars(2)])
  moreover have "unat a mod 16 = unat a' mod 16" by (rule RawToAscii_inj [OF small(3) small(3) chars(3)])
  moreover have "unat b div 16 = unat b' div 16" by (rule RawToAscii_inj [OF small(4) small(4) chars(4)])
  moreover have "unat b mod 16 = unat b' mod 16" by (rule RawToAscii_inj [OF small(3) small(3) chars(5)])
  moreover have "n = 16 * (n div 16) + n mod 16" "n div 16 = 4 * (n div 64) + n div 16 mod 4" for n :: nat
    using mult_div_mod_eq [of 4 "n div 16"] by (simp_all flip: div_mult2_eq)
  ultimately have "unat a = unat a'" "unat b = unat b'" by metis+
  then show ?thesis by (simp add: word_unat_eq_iff)
qed

text \<open>
  Trouble codes are decoded without loss: two messages of pairs of bytes give the same list of codes only
  if they are the same, and there is one code for every pair.\<close>

theorem trouble_codes_injective:
  assumes "even (length p)" "even (length q)"
  shows "(trouble_codes p = trouble_codes q \<longleftrightarrow> p = q) \<and> length (trouble_codes p) = length p div 2"
proof -
  have "trouble_codes p = trouble_codes q \<Longrightarrow> p = q"
    using assms
  proof (induction p arbitrary: q rule: trouble_codes.induct)
    case (1 a b rest)
    then obtain a' b' rest' where "q = a' # b' # rest'" by (cases q rule: trouble_codes.cases) auto
    then show ?case using 1 trouble_code_eqD by auto
  next
    case "2_1"
    then show ?case by (cases q rule: trouble_codes.cases) simp_all
  next
    case "2_2"
    then show ?case by simp
  qed
  moreover have "length (trouble_codes p) = length p div 2"
    by (induction p rule: trouble_codes.induct) auto
  ultimately show ?thesis by blast
qed

theorem trouble_codes_injective_witness:
  "trouble_codes [0x01, 0x43, 0xC1, 0x56] = [''P0143'', ''U0156''] \<and>
   trouble_codes [0x01, 0x43, 0xC1, 0x56] \<noteq> trouble_codes [0x01, 0x43, 0xC1, 0x57]"
proof -
  have "trouble_codes [0x01, 0x43, 0xC1, 0x56] = [''P0143'', ''U0156'']" by code_simp
  then show ?thesis
    using trouble_codes_injective [of "[0x01, 0x43, 0xC1, 0x56]" "[0x01, 0x43, 0xC1, 0x57]"] by simp
qed

end
