(* ===== verification/Obdii_Supported.thy ===== *)
theory Obdii_Supported
  imports Obdii
begin

text \<open>
  The set of commands that a vehicle supports (\<open>OBDIIGetSupportedCommands\<close> in \<open>OBDIICommunication.c\<close>): the
  queries for the bit fields, the count of their bits, and the array of commands that is filled from the
  tables. A model of a vehicle that answers with its bit fields shows that the set is the one it means.
\<close>

section \<open>The commands a vehicle supports\<close>

text \<open>The member \<open>bitfieldValue\<close> of a response, which is zero after a failed query.\<close>

definition bitfieldValue :: "obdii_response \<Rightarrow> 32 word" where
  "bitfieldValue r = (case rsp_value r of ValBitfield w \<Rightarrow> w | _ \<Rightarrow> 0)"

record command_set =
  pids_1_to_20 :: "32 word"
  pids_21_to_40 :: "32 word"
  pids_41_to_60 :: "32 word"
  pids_61_to_80 :: "32 word"
  mode9_pids :: "32 word"
  numCommands :: nat
  set_commands :: "obdii_command list"

definition OBDIICommandSetContainsCommand :: "command_set \<Rightarrow> obdii_command \<Rightarrow> bool" where
  "OBDIICommandSetContainsCommand s command =
     (let pid = unat (cmd_pid command)
      in if cmd_mode command = 0x01 then
           (if pid = 0 then True
            else if pid \<le> 0x20 then pids_1_to_20 s AND push_bit (0x20 - pid) 1 \<noteq> 0
            else if pid \<le> 0x40 then pids_21_to_40 s AND push_bit (0x40 - pid) 1 \<noteq> 0
            else if pid \<le> 0x60 then pids_41_to_60 s AND push_bit (0x60 - pid) 1 \<noteq> 0
            else pids_61_to_80 s AND push_bit (0x80 - pid) 1 \<noteq> 0)
         else if cmd_mode command = 0x09 then
           (if pid = 0 then True else mode9_pids s AND push_bit (0x20 - pid) 1 \<noteq> 0)
         else False)"

text \<open>Counting the bits of a word by clearing the lowest one until none is left.\<close>

lemma unat_pred: "w \<noteq> 0 \<Longrightarrow> unat (w - 1) = unat (w :: 32 word) - 1"
  by (rule unat_minus_one)

lemma clear_less: "w \<noteq> 0 \<Longrightarrow> unat (w AND (w - 1)) < unat (w :: 32 word)"
proof -
  assume w: "w \<noteq> 0"
  have "unat (w AND (w - 1)) \<le> unat (w - 1)" by (simp add: word_and_le1 flip: word_le_nat_alt)
  moreover have "0 < unat w" using w by (simp add: unat_gt_0)
  ultimately show ?thesis by (simp add: unat_pred [OF w])
qed

function BitsSet :: "32 word \<Rightarrow> nat" where
  "BitsSet w = (if w = 0 then 0 else 1 + BitsSet (w AND (w - 1)))"
  by auto
termination
  by (relation "measure unat") (simp_all add: clear_less)

declare BitsSet.simps [simp del]

definition OBDIIGetSupportedCommands :: "(obdii_command \<Rightarrow> 8 word list option) \<Rightarrow> command_set option" where
  "OBDIIGetSupportedCommands ask = do {
     let query = (\<lambda>c. map_option bitfieldValue (OBDIIPerformQuery (ask c) c));
     w1 \<leftarrow> query (OBDIIMode1Commands ! 0);
     w2 \<leftarrow> (if w1 AND 0x01 = 0 then Some 0 else query (OBDIIMode1Commands ! 0x20));
     w3 \<leftarrow> (if w1 AND 0x01 = 0 \<or> w2 AND 0x01 = 0 then Some 0
           else map_option (\<lambda>w. w AND 0xFFFC0000) (query (OBDIIMode1Commands ! 0x40)));
     w9 \<leftarrow> query (OBDIIMode9Commands ! 0);
     let w9 = w9 AND 0xE0000000;
     let n = BitsSet w1 + BitsSet w2 + BitsSet w3 + BitsSet 0 + BitsSet w9 + 2 + 1;
     let s = \<lparr>pids_1_to_20 = w1, pids_21_to_40 = w2, pids_41_to_60 = w3, pids_61_to_80 = 0, mode9_pids = w9,
                numCommands = n, set_commands = []\<rparr>;
     let stored = filter (OBDIICommandSetContainsCommand s) OBDIIMode1Commands @ [OBDIIMode3Command] @
                  filter (OBDIICommandSetContainsCommand s) OBDIIMode9Commands;
     (if length stored \<le> n then Some (s\<lparr>set_commands := stored\<rparr>) else None)
   }"

definition OBDIICommandSetFree :: "command_set \<Rightarrow> command_set" where
  "OBDIICommandSetFree s = s\<lparr>set_commands := []\<rparr>"

section \<open>Lemmas on counting\<close>

lemma bits_nat_finite: "finite {i. bit (m :: nat) i}"
proof -
  have "i < m" if "bit m i" for i
  proof (rule ccontr)
    assume "\<not> i < m"
    then have "m < 2 ^ i" using less_exp [of i] by linarith
    then have "m div 2 ^ i = 0" by (rule div_less)
    then show False using that by (simp only: bit_iff_odd) simp
  qed
  then show ?thesis by (auto intro: finite_subset [OF _ finite_lessThan [of m]])
qed

lemma bit_even_iff: "bit (2 * m :: nat) i \<longleftrightarrow> (\<exists>j. i = Suc j \<and> bit m j)"
proof (cases i)
  case 0
  then show ?thesis by (simp only: bit_0) simp
next
  case (Suc n)
  have "2 * m div 2 = m" by simp
  then show ?thesis by (simp only: Suc bit_Suc) blast
qed

lemma bit_odd_iff: "bit (1 + 2 * m :: nat) i \<longleftrightarrow> i = 0 \<or> (\<exists>j. i = Suc j \<and> bit m j)"
proof (cases i)
  case 0
  then show ?thesis by (simp only: bit_0) simp
next
  case (Suc n)
  have "(1 + 2 * m) div 2 = m" by simp
  then show ?thesis by (simp only: Suc bit_Suc) blast
qed

lemma bits_double:
  "{i. bit (2 * m :: nat) i} = Suc ` {i. bit m i}" "{i. bit (1 + 2 * m :: nat) i} = insert 0 (Suc ` {i. bit m i})"
  by (auto simp only: bit_even_iff bit_odd_iff mem_Collect_eq image_iff insert_iff)

lemma clear_even: "0 < j \<Longrightarrow> 2 * j AND (2 * j - 1) = 2 * (j AND (j - 1 :: nat))"
proof (rule bit_eqI)
  fix n
  assume "0 < j"
  then have pred: "2 * j - 1 = 1 + 2 * (j - 1)" by simp
  show "bit (2 * j AND (2 * j - 1)) n \<longleftrightarrow> bit (2 * (j AND (j - 1))) n"
    unfolding pred bit_and_iff bit_even_iff bit_odd_iff by blast
qed

lemma clear_odd: "(1 + 2 * j) AND (1 + 2 * j - 1) = (2 * j :: nat)"
proof (rule bit_eqI)
  fix n
  have pred: "1 + 2 * j - 1 = 2 * j" by simp
  show "bit ((1 + 2 * j) AND (1 + 2 * j - 1)) n \<longleftrightarrow> bit (2 * j) n"
    unfolding pred bit_and_iff bit_even_iff bit_odd_iff by blast
qed

lemma clear_lowest: "0 < m \<Longrightarrow> card {i. bit (m :: nat) i} = 1 + card {i. bit (m AND (m - 1)) i}"
proof (induction m rule: less_induct)
  case (less m)
  show ?case
  proof (cases "even m")
    case True
    then obtain j where j: "m = 2 * j" by blast
    have pos: "0 < j" using less.prems j by simp
    then show ?thesis
      using less.IH [of j] j pos by (simp only: bits_double clear_even) (simp add: card_image)
  next
    case False
    then obtain j where j: "m = 1 + 2 * j" by (metis oddE add.commute)
    show ?thesis
      using bits_nat_finite [of j] by (simp only: j clear_odd bits_double) (simp add: card_image)
  qed
qed

lemma word_bits: "{i. bit (w :: 32 word) i} = {i. bit (unat w) i}"
  by (auto simp: bit_unsigned_iff dest: bit_imp_le_length)

lemma BitsSet_card: "BitsSet w = card {i. bit w i}"
proof (induction w rule: BitsSet.induct)
  case (1 w)
  show ?case
  proof (cases "w = 0")
    case True
    then show ?thesis by (simp add: BitsSet.simps)
  next
    case False
    have "unat (w AND (w - 1)) = unat w AND (unat w - 1)"
      using False by (simp add: unsigned_and_eq unat_minus_one)
    then have "card {i. bit w i} = 1 + card {i. bit (w AND (w - 1)) i}"
      using clear_lowest [of "unat w"] False by (simp add: word_bits unat_gt_0)
    then show ?thesis using 1 False by (subst BitsSet.simps) simp
  qed
qed

section \<open>The supported commands\<close>

lemma contains_bit: "w AND push_bit k 1 \<noteq> 0 \<longleftrightarrow> bit (w :: 32 word) k"
  by (simp add: push_bit_eq_mult and_exp_eq_0_iff_not_bit)

text \<open>What decides on a command: its mode and its identifier.\<close>

definition has_pid :: "command_set \<Rightarrow> 8 word \<times> nat \<Rightarrow> bool" where
  "has_pid s = (\<lambda>(m, pid).
     if m = 0x01 then
       (if pid = 0 then True
        else if pid \<le> 0x20 then bit (pids_1_to_20 s) (0x20 - pid)
        else if pid \<le> 0x40 then bit (pids_21_to_40 s) (0x40 - pid)
        else if pid \<le> 0x60 then bit (pids_41_to_60 s) (0x60 - pid)
        else bit (pids_61_to_80 s) (0x80 - pid))
     else m = 0x09 \<and> (pid = 0 \<or> bit (mode9_pids s) (0x20 - pid)))"

definition command_key :: "obdii_command \<Rightarrow> 8 word \<times> nat" where
  "command_key c = (cmd_mode c, unat (cmd_pid c))"

lemma contains_has_pid: "OBDIICommandSetContainsCommand s c = has_pid s (command_key c)"
  unfolding OBDIICommandSetContainsCommand_def has_pid_def command_key_def Let_def contains_bit by simp

lemma mode1_keys: "map command_key OBDIIMode1Commands = map (Pair 0x01) [0..<79]"
  by code_simp

lemma mode9_keys: "map command_key OBDIIMode9Commands = map (Pair 0x09) [0..<3]"
  by code_simp

lemma stored_length:
  "length (filter (OBDIICommandSetContainsCommand s) cs) = length (filter (has_pid s) (map command_key cs))"
  by (induction cs) (simp_all add: contains_has_pid)

lemma BitsSet_filter: "BitsSet w = length (filter (bit w) [0..<32])"
proof -
  have "{i. bit w i} = set (filter (bit w) [0..<32])" by (auto dest: bit_imp_le_length)
  then show ?thesis using distinct_card [of "filter (bit w) [0..<32]"] by (simp add: BitsSet_card)
qed

lemma rev_count: "length (filter (\<lambda>p. P (a + n - p)) [a + 1..<a + n + 1]) = length (filter P [0..<n])"
proof -
  have "map (\<lambda>p. a + n - p) [a + 1..<a + n + 1] = rev [0..<n]"
    by (rule nth_equalityI) (simp_all add: rev_nth del: upt_Suc upt.simps)
  then have "length (filter P (map (\<lambda>p. a + n - p) [a + 1..<a + n + 1])) = length (filter P (rev [0..<n]))"
    by (simp only:)
  then show ?thesis by (simp add: filter_map comp_def rev_filter [symmetric])
qed


lemma count_range:
  "length (filter (\<lambda>p. bit w (a + 32 - p)) [a + 1..<a + 33]) = BitsSet w"
  using rev_count [of "bit w" a 32] by (simp add: BitsSet_filter ac_simps)

lemma mode1_count:
  assumes "\<And>i. bit (pids_41_to_60 s) i \<Longrightarrow> 18 \<le> i"
  shows "length (filter (OBDIICommandSetContainsCommand s) OBDIIMode1Commands) =
     1 + BitsSet (pids_1_to_20 s) + BitsSet (pids_21_to_40 s) + BitsSet (pids_41_to_60 s)"
proof -
  let ?h = "\<lambda>p. has_pid s (0x01, p)"
  have split: "[0..<79] = 0 # [1..<33] @ [33..<65] @ [65..<79]" by code_simp
  have first: "filter ?h [1..<33] = filter (\<lambda>p. bit (pids_1_to_20 s) (32 - p)) [1..<33]"
    by (rule filter_cong) (auto simp: has_pid_def)
  have second: "filter ?h [33..<65] = filter (\<lambda>p. bit (pids_21_to_40 s) (64 - p)) [33..<65]"
    by (rule filter_cong) (auto simp: has_pid_def)
  have third: "filter ?h [65..<79] = filter (\<lambda>p. bit (pids_41_to_60 s) (96 - p)) [65..<79]"
    by (rule filter_cong) (auto simp: has_pid_def)
  have "\<not> bit (pids_41_to_60 s) (96 - p)" if "p \<in> {79..<97}" for p
    using assms [of "96 - p"] that by auto
  then have "filter (\<lambda>p. bit (pids_41_to_60 s) (96 - p)) [79..<97] = []"
    by (simp only: filter_empty_conv set_upt) blast
  moreover have "[65..<97] = [65..<79] @ [79..<97]" by code_simp
  ultimately have "filter (\<lambda>p. bit (pids_41_to_60 s) (96 - p)) [65..<97] = filter ?h [65..<79]"
    by (simp only: third filter_append append_Nil2)
  moreover have "64 + 32 = (96 :: nat)" "64 + 1 = (65 :: nat)" "64 + 33 = (97 :: nat)" by simp_all
  ultimately have "BitsSet (pids_41_to_60 s) = length (filter ?h [65..<79])"
    using count_range [of "pids_41_to_60 s" 64] by (simp only:)
  moreover have "BitsSet (pids_1_to_20 s) = length (filter ?h [1..<33])"
    using count_range [of "pids_1_to_20 s" 0] by (simp only: first) simp
  moreover have "BitsSet (pids_21_to_40 s) = length (filter ?h [33..<65])"
    using count_range [of "pids_21_to_40 s" 32] by (simp only: second) simp
  moreover have "?h 0" by (simp add: has_pid_def)
  ultimately show ?thesis
    by (simp only: stored_length mode1_keys split) (simp add: filter_map comp_def)
qed

lemma mode9_count:
  assumes "\<And>i. bit (mode9_pids s) i \<Longrightarrow> 29 \<le> i"
  shows "length (filter (OBDIICommandSetContainsCommand s) OBDIIMode9Commands) + of_bool (bit (mode9_pids s) 29) =
     1 + BitsSet (mode9_pids s)"
proof -
  have "filter (bit (mode9_pids s)) [0..<29] = []" using assms by (force simp: filter_empty_conv)
  moreover have "[0..<32] = [0..<29] @ [29, 30, 31]" by code_simp
  moreover have "[0..<3] = [0, 1, 2 :: nat]" by code_simp
  ultimately show ?thesis
    by (simp add: BitsSet_filter stored_length mode9_keys has_pid_def)
qed


lemma bitfield_query:
  assumes "cmd_decoder c = DecodeBitfield" "cmd_length c = 6"
  shows "\<exists>w. map_option bitfieldValue (OBDIIPerformQuery a c) = Some w"
proof (cases a)
  case None
  then show ?thesis by (simp add: OBDIIPerformQuery_def)
next
  case (Some d)
  show ?thesis
  proof (cases "OBDIIResponseSuccessful c (take 6 d)")
    case True
    then have "length (take 6 d) = 6" using assms by (auto simp: OBDIIResponseSuccessful_def split: if_splits)
    then show ?thesis using Some True assms
      by (auto simp: OBDIIPerformQuery_def OBDIIDecodeResponseForCommand_def buf_get_def)
  next
    case False
    then show ?thesis using Some assms by (auto simp: OBDIIPerformQuery_def OBDIIDecodeResponseForCommand_def)
  qed
qed

lemma bitfield_commands:
  "\<forall>c \<in> {OBDIIMode1Commands ! 0, OBDIIMode1Commands ! 0x20, OBDIIMode1Commands ! 0x40, OBDIIMode9Commands ! 0}.
     cmd_decoder c = DecodeBitfield \<and> cmd_length c = 6"
  by code_simp

text \<open>The words that the queries give.\<close>

definition asked :: "(obdii_command \<Rightarrow> 8 word list option) \<Rightarrow> obdii_command \<Rightarrow> 32 word" where
  "asked ask c = the (map_option bitfieldValue (OBDIIPerformQuery (ask c) c))"

lemma asked:
  assumes "c \<in> {OBDIIMode1Commands ! 0, OBDIIMode1Commands ! 0x20, OBDIIMode1Commands ! 0x40, OBDIIMode9Commands ! 0}"
  shows "map_option bitfieldValue (OBDIIPerformQuery (ask c) c) = Some (asked ask c)"
  using bitfield_query [of c "ask c"] bitfield_commands assms unfolding asked_def by (metis option.sel)

text \<open>The set before the commands are stored, and the set that is returned.\<close>

definition answered :: "(obdii_command \<Rightarrow> 8 word list option) \<Rightarrow> command_set" where
  "answered ask =
     (let w1 = asked ask (OBDIIMode1Commands ! 0);
          w2 = (if even w1 then 0 else asked ask (OBDIIMode1Commands ! 0x20));
          w3 = (if even w1 \<or> even w2 then 0 else asked ask (OBDIIMode1Commands ! 0x40) AND 0xFFFC0000);
          w9 = asked ask (OBDIIMode9Commands ! 0) AND 0xE0000000
      in \<lparr>pids_1_to_20 = w1, pids_21_to_40 = w2, pids_41_to_60 = w3, pids_61_to_80 = 0, mode9_pids = w9,
          numCommands = BitsSet w1 + BitsSet w2 + BitsSet w3 + BitsSet 0 + BitsSet w9 + 2 + 1, set_commands = []\<rparr>)"

definition stored_commands :: "command_set \<Rightarrow> obdii_command list" where
  "stored_commands s =
     filter (OBDIICommandSetContainsCommand s) OBDIIMode1Commands @ [OBDIIMode3Command] @
     filter (OBDIICommandSetContainsCommand s) OBDIIMode9Commands"

lemma low_bit: "w AND 0x01 = 0 \<longleftrightarrow> even (w :: 32 word)"
  by (simp add: and_one_eq even_iff_mod_2_eq_zero)

lemma GetSupportedCommands_answered:
  "OBDIIGetSupportedCommands ask =
     (let s = answered ask
      in if length (stored_commands s) \<le> numCommands s then Some (s\<lparr>set_commands := stored_commands s\<rparr>) else None)"
  unfolding OBDIIGetSupportedCommands_def answered_def Let_def low_bit
  by (simp add: asked stored_commands_def cong: if_cong)

lemma masked_bits:
  "bit (w AND 0xFFFC0000 :: 32 word) i \<Longrightarrow> 18 \<le> i" "bit (w AND 0xE0000000 :: 32 word) i \<Longrightarrow> 29 \<le> i"
proof -
  have "0xFFFC0000 = push_bit 18 (0x3FFF :: 32 word)" "0xE0000000 = push_bit 29 (7 :: 32 word)" by code_simp+
  then show "bit (w AND 0xFFFC0000) i \<Longrightarrow> 18 \<le> i" "bit (w AND 0xE0000000) i \<Longrightarrow> 29 \<le> i"
    by (simp_all only: bit_and_iff bit_push_bit_iff)
qed

lemma answered_masked:
  "bit (pids_41_to_60 (answered ask)) i \<Longrightarrow> 18 \<le> i" "bit (mode9_pids (answered ask)) i \<Longrightarrow> 29 \<le> i"
  by (auto simp: answered_def Let_def dest: masked_bits split: if_splits)

lemma numCommands_answered:
  "numCommands (answered ask) =
     length (stored_commands (answered ask)) + of_bool (bit (mode9_pids (answered ask)) 29)"
proof -
  have "BitsSet 0 = 0" by (simp add: BitsSet.simps)
  then have "numCommands (answered ask) = BitsSet (pids_1_to_20 (answered ask)) + BitsSet (pids_21_to_40 (answered ask)) +
     BitsSet (pids_41_to_60 (answered ask)) + BitsSet (mode9_pids (answered ask)) + 3"
    by (simp add: answered_def Let_def)
  moreover have "length (stored_commands (answered ask)) =
      1 + length (filter (OBDIICommandSetContainsCommand (answered ask)) OBDIIMode1Commands) +
      length (filter (OBDIICommandSetContainsCommand (answered ask)) OBDIIMode9Commands)"
    by (simp add: stored_commands_def)
  ultimately show ?thesis
    using mode1_count [of "answered ask", OF answered_masked(1) [of ask]]
      mode9_count [of "answered ask", OF answered_masked(2) [of ask]] by linarith
qed

text \<open>
  Counting the bits of a word by clearing its lowest set bit ends, after as many rounds as the
  word has set bits.\<close>

theorem BitsSet_counts: "BitsSet w = card {i. bit w i}"
  by (rule BitsSet_card)

text \<open>A vehicle that supports the commands \<open>S1\<close> of mode 1 and \<open>S9\<close> of mode 9 and says so in its bit
  fields, most significant bit first.\<close>

definition supported_word :: "(nat \<Rightarrow> bool) \<Rightarrow> nat \<Rightarrow> 32 word" where
  "supported_word S base = horner_sum of_bool 2 (map (\<lambda>k. S (base + 32 - k)) [0..<32])"

definition bitfield_answer :: "8 word \<Rightarrow> 8 word \<Rightarrow> 32 word \<Rightarrow> 8 word list" where
  "bitfield_answer m p w =
     [m + 0x40, p, ucast (drop_bit 24 w), ucast (drop_bit 16 w), ucast (drop_bit 8 w), ucast w]"

definition vehicle :: "(nat \<Rightarrow> bool) \<Rightarrow> (nat \<Rightarrow> bool) \<Rightarrow> obdii_command \<Rightarrow> 8 word list option" where
  "vehicle S1 S9 c =
     Some (bitfield_answer (cmd_mode c) (cmd_pid c)
       (supported_word (if cmd_mode c = 0x01 then S1 else S9) (unat (cmd_pid c))))"

lemma bit_supported: "bit (supported_word S base) k \<longleftrightarrow> k < 32 \<and> S (base + 32 - k)"
  by (auto simp: supported_word_def bit_horner_sum_bit_word_iff nth_map simp del: upt.simps upt_Suc list.map)

lemma join_bytes:
  "push_bit 24 (ucast (ucast (drop_bit 24 w) :: 8 word)) OR push_bit 16 (ucast (ucast (drop_bit 16 w) :: 8 word)) OR
   push_bit 8 (ucast (ucast (drop_bit 8 w) :: 8 word)) OR ucast (ucast w :: 8 word) = (w :: 32 word)"
proof (rule bit_word_eqI)
  fix n
  assume "n < LENGTH(32)"
  then consider "n < 8" | "8 \<le> n" "n < 16" | "16 \<le> n" "n < 24" | "24 \<le> n" "n < 32" by force
  then show "bit (push_bit 24 (ucast (ucast (drop_bit 24 w) :: 8 word)) OR push_bit 16 (ucast (ucast (drop_bit 16 w) :: 8 word)) OR
      push_bit 8 (ucast (ucast (drop_bit 8 w) :: 8 word)) OR ucast (ucast w :: 8 word) :: 32 word) n = bit w n"
    by cases (auto simp: bit_or_iff bit_push_bit_iff bit_ucast_iff bit_drop_bit_eq)
qed

lemma asked_vehicle:
  assumes "c \<in> {OBDIIMode1Commands ! 0, OBDIIMode1Commands ! 0x20, OBDIIMode1Commands ! 0x40, OBDIIMode9Commands ! 0}"
  shows "asked (vehicle S1 S9) c = supported_word (if cmd_mode c = 0x01 then S1 else S9) (unat (cmd_pid c))"
proof -
  have c: "cmd_decoder c = DecodeBitfield" "cmd_length c = 6" using bitfield_commands assms by blast+
  have mode: "cmd_mode c = 0x01 \<or> cmd_mode c = 0x09" using assms
    by (auto simp: OBDIIMode1Commands_def OBDIIMode9Commands_def obd_command_def)
  then have "uint (cmd_mode c + 0x40) = uint (cmd_mode c) + 0x40" by auto
  then have "OBDIIResponseSuccessful c (bitfield_answer (cmd_mode c) (cmd_pid c) w)" for w
    using c by (simp add: OBDIIResponseSuccessful_def bitfield_answer_def)
  then show ?thesis using c
    by (simp add: asked_def vehicle_def OBDIIPerformQuery_def OBDIIDecodeResponseForCommand_def
        bitfield_answer_def buf_get_def bitfieldValue_def join_bytes)
qed

lemma bitfield_keys:
  "cmd_mode (OBDIIMode1Commands ! 0) = 1" "cmd_pid (OBDIIMode1Commands ! 0) = 0"
  "cmd_mode (OBDIIMode1Commands ! 0x20) = 1" "cmd_pid (OBDIIMode1Commands ! 0x20) = 0x20"
  "cmd_mode (OBDIIMode1Commands ! 0x40) = 1" "cmd_pid (OBDIIMode1Commands ! 0x40) = 0x40"
  "cmd_mode (OBDIIMode9Commands ! 0) = 9" "cmd_pid (OBDIIMode9Commands ! 0) = 0"
  by code_simp+

lemma even_supported: "even (supported_word S base) \<longleftrightarrow> \<not> S (base + 32)"
  using bit_supported [of S base 0] by (auto simp: bit_0)

lemma answered_vehicle:
  "pids_1_to_20 (answered (vehicle S1 S9)) = supported_word S1 0"
  "pids_21_to_40 (answered (vehicle S1 S9)) = (if S1 0x20 then supported_word S1 0x20 else 0)"
  "pids_41_to_60 (answered (vehicle S1 S9)) =
     (if S1 0x20 \<and> S1 0x40 then supported_word S1 0x40 AND 0xFFFC0000 else 0)"
  "mode9_pids (answered (vehicle S1 S9)) = supported_word S9 0 AND 0xE0000000"
  by (auto simp: answered_def Let_def asked_vehicle bitfield_keys even_supported)

lemma mask_bits:
  "bit (0xFFFC0000 :: 32 word) k \<longleftrightarrow> 18 \<le> k \<and> k < 32" "bit (0xE0000000 :: 32 word) k \<longleftrightarrow> 29 \<le> k \<and> k < 32"
proof -
  have "0xFFFC0000 = push_bit 18 (mask 14 :: 32 word)" "0xE0000000 = push_bit 29 (mask 3 :: 32 word)" by code_simp+
  then show "bit (0xFFFC0000 :: 32 word) k \<longleftrightarrow> 18 \<le> k \<and> k < 32" "bit (0xE0000000 :: 32 word) k \<longleftrightarrow> 29 \<le> k \<and> k < 32"
    by (auto simp only: bit_push_bit_iff bit_mask_iff) auto
qed

lemma bit_masked:
  "bit (w AND 0xFFFC0000 :: 32 word) k \<longleftrightarrow> bit w k \<and> 18 \<le> k \<and> k < 32"
  "bit (w AND 0xE0000000 :: 32 word) k \<longleftrightarrow> bit w k \<and> 29 \<le> k \<and> k < 32"
  by (simp_all only: bit_and_iff mask_bits)

lemma vehicle_mode1:
  assumes "\<forall>p. S1 p \<and> 0x20 < p \<longrightarrow> S1 0x20" "\<forall>p. S1 p \<and> 0x40 < p \<longrightarrow> S1 0x40" "p < 79"
  shows "has_pid (answered (vehicle S1 S9)) (1, p) \<longleftrightarrow> p = 0 \<or> S1 p"
proof -
  consider "p = 0" | "1 \<le> p" "p \<le> 32" | "32 < p" "p \<le> 64" | "64 < p" "p < 79" using assms(3) by linarith
  then show ?thesis
    by cases (use assms(1,2) in \<open>force simp: has_pid_def answered_vehicle bit_supported bit_masked\<close>)+
qed

lemma vehicle_mode9:
  assumes "p < 3"
  shows "has_pid (answered (vehicle S1 S9)) (9, p) \<longleftrightarrow> p = 0 \<or> S9 p"
  using assms by (auto simp: has_pid_def answered_vehicle bit_supported bit_masked)

lemma key_index: "c \<in> set cs \<Longrightarrow> map command_key cs = map (Pair m) [0..<n] \<Longrightarrow> \<exists>p < n. command_key c = (m, p)"
  by (metis (no_types, lifting) ex_map_conv image_eqI in_set_conv_nth length_map map_nth atLeastLessThan_iff set_upt nth_map nth_upt length_upt add_0 minus_nat.diff_0)

definition obd_pid :: "obdii_command \<Rightarrow> nat" where
  "obd_pid c = unat (cmd_pid c)"

lemma stored_vehicle:
  assumes "\<forall>p. S1 p \<and> 0x20 < p \<longrightarrow> S1 0x20" "\<forall>p. S1 p \<and> 0x40 < p \<longrightarrow> S1 0x40"
  shows "stored_commands (answered (vehicle S1 S9)) =
     filter (\<lambda>c. obd_pid c = 0 \<or> S1 (obd_pid c)) OBDIIMode1Commands @ [OBDIIMode3Command] @
     filter (\<lambda>c. obd_pid c = 0 \<or> S9 (obd_pid c)) OBDIIMode9Commands"
proof -
  have "OBDIICommandSetContainsCommand (answered (vehicle S1 S9)) c \<longleftrightarrow> obd_pid c = 0 \<or> S1 (obd_pid c)"
    if "c \<in> set OBDIIMode1Commands" for c
    using key_index [OF that mode1_keys] vehicle_mode1 [OF assms]
    by (auto simp: contains_has_pid command_key_def obd_pid_def)
  moreover have "OBDIICommandSetContainsCommand (answered (vehicle S1 S9)) c \<longleftrightarrow> obd_pid c = 0 \<or> S9 (obd_pid c)"
    if "c \<in> set OBDIIMode9Commands" for c
    using key_index [OF that mode9_keys] vehicle_mode9
    by (auto simp: contains_has_pid command_key_def obd_pid_def)
  ultimately show ?thesis unfolding stored_commands_def by (simp cong: filter_cong)
qed

text \<open>
  Whatever a vehicle answers, the array of supported commands is large enough for the commands that are
  stored. It is one entry too large, and its last entry is never written although it is counted, exactly when
  the vehicle says that it supports the message count of mode 9, command 3, for which the table has no
  entry.\<close>

theorem supported_commands_fit:
  "\<exists>s. OBDIIGetSupportedCommands ask = Some s \<and>
     numCommands s = length (set_commands s) + of_bool (bit (mode9_pids s) 29)"
  by (rule exI [of _ "(answered ask)\<lparr>set_commands := stored_commands (answered ask)\<rparr>"])
    (simp add: GetSupportedCommands_answered numCommands_answered Let_def)

lemma vehicle_commands:
  assumes "\<forall>p. S1 p \<and> 0x20 < p \<longrightarrow> S1 0x20" "\<forall>p. S1 p \<and> 0x40 < p \<longrightarrow> S1 0x40"
  shows "\<exists>s. OBDIIGetSupportedCommands (vehicle S1 S9) = Some s \<and>
     set_commands s = filter (\<lambda>c. obd_pid c = 0 \<or> S1 (obd_pid c)) OBDIIMode1Commands @ [OBDIIMode3Command] @
       filter (\<lambda>c. obd_pid c = 0 \<or> S9 (obd_pid c)) OBDIIMode9Commands"
  by (rule exI [of _ "(answered (vehicle S1 S9))\<lparr>set_commands := stored_commands (answered (vehicle S1 S9))\<rparr>"])
    (simp add: GetSupportedCommands_answered numCommands_answered Let_def stored_vehicle [OF assms])

text \<open>
  C29. A vehicle that supports the commands \<open>S1\<close> of mode 1 and \<open>S9\<close> of mode 9 and answers with the bit
  fields that say so is understood: the commands that are stored are the ones of the tables that it
  supports, with the two queries for bit fields and the query for trouble codes. A range of mode 1 is
  only asked for when the last command of the range before it is supported.\<close>

theorem vehicle_understood:
  assumes "\<forall>p. S1 p \<and> 0x20 < p \<longrightarrow> S1 0x20" "\<forall>p. S1 p \<and> 0x40 < p \<longrightarrow> S1 0x40"
  shows "\<exists>s. OBDIIGetSupportedCommands (vehicle S1 S9) = Some s \<and>
     set_commands s = filter (\<lambda>c. obd_pid c = 0 \<or> S1 (obd_pid c)) OBDIIMode1Commands @ [OBDIIMode3Command] @
       filter (\<lambda>c. obd_pid c = 0 \<or> S9 (obd_pid c)) OBDIIMode9Commands"
  using vehicle_commands [OF assms] .

theorem vehicle_understood_witness:
  "\<exists>s. OBDIIGetSupportedCommands (vehicle (\<lambda>p. p \<in> {0x0C, 0x20, 0x2F}) (\<lambda>p. p = 2)) = Some s \<and>
     map command_key (set_commands s) = [(1, 0), (1, 0x0C), (1, 0x20), (1, 0x2F), (3, 0), (9, 0), (9, 2)]"
proof -
  have "map command_key (filter (\<lambda>c. obd_pid c = 0 \<or> obd_pid c \<in> {0x0C, 0x20, 0x2F}) OBDIIMode1Commands @
      [OBDIIMode3Command] @ filter (\<lambda>c. obd_pid c = 0 \<or> obd_pid c = 2) OBDIIMode9Commands) =
      [(1, 0), (1, 0x0C), (1, 0x20), (1, 0x2F), (3, 0), (9, 0), (9, 2)]"
    by code_simp
  moreover have "\<forall>p :: nat. p \<in> {0x0C, 0x20, 0x2F} \<and> 0x20 < p \<longrightarrow> 0x20 \<in> {0x0C, 0x20, 0x2F :: nat}"
    "\<forall>p :: nat. p \<in> {0x0C, 0x20, 0x2F} \<and> 0x40 < p \<longrightarrow> 0x40 \<in> {0x0C, 0x20, 0x2F :: nat}" by auto
  from vehicle_understood [of "\<lambda>p. p \<in> {0x0C, 0x20, 0x2F}", OF this, of "\<lambda>p. p = 2"] obtain s where
    "OBDIIGetSupportedCommands (vehicle (\<lambda>p. p \<in> {0x0C, 0x20, 0x2F}) (\<lambda>p. p = 2)) = Some s"
    "set_commands s = filter (\<lambda>c. obd_pid c = 0 \<or> obd_pid c \<in> {0x0C, 0x20, 0x2F}) OBDIIMode1Commands @ [OBDIIMode3Command] @
       filter (\<lambda>c. obd_pid c = 0 \<or> obd_pid c = 2) OBDIIMode9Commands" by blast
  ultimately show ?thesis by simp
qed

end
