(* ===== verification/Obdii_Daemon.thy ===== *)
theory Obdii_Daemon
  imports C_Prelude "HOL-Library.Word"
begin

unbundle bit_operations_syntax

text \<open>
  The OBD-II daemon (\<open>plugins/pip/obdii/ejv_obdii/OBDIIDaemon.c\<close>) that opens ISO-TP sockets for several
  processes, and the client's side of its protocol (\<open>requestRemoteSocket\<close> in \<open>OBDIICommunication.c\<close>).
  The daemon keeps its connections in a doubly linked list of heap nodes with reference counts; the
  heap is a map from addresses, and \<open>None\<close> is an access through NULL or to memory that has been freed.
  The outcomes of \<open>socket\<close>, \<open>bind\<close> and \<open>malloc\<close> are the parameter of an opening request.
\<close>

section \<open>The connections\<close>

record conn =
  c_ifindex :: "32 word"
  c_tid :: "32 word"
  c_rid :: "32 word"
  c_s :: int
  c_refcount :: int
  c_prev :: "nat option"
  c_next :: "nat option"

type_synonym heap = "nat \<rightharpoonup> conn"

record daemon =
  obdiiSockets :: "nat option"
  conns :: heap

type_synonym key = "32 word \<times> 32 word \<times> 32 word"

definition conn_key :: "conn \<Rightarrow> key" where
  "conn_key c = (c_ifindex c, c_tid c, c_rid c)"

text \<open>The search follows the list; in a list with a cycle it might not end.\<close>

partial_function (option) find_conn :: "heap \<Rightarrow> key \<Rightarrow> nat option \<Rightarrow> nat option option" where
  "find_conn h k found =
     (case found of
        None \<Rightarrow> Some None
      | Some a \<Rightarrow>
          (case h a of
             None \<Rightarrow> None
           | Some c \<Rightarrow> if conn_key c = k then Some (Some a) else find_conn h k (c_next c)))"

definition socketConnectionMatchingParams :: "key \<Rightarrow> daemon \<Rightarrow> nat option option" where
  "socketConnectionMatchingParams k d = find_conn (conns d) k (obdiiSockets d)"

datatype effect = CloseSocket int | SendCode nat | SendFD int

datatype os_socket = SocketFails | BindFails int | Bound int

text \<open>\<open>mem\<close> is the address that \<open>malloc\<close> gives.\<close>

definition openSocketConnection ::
  "os_socket \<Rightarrow> nat option \<Rightarrow> key \<Rightarrow> daemon \<Rightarrow> (nat option \<times> effect list \<times> daemon) option" where
  "openSocketConnection os mem k d =
     (case os of
        SocketFails \<Rightarrow> Some (None, [], d)
      | BindFails s \<Rightarrow> Some (None, [CloseSocket s], d)
      | Bound s \<Rightarrow>
          (case mem of
             None \<Rightarrow> Some (None, [CloseSocket s], d)
           | Some a \<Rightarrow> do {
               let (ifindex, tid, rid) = k;
               let conn = \<lparr>c_ifindex = ifindex, c_tid = tid, c_rid = rid, c_s = s, c_refcount = 1,
                           c_prev = None, c_next = obdiiSockets d\<rparr>;
               let h = (conns d)(a \<mapsto> conn);
               h \<leftarrow> (case obdiiSockets d of
                      None \<Rightarrow> Some h
                    | Some b \<Rightarrow> do { c \<leftarrow> h b; Some (h(b \<mapsto> c\<lparr>c_prev := Some a\<rparr>)) });
               Some (Some a, [], \<lparr>obdiiSockets = Some a, conns = h\<rparr>)
             }))"

definition closeSocketConnection :: "nat option \<Rightarrow> daemon \<Rightarrow> (effect list \<times> daemon) option" where
  "closeSocketConnection conn d =
     (case conn of
        None \<Rightarrow> Some ([], d)
      | Some a \<Rightarrow> do {
          c \<leftarrow> conns d a;
          let c = c\<lparr>c_refcount := c_refcount c - 1\<rparr>;
          let h = (conns d)(a \<mapsto> c);
          if c_refcount c \<noteq> 0 then Some ([], d\<lparr>conns := h\<rparr>)
          else do {
            let prev = c_prev c;
            let next = c_next c;
            (head, h) \<leftarrow> (case prev of
                Some b \<Rightarrow> do { p \<leftarrow> h b; Some (obdiiSockets d, h(b \<mapsto> p\<lparr>c_next := next\<rparr>)) }
              | None \<Rightarrow> Some (next, h));
            h \<leftarrow> (case next of
                Some b \<Rightarrow> do { n \<leftarrow> h b; Some (h(b \<mapsto> n\<lparr>c_prev := prev\<rparr>)) }
              | None \<Rightarrow> Some h);
            Some ([CloseSocket (c_s c)], \<lparr>obdiiSockets = head, conns = h(a := None)\<rparr>)
          }
        })"

section \<open>Requests\<close>

abbreviation (input) OBDII_DAEMON_REQUEST_HEADER_SIZE :: nat where "OBDII_DAEMON_REQUEST_HEADER_SIZE \<equiv> 4"
abbreviation (input) OBDII_DAEMON_REQUEST_MAX_SIZE :: nat where "OBDII_DAEMON_REQUEST_MAX_SIZE \<equiv> 100"
abbreviation (input) OBDIIDaemonRequestOpenSocket :: nat where "OBDIIDaemonRequestOpenSocket \<equiv> 0"
abbreviation (input) OBDIIDaemonRequestCloseSocket :: nat where "OBDIIDaemonRequestCloseSocket \<equiv> 1"
abbreviation (input) OBDIIDaemonResponseCodeSuccess :: nat where "OBDIIDaemonResponseCodeSuccess \<equiv> 0"
abbreviation (input) OBDIIDaemonResponseCodeNoSuchSocket :: nat where "OBDIIDaemonResponseCodeNoSuchSocket \<equiv> 1"
abbreviation (input) OBDIIDaemonResponseCodeOpenSocketError :: nat where "OBDIIDaemonResponseCodeOpenSocketError \<equiv> 2"

definition asuint32 :: "8 word list \<Rightarrow> 32 word" where
  "asuint32 buf =
     ucast (buf ! 0) OR push_bit 8 (ucast (buf ! 1)) OR push_bit 16 (ucast (buf ! 2)) OR push_bit 24 (ucast (buf ! 3))"

definition asuint16 :: "8 word list \<Rightarrow> 16 word" where
  "asuint16 buf = ucast (buf ! 0) OR push_bit 8 (ucast (buf ! 1))"

definition handleSocketRequest ::
  "os_socket \<Rightarrow> nat option \<Rightarrow> 8 word list \<Rightarrow> bool \<Rightarrow> daemon \<Rightarrow> (effect list \<times> daemon) option" where
  "handleSocketRequest os mem request shouldOpen d =
     (if length request < 12 then Some ([], d)
      else do {
        let k = (asuint32 request, asuint32 (drop 4 request), asuint32 (drop 8 request));
        found \<leftarrow> socketConnectionMatchingParams k d;
        if shouldOpen then do {
          (conn, effects, d) \<leftarrow> (case found of
              Some a \<Rightarrow> do {
                c \<leftarrow> conns d a;
                Some (Some a, [], d\<lparr>conns := (conns d)(a \<mapsto> c\<lparr>c_refcount := c_refcount c + 1\<rparr>)\<rparr>)
              }
            | None \<Rightarrow> openSocketConnection os mem k d);
          (case conn of
             None \<Rightarrow> Some (effects @ [SendCode OBDIIDaemonResponseCodeOpenSocketError], d)
           | Some a \<Rightarrow> do {
               c \<leftarrow> conns d a;
               Some (effects @ [SendCode OBDIIDaemonResponseCodeSuccess, SendFD (c_s c)], d)
             })
        }
        else (case found of
            Some a \<Rightarrow> do {
              (effects, d) \<leftarrow> closeSocketConnection (Some a) d;
              Some (effects @ [SendCode OBDIIDaemonResponseCodeSuccess], d)
            }
          | None \<Rightarrow> Some ([SendCode OBDIIDaemonResponseCodeNoSuchSocket], d))
      })"

definition handleMessage ::
  "os_socket \<Rightarrow> nat option \<Rightarrow> 8 word list \<Rightarrow> daemon \<Rightarrow> (effect list \<times> daemon) option" where
  "handleMessage os mem request d =
     (if length request < OBDII_DAEMON_REQUEST_HEADER_SIZE then Some ([], d)
      else
        let apiVersion = asuint16 request;
            requestType = asuint16 (drop 2 request);
            payload = drop OBDII_DAEMON_REQUEST_HEADER_SIZE request
        in if apiVersion = 1 then
             (if unat requestType = OBDIIDaemonRequestOpenSocket then handleSocketRequest os mem payload True d
              else if unat requestType = OBDIIDaemonRequestCloseSocket then handleSocketRequest os mem payload False d
              else Some ([], d))
           else Some ([], d))"

text \<open>The hexadecimal dump of a request for the log: every byte is printed as an \<open>int\<close> with at least two
  digits, and the next one starts two characters further. Where \<open>char\<close> is signed, a byte of 128 or more is a
  negative number of eight digits. The result is the size of the memory that is written; \<open>formatted\<close> has
  \<open>2 * requestLen + 1\<close> characters.\<close>

definition printed_digits :: "bool \<Rightarrow> 8 word \<Rightarrow> nat" where
  "printed_digits char_signed b = (if char_signed \<and> 0x80 \<le> b then 8 else 2)"

definition dump_end :: "bool \<Rightarrow> 8 word list \<Rightarrow> nat" where
  "dump_end char_signed src = fold max (map (\<lambda>i. 2 * i + printed_digits char_signed (src ! i) + 1) [0..<length src]) 0"

text \<open>A round of the daemon's loop with the datagram that arrives, of which 100 bytes are kept.\<close>

definition daemon_round ::
  "bool \<Rightarrow> os_socket \<Rightarrow> nat option \<Rightarrow> 8 word list \<Rightarrow> daemon \<Rightarrow> (effect list \<times> daemon) option" where
  "daemon_round char_signed os mem datagram d =
     (let request = take OBDII_DAEMON_REQUEST_MAX_SIZE datagram
      in if dump_end char_signed request \<le> 2 * length request + 1 then handleMessage os mem request d else None)"

section \<open>The client's side\<close>

record obdii_socket =
  sk_s :: int
  sk_shared :: int
  sk_ifindex :: "32 word"
  sk_tid :: "32 word"
  sk_rid :: "32 word"

definition bytes16 :: "16 word \<Rightarrow> 8 word list" where
  "bytes16 w = [ucast w, ucast (drop_bit 8 w)]"

definition bytes32 :: "32 word \<Rightarrow> 8 word list" where
  "bytes32 w = [ucast w, ucast (drop_bit 8 w), ucast (drop_bit 16 w), ucast (drop_bit 24 w)]"

text \<open>\<open>pack\<close> copies a value in the byte order of the machine, which is little endian.\<close>

definition socket_request :: "obdii_socket \<Rightarrow> bool \<Rightarrow> 8 word list" where
  "socket_request s shouldOpen =
     bytes16 1 @ bytes16 (of_nat (if shouldOpen then OBDIIDaemonRequestOpenSocket else OBDIIDaemonRequestCloseSocket)) @
     bytes32 (sk_ifindex s) @ bytes32 (sk_tid s) @ bytes32 (sk_rid s)"

text \<open>\<open>setup\<close> tells whether the daemon can be reached and \<open>sent\<close> whether the request was sent whole; \<open>code\<close>
  is a response code of two bytes, and \<open>fd\<close> the descriptor that arrives.\<close>

definition requestRemoteSocket ::
  "bool \<Rightarrow> bool \<Rightarrow> nat option \<Rightarrow> int option \<Rightarrow> obdii_socket \<Rightarrow> bool \<Rightarrow> int \<times> obdii_socket" where
  "requestRemoteSocket setup sent code fd s shouldOpen =
     (if \<not> setup then (-1, s)
      else if \<not> sent then (-1, s)
      else case code of
        None \<Rightarrow> (-1, s)
      | Some c \<Rightarrow>
          if c \<noteq> OBDIIDaemonResponseCodeSuccess then (-1, s)
          else if shouldOpen then (case fd of None \<Rightarrow> (-1, s) | Some n \<Rightarrow> (0, s\<lparr>sk_s := n\<rparr>))
          else (0, s))"

text \<open>Opening and closing a socket; \<open>os\<close> are the outcomes of the system calls for a socket that is not shared.\<close>

definition OBDIIOpenSocket ::
  "32 word \<Rightarrow> os_socket \<Rightarrow> (obdii_socket \<Rightarrow> int \<times> obdii_socket) \<Rightarrow> obdii_socket \<Rightarrow> 32 word \<Rightarrow> 32 word \<Rightarrow> int \<Rightarrow>
   int \<times> effect list \<times> obdii_socket" where
  "OBDIIOpenSocket ifindex os remote s tx_id rx_id shared =
     (if ifindex = 0 then (-1, [], s)
      else
        let s = s\<lparr>sk_ifindex := ifindex, sk_tid := tx_id, sk_rid := rx_id, sk_shared := shared\<rparr>
        in if shared \<noteq> 0 then (let (r, s) = remote s in (r, [], s))
           else case os of
             SocketFails \<Rightarrow> (-1, [], s\<lparr>sk_s := -1\<rparr>)
           | BindFails n \<Rightarrow> (-1, [CloseSocket n], s\<lparr>sk_s := n\<rparr>)
           | Bound n \<Rightarrow> (0, [], s\<lparr>sk_s := n, sk_shared := 0\<rparr>))"

definition OBDIICloseSocket :: "(obdii_socket \<Rightarrow> int \<times> obdii_socket) \<Rightarrow> int \<Rightarrow> obdii_socket \<Rightarrow> int \<times> effect list \<times> obdii_socket" where
  "OBDIICloseSocket remote closed s =
     (if sk_shared s \<noteq> 0 then (let (r, s) = remote s in (r, [], s)) else (closed, [CloseSocket (sk_s s)], s))"

section \<open>Segments of the list\<close>

text \<open>The nodes \<open>as\<close> from the pointer \<open>p\<close> up to the pointer \<open>q\<close>; \<open>pr\<close> is the predecessor of the first node and
  \<open>l\<close> the last node, or \<open>pr\<close> when there is none.\<close>

fun seg :: "heap \<Rightarrow> nat option \<Rightarrow> nat option \<Rightarrow> nat list \<Rightarrow> nat option \<Rightarrow> nat option \<Rightarrow> bool" where
  "seg h pr p [] l q \<longleftrightarrow> p = q \<and> pr = l"
| "seg h pr p (a # as) l q \<longleftrightarrow>
     p = Some a \<and> (\<exists>c. h a = Some c \<and> c_prev c = pr \<and> seg h (Some a) (c_next c) as l q)"

lemma seg_append: "seg h pr p (as @ bs) l q \<longleftrightarrow> (\<exists>l' m. seg h pr p as l' m \<and> seg h l' m bs l q)"
  by (induction as arbitrary: pr p) auto

lemma seg_upd [simp]: "a \<notin> set as \<Longrightarrow> seg (h(a := v)) pr p as l q = seg h pr p as l q"
  by (induction as arbitrary: pr p) auto

lemma seg_keep:
  assumes "h a = Some c" "c_prev c' = c_prev c" "c_next c' = c_next c"
  shows "seg (h(a \<mapsto> c')) pr p as l q = seg h pr p as l q"
  using assms by (induction as arbitrary: pr p) auto

lemma seg_dom: "seg h pr p as l q \<Longrightarrow> set as \<subseteq> dom h"
  by (induction as arbitrary: pr p) auto

lemma seg_last: "seg h pr p as l q \<Longrightarrow> l = (if as = [] then pr else Some (last as))"
  by (induction as arbitrary: pr p) auto

lemma seg_first: "seg h pr p as l q \<Longrightarrow> p = (if as = [] then q else Some (hd as))"
  by (cases as) auto

text \<open>Another end and another beginning of a segment.\<close>

lemma seg_new_next:
  assumes "seg h pr p (as @ [b]) l q" "h b = Some c" "b \<notin> set as"
  shows "seg (h(b \<mapsto> c\<lparr>c_next := q'\<rparr>)) pr p (as @ [b]) l q'"
  using assms by (auto simp: seg_append)

lemma seg_new_prev:
  assumes "seg h pr p (b # bs) l q" "h b = Some c" "b \<notin> set bs"
  shows "seg (h(b \<mapsto> c\<lparr>c_prev := pr'\<rparr>)) pr' p (b # bs) l q"
  using assms by auto

section \<open>The registry of sockets\<close>

text \<open>What a node holds apart from its links, and the map that a heap of such nodes stores_map.\<close>

definition payloads :: "heap \<Rightarrow> nat \<rightharpoonup> key \<times> int \<times> int" where
  "payloads h a = map_option (\<lambda>c. (conn_key c, c_s c, c_refcount c)) (h a)"

definition stores_map :: "(nat \<rightharpoonup> 'k \<times> 'v) \<Rightarrow> ('k \<rightharpoonup> 'v) \<Rightarrow> bool" where
  "stores_map g m \<longleftrightarrow>
     (\<forall>a b k v w. g a = Some (k, v) \<and> g b = Some (k, w) \<longrightarrow> a = b) \<and> (\<forall>k v. m k = Some v \<longleftrightarrow> (\<exists>a. g a = Some (k, v)))"

lemma stores_mapD:
  assumes "stores_map g m"
  shows "g a = Some (k, v) \<Longrightarrow> g b = Some (k, w) \<Longrightarrow> a = b" and "m k = Some v \<longleftrightarrow> (\<exists>a. g a = Some (k, v))"
  using assms unfolding stores_map_def by blast+

lemma stores_map_store:
  assumes "stores_map g m" "(\<exists>v. g a = Some (k, v)) \<or> g a = None \<and> m k = None"
  shows "stores_map (g(a \<mapsto> (k, w))) (m(k \<mapsto> w))"
proof -
  have only: "b = a" if "g b = Some (k, u)" for b u
    using assms(2) stores_mapD [OF assms(1)] that by (metis option.distinct(1))
  have keep: "fst p = k" if "g a = Some p" for p using assms(2) that by auto
  have "b = c" if "(g(a \<mapsto> (k, w))) b = Some (l, u)" "(g(a \<mapsto> (k, w))) c = Some (l, v)" for b c l u v
    using that only stores_mapD(1) [OF assms(1)] by (auto split: if_splits)
  moreover have "(m(k \<mapsto> w)) l = Some u \<longleftrightarrow> (\<exists>b. (g(a \<mapsto> (k, w))) b = Some (l, u))" for l u
  proof (cases "l = k")
    case True
    then show ?thesis using only by auto
  next
    case False
    have "g a \<noteq> Some (l, u)" using keep False by auto
    then show ?thesis using False stores_mapD(2) [OF assms(1), of l u] by auto
  qed
  ultimately show ?thesis unfolding stores_map_def by blast
qed

lemma stores_map_delete:
  assumes "stores_map g m" "g a = Some (k, v)"
  shows "stores_map (g(a := None)) (m(k := None))"
proof -
  have only: "b = a" if "g b = Some (k, u)" for b u
    using assms(2) stores_mapD(1) [OF assms(1)] that by blast
  have "(m(k := None)) l = Some u \<longleftrightarrow> (\<exists>b. (g(a := None)) b = Some (l, u))" for l u
  proof (cases "l = k")
    case True
    then show ?thesis using only by auto
  next
    case False
    have "g a \<noteq> Some (l, u)" using assms(2) False by auto
    then show ?thesis using False stores_mapD(2) [OF assms(1), of l u] by auto
  qed
  moreover have "b = c" if "(g(a := None)) b = Some (l, u)" "(g(a := None)) c = Some (l, u')" for b c l u u'
    using that stores_mapD(1) [OF assms(1)] by (auto split: if_splits)
  ultimately show ?thesis unfolding stores_map_def by blast
qed

lemma payloads_upd: "payloads (h(a \<mapsto> c)) = (payloads h)(a \<mapsto> (conn_key c, c_s c, c_refcount c))"
  by (auto simp: payloads_def)

lemma payloads_free: "payloads (h(a := None)) = (payloads h)(a := None)"
  by (auto simp: payloads_def)

lemma dom_payloads: "dom (payloads h) = dom h"
  by (auto simp: payloads_def)

lemma payloads_links [simp]:
  "h b = Some c \<Longrightarrow> payloads (h(b \<mapsto> c\<lparr>c_next := n\<rparr>)) = payloads h"
  "h b = Some c \<Longrightarrow> payloads (h(b \<mapsto> c\<lparr>c_prev := n\<rparr>)) = payloads h"
  by (auto simp: payloads_def conn_key_def)

text \<open>The list of the daemon, with its nodes.\<close>

definition linked :: "daemon \<Rightarrow> nat list \<Rightarrow> bool" where
  "linked d as \<longleftrightarrow> (\<exists>l. seg (conns d) None (obdiiSockets d) as l None) \<and> distinct as \<and> dom (conns d) = set as"

text \<open>What the daemon promises: a socket and the number of its users for every triple of parameters.\<close>

type_synonym registry = "key \<rightharpoonup> int \<times> int"

definition registry :: "daemon \<Rightarrow> registry \<Rightarrow> bool" where
  "registry d m \<longleftrightarrow>
     (\<exists>as. linked d as) \<and> stores_map (payloads (conns d)) m \<and> (\<forall>k s n. m k = Some (s, n) \<longrightarrow> 0 < n)"

definition open_registry :: "os_socket \<Rightarrow> bool \<Rightarrow> key \<Rightarrow> registry \<Rightarrow> effect list \<times> registry" where
  "open_registry os memory k m =
     (case m k of
        Some (s, n) \<Rightarrow> ([SendCode OBDIIDaemonResponseCodeSuccess, SendFD s], m(k \<mapsto> (s, n + 1)))
      | None \<Rightarrow>
          (case os of
             SocketFails \<Rightarrow> ([SendCode OBDIIDaemonResponseCodeOpenSocketError], m)
           | BindFails s \<Rightarrow> ([CloseSocket s, SendCode OBDIIDaemonResponseCodeOpenSocketError], m)
           | Bound s \<Rightarrow>
               if memory then ([SendCode OBDIIDaemonResponseCodeSuccess, SendFD s], m(k \<mapsto> (s, 1)))
               else ([CloseSocket s, SendCode OBDIIDaemonResponseCodeOpenSocketError], m)))"

definition close_registry :: "key \<Rightarrow> registry \<Rightarrow> effect list \<times> registry" where
  "close_registry k m =
     (case m k of
        None \<Rightarrow> ([SendCode OBDIIDaemonResponseCodeNoSuchSocket], m)
      | Some (s, n) \<Rightarrow>
          if n = 1 then ([CloseSocket s, SendCode OBDIIDaemonResponseCodeSuccess], m(k := None))
          else ([SendCode OBDIIDaemonResponseCodeSuccess], m(k \<mapsto> (s, n - 1))))"

section \<open>The search\<close>

lemma find_conn_None [simp]: "find_conn h k None = Some None"
  by (simp add: find_conn.simps)

lemma find_conn_Some:
  "h a = Some c \<Longrightarrow> find_conn h k (Some a) = (if conn_key c = k then Some (Some a) else find_conn h k (c_next c))"
  by (simp add: find_conn.simps)

lemma find_conn_seg:
  assumes "seg h pr p as l None"
  shows "find_conn h k p = Some (find (\<lambda>a. map_option conn_key (h a) = Some k) as)"
  using assms by (induction as arbitrary: pr p) (auto simp: find_conn_Some)

lemma search:
  assumes "registry d m"
  shows "m k = None \<Longrightarrow> socketConnectionMatchingParams k d = Some None"
    and "m k = Some (s, n) \<Longrightarrow> \<exists>a c. socketConnectionMatchingParams k d = Some (Some a) \<and> conns d a = Some c \<and>
      conn_key c = k \<and> c_s c = s \<and> c_refcount c = n"
proof -
  obtain as l where as: "seg (conns d) None (obdiiSockets d) as l None" "dom (conns d) = set as"
    using assms by (auto simp: registry_def linked_def)
  have rep: "stores_map (payloads (conns d)) m" using assms by (simp add: registry_def)
  note m = stores_mapD(2) [OF rep, of k] and unique = stores_mapD(1) [OF rep]
  note found = find_conn_seg [OF as(1), of k]
  show "m k = None \<Longrightarrow> socketConnectionMatchingParams k d = Some None"
    unfolding socketConnectionMatchingParams_def found using m
    by (auto simp: find_None_iff payloads_def)
  assume "m k = Some (s, n)"
  then obtain a c where a: "conns d a = Some c" "conn_key c = k" "c_s c = s" "c_refcount c = n"
    unfolding m by (auto simp: payloads_def)
  then have "a \<in> set as" using as(2) by auto
  then obtain b where b: "find (\<lambda>a. map_option conn_key (conns d a) = Some k) as = Some b"
    using a by (cases "find (\<lambda>a. map_option conn_key (conns d a) = Some k) as") (auto simp: find_None_iff)
  then obtain e where "conns d b = Some e" "conn_key e = k" by (auto simp: find_Some_iff)
  then have "payloads (conns d) b = Some (k, c_s e, c_refcount e)" "payloads (conns d) a = Some (k, s, n)"
    using a by (auto simp: payloads_def)
  then have "b = a" by (rule unique)
  then show "\<exists>a c. socketConnectionMatchingParams k d = Some (Some a) \<and> conns d a = Some c \<and>
      conn_key c = k \<and> c_s c = s \<and> c_refcount c = n"
    using a b found by (auto simp: socketConnectionMatchingParams_def)
qed

section \<open>Counting users\<close>

lemma recount:
  assumes "registry d m" "conns d a = Some c" "conn_key c = k" "0 < n"
  shows "registry (d\<lparr>conns := (conns d)(a \<mapsto> c\<lparr>c_refcount := n\<rparr>)\<rparr>) (m(k \<mapsto> (c_s c, n)))"
proof -
  obtain as l where as: "seg (conns d) None (obdiiSockets d) as l None" "distinct as" "dom (conns d) = set as"
    using assms(1) by (auto simp: registry_def linked_def)
  have "seg ((conns d)(a \<mapsto> c\<lparr>c_refcount := n\<rparr>)) None (obdiiSockets d) as l None"
    using as(1) assms(2) by (subst seg_keep [where c = c]) simp_all
  then have "linked (d\<lparr>conns := (conns d)(a \<mapsto> c\<lparr>c_refcount := n\<rparr>)\<rparr>) as"
    using as assms(2) by (auto simp: linked_def)
  moreover have "stores_map ((payloads (conns d))(a \<mapsto> (k, c_s c, n))) (m(k \<mapsto> (c_s c, n)))"
    using assms by (intro stores_map_store) (auto simp: registry_def payloads_def)
  ultimately show ?thesis
    using assms by (auto simp: registry_def payloads_upd conn_key_def)
qed

section \<open>A new connection\<close>

lemma push_linked:
  assumes "linked d as" "conns d a = None" "c_prev c = None" "c_next c = obdiiSockets d"
  shows "case obdiiSockets d of
      None \<Rightarrow> linked \<lparr>obdiiSockets = Some a, conns = (conns d)(a \<mapsto> c)\<rparr> (a # as)
    | Some b \<Rightarrow> (\<exists>e. conns d b = Some e \<and> a \<noteq> b \<and>
        linked \<lparr>obdiiSockets = Some a, conns = (conns d)(a \<mapsto> c, b \<mapsto> e\<lparr>c_prev := Some a\<rparr>)\<rparr> (a # as))"
proof (cases as)
  case Nil
  then show ?thesis using assms by (auto simp: linked_def)
next
  case (Cons b bs)
  obtain l where l: "seg (conns d) None (obdiiSockets d) as l None" "distinct as" "dom (conns d) = set as"
    using assms(1) by (auto simp: linked_def)
  then obtain e where e: "obdiiSockets d = Some b" "conns d b = Some e" "seg (conns d) (Some b) (c_next e) bs l None"
    using Cons by auto
  have fresh: "a \<notin> set as" using assms(2) l(3) by auto
  have "seg ((conns d)(a \<mapsto> c)) None (Some b) (b # bs) l None"
    using l(1) e(1) fresh Cons by (simp add: seg_upd del: seg.simps fun_upd_apply)
  then have "seg ((conns d)(a \<mapsto> c, b \<mapsto> e\<lparr>c_prev := Some a\<rparr>)) (Some a) (Some b) (b # bs) l None"
    using l(2) fresh Cons e(2) by (intro seg_new_prev) auto
  then show ?thesis using assms e l fresh Cons by (auto simp: linked_def)
qed

lemma push_registry:
  assumes "registry d m" "conns d a = None" "m k = None" "(ifindex, tid, rid) = k"
  shows "\<exists>d' c. openSocketConnection (Bound s) (Some a) k d = Some (Some a, [], d') \<and> registry d' (m(k \<mapsto> (s, 1))) \<and>
    conns d' a = Some c \<and> c_s c = s"
proof -
  let ?c = "\<lparr>c_ifindex = ifindex, c_tid = tid, c_rid = rid, c_s = s, c_refcount = 1, c_prev = None, c_next = obdiiSockets d\<rparr>"
  obtain as where as: "linked d as" using assms(1) by (auto simp: registry_def)
  have "stores_map ((payloads (conns d))(a \<mapsto> (k, s, 1))) (m(k \<mapsto> (s, 1)))"
    using assms by (intro stores_map_store) (auto simp: registry_def payloads_def)
  then have rep: "stores_map (payloads ((conns d)(a \<mapsto> ?c))) (m(k \<mapsto> (s, 1)))"
    using assms(4) by (simp add: payloads_upd conn_key_def)
  have pos: "\<forall>l s' n. (m(k \<mapsto> (s, 1))) l = Some (s', n) \<longrightarrow> 0 < n" using assms(1) by (auto simp: registry_def)
  show ?thesis
  proof (cases "obdiiSockets d")
    case None
    then show ?thesis using push_linked [OF as assms(2), of ?c] rep pos assms(4)
      by (auto simp: openSocketConnection_def registry_def)
  next
    case (Some b)
    then obtain e where e: "conns d b = Some e" "a \<noteq> b"
      "linked \<lparr>obdiiSockets = Some a, conns = (conns d)(a \<mapsto> ?c, b \<mapsto> e\<lparr>c_prev := Some a\<rparr>)\<rparr> (a # as)"
      using push_linked [OF as assms(2), of ?c] by auto
    have "stores_map (payloads ((conns d)(a \<mapsto> ?c, b \<mapsto> e\<lparr>c_prev := Some a\<rparr>))) (m(k \<mapsto> (s, 1)))"
      using rep e by simp
    then show ?thesis using e rep pos assms(4) Some
      by (auto simp: openSocketConnection_def registry_def)
  qed
qed

section \<open>Removing a connection\<close>

text \<open>The two assignments that take a node out of the list, for the part before and the part after it.\<close>

lemma before_removed:
  assumes "seg h None p xs l (Some a)" "distinct xs"
  shows "case l of
      None \<Rightarrow> xs = []
    | Some b \<Rightarrow> \<exists>ys e. xs = ys @ [b] \<and> h b = Some e \<and> seg (h(b \<mapsto> e\<lparr>c_next := q\<rparr>)) None p xs l q"
proof (cases xs rule: rev_cases)
  case Nil
  then show ?thesis using assms by simp
next
  case (snoc ys b)
  then obtain e where e: "l = Some b" "h b = Some e" using assms(1) by (auto simp: seg_append)
  have "seg (h(b \<mapsto> e\<lparr>c_next := q\<rparr>)) None p (ys @ [b]) l q"
    using assms snoc e by (intro seg_new_next [where q = "Some a"]) auto
  then show ?thesis using e snoc by simp
qed

lemma after_removed:
  assumes "seg h (Some a) n ys l None" "distinct ys"
  shows "case n of
      None \<Rightarrow> ys = []
    | Some b \<Rightarrow> \<exists>zs e. ys = b # zs \<and> h b = Some e \<and> seg (h(b \<mapsto> e\<lparr>c_prev := pr\<rparr>)) pr n ys l None"
proof (cases ys)
  case Nil
  then show ?thesis using assms by simp
next
  case (Cons b zs)
  then obtain e where e: "n = Some b" "h b = Some e" using assms(1) by auto
  have "seg (h(b \<mapsto> e\<lparr>c_prev := pr\<rparr>)) pr n (b # zs) l None"
    using assms Cons e by (intro seg_new_prev [where pr = "Some a"]) auto
  then show ?thesis using e Cons by simp
qed

text \<open>The heap and the head of the list after a node with a count of one is closed.\<close>

lemma close_linked:
  assumes "linked d as" "a \<in> set as" "conns d a = Some c" "c_refcount c = 1"
  shows "\<exists>d'. closeSocketConnection (Some a) d = Some ([CloseSocket (c_s c)], d') \<and> linked d' (remove1 a as) \<and>
    payloads (conns d') = (payloads (conns d))(a := None)"
proof -
  obtain l where l: "seg (conns d) None (obdiiSockets d) as l None" "distinct as" "dom (conns d) = set as"
    using assms(1) by (auto simp: linked_def)
  obtain xs ys where as: "as = xs @ a # ys" using split_list [OF assms(2)] by blast
  have diff: "a \<notin> set xs" "a \<notin> set ys" "set xs \<inter> set ys = {}" "distinct xs" "distinct ys" using l(2) as by auto
  have rem: "remove1 a as = xs @ ys" using as diff(1) by (simp add: remove1_append)
  let ?c = "c\<lparr>c_refcount := 0\<rparr>"
  let ?h = "(conns d)(a \<mapsto> ?c)"
  have xs: "seg ?h None (obdiiSockets d) xs (c_prev c) (Some a)" and ys: "seg ?h (Some a) (c_next c) ys l None"
    using l(1) diff assms(3) by (auto simp: as seg_append)
  note xs' = before_removed [OF xs diff(4), of "c_next c"] and ys' = after_removed [OF ys diff(5), of "c_prev c"]
  have data: "(payloads ?h)(a := None) = (payloads (conns d))(a := None)" by (simp add: payloads_upd)
  have doms: "dom (conns d) - {a} = set xs \<union> set ys" using l(3) as diff by auto
  have goal: ?thesis
    if "closeSocketConnection (Some a) d = Some ([CloseSocket (c_s c)], \<lparr>obdiiSockets = head, conns = h(a := None)\<rparr>)"
      "seg h None head xs l' n" "seg h l' n ys l'' None" "payloads h = payloads ?h" for head h l' n l''
  proof -
    have "dom h = dom ?h" using that(4) dom_payloads by metis
    then have "dom h = dom (conns d)" using assms(3) by auto
    moreover have "seg (h(a := None)) None head (xs @ ys) l'' None"
      using that(2,3) diff by (auto simp: seg_append)
    ultimately have "linked \<lparr>obdiiSockets = head, conns = h(a := None)\<rparr> (xs @ ys)"
      using l(2) as doms by (auto simp: linked_def)
    moreover have "payloads (h(a := None)) = (payloads (conns d))(a := None)"
      using that(4) data by (simp add: payloads_free)
    ultimately show ?thesis using that(1) rem by simp
  qed
  note closing = closeSocketConnection_def assms(3,4)
  show ?thesis
  proof (cases "c_prev c")
    case None
    then have "xs = []" using xs' by simp
    show ?thesis
    proof (cases "c_next c")
      case None
      then show ?thesis using \<open>c_prev c = None\<close> \<open>xs = []\<close> ys'
        by (intro goal [of None ?h None None None]) (simp_all add: closing)
    next
      case (Some b)
      then obtain zs e where e: "ys = b # zs" "?h b = Some e"
        "seg (?h(b \<mapsto> e\<lparr>c_prev := None\<rparr>)) None (Some b) ys l None" using ys' None by auto
      then show ?thesis using Some None \<open>xs = []\<close>
        by (intro goal [of "Some b" "?h(b \<mapsto> e\<lparr>c_prev := None\<rparr>)" None "Some b" l]) (simp_all add: closing)
    qed
  next
    case (Some u)
    then obtain vs f where f: "xs = vs @ [u]" "?h u = Some f"
      "seg (?h(u \<mapsto> f\<lparr>c_next := c_next c\<rparr>)) None (obdiiSockets d) xs (Some u) (c_next c)" using xs' by auto
    show ?thesis
    proof (cases "c_next c")
      case None
      then show ?thesis using Some f ys'
        by (intro goal [of "obdiiSockets d" "?h(u \<mapsto> f\<lparr>c_next := None\<rparr>)" "Some u" None "Some u"]) (simp_all add: closing)
    next
      case (Some b)
      then obtain zs e where e: "ys = b # zs" "?h b = Some e"
        "seg (?h(b \<mapsto> e\<lparr>c_prev := Some u\<rparr>)) (Some u) (Some b) ys l None" using ys' \<open>c_prev c = Some u\<close> by auto
      have ub: "u \<noteq> b" "u \<notin> set ys" "b \<notin> set xs" using e(1) f(1) diff by auto
      let ?h2 = "?h(u \<mapsto> f\<lparr>c_next := Some b\<rparr>, b \<mapsto> e\<lparr>c_prev := Some u\<rparr>)"
      have "seg ?h2 None (obdiiSockets d) xs (Some u) (Some b)" using f(3) Some ub(3) by (simp add: seg_upd del: fun_upd_apply)
      moreover have "seg ?h2 (Some u) (Some b) ys l None"
        using e(3) ub(1,2) by (simp add: fun_upd_twist [of u b] seg_upd del: fun_upd_apply seg.simps)
      moreover have "(?h(u \<mapsto> f\<lparr>c_next := Some b\<rparr>)) b = Some e" using e(2) ub(1) by simp
      then have "payloads ?h2 = payloads ?h"
        by (simp only: payloads_links(2) payloads_links(1) [of ?h u f "Some b", OF f(2)])
      ultimately show ?thesis using \<open>c_prev c = Some u\<close> Some f(2) e(2) ub(1)
        by (intro goal [of "obdiiSockets d" ?h2 "Some u" "Some b" l]) (simp_all add: closing)
    qed
  qed
qed

section \<open>The daemon keeps the registry\<close>

lemma close_registry_refines:
  assumes "registry d m" "conns d a = Some c" "conn_key c = k"
  shows "\<exists>effects d'. closeSocketConnection (Some a) d = Some (effects, d') \<and>
    effects @ [SendCode OBDIIDaemonResponseCodeSuccess] = fst (close_registry k m) \<and> registry d' (snd (close_registry k m))"
proof -
  have rep: "stores_map (payloads (conns d)) m" and pos: "\<And>k s n. m k = Some (s, n) \<Longrightarrow> 0 < n"
    using assms(1) by (auto simp: registry_def)
  have pay: "payloads (conns d) a = Some (k, c_s c, c_refcount c)" using assms by (auto simp: payloads_def)
  then have mk: "m k = Some (c_s c, c_refcount c)" using stores_mapD(2) [OF rep] by blast
  then have n: "0 < c_refcount c" using pos by blast
  show ?thesis
  proof (cases "c_refcount c = 1")
    case True
    obtain as where as: "linked d as" using assms(1) by (auto simp: registry_def)
    then have "a \<in> set as" using assms(2) by (auto simp: linked_def)
    from close_linked [OF as this assms(2) True] obtain d' where
      d': "closeSocketConnection (Some a) d = Some ([CloseSocket (c_s c)], d')" "linked d' (remove1 a as)"
      "payloads (conns d') = (payloads (conns d))(a := None)" by blast
    have "registry d' (m(k := None))"
      using d'(2,3) stores_map_delete [OF rep pay] pos by (auto simp: registry_def)
    then show ?thesis using d'(1) mk True by (simp add: close_registry_def)
  next
    case False
    then have "closeSocketConnection (Some a) d =
        Some ([], d\<lparr>conns := (conns d)(a \<mapsto> c\<lparr>c_refcount := c_refcount c - 1\<rparr>)\<rparr>)"
      using assms(2) by (simp add: closeSocketConnection_def)
    moreover have "registry (d\<lparr>conns := (conns d)(a \<mapsto> c\<lparr>c_refcount := c_refcount c - 1\<rparr>)\<rparr>)
        (m(k \<mapsto> (c_s c, c_refcount c - 1)))"
      using False n by (intro recount assms) simp
    ultimately show ?thesis using mk False by (simp add: close_registry_def)
  qed
qed

lemma request_refines:
  assumes "registry d m" "\<And>a. mem = Some a \<Longrightarrow> conns d a = None" "12 \<le> length request"
    "k = (asuint32 request, asuint32 (drop 4 request), asuint32 (drop 8 request))"
  shows "\<exists>d'. handleSocketRequest os mem request True d = Some (fst (open_registry os (mem \<noteq> None) k m), d') \<and>
      registry d' (snd (open_registry os (mem \<noteq> None) k m))"
    and "\<exists>d'. handleSocketRequest os mem request False d = Some (fst (close_registry k m), d') \<and>
      registry d' (snd (close_registry k m))"
proof -
  note handle = handleSocketRequest_def assms(4) [symmetric]
  show "\<exists>d'. handleSocketRequest os mem request True d = Some (fst (open_registry os (mem \<noteq> None) k m), d') \<and>
      registry d' (snd (open_registry os (mem \<noteq> None) k m))"
  proof (cases "m k")
    case None
    note fresh = search(1) [OF assms(1) None]
    show ?thesis
    proof (cases "\<exists>s a. os = Bound s \<and> mem = Some a")
      case True
      then obtain s a where "os = Bound s" "mem = Some a" by blast
      moreover from this obtain d' c where "openSocketConnection (Bound s) (Some a) k d = Some (Some a, [], d')"
        "registry d' (m(k \<mapsto> (s, 1)))" "conns d' a = Some c" "c_s c = s"
        using push_registry [OF assms(1) _ None, of a "fst k" "fst (snd k)" "snd (snd k)" s] assms(2) by auto
      ultimately show ?thesis using fresh None assms(3) by (simp add: handle open_registry_def)
    next
      case False
      then show ?thesis using fresh None assms(1,3)
        by (auto simp: handle open_registry_def openSocketConnection_def split: os_socket.splits option.splits)
    qed
  next
    case (Some v)
    obtain s n where v: "v = (s, n)" by fastforce
    then obtain a c where c: "socketConnectionMatchingParams k d = Some (Some a)" "conns d a = Some c" "conn_key c = k"
      "c_s c = s" "c_refcount c = n" using search(2) [OF assms(1)] Some by blast
    have "0 < n" using assms(1) Some v unfolding registry_def by blast
    then have "registry (d\<lparr>conns := (conns d)(a \<mapsto> c\<lparr>c_refcount := n + 1\<rparr>)\<rparr>) (m(k \<mapsto> (s, n + 1)))"
      using recount [OF assms(1) c(2,3), of "n + 1"] c(4) by simp
    then show ?thesis using c Some v assms(3) by (simp add: handle open_registry_def)
  qed
  show "\<exists>d'. handleSocketRequest os mem request False d = Some (fst (close_registry k m), d') \<and>
      registry d' (snd (close_registry k m))"
  proof (cases "m k")
    case None
    then show ?thesis using search(1) [OF assms(1) None] assms(1,3) by (simp add: handle close_registry_def)
  next
    case (Some v)
    then obtain a c where c: "socketConnectionMatchingParams k d = Some (Some a)" "conns d a = Some c" "conn_key c = k"
      using search(2) [OF assms(1)] by (metis prod.collapse)
    show ?thesis using close_registry_refines [OF assms(1) c(2,3)] c(1) assms(3) by (auto simp: handle)
  qed
qed

section \<open>The messages\<close>

lemma asuint32_bytes [simp]: "asuint32 (bytes32 w @ rest) = w"
proof (rule bit_word_eqI)
  fix n
  assume "n < LENGTH(32)"
  then consider "n < 8" | "8 \<le> n" "n < 16" | "16 \<le> n" "n < 24" | "24 \<le> n" "n < 32" by force
  then show "bit (asuint32 (bytes32 w @ rest)) n = bit w n"
    by cases (auto simp: asuint32_def bytes32_def bit_or_iff bit_push_bit_iff bit_ucast_iff bit_drop_bit_eq)
qed

lemma asuint16_bytes [simp]: "asuint16 (bytes16 w @ rest) = w"
proof (rule bit_word_eqI)
  fix n
  assume "n < LENGTH(16)"
  then consider "n < 8" | "8 \<le> n" "n < 16" by force
  then show "bit (asuint16 (bytes16 w @ rest)) n = bit w n"
    by cases (auto simp: asuint16_def bytes16_def bit_or_iff bit_push_bit_iff bit_ucast_iff bit_drop_bit_eq)
qed

lemma length_bytes [simp]: "length (bytes32 w) = 4" "length (bytes16 v) = 2"
  by (simp_all add: bytes32_def bytes16_def)

lemma length_request [simp]: "length (socket_request s b) = 16"
  by (simp add: socket_request_def)

definition socket_key :: "obdii_socket \<Rightarrow> key" where
  "socket_key s = (sk_ifindex s, sk_tid s, sk_rid s)"

lemma handle_client_request:
  "handleMessage os mem (socket_request s b) d =
     handleSocketRequest os mem (bytes32 (sk_ifindex s) @ bytes32 (sk_tid s) @ bytes32 (sk_rid s)) b d"
  by (simp add: handleMessage_def socket_request_def)

text \<open>The end of the dump: two digits for every byte leave room for the terminator.\<close>

lemma fold_max_le: "(\<forall>x \<in> set xs. x \<le> n) \<Longrightarrow> m \<le> n \<Longrightarrow> fold max xs m \<le> (n :: nat)"
  by (induction xs arbitrary: m) auto

lemma fold_max_ge: "x \<in> set xs \<or> x \<le> m \<Longrightarrow> x \<le> fold max xs (m :: nat)"
proof (induction xs arbitrary: m)
  case (Cons a xs)
  have "x \<in> set xs \<or> x \<le> max a m" using Cons.prems by auto
  then have "x \<le> fold max xs (max a m)" by (rule Cons.IH)
  then show ?case by (simp add: max.commute)
qed simp

lemma dump_end_le: "dump_end cs src \<le> n \<longleftrightarrow> (\<forall>i < length src. 2 * i + printed_digits cs (src ! i) + 1 \<le> n)"
proof
  assume h: "dump_end cs src \<le> n"
  show "\<forall>i < length src. 2 * i + printed_digits cs (src ! i) + 1 \<le> n"
  proof (intro allI impI)
    fix i
    assume "i < length src"
    then have "2 * i + printed_digits cs (src ! i) + 1 \<le> dump_end cs src"
      unfolding dump_end_def by (intro fold_max_ge) auto
    then show "2 * i + printed_digits cs (src ! i) + 1 \<le> n" using h by simp
  qed
qed (auto simp: dump_end_def intro!: fold_max_le)

lemma dump_fits:
  "dump_end cs src \<le> 2 * length src + 1 \<longleftrightarrow>
     \<not> (cs \<and> (\<exists>i < length src. length src < i + 4 \<and> 0x80 \<le> src ! i))"
proof -
  have "2 * i + printed_digits cs (src ! i) + 1 \<le> 2 * length src + 1 \<longleftrightarrow>
      \<not> (cs \<and> length src < i + 4 \<and> 0x80 \<le> src ! i)" if "i < length src" for i
    using that by (auto simp: printed_digits_def)
  then show ?thesis unfolding dump_end_le by blast
qed

lemma client_request_refines:
  assumes "registry d m" "\<And>a. mem = Some a \<Longrightarrow> conns d a = None"
  shows "\<exists>d'. handleMessage os mem (socket_request s True) d = Some (fst (open_registry os (mem \<noteq> None) (socket_key s) m), d') \<and>
      registry d' (snd (open_registry os (mem \<noteq> None) (socket_key s) m))"
    and "\<exists>d'. handleMessage os mem (socket_request s False) d = Some (fst (close_registry (socket_key s) m), d') \<and>
      registry d' (snd (close_registry (socket_key s) m))"
proof -
  let ?p = "bytes32 (sk_ifindex s) @ bytes32 (sk_tid s) @ bytes32 (sk_rid s)"
  have "asuint32 (bytes32 (sk_rid s)) = sk_rid s" using asuint32_bytes [of _ "[]"] by simp
  then have k: "socket_key s = (asuint32 ?p, asuint32 (drop 4 ?p), asuint32 (drop 8 ?p))"
    by (simp add: socket_key_def)
  have len: "12 \<le> length ?p" by simp
  show "\<exists>d'. handleMessage os mem (socket_request s True) d = Some (fst (open_registry os (mem \<noteq> None) (socket_key s) m), d') \<and>
      registry d' (snd (open_registry os (mem \<noteq> None) (socket_key s) m))"
    unfolding handle_client_request by (rule request_refines(1) [OF assms len k])
  show "\<exists>d'. handleMessage os mem (socket_request s False) d = Some (fst (close_registry (socket_key s) m), d') \<and>
      registry d' (snd (close_registry (socket_key s) m))"
    unfolding handle_client_request by (rule request_refines(2) [OF assms len k])
qed

text \<open>The daemon's loop over the requests that arrive.\<close>

fun serve :: "bool \<Rightarrow> (os_socket \<times> nat option \<times> 8 word list) list \<Rightarrow> daemon \<Rightarrow> (effect list \<times> daemon) option" where
  "serve cs [] d = Some ([], d)"
| "serve cs ((os, mem, datagram) # rest) d = do {
     (e, d) \<leftarrow> daemon_round cs os mem datagram d;
     (es, d) \<leftarrow> serve cs rest d;
     Some (e @ es, d)
   }"

lemma serve_append:
  "serve cs (xs @ ys) d = do { (e, d) \<leftarrow> serve cs xs d; (es, d) \<leftarrow> serve cs ys d; Some (e @ es, d) }"
  by (induction xs arbitrary: d) (auto split: Option.bind_splits)

definition idle :: daemon where
  "idle = \<lparr>obdiiSockets = None, conns = Map.empty\<rparr>"

lemma idle_registry: "registry idle Map.empty"
  by (auto simp: registry_def idle_def linked_def stores_map_def payloads_def)

lemma client_round:
  assumes "dump_end cs (socket_request s b) \<le> 33"
  shows "daemon_round cs os mem (socket_request s b) d = handleMessage os mem (socket_request s b) d"
  using assms by (simp add: daemon_round_def)

text \<open>Clients that use a socket: a client opens it when it does not hold it and closes it when it does. The requests do not
  say who sends them.\<close>

fun orderly :: "nat set \<Rightarrow> (nat \<times> bool) list \<Rightarrow> bool" where
  "orderly H [] = True"
| "orderly H ((c, shouldOpen) # sch) = (if shouldOpen then c \<notin> H \<and> orderly (insert c H) sch else c \<in> H \<and> orderly (H - {c}) sch)"

fun holders :: "nat set \<Rightarrow> (nat \<times> bool) list \<Rightarrow> nat set" where
  "holders H [] = H"
| "holders H ((c, shouldOpen) # sch) = holders (if shouldOpen then insert c H else H - {c}) sch"

definition client_datagram :: "obdii_socket \<Rightarrow> bool \<Rightarrow> os_socket \<times> nat option \<times> 8 word list" where
  "client_datagram s shouldOpen = (SocketFails, None, socket_request s shouldOpen)"

text \<open>The datagram of the client that opens the socket first, and those of a schedule.\<close>

definition first_and_more :: "obdii_socket \<Rightarrow> int \<Rightarrow> nat \<Rightarrow> (nat \<times> bool) list \<Rightarrow> (os_socket \<times> nat option \<times> 8 word list) list" where
  "first_and_more s fd a sch = (Bound fd, Some a, socket_request s True) # map (\<lambda>r. client_datagram s (snd r)) sch"

definition never_unused :: "nat set \<Rightarrow> (nat \<times> bool) list \<Rightarrow> bool" where
  "never_unused H sch \<longleftrightarrow> (\<forall>n \<le> length sch. holders H (take n sch) \<noteq> {})"

lemma never_unused_Cons:
  "never_unused H ((c, b) # sch) \<Longrightarrow>
     (if b then insert c H else H - {c}) \<noteq> {} \<and> never_unused (if b then insert c H else H - {c}) sch"
  unfolding never_unused_def
proof (intro conjI allI impI)
  assume h: "\<forall>n\<le>length ((c, b) # sch). holders H (take n ((c, b) # sch)) \<noteq> {}"
  show "(if b then insert c H else H - {c}) \<noteq> {}" using h [rule_format, of 1] by simp
  show "holders (if b then insert c H else H - {c}) (take n sch) \<noteq> {}" if "n \<le> length sch" for n
    using h [rule_format, of "Suc n"] that by simp
qed

text \<open>One request for a socket that is open.\<close>

lemma open_request:
  assumes "registry d m" "m (socket_key s) = Some (fd, k)" "dump_end cs (socket_request s True) \<le> 33"
  shows "\<exists>d'. serve cs [client_datagram s True] d = Some ([SendCode OBDIIDaemonResponseCodeSuccess, SendFD fd], d') \<and>
    registry d' (m(socket_key s \<mapsto> (fd, k + 1)))"
  using client_request_refines(1) [OF assms(1), of None SocketFails s] assms(2) client_round [OF assms(3)]
  by (auto simp: open_registry_def client_datagram_def)

lemma close_request:
  assumes "registry d m" "m (socket_key s) = Some (fd, k)" "dump_end cs (socket_request s False) \<le> 33"
  shows "\<exists>d'. serve cs [client_datagram s False] d =
      Some ((if k = 1 then [CloseSocket fd] else []) @ [SendCode OBDIIDaemonResponseCodeSuccess], d') \<and>
    registry d' (m(socket_key s := (if k = 1 then None else Some (fd, k - 1))))"
  using client_request_refines(2) [OF assms(1), of None SocketFails s] assms(2) client_round [OF assms(3)]
  by (auto simp: close_registry_def client_datagram_def)

lemma close_last:
  assumes "registry d (m(socket_key s \<mapsto> (fd, 1)))" "m (socket_key s) = None" "dump_end cs (socket_request s False) \<le> 33"
  shows "\<exists>d'. serve cs [client_datagram s False] d = Some ([CloseSocket fd, SendCode 0], d') \<and> registry d' m"
proof -
  have "(m(socket_key s \<mapsto> (fd, 1)))(socket_key s := None) = m" using assms(2) by auto
  then show ?thesis using close_request [OF assms(1) fun_upd_same assms(3)] by (simp del: serve.simps fun_upd_apply)
qed

lemma close_both:
  assumes "registry d (m(socket_key s \<mapsto> (fd, 2)))" "m (socket_key s) = None" "dump_end cs (socket_request s False) \<le> 33"
  shows "\<exists>d'. serve cs [client_datagram s False, client_datagram s False] d = Some ([SendCode 0, CloseSocket fd, SendCode 0], d') \<and>
    registry d' m"
proof -
  obtain d1 where d1: "serve cs [client_datagram s False] d = Some ([SendCode 0], d1)" "registry d1 (m(socket_key s \<mapsto> (fd, 1)))"
    using close_request [OF assms(1) fun_upd_same assms(3)] by (auto simp del: serve.simps fun_upd_apply)
  obtain d2 where d2: "serve cs [client_datagram s False] d1 = Some ([CloseSocket fd, SendCode 0], d2)" "registry d2 m"
    using close_last [OF d1(2) assms(2,3)] by blast
  have "serve cs ([client_datagram s False] @ [client_datagram s False]) d = Some ([SendCode 0] @ [CloseSocket fd, SendCode 0], d2)"
    unfolding serve_append using d1(1) d2(1) by (simp del: serve.simps)
  then show ?thesis using d2(2) by simp
qed

lemma schedule_users:
  assumes "\<And>b. dump_end cs (socket_request s b) \<le> 33"
  shows "registry d m \<Longrightarrow> m (socket_key s) = Some (fd, int (card H)) \<Longrightarrow> finite H \<Longrightarrow> orderly H sch \<Longrightarrow> never_unused H sch \<Longrightarrow>
    \<exists>e d'. serve cs (map (\<lambda>r. client_datagram s (snd r)) sch) d = Some (e, d') \<and> finite (holders H sch) \<and>
      registry d' (m(socket_key s \<mapsto> (fd, int (card (holders H sch))))) \<and> (\<forall>x. CloseSocket x \<notin> set e)"
proof (induction sch arbitrary: d m H)
  case Nil
  then have "m(socket_key s \<mapsto> (fd, int (card H))) = m" by auto
  then show ?case using Nil by simp
next
  case (Cons r sch)
  obtain c b where r: "r = (c, b)" by (cases r)
  let ?H = "if b then insert c H else H - {c}"
  note rest = never_unused_Cons [OF Cons.prems(5) [unfolded r]]
  have fin: "finite ?H" "orderly ?H sch" using Cons.prems(3,4) r by (auto split: if_splits)
  have "\<exists>e1 d1. serve cs [client_datagram s b] d = Some (e1, d1) \<and> (\<forall>x. CloseSocket x \<notin> set e1) \<and>
      registry d1 (m(socket_key s \<mapsto> (fd, int (card ?H))))"
  proof (cases b)
    case True
    then have "int (card ?H) = int (card H) + 1" using Cons.prems(3,4) r by simp
    then show ?thesis using open_request [OF Cons.prems(1,2) assms] True by fastforce
  next
    case False
    then have c: "c \<in> H" using Cons.prems(4) r by simp
    have "card (H - {c}) \<noteq> 0" using False rest fin(1) by simp
    then have "card ?H = card H - 1" "card ?H \<noteq> 0" using False c Cons.prems(3) by simp_all
    then have "int (card H) \<noteq> 1" "int (card ?H) = int (card H) - 1" by auto
    then show ?thesis using close_request [OF Cons.prems(1,2) assms] False by fastforce
  qed
  then obtain e1 d1 where d1: "serve cs [client_datagram s b] d = Some (e1, d1)" "\<forall>x. CloseSocket x \<notin> set e1"
      "registry d1 (m(socket_key s \<mapsto> (fd, int (card ?H))))" by blast
  obtain e d' where d': "serve cs (map (\<lambda>r. client_datagram s (snd r)) sch) d1 = Some (e, d')" "finite (holders ?H sch)"
      "registry d' (m(socket_key s \<mapsto> (fd, int (card (holders ?H sch)))))" "\<forall>x. CloseSocket x \<notin> set e"
    using Cons.IH [OF d1(3) fun_upd_same fin rest [THEN conjunct2]] unfolding fun_upd_upd by blast
  have "serve cs ([client_datagram s b] @ map (\<lambda>r. client_datagram s (snd r)) sch) d = Some (e1 @ e, d')"
    unfolding serve_append d1(1) using d'(1) by simp
  moreover have "holders H (r # sch) = holders ?H sch" "map (\<lambda>r. client_datagram s (snd r)) (r # sch) =
      [client_datagram s b] @ map (\<lambda>r. client_datagram s (snd r)) sch" by (simp_all add: r)
  moreover have "\<forall>x. CloseSocket x \<notin> set (e1 @ e)" using d1(2) d'(4) by simp
  ultimately show ?case using d'(2,3) by (intro exI [of _ "e1 @ e"] exI [of _ d']) (simp only: simp_thms)
qed

lemma message_keeps_registry:
  assumes "registry d m" "\<And>a. mem = Some a \<Longrightarrow> conns d a = None"
  shows "\<exists>e d' m'. handleMessage os mem request d = Some (e, d') \<and> registry d' m'"
proof -
  let ?p = "drop 4 request"
  have each: "\<exists>e d' m'. handleSocketRequest os mem ?p b d = Some (e, d') \<and> registry d' m'" for b
  proof (cases "12 \<le> length ?p")
    case True
    note refines = request_refines [OF assms(1) _ True refl, where mem = mem and os = os]
    have "\<exists>e d' m'. handleSocketRequest os mem ?p True d = Some (e, d') \<and> registry d' m'"
      using refines(1) assms(2) by blast
    moreover have "\<exists>e d' m'. handleSocketRequest os mem ?p False d = Some (e, d') \<and> registry d' m'"
      using refines(2) assms(2) by blast
    ultimately show ?thesis by (cases b) (simp_all only:)
  next
    case False
    then show ?thesis using assms(1) by (auto simp: handleSocketRequest_def)
  qed
  have "handleMessage os mem request d \<in>
      {Some ([], d), handleSocketRequest os mem ?p True d, handleSocketRequest os mem ?p False d}"
    by (simp add: handleMessage_def Let_def)
  then consider "handleMessage os mem request d = Some ([], d)" |
      b where "handleMessage os mem request d = handleSocketRequest os mem ?p b d" by blast
  then show ?thesis
  proof cases
    case 1
    then show ?thesis using assms(1) by blast
  next
    case 2
    then show ?thesis using each by (simp only:)
  qed
qed

lemma high_bit:
  assumes "bit (b :: 8 word) 7"
  shows "0x80 \<le> b"
proof (rule ccontr)
  assume "\<not> 0x80 \<le> b"
  then have "unat b < 2 ^ 7" by (simp add: word_le_nat_alt)
  then have zero: "unat b div 2 ^ 7 = 0" by (rule div_less)
  have "bit (unat b) 7" using assms by (simp add: bit_unsigned_iff)
  then have "odd (unat b div 2 ^ 7)" unfolding bit_iff_odd .
  then show False unfolding zero by simp
qed

section \<open>Properties\<close>

text \<open>
  C28. The daemon implements a registry of sockets with user counts: the request that a client packs for a
  socket is unpacked to the same parameters, opening finds or creates the entry, closing counts it
  down and removes it with its last user, the answers are the ones of the registry, and the linked list stays
  well formed, with no access to a node that has been freed.\<close>

theorem daemon_refines_registry:
  assumes "registry d m" "\<And>a. mem = Some a \<Longrightarrow> conns d a = None"
  shows "\<exists>d'. handleMessage os mem (socket_request s shouldOpen) d =
      Some (fst (if shouldOpen then open_registry os (mem \<noteq> None) (socket_key s) m else close_registry (socket_key s) m), d') \<and>
      registry d' (snd (if shouldOpen then open_registry os (mem \<noteq> None) (socket_key s) m else close_registry (socket_key s) m))"
  using client_request_refines [OF assms] by (cases shouldOpen) simp_all

definition engine :: obdii_socket where
  "engine = \<lparr>sk_s = -1, sk_shared = 1, sk_ifindex = 3, sk_tid = 0x7E0, sk_rid = 0x7E8\<rparr>"

theorem daemon_refines_registry_witness:
  "\<exists>d'. handleMessage (Bound 5) (Some 100) (socket_request engine True) idle = Some ([SendCode 0, SendFD 5], d') \<and>
     registry d' [(3, 0x7E0, 0x7E8) \<mapsto> (5, 1)]"
  using daemon_refines_registry [OF idle_registry, of "Some 100" "Bound 5" engine True]
  by (simp add: idle_def open_registry_def socket_key_def engine_def)

text \<open>
  C37. A socket is shared by its users, where the request fits the buffer of the dump: after a client has opened it, and
  while clients that keep to the order of opening and closing come and go in any interleaving with at least one holding it, the daemon
  keeps the one socket open and counts the holders, and the close of the last holder closes it and removes the entry. The daemon counts
  requests and not clients: with two holders, one of which closes twice, the socket is closed under the other.\<close>

theorem shared_socket_lifetime:
  assumes "registry d m" "m (socket_key s) = None" "conns d a = None" "\<And>b. dump_end cs (socket_request s b) \<le> 33"
    and "orderly {c} sch" "never_unused {c} sch"
  shows "(\<exists>e d'. serve cs (first_and_more s fd a sch) d = Some (e, d') \<and> (\<forall>x. CloseSocket x \<notin> set e) \<and>
       registry d' (m(socket_key s \<mapsto> (fd, int (card (holders {c} sch)))))) \<and>
     (holders {c} sch = {u} \<longrightarrow> (\<exists>e d'. serve cs (first_and_more s fd a sch @ [client_datagram s False]) d = Some (e @ [CloseSocket fd, SendCode 0], d') \<and>
       registry d' m)) \<and>
     (holders {c} sch = {u, v} \<and> u \<noteq> v \<longrightarrow> (\<exists>e d'. serve cs (first_and_more s fd a sch @ [client_datagram s False, client_datagram s False]) d =
       Some (e @ [CloseSocket fd, SendCode 0], d') \<and> registry d' m))"
proof -
  obtain d1 where d1: "handleMessage (Bound fd) (Some a) (socket_request s True) d = Some ([SendCode 0, SendFD fd], d1)"
    "registry d1 (m(socket_key s \<mapsto> (fd, int (card {c}))))"
    using client_request_refines(1) [OF assms(1), of "Some a" "Bound fd" s] assms(2,3) by (auto simp: open_registry_def)
  obtain e2 d2 where d2: "serve cs (map (\<lambda>r. client_datagram s (snd r)) sch) d1 = Some (e2, d2)"
    "registry d2 (m(socket_key s \<mapsto> (fd, int (card (holders {c} sch)))))" "\<forall>x. CloseSocket x \<notin> set e2"
    using schedule_users [OF assms(4) d1(2) fun_upd_same _ assms(5,6)] unfolding fun_upd_upd by auto
  have run: "serve cs (first_and_more s fd a sch) d = Some ([SendCode 0, SendFD fd] @ e2, d2)"
    using client_round [OF assms(4)] d1(1) d2(1) by (simp add: first_and_more_def)
  show ?thesis
  proof (intro conjI impI)
    show "\<exists>e d'. serve cs (first_and_more s fd a sch) d = Some (e, d') \<and> (\<forall>x. CloseSocket x \<notin> set e) \<and>
        registry d' (m(socket_key s \<mapsto> (fd, int (card (holders {c} sch)))))"
      using run d2 by (intro exI [of _ "[SendCode 0, SendFD fd] @ e2"] exI [of _ d2]) (simp del: fun_upd_apply)
    show "\<exists>e d'. serve cs (first_and_more s fd a sch @ [client_datagram s False]) d = Some (e @ [CloseSocket fd, SendCode 0], d') \<and>
        registry d' m" if "holders {c} sch = {u}"
      using close_last [of d2 m s fd cs] assms(2,4) d2(2) that by (auto simp: serve_append run simp del: serve.simps fun_upd_apply)
    show "\<exists>e d'. serve cs (first_and_more s fd a sch @ [client_datagram s False, client_datagram s False]) d =
        Some (e @ [CloseSocket fd, SendCode 0], d') \<and> registry d' m" if "holders {c} sch = {u, v} \<and> u \<noteq> v"
    proof -
      have "card (holders {c} sch) = 2" using that by simp
      then obtain d3 where "serve cs [client_datagram s False, client_datagram s False] d2 = Some ([SendCode 0, CloseSocket fd, SendCode 0], d3)"
          "registry d3 m"
        using close_both [of d2 m s fd cs] assms(2,4) d2(2) by (auto simp del: serve.simps fun_upd_apply)
      then show ?thesis
        by (intro exI [of _ "[SendCode 0, SendFD fd] @ e2 @ [SendCode 0]"] exI [of _ d3]) (simp add: serve_append run del: serve.simps)
    qed
  qed
qed

theorem shared_socket_lifetime_witness:
  "\<exists>e d'. serve False [(Bound 5, Some 100, socket_request engine True), client_datagram engine True,
     client_datagram engine False, client_datagram engine False] idle = Some (e @ [CloseSocket 5, SendCode 0], d') \<and> registry d' Map.empty"
proof -
  have fits: "dump_end False (socket_request engine b) \<le> 33" for b
    using dump_fits [of False "socket_request engine b"] by simp
  have "orderly {1} [(2, True), (1, False)]" "holders {1} [(2, True), (1, False)] = {2}" by auto
  moreover have "never_unused {1} [(2, True), (1, False)]"
    unfolding never_unused_def by (auto simp: le_Suc_eq numeral_2_eq_2)
  ultimately show ?thesis
    using shared_socket_lifetime [OF idle_registry, where s = engine and a = 100 and cs = False and c = 1 and sch = "[(2, True), (1, False)]" and fd = 5 and u = 2] fits
    by (simp add: idle_def client_datagram_def first_and_more_def)
qed

text \<open>
  C38. Whatever a datagram holds, it leaves the daemon with a well-formed registry, and the only access outside
  of memory is the one of the dump for the log: where \<open>char\<close> is signed, one of the last three bytes of
  a request with a value of 128 or more is printed with eight digits, past the end of the buffer. A
  request for a 29-bit identifier, whose flag is the highest bit of the receive identifier, is such a
  request.\<close>

theorem daemon_round_in_bounds:
  assumes "registry d m" "\<And>a. mem = Some a \<Longrightarrow> conns d a = None"
  shows "(if cs \<and> (\<exists>i < length (take 100 datagram). length (take 100 datagram) < i + 4 \<and> 0x80 \<le> take 100 datagram ! i)
      then daemon_round cs os mem datagram d = None
      else \<exists>e d' m'. daemon_round cs os mem datagram d = Some (e, d') \<and> registry d' m') \<and>
     (bit (sk_rid s) 31 \<longrightarrow> daemon_round True os mem (socket_request s shouldOpen) d = None)"
proof
  show "if cs \<and> (\<exists>i < length (take 100 datagram). length (take 100 datagram) < i + 4 \<and> 0x80 \<le> take 100 datagram ! i)
      then daemon_round cs os mem datagram d = None
      else \<exists>e d' m'. daemon_round cs os mem datagram d = Some (e, d') \<and> registry d' m'"
  proof -
    have "\<exists>e d' m'. handleMessage os mem (take 100 datagram) d = Some (e, d') \<and> registry d' m'"
      by (rule message_keeps_registry [OF assms(1)]) (rule assms(2))
    then show ?thesis unfolding daemon_round_def Let_def dump_fits by (simp only: if_False if_True split: if_split) blast
  qed
  have "0x80 \<le> socket_request s shouldOpen ! 15" if "bit (sk_rid s) 31"
  proof -
    have last: "socket_request s shouldOpen ! 15 = ucast (drop_bit 24 (sk_rid s))"
      by (simp add: socket_request_def bytes16_def bytes32_def)
    have "bit (ucast (drop_bit 24 (sk_rid s)) :: 8 word) 7" using that by (simp add: bit_ucast_iff bit_drop_bit_eq)
    then show ?thesis unfolding last by (rule high_bit)
  qed
  then have "dump_end True (socket_request s shouldOpen) \<le> 33 \<longleftrightarrow> False" if "bit (sk_rid s) 31"
    using dump_fits [of True "socket_request s shouldOpen"] that by (auto intro!: exI [of _ 15])
  then show "bit (sk_rid s) 31 \<longrightarrow> daemon_round True os mem (socket_request s shouldOpen) d = None"
    by (simp add: daemon_round_def)
qed

definition far_engine :: obdii_socket where
  "far_engine = \<lparr>sk_s = -1, sk_shared = 1, sk_ifindex = 3, sk_tid = 0x98DA10F1, sk_rid = 0x98DAF110\<rparr>"

theorem daemon_round_in_bounds_witness:
  "(\<exists>e d' m'. daemon_round False SocketFails None [1, 0, 1] idle = Some (e, d') \<and> registry d' m') \<and>
   daemon_round True SocketFails None (socket_request far_engine True) idle = None"
proof -
  have "bit (sk_rid far_engine) 31" by code_simp
  then show ?thesis
    using daemon_round_in_bounds [OF idle_registry, of None False "[1, 0, 1]" SocketFails far_engine True] by simp
qed

end
