(* ===== verification/Obdii_Plugin.thy ===== *)
theory Obdii_Plugin
  imports Obdii_Supported Obdii_Daemon Data_Dumper
begin

text \<open>
  The OBD-II plugin (\<open>plugins/pip/obdii/pip_plugin_obdii.c\<close>): it opens a socket of its own to the engine's
  control unit, asks which commands the vehicle supports, and adds a module to the document; its thread waits
  without doing anything. The block of supported commands is live until it is freed.
\<close>

abbreviation (input) OBDII_PORTNAME_LEN :: nat where "OBDII_PORTNAME_LEN \<equiv> 64"
abbreviation (input) OBDII_TX_ID :: "32 word" where "OBDII_TX_ID \<equiv> 0x7E0"
abbreviation (input) OBDII_RX_ID :: "32 word" where "OBDII_RX_ID \<equiv> 0x7E8"
abbreviation (input) OBDII_NO_ERROR :: int where "OBDII_NO_ERROR \<equiv> 0"
abbreviation (input) OBDII_ERROR :: int where "OBDII_ERROR \<equiv> - 2"

record obdii_receiver =
  ob_socket :: obdii_socket
  ob_commands :: command_set
  ob_freed :: bool
  ob_portname :: bytes
  ob_end_thread :: bool
  ob_threads :: nat

text \<open>The contribution to the document is a new array, whatever the vehicle answers.\<close>

definition obdii_json_filler :: "'j \<Rightarrow> 'w \<Rightarrow> 'j \<times> 'w" where
  "obdii_json_filler new_array w = (new_array, w)"

text \<open>The outcome of \<open>obdiireceiver_init\<close> is the end of the process, or the receiver with the dumper.\<close>

datatype 'a started = Exited | Started 'a

definition obdiireceiver_init ::
  "'f \<Rightarrow> 32 word \<Rightarrow> os_socket \<Rightarrow> (obdii_command \<Rightarrow> 8 word list option) \<Rightarrow> bytes \<Rightarrow> obdii_receiver \<Rightarrow> ('f, 'j, 'w) datadumper \<Rightarrow>
   (obdii_receiver \<times> ('f, 'j, 'w) datadumper) started option" where
  "obdiireceiver_init filler ifindex os ask portname r dd =
     (let (status, _, s) = OBDIIOpenSocket ifindex os (\<lambda>s. (-1, s)) (ob_socket r) OBDII_TX_ID OBDII_RX_ID 0
      in if status < 0 then Some Exited
         else do {
           cs \<leftarrow> OBDIIGetSupportedCommands ask;
           Some (Started (r\<lparr>ob_socket := s, ob_commands := cs, ob_freed := False,
                            ob_portname := strncpy_bytes portname OBDII_PORTNAME_LEN\<rparr>,
                          datadumper_add_module_init_cb (Some filler) True ''obdii_data'' dd))
         })"

definition pip_plugin_obdii_initializer ::
  "'f \<Rightarrow> 32 word \<Rightarrow> os_socket \<Rightarrow> (obdii_command \<Rightarrow> 8 word list option) \<Rightarrow> obdii_receiver \<Rightarrow> ('f, 'j, 'w) datadumper \<Rightarrow>
   (int \<times> obdii_receiver \<times> ('f, 'j, 'w) datadumper) started option" where
  "pip_plugin_obdii_initializer filler ifindex os ask r dd =
     map_option (\<lambda>x. case x of Exited \<Rightarrow> Exited | Started (r, dd) \<Rightarrow> Started (0, r, dd))
       (obdiireceiver_init filler ifindex os ask ''can0'' r dd)"

text \<open>\<open>created\<close> is the outcome of \<open>pthread_create\<close>.\<close>

definition obdiireceiver_start :: "bool \<Rightarrow> obdii_receiver \<Rightarrow> int \<times> obdii_receiver" where
  "obdiireceiver_start created r =
     (if \<not> created then (OBDII_ERROR, r) else (OBDII_NO_ERROR, r\<lparr>ob_threads := ob_threads r + 1\<rparr>))"

text \<open>The start callback does not look at the result.\<close>

definition obdii_start_cb :: "bool \<Rightarrow> obdii_receiver \<Rightarrow> int \<times> obdii_receiver" where
  "obdii_start_cb created r = (0, snd (obdiireceiver_start created r))"

text \<open>The loop of the thread runs until the flag is set.\<close>

definition obdii_thread_runs :: "obdii_receiver \<Rightarrow> bool" where
  "obdii_thread_runs r = (\<not> ob_end_thread r)"

definition obdiireceiver_stop :: "obdii_receiver \<Rightarrow> (effect list \<times> obdii_receiver) option" where
  "obdiireceiver_stop r =
     (if ob_freed r then None
      else
        let r = r\<lparr>ob_end_thread := True, ob_freed := True\<rparr>;
            (_, e, s) = OBDIICloseSocket (\<lambda>s. (-1, s)) 0 (ob_socket r)
        in Some (e, r\<lparr>ob_socket := s\<rparr>))"

definition obdii_destroy_cb :: "obdii_receiver \<Rightarrow> (int \<times> effect list \<times> obdii_receiver) option" where
  "obdii_destroy_cb r = map_option (\<lambda>(e, r). (0, e, r)) (obdiireceiver_stop r)"

text \<open>The statics before the plugin is initialised.\<close>

definition obdii_statics :: obdii_receiver where
  "obdii_statics =
     \<lparr>ob_socket = \<lparr>sk_s = 0, sk_shared = 0, sk_ifindex = 0, sk_tid = 0, sk_rid = 0\<rparr>,
      ob_commands = \<lparr>pids_1_to_20 = 0, pids_21_to_40 = 0, pids_41_to_60 = 0, pids_61_to_80 = 0, mode9_pids = 0,
        numCommands = 0, set_commands = []\<rparr>,
      ob_freed = False, ob_portname = replicate OBDII_PORTNAME_LEN NUL, ob_end_thread = False, ob_threads = 0\<rparr>"

text \<open>
  The plugin comes up exactly when the interface exists and a socket of its own can be bound to it, and
  then knows the commands of the vehicle; otherwise the whole process ends. Destroying it closes that
  socket and stops the thread, and destroying it again frees the commands twice.\<close>

theorem obdii_plugin_life:
  assumes "\<forall>p. S1 p \<and> 0x20 < p \<longrightarrow> S1 0x20" "\<forall>p. S1 p \<and> 0x40 < p \<longrightarrow> S1 0x40"
  shows "(if ifindex = 0 \<or> (\<forall>n. os \<noteq> Bound n)
      then pip_plugin_obdii_initializer filler ifindex os (vehicle S1 S9) obdii_statics dd = Some Exited
      else \<exists>r r1 n. os = Bound n \<and>
        pip_plugin_obdii_initializer filler ifindex os (vehicle S1 S9) obdii_statics dd =
          Some (Started (0, r, datadumper_add_module_init_cb (Some filler) True ''obdii_data'' dd)) \<and>
        set_commands (ob_commands r) = filter (\<lambda>c. obd_pid c = 0 \<or> S1 (obd_pid c)) OBDIIMode1Commands @ [OBDIIMode3Command] @
          filter (\<lambda>c. obd_pid c = 0 \<or> S9 (obd_pid c)) OBDIIMode9Commands \<and>
        obdii_thread_runs (snd (obdii_start_cb created r)) \<and>
        obdii_destroy_cb (snd (obdii_start_cb created r)) = Some (0, [CloseSocket n], r1) \<and>
        \<not> obdii_thread_runs r1 \<and> obdii_destroy_cb r1 = None)"
proof -
  obtain s where s: "OBDIIGetSupportedCommands (vehicle S1 S9) = Some s"
    "set_commands s = filter (\<lambda>c. obd_pid c = 0 \<or> S1 (obd_pid c)) OBDIIMode1Commands @ [OBDIIMode3Command] @
       filter (\<lambda>c. obd_pid c = 0 \<or> S9 (obd_pid c)) OBDIIMode9Commands"
    using vehicle_commands [OF assms] by blast
  note defs = pip_plugin_obdii_initializer_def obdiireceiver_init_def OBDIIOpenSocket_def
  show ?thesis
  proof (cases "ifindex = 0 \<or> (\<forall>n. os \<noteq> Bound n)")
    case True
    then show ?thesis by (cases os) (auto simp: defs Let_def)
  next
    case False
    then obtain n where "ifindex \<noteq> 0" "os = Bound n" by blast
    then show ?thesis using s
      by (simp add: defs Let_def obdii_statics_def obdii_start_cb_def obdiireceiver_start_def obdii_thread_runs_def
          obdii_destroy_cb_def obdiireceiver_stop_def OBDIICloseSocket_def)
  qed
qed

theorem obdii_plugin_life_witness:
  "\<exists>r r1. pip_plugin_obdii_initializer () 3 (Bound 5) (vehicle (\<lambda>_. False) (\<lambda>_. False)) obdii_statics (datadumper_zero ()) =
      Some (Started (0, r, datadumper_add_module_init_cb (Some ()) True ''obdii_data'' (datadumper_zero ()))) \<and>
     obdii_destroy_cb (snd (obdii_start_cb True r)) = Some (0, [CloseSocket 5], r1) \<and> obdii_destroy_cb r1 = None"
  using obdii_plugin_life [of "\<lambda>_. False" 3 "Bound 5" "()" "\<lambda>_. False" "datadumper_zero ()" True] by auto

end
