(* ===== verification/Pip_Gpio.thy ===== *)
theory Pip_Gpio
  imports Relay_Board Pip_Wallet
begin

text \<open>
  The GPIO information plugin (\<open>plugins/pip/gpio/pip_plugin_gpio.c\<close>). Its acquire callback works on a copy of
  the attribute that it should fill. The callback uses \<open>check_idx\<close> of \<open>gpio_interface.c\<close>, which has no
  return statement for an index in range; \<open>c\<close> is the value that its caller finds there.
\<close>

definition gpio_read_with :: "int \<Rightarrow> pigpio \<Rightarrow> int \<Rightarrow> int \<times> gpio_call list" where
  "gpio_read_with c io idx =
     (if gpio_initialise io < 0 \<or> (if idx < 0 \<or> idx > 3 then - 1 else c) < 0 then (1, [GpioInitialise])
      else let bcm = gpio_idx2bcm ! nat idx
           in (gpio_read io bcm, [GpioInitialise, GpioSetMode bcm PI_INPUT, GpioRead bcm, GpioTerminate]))"

text \<open>The attribute of the arguments, the value returned, and the attribute that was filled in.\<close>

definition gpio_acquire_cb ::
  "int \<Rightarrow> pigpio \<Rightarrow> bool \<Rightarrow> pip_attribute option \<Rightarrow> (int \<times> pip_attribute option \<times> pip_attribute option \<times> gpio_call list) option" where
  "gpio_acquire_cb c io plugin user_data =
     (if \<not> plugin \<or> user_data = None then Some (- 1, user_data, None, [])
      else do {
        attribute_object \<leftarrow> user_data;
        t \<leftarrow> buf_blit (attr_type attribute_object) 0 ''boolean'';
        let (level, calls) = gpio_read_with c io 0;
        let ret = (if level \<noteq> 0 then ''true'' else ''false'');
        v \<leftarrow> buf_blit (attr_value attribute_object) 0 ret;
        Some (0, user_data, Some \<lparr>attr_type = t, attr_value = v\<rparr>, calls)
      })"

text \<open>
  The plugin reports success and leaves the attribute of the request as it was: the type and the level of
  the pin are written to a copy of it, where they overwrite the first characters and are not terminated.
  A level that cannot be read counts as high.\<close>

theorem gpio_answer_is_lost:
  assumes "length (attr_type attr) = PROTOCOL_MAX_STR_LEN" "length (attr_value attr) = PROTOCOL_MAX_STR_LEN"
  shows "\<exists>filled calls. gpio_acquire_cb c io True (Some attr) = Some (0, Some attr, Some filled, calls) \<and>
     attr_type filled = ''boolean'' @ drop 7 (attr_type attr) \<and>
     attr_value filled =
       (if gpio_initialise io < 0 \<or> c < 0 \<or> gpio_read io 4 \<noteq> 0 then ''true'' @ drop 4 (attr_value attr)
        else ''false'' @ drop 5 (attr_value attr))"
  using assms
  by (auto simp: gpio_acquire_cb_def gpio_read_with_def buf_blit_def gpio_idx2bcm_def Let_def eval_nat_numeral)

theorem gpio_answer_is_lost_witness:
  "gpio_acquire_cb 0 \<lparr>gpio_initialise = 0, gpio_read = \<lambda>_. 1\<rparr> True
     (Some \<lparr>attr_type = replicate 256 NUL, attr_value = replicate 256 NUL\<rparr>) \<noteq> None"
  using gpio_answer_is_lost [of "\<lparr>attr_type = replicate 256 NUL, attr_value = replicate 256 NUL\<rparr>" 0
      "\<lparr>gpio_initialise = 0, gpio_read = \<lambda>_. 1\<rparr>"] by auto

end
