(* ===== verification/Main_Program.thy ===== *)
theory Main_Program
  imports Network Policy_Loader Pep_Plugins Pap_Storage
begin

text \<open>
  The main program (\<open>main.c\<close> and \<open>access/access.c\<close>): the creation of the wallet from the configuration, the
  order in which the parts are started, and the way down. The access core library that \<open>access.c\<close>
  forwards to is not part of the repository; its calls are recorded in the order in which they are
  made. What the machine provides is a record; in particular \<open>ma_room\<close> says whether the compiler left three
  unused bytes behind \<open>node_mwm\<close> and two behind \<open>port\<close>, which are written as if they were of type \<open>int\<close>.
\<close>

abbreviation (input) MAX_CLIENT_NAME :: nat where "MAX_CLIENT_NAME \<equiv> 32"
abbreviation (input) MAX_STR_LEN :: nat where "MAX_STR_LEN \<equiv> 512"
abbreviation (input) SEED_LEN :: nat where "SEED_LEN \<equiv> 82"
abbreviation (input) MAX_PEM_LEN :: nat where "MAX_PEM_LEN \<equiv> 4096"

record machine =
  ma_ini :: "bytes option"
  ma_files :: "bytes \<Rightarrow> bytes option"
  ma_client :: cclient
  ma_memory :: bool
  ma_room :: bool
  ma_junk :: bytes
  ma_junk_mwm :: int
  ma_junk_port :: int
  ma_junk_depth :: int
  ma_junk_buffer :: bytes
  ma_bind :: bool
  ma_listen :: bool
  ma_thread :: bool

section \<open>The wallet\<close>

text \<open>An option read through a pointer to a narrower variable.\<close>

definition narrow_option :: "bool \<Rightarrow> config_manager \<Rightarrow> bytes \<Rightarrow> bytes \<Rightarrow> int \<Rightarrow> int option" where
  "narrow_option room cfg name junk old = do {
     (status, v) \<leftarrow> config_manager_get_option_int cfg ''wallet'' name junk old;
     (if status = CONFIG_MANAGER_OK \<and> \<not> room then None else Some v)
   }"

definition wallet_init :: "machine \<Rightarrow> config_manager \<Rightarrow> (int \<times> wallet_ctx option) option" where
  "wallet_init ma cfg = do {
     (_, node_url) \<leftarrow> config_manager_get_option_string cfg ''wallet'' ''url'' (replicate MAX_STR_LEN NUL) MAX_STR_LEN;
     (_, seed) \<leftarrow> config_manager_get_option_string cfg ''wallet'' ''seed'' (replicate SEED_LEN NUL) 82;
     (_, pem_file) \<leftarrow> config_manager_get_option_string cfg ''wallet'' ''pem_file_path'' (replicate MAX_STR_LEN NUL) MAX_STR_LEN;
     node_mwm \<leftarrow> narrow_option (ma_room ma) cfg ''mwm'' (ma_junk ma) (ma_junk_mwm ma);
     port \<leftarrow> narrow_option (ma_room ma) cfg ''port'' (ma_junk ma) (ma_junk_port ma);
     (_, node_depth) \<leftarrow> config_manager_get_option_int cfg ''wallet'' ''depth'' (ma_junk ma) (ma_junk_depth ma);
     (if strlen pem_file = 0 then Some (- 1, None)
      else case ma_files ma (cstr pem_file) of
        None \<Rightarrow> Some (- 1, None)
      | Some content \<Rightarrow>
          (let ca_pem = take MAX_PEM_LEN content @ replicate (MAX_PEM_LEN - length content) NUL
           in if NUL \<notin> set ca_pem then None
              else
                let wallet_context = fst (wallet_create (ma_client ma) (ma_memory ma) (cstr node_url) (word_of_int port)
                      (Some (cstr ca_pem)) (word_of_int node_depth) (word_of_int node_mwm) (cstr seed))
                in Some (if wallet_context = None then - 1 else 0, wallet_context)))
   }"

section \<open>The program\<close>

datatype main_call =
    PolicyLoaderStart | PepInit | PipInit | RegisterPep | RegisterPap | PipStart | NetworkThread | AwaitSignal
  | NetworkStop | PipTerm | PepTerm | PolicyLoaderStop | ReleaseClient iota_client

definition access_init :: "main_call list" where "access_init = [PepInit, PipInit]"
definition access_start :: "main_call list" where "access_start = [PipStart]"
definition access_term :: "main_call list" where "access_term = [PipTerm, PepTerm]"

text \<open>Everything up to \<open>network_start\<close>: the wallet, the context of the server, and the calls.\<close>

definition main_startup :: "machine \<Rightarrow> (wallet_ctx option \<times> network_ctx \<times> main_call list) option" where
  "main_startup ma = do {
     (_, cfg) \<leftarrow> config_manager_init (ma_ini ma) g_config_zero;
     (_, client_name) \<leftarrow> config_manager_get_option_string cfg ''config'' ''client'' (replicate MAX_CLIENT_NAME NUL) MAX_CLIENT_NAME;
     (status, t) \<leftarrow> config_manager_get_option_int cfg ''config'' ''thread_sleep_period'' (ma_junk ma) 0;
     let sleep_time = (if status \<noteq> CONFIG_MANAGER_OK then 1000 else t);
     (_, loader) \<leftarrow> policyloader_start cfg (ma_junk ma) (policy_loader_zero\<lparr>g_task_sleep_time := sleep_time\<rparr>);
     (_, wallet_context) \<leftarrow> wallet_init ma cfg;
     let pep = (if fst (pep_plugin_print_initializer wallet_context) = 0 then [RegisterPep] else []);
     (_, ctx, cfg, pu) \<leftarrow> network_init cfg (ma_ini ma) (ma_junk ma) (ma_junk_buffer ma) policy_updater_zero;
     Some (wallet_context, ctx, [PolicyLoaderStart] @ access_init @ pep @ [RegisterPap] @ access_start)
   }"

definition main_program :: "machine \<Rightarrow> (int \<times> main_call list) option" where
  "main_program ma = do {
     (wallet_context, ctx, calls) \<leftarrow> main_startup ma;
     (code, p) \<leftarrow> network_start (ma_bind ma) (ma_listen ma) (ma_thread ma) (CtxLive ctx);
     let waiting = (if code \<noteq> 0 then [] else [NetworkThread, AwaitSignal]);
     _ \<leftarrow> network_stop p;
     let (_, released) = wallet_destroy wallet_context;
     Some (0, calls @ waiting @ [NetworkStop] @ access_term @ [PolicyLoaderStop] @ map ReleaseClient released)
   }"

section \<open>Properties\<close>

text \<open>
  C34. When the start goes through and the server can be started, the program waits for the signal and then
  stops what it started, in this order: the server, the access layer, the policy loader and the wallet. When
  the server cannot be started, the way down uses the context that has been freed. A wallet that cannot be
  created only keeps the PEP plugin from being registered, although the message says that the program is aborted.\<close>

theorem main_way_down:
  assumes "main_startup ma = Some (wallet_context, ctx, calls)"
  shows "main_program ma =
      (if ma_bind ma \<and> ma_listen ma \<and> ma_thread ma
       then Some (0, calls @ [NetworkThread, AwaitSignal, NetworkStop, PipTerm, PepTerm, PolicyLoaderStop] @
         (case wallet_context of None \<Rightarrow> [] | Some w \<Rightarrow> [ReleaseClient (w_client w)]))
       else None) \<and>
     calls = [PolicyLoaderStart, PepInit, PipInit] @ (if wallet_context = None then [] else [RegisterPep]) @ [RegisterPap, PipStart]"
proof -
  have "\<not> ctx_end ctx" "calls = [PolicyLoaderStart, PepInit, PipInit] @
      (if wallet_context = None then [] else [RegisterPep]) @ [RegisterPap, PipStart]"
    using assms
    by (auto simp: main_startup_def network_init_def access_init_def access_start_def pep_plugin_print_initializer_def
        split: bind_splits option.splits if_splits)
  then show ?thesis using assms
    by (auto simp: main_program_def network_start_def network_stop_def wallet_destroy_def access_term_def split: option.splits)
qed

text \<open>
  The program cannot be started with a wallet: for a configuration with a seed of 81 characters, which is what
  a seed has, the lookup writes behind the buffer of the seed, and the value of \<open>mwm\<close> or \<open>port\<close> is written
  over the bytes behind a narrower variable.\<close>

theorem wallet_init_overflows:
  assumes "represents cfg ini"
    and "(\<exists>v. ini_lookup ini ''wallet'' ''seed'' = Inr v \<and> 80 \<le> length v) \<or>
      \<not> ma_room ma \<and> length (ma_junk ma) = 32 \<and> (\<exists>v. ini_lookup ini ''wallet'' ''mwm'' = Inr v \<or> ini_lookup ini ''wallet'' ''port'' = Inr v)"
  shows "wallet_init ma cfg = None"
proof -
  have narrow: "narrow_option (ma_room ma) cfg n (ma_junk ma) old = None"
    if "ini_lookup ini ''wallet'' n = Inr v" "NUL \<notin> set n" "\<not> ma_room ma" "length (ma_junk ma) = 32" for n old v
    using get_int_represents [OF assms(1) _ that(2,4), of "''wallet''"] that(1,3) by (simp add: narrow_option_def)
  have seed: "config_manager_get_option_string cfg ''wallet'' ''seed'' (replicate 82 NUL) 82 = None"
    if "ini_lookup ini ''wallet'' ''seed'' = Inr v" "80 \<le> length v" for v
    using get_string_represents [OF assms(1), of "''wallet''" "''seed''" "replicate 82 NUL"] that by simp
  show ?thesis using assms(2) narrow [of "''mwm''"] narrow [of "''port''"] seed
    by (auto simp: wallet_init_def split: bind_splits)
qed

definition small_machine :: machine where
  "small_machine =
     \<lparr>ma_ini = None, ma_files = (\<lambda>_. None), ma_client = sample_client 0 False, ma_memory = True, ma_room = False,
      ma_junk = replicate 32 NUL, ma_junk_mwm = 0, ma_junk_port = 0, ma_junk_depth = 0,
      ma_junk_buffer = replicate 1024 NUL, ma_bind = False, ma_listen = True, ma_thread = True\<rparr>"

theorem wallet_init_overflows_witness:
  "\<exists>cfg. represents cfg [(''wallet'', [(''mwm'', ''10'')])] \<and> wallet_init small_machine cfg = None"
proof -
  let ?ini = "[(''wallet'', [(''mwm'', ''10'')])]"
  have "ini_ok ?ini" "length (render_ini ?ini) < 2048"
    by (simp_all add: ini_ok_def option_ok_def render_ini_def render_group_def render_options_def render_option_def)
  from init_represents [OF this config_wf_zero] obtain cfg where cfg: "represents cfg ?ini" by blast
  have "ini_lookup ?ini ''wallet'' ''mwm'' = Inr ''10''" by (simp add: ini_lookup_def)
  with wallet_init_overflows [OF cfg, of small_machine] cfg show ?thesis
    by (auto simp: small_machine_def)
qed

text \<open>Without a configuration every lookup fails and the wallet is not created.\<close>

lemma no_config:
  "tokens_count g_config_zero = 0"
  "config_manager_init None g_config_zero = Some (CONFIG_MANAGER_INIT_ERROR, g_config_zero)"
  "config_manager_get_option_string g_config_zero m n b k = Some (CONFIG_MANAGER_GROUP_NOT_FOUND, b)"
  "config_manager_get_option_int g_config_zero m n b old = Some (CONFIG_MANAGER_GROUP_NOT_FOUND, old)"
proof -
  show tokens: "tokens_count g_config_zero = 0" by (simp add: g_config_zero_def)
  show "config_manager_init None g_config_zero = Some (CONFIG_MANAGER_INIT_ERROR, g_config_zero)"
    by (simp add: config_manager_init_def config_manager_implementation_init_cb_def)
  show "config_manager_get_option_string g_config_zero m n b k = Some (CONFIG_MANAGER_GROUP_NOT_FOUND, b)"
    "config_manager_get_option_int g_config_zero m n b old = Some (CONFIG_MANAGER_GROUP_NOT_FOUND, old)"
    by (simp_all add: config_manager_get_option_string_def config_manager_get_option_int_def
        config_manager_implementation_get_string_cb_def config_manager_implementation_get_int_cb_def find_module_def tokens)
qed

theorem main_way_down_witness:
  "\<exists>ctx calls. main_startup small_machine = Some (None, ctx, calls) \<and> main_program small_machine = None"
proof -
  have "wallet_init small_machine g_config_zero = Some (- 1, None)"
    by (simp add: wallet_init_def narrow_option_def no_config strlen_def)
  then have "\<exists>ctx calls. main_startup small_machine = Some (None, ctx, calls)"
    by (simp add: main_startup_def small_machine_def network_init_def no_config policyloader_start_def policyupdater_init_def)
  with main_way_down [of small_machine] show ?thesis by (auto simp: small_machine_def)
qed

end
