(* ===== verification/Modbus.thy ===== *)
theory Modbus
  imports Data_Dumper
begin

text \<open>
  The Modbus RTU client (\<open>plugins/pip/modbus/modbus.c\<close>) and the receiver around it
  (\<open>pip_plugin_modbus.c\<close>): the request frame, the checksum, the reading of an answer and one round of
  the receiver thread. The serial line is the sequence of bytes that \<open>read\<close> returns. The terminal
  settings and the life of the receiver are in \<open>Modbus_Life\<close>.
\<close>

section \<open>Checksum\<close>

definition crc_bit :: "16 word \<Rightarrow> 16 word" where
  "crc_bit crc = (if crc AND 1 \<noteq> 0 then drop_bit 1 crc XOR 0xA001 else drop_bit 1 crc)"

definition crc_byte :: "16 word \<Rightarrow> 8 word \<Rightarrow> 16 word" where
  "crc_byte crc b = (crc_bit ^^ 8) (crc XOR ucast b)"

definition calculate_crc :: "8 word list \<Rightarrow> nat \<Rightarrow> 16 word option" where
  "calculate_crc buf len = (if len \<le> length buf then Some (foldl crc_byte 0xFFFF (take len buf)) else None)"

section \<open>Requests and answers\<close>

definition low_byte :: "16 word \<Rightarrow> 8 word" where
  "low_byte w = ucast w"

definition high_byte :: "16 word \<Rightarrow> 8 word" where
  "high_byte w = ucast (drop_bit 8 w)"

abbreviation (input) MODBUS_READ_BUFF_LEN :: nat where "MODBUS_READ_BUFF_LEN \<equiv> 100"

text \<open>The bytes written to the line for a request.\<close>

definition modbus_request :: "int \<Rightarrow> 16 word \<Rightarrow> 16 word \<Rightarrow> 8 word list option" where
  "modbus_request slave_device_address register_address quantity_to_read = do {
     let buff = [of_int slave_device_address, 3, high_byte register_address, low_byte register_address,
                 high_byte quantity_to_read, low_byte quantity_to_read];
     crc \<leftarrow> calculate_crc buff 6;
     Some (buff @ [low_byte crc, high_byte crc])
   }"

text \<open>The loop that stores the registers into the caller's array.\<close>

fun store_registers :: "8 word list \<Rightarrow> nat list \<Rightarrow> 16 word list \<Rightarrow> 16 word list option" where
  "store_registers buffer [] data = Some data"
| "store_registers buffer (i # is) data = do {
     lo \<leftarrow> buf_get buffer (3 + i * 2 + 1);
     hi \<leftarrow> buf_get buffer (3 + i * 2);
     data \<leftarrow> buf_set data i (ucast lo + ucast hi * 256);
     store_registers buffer is data
   }"

text \<open>\<open>modbus_read_registers\<close>: the result, the array and the bytes written, for the bytes that \<open>read\<close>
  returns. The buffer of 100 bytes is zero before.\<close>

definition modbus_read_registers :: "8 word list \<Rightarrow> int \<Rightarrow> 16 word \<Rightarrow> 16 word \<Rightarrow> 16 word list
    \<Rightarrow> (int \<times> 16 word list \<times> 8 word list) option" where
  "modbus_read_registers reply slave_device_address register_address quantity_to_read data = do {
     request \<leftarrow> modbus_request slave_device_address register_address quantity_to_read;
     let received = take MODBUS_READ_BUFF_LEN reply;
     buffer \<leftarrow> buf_blit (replicate MODBUS_READ_BUFF_LEN 0) 0 received;
     let bytes_read = unat (buffer ! 2);
     let response_len = 3 + bytes_read;
     crc \<leftarrow> calculate_crc buffer response_len;
     lo \<leftarrow> buf_get buffer response_len;
     hi \<leftarrow> buf_get buffer (response_len + 1);
     let response_crc = ucast lo + ucast hi * 256;
     data \<leftarrow> store_registers buffer [0..<bytes_read div 2] data;
     Some (if response_crc \<noteq> crc then 1 else 0, data, request)
   }"

section \<open>The receiver\<close>

text \<open>The wanted flags it looks at, and its objects: NULL, or an object with its value, if set; voltages
  are divided by 4096.\<close>

record modbus_wanted =
  want_rpm :: bool
  want_brake_1 :: bool
  want_brake_2 :: bool
  want_throttle :: bool

datatype modbus_value = Plain "16 word" | Voltage "16 word"

record modbus_objects =
  obj_rpm :: "modbus_value option option"
  obj_brake_1 :: "modbus_value option option"
  obj_brake_2 :: "modbus_value option option"
  obj_throttle :: "modbus_value option option"

text \<open>\<open>modbus_json_filler\<close>: the objects afterwards and the names in the new array. Without
  \<open>brake_2_voltage\<close> the code resets the object of \<open>brake_1_voltage\<close>.\<close>

definition modbus_json_filler :: "modbus_wanted \<Rightarrow> modbus_objects \<Rightarrow> modbus_objects \<times> bytes list" where
  "modbus_json_filler want ob =
     (let (ob, ns) = (if want_rpm want then (ob\<lparr>obj_rpm := Some None\<rparr>, [''motor_rpm'']) else (ob\<lparr>obj_rpm := None\<rparr>, []));
          (ob, ns) = (if want_brake_1 want then (ob\<lparr>obj_brake_1 := Some None\<rparr>, ns @ [''brake_1_voltage''])
                      else (ob\<lparr>obj_brake_1 := None\<rparr>, ns));
          (ob, ns) = (if want_brake_2 want then (ob\<lparr>obj_brake_2 := Some None\<rparr>, ns @ [''brake_2_voltage''])
                      else (ob\<lparr>obj_brake_1 := None\<rparr>, ns));
          (ob, ns) = (if want_throttle want then (ob\<lparr>obj_throttle := Some None\<rparr>, ns @ [''throttle_voltage''])
                      else (ob\<lparr>obj_throttle := None\<rparr>, ns))
      in (ob, ns))"

text \<open>One read of the loop: the register goes to the local \<open>data\<close>, whatever the result says; adding a
  value to a NULL object dereferences it.\<close>

definition read_signal :: "(16 word \<Rightarrow> 8 word list) \<Rightarrow> bool \<Rightarrow> 16 word \<Rightarrow> 16 word \<Rightarrow> modbus_value option option
    \<Rightarrow> (16 word \<Rightarrow> modbus_value) \<Rightarrow> (16 word \<times> modbus_value option option) option" where
  "read_signal line wanted address data ob mk =
     (if \<not> wanted then Some (data, ob)
      else do {
        (_, ds, _) \<leftarrow> modbus_read_registers (line address) 1 address 1 [data];
        (case ob of None \<Rightarrow> None | Some _ \<Rightarrow> Some (ds ! 0, Some (Some (mk (ds ! 0)))))
      })"

definition modbus_round :: "modbus_wanted \<Rightarrow> (16 word \<Rightarrow> 8 word list) \<Rightarrow> modbus_objects \<Rightarrow> modbus_objects option" where
  "modbus_round want line ob = do {
     (data, o1) \<leftarrow> read_signal line (want_rpm want) 0x107 0xFFFF (obj_rpm ob) Plain;
     (data, o2) \<leftarrow> read_signal line (want_brake_1 want) 0x010f data (obj_brake_1 ob) Voltage;
     (data, o3) \<leftarrow> read_signal line (want_brake_2 want) 0x0110 data (obj_brake_2 ob) Voltage;
     (data, o4) \<leftarrow> read_signal line (want_throttle want) 0x010e data (obj_throttle ob) Voltage;
     Some \<lparr>obj_rpm = o1, obj_brake_1 = o2, obj_brake_2 = o3, obj_throttle = o4\<rparr>
   }"

section \<open>Lemmas on words\<close>

text \<open>A word from its two bytes.\<close>

lemma bytes_word: "ucast (low_byte w) + ucast (high_byte w) * 256 = w"
proof -
  have "ucast (high_byte w) * 256 = (push_bit 8 (ucast (high_byte w)) :: 16 word)"
    by (simp add: push_bit_eq_mult)
  moreover have "ucast (low_byte w) + push_bit 8 (ucast (high_byte w)) = (ucast (low_byte w) OR push_bit 8 (ucast (high_byte w)) :: 16 word)"
    by (rule disjunctive_add) (auto simp: low_byte_def bit_simps)
  moreover have "ucast (low_byte w) OR push_bit 8 (ucast (high_byte w)) = w"
    by (rule bit_word_eqI) (auto simp: low_byte_def high_byte_def bit_simps)
  ultimately show ?thesis by simp
qed

section \<open>The checksum as a polynomial remainder\<close>

text \<open>
  The checksum of the protocol, independently of the code: polynomials over the field of two elements are lists of
  coefficients, the highest first, and the checksum is a remainder of the division by \<open>x^16 + x^15 + x^2 + 1\<close>, whose
  coefficients below the highest are \<open>crc_divisor\<close>. The bits of a byte come lowest first, the first sixteen bits of the message are
  complemented, and sixteen zeros follow it.
\<close>

fun xor_onto :: "bool list \<Rightarrow> bool list \<Rightarrow> bool list" where
  "xor_onto (a # as) (x # xs) = (a \<noteq> x) # xor_onto as xs"
| "xor_onto _ xs = xs"

definition crc_divisor :: "bool list" where
  "crc_divisor = [True] @ replicate 12 False @ [True, False, True]"

lemma length_xor_onto [simp]: "length (xor_onto as xs) = length xs"
  by (induction as xs rule: xor_onto.induct) simp_all

function poly_rem :: "bool list \<Rightarrow> bool list" where
  "poly_rem [] = []"
| "poly_rem (x # xs) = (if length xs < 16 then x # xs else poly_rem (if x then xor_onto crc_divisor xs else xs))"
  by pat_completeness auto
termination by (relation "measure length") auto

definition modbus_checksum :: "8 word list \<Rightarrow> bool list" where
  "modbus_checksum bs =
     poly_rem (xor_onto (replicate 16 True) (concat (map (\<lambda>b. map (bit b) [0..<8]) bs) @ replicate 16 False))"

definition word_bits :: "16 word \<Rightarrow> bool list" where
  "word_bits w = map (bit w) [0..<16]"

lemma xor_onto_nth:
  "i < length xs \<Longrightarrow> xor_onto as xs ! i = (if i < length as then as ! i \<noteq> xs ! i else xs ! i)"
proof (induction as xs arbitrary: i rule: xor_onto.induct)
  case (1 a as x xs)
  then show ?case by (cases i) simp_all
qed simp_all

lemma word_bits_nth: "i < 16 \<Longrightarrow> word_bits w ! i = bit w i" "length (word_bits w) = 16"
  by (simp_all add: word_bits_def)

lemma poly_rem_short: "length xs \<le> 16 \<Longrightarrow> poly_rem xs = xs"
  by (cases xs) simp_all

lemma bit_polynomial: "i < 16 \<Longrightarrow> bit (0xA001 :: 16 word) i = crc_divisor ! i"
proof -
  have "list_all (\<lambda>i. bit (0xA001 :: 16 word) i = crc_divisor ! i) [0..<16]" by code_simp
  then show "i < 16 \<Longrightarrow> bit (0xA001 :: 16 word) i = crc_divisor ! i" by (simp add: list_all_iff)
qed

lemma crc_bit_bits: "i < 16 \<Longrightarrow> bit (crc_bit w) i = (bit w (Suc i) \<noteq> (bit w 0 \<and> crc_divisor ! i))"
  unfolding bit_polynomial [symmetric]
  by (auto simp: crc_bit_def bit_simps and_one_eq bit_0 odd_iff_mod_2_eq_one even_iff_mod_2_eq_zero simp del: bit_numeral_word_iff)

text \<open>One step of the division is one step of the register.\<close>

lemma division_step:
  assumes "16 \<le> length xs"
  shows "poly_rem (xor_onto (word_bits w) (False # xs)) = poly_rem (xor_onto (word_bits (crc_bit w)) xs)"
proof -
  let ?t = "map (bit w) [Suc 0..<16]"
  have w: "word_bits w = bit w 0 # ?t" by (simp add: word_bits_def upt_conv_Cons del: upt_Suc)
  have div: "length crc_divisor = 16" by (simp add: crc_divisor_def)
  have "(if bit w 0 then xor_onto crc_divisor (xor_onto ?t xs) else xor_onto ?t xs) = xor_onto (word_bits (crc_bit w)) xs"
  proof (rule nth_equalityI)
    fix i assume "i < length (if bit w 0 then xor_onto crc_divisor (xor_onto ?t xs) else xor_onto ?t xs)"
    then have i: "i < length xs" by (simp split: if_splits)
    have top: "\<not> bit w 16" using bit_imp_le_length [of w 16] by auto
    have t: "xor_onto ?t xs ! i = (if i < 16 then bit w (Suc i) \<noteq> xs ! i else xs ! i)"
      using i top by (cases "i = 15") (auto simp: xor_onto_nth)
    show "(if bit w 0 then xor_onto crc_divisor (xor_onto ?t xs) else xor_onto ?t xs) ! i = xor_onto (word_bits (crc_bit w)) xs ! i"
    proof (cases "i < 16")
      case True
      have "xor_onto crc_divisor (xor_onto ?t xs) ! i = (crc_divisor ! i \<noteq> (bit w (Suc i) \<noteq> xs ! i))"
        using xor_onto_nth [of i "xor_onto ?t xs" crc_divisor] i True div t by simp
      moreover have "xor_onto (word_bits (crc_bit w)) xs ! i = ((bit w (Suc i) \<noteq> (bit w 0 \<and> crc_divisor ! i)) \<noteq> xs ! i)"
        using xor_onto_nth [of i xs "word_bits (crc_bit w)"] i True crc_bit_bits [OF True, of w] word_bits_nth by simp
      ultimately show ?thesis using t True by (cases "bit w 0") auto
    next
      case False
      then show ?thesis using t i div by (simp add: xor_onto_nth word_bits_nth)
    qed
  qed simp
  then show ?thesis using assms by (simp add: w)
qed

lemma division_steps:
  "16 \<le> length xs \<Longrightarrow> poly_rem (xor_onto (word_bits w) (replicate n False @ xs)) = poly_rem (xor_onto (word_bits ((crc_bit ^^ n) w)) xs)"
proof (induction n arbitrary: w)
  case (Suc n)
  then show ?case using division_step [of "replicate n False @ xs" w] by (simp add: funpow_swap1)
qed simp

lemma division_byte:
  assumes "16 \<le> length xs"
  shows "poly_rem (xor_onto (word_bits w) (map (bit b) [0..<8] @ xs)) = poly_rem (xor_onto (word_bits (crc_byte w b)) xs)"
proof -
  have "xor_onto (word_bits w) (map (bit b) [0..<8] @ xs) = xor_onto (word_bits (w XOR ucast b)) (replicate 8 False @ xs)"
    by (rule nth_equalityI) (auto simp: xor_onto_nth word_bits_nth nth_append bit_simps dest: bit_imp_le_length)
  then show ?thesis using division_steps [OF assms, of "w XOR ucast b" 8] by (simp add: crc_byte_def)
qed

lemma division_bytes:
  "poly_rem (xor_onto (word_bits w) (concat (map (\<lambda>b. map (bit b) [0..<8]) bs) @ replicate 16 False)) = word_bits (foldl crc_byte w bs)"
proof (induction bs arbitrary: w)
  case Nil
  have "xor_onto (word_bits w) (replicate 16 False) = word_bits w"
    by (rule nth_equalityI) (simp_all add: xor_onto_nth word_bits_nth)
  then show ?case by (simp add: poly_rem_short word_bits_nth)
next
  case (Cons b bs)
  then show ?case using division_byte [of "concat (map (\<lambda>b. map (bit b) [0..<8]) bs) @ replicate 16 False" w b] by simp
qed

lemma crc_is_remainder: "word_bits (foldl crc_byte 0xFFFF bs) = modbus_checksum bs"
proof -
  have "word_bits 0xFFFF = replicate 16 True" by code_simp
  then show ?thesis using division_bytes [of "0xFFFF" bs] by (simp only: modbus_checksum_def)
qed

text \<open>The check value of the published checksum.\<close>

lemma replicate_numeral_cons: "replicate (numeral k) x = x # replicate (pred_numeral k) x"
  by (simp add: numeral_eq_Suc)

lemma modbus_check_value: "modbus_checksum [0x31, 0x32, 0x33, 0x34, 0x35, 0x36, 0x37, 0x38, 0x39] = word_bits 0x4B37"
  by (simp add: modbus_checksum_def crc_divisor_def word_bits_def upt_rec replicate_numeral_cons)

section \<open>Properties\<close>

lemma request_frame:
  "\<exists>frame. modbus_request slave register quantity = Some frame \<and> length frame = 8 \<and>
     take 6 frame = [of_int slave, 3, high_byte register, low_byte register, high_byte quantity, low_byte quantity] \<and>
     word_bits (ucast (frame ! 6) + ucast (frame ! 7) * 256) = modbus_checksum (take 6 frame)"
  by (simp add: modbus_request_def calculate_crc_def bytes_word Let_def flip: crc_is_remainder)

text \<open>
  C25. Every request is a frame of the Modbus protocol: eight bytes with the slave, the function code 3, the register and the
  quantity, high byte first, and the checksum, low byte first, which the bytewise loop of the code computes as the remainder of
  the polynomial division that the protocol prescribes, for every message.
\<close>

theorem modbus_request_wf:
  "(\<exists>frame. modbus_request slave register quantity = Some frame \<and> length frame = 8 \<and>
     take 6 frame = [of_int slave, 3, high_byte register, low_byte register, high_byte quantity, low_byte quantity] \<and>
     word_bits (ucast (frame ! 6) + ucast (frame ! 7) * 256) = modbus_checksum (take 6 frame)) \<and>
   map_option word_bits (calculate_crc bs (length bs)) = Some (modbus_checksum bs)"
  using request_frame by (simp add: calculate_crc_def crc_is_remainder)

text \<open>The answer of a slave to a read of registers, by the protocol.\<close>

definition register_bytes :: "16 word list \<Rightarrow> 8 word list" where
  "register_bytes vs = concat (map (\<lambda>v. [high_byte v, low_byte v]) vs)"

definition modbus_reply :: "8 word \<Rightarrow> 16 word list \<Rightarrow> 8 word list" where
  "modbus_reply slave vs =
     (let body = [slave, 3, of_nat (2 * length vs)] @ register_bytes vs;
          crc = horner_sum of_bool 2 (modbus_checksum body)
      in body @ [low_byte crc, high_byte crc])"

lemma horner_checksum: "horner_sum of_bool 2 (modbus_checksum bs) = foldl crc_byte 0xFFFF bs"
proof -
  have "horner_sum of_bool 2 (word_bits w) = w" for w
    unfolding word_bits_def horner_sum_bit_eq_take_bit by (simp add: take_bit_word_eq_self)
  then show ?thesis by (simp flip: crc_is_remainder)
qed

lemma length_register_bytes [simp]: "length (register_bytes vs) = 2 * length vs"
  by (induction vs) (simp_all add: register_bytes_def)

lemma nth_register_bytes:
  "i < length vs \<Longrightarrow> register_bytes vs ! (2 * i) = high_byte (vs ! i) \<and> register_bytes vs ! Suc (2 * i) = low_byte (vs ! i)"
proof (induction vs arbitrary: i)
  case (Cons v vs)
  then show ?case by (cases i) (simp_all add: register_bytes_def)
qed simp

lemma store_registers_values:
  assumes "\<forall>i<length vs. 3 + (k + i) * 2 + 1 < length buffer \<and> buffer ! (3 + (k + i) * 2) = high_byte (vs ! i) \<and>
      buffer ! (3 + (k + i) * 2 + 1) = low_byte (vs ! i)"
    and "k + length vs \<le> length data"
  shows "store_registers buffer [k..<k + length vs] data = Some (take k data @ vs @ drop (k + length vs) data)"
  using assms
proof (induction vs arbitrary: k data)
  case (Cons v vs)
  have head: "buf_get buffer (3 + k * 2 + 1) = Some (low_byte v)" "buf_get buffer (3 + k * 2) = Some (high_byte v)"
    using Cons.prems(1) [THEN spec, of 0] by (simp_all add: buf_get_def)
  have rest: "store_registers buffer [Suc k..<Suc k + length vs] (data[k := v]) =
      Some (take (Suc k) (data[k := v]) @ vs @ drop (Suc k + length vs) (data[k := v]))"
    using Cons.prems(2) Cons.prems(1) [THEN spec, of "Suc i" for i] by (intro Cons.IH) auto
  have "take (Suc k) (data[k := v]) = take k data @ [v]"
    using Cons.prems(2) by (simp add: take_Suc_conv_app_nth take_update_cancel)
  then show ?case
    using head rest Cons.prems(2) by (simp add: upt_conv_Cons buf_set_def bytes_word add.commute del: upt_Suc)
qed simp

lemma read_reply:
  assumes "length vs \<le> 47" "length vs \<le> length data"
  shows "map_option (\<lambda>(r, data, _). (r, data)) (modbus_read_registers (modbus_reply slave vs) dev register quantity data) =
     Some (0, vs @ drop (length vs) data)"
proof -
  let ?n = "length vs"
  let ?body = "[slave, 3, of_nat (2 * ?n)] @ register_bytes vs"
  let ?crc = "foldl crc_byte 0xFFFF ?body"
  let ?buffer = "modbus_reply slave vs @ replicate (100 - length (modbus_reply slave vs)) 0"
  have reply: "modbus_reply slave vs = ?body @ [low_byte ?crc, high_byte ?crc]"
    by (simp only: modbus_reply_def Let_def horner_checksum)
  then have len: "length (modbus_reply slave vs) = 5 + 2 * ?n" by simp
  have "buf_blit (replicate 100 0) 0 (take 100 (modbus_reply slave vs)) = Some ?buffer"
    using assms(1) len by (simp add: buf_blit_def)
  moreover have b2: "?buffer ! 2 = of_nat (2 * ?n)" "unat (of_nat (2 * ?n) :: 8 word) = 2 * ?n"
    using assms(1) by (simp_all add: reply nth_append unat_of_nat del: of_nat_mult)
  moreover have "take (3 + 2 * ?n) ?buffer = ?body" "length ?buffer = 100"
  proof -
    have "take (length ?body) (?body @ r) = ?body" for r by (rule append_eq_conv_conj [THEN iffD1, THEN conjunct1, symmetric]) simp
    then show "take (3 + 2 * ?n) ?buffer = ?body" unfolding reply by (simp del: append.simps)
  qed (use assms(1) len in simp)
  then have "calculate_crc ?buffer (3 + 2 * ?n) = Some ?crc"
    using assms(1) by (simp add: calculate_crc_def)
  moreover have "buf_get ?buffer (3 + 2 * ?n) = Some (low_byte ?crc)" "buf_get ?buffer (Suc (3 + 2 * ?n)) = Some (high_byte ?crc)"
    using assms(1) len by (simp_all add: buf_get_def reply nth_append)
  moreover have "store_registers ?buffer [0..<?n] data = Some (vs @ drop ?n data)"
  proof -
    have "?buffer ! (3 + j) = register_bytes vs ! j" if "j < 2 * ?n" for j
      using that by (simp add: reply nth_append)
    from this [of "2 * i" for i] this [of "Suc (2 * i)" for i]
    have "?buffer ! (3 + i * 2) = high_byte (vs ! i)" "?buffer ! (3 + i * 2 + 1) = low_byte (vs ! i)" if "i < ?n" for i
      using that nth_register_bytes [of i vs] by (simp_all add: mult.commute)
    then have "store_registers ?buffer [0..<0 + ?n] data = Some (take 0 data @ vs @ drop (0 + ?n) data)"
      using assms len by (intro store_registers_values) auto
    then show ?thesis by simp
  qed
  ultimately show ?thesis
    using request_frame [of dev register quantity] bytes_word [of ?crc]
    by (auto simp: modbus_read_registers_def Let_def)
qed

text \<open>
  C24. Reading registers round-trips: when the slave answers a read with the values \<open>vs\<close>, at most 47 of
  them, and the caller's array has room for them, the call returns zero and the array starts with
  these values.
\<close>

theorem modbus_read_roundtrip:
  assumes "length vs \<le> 47" "length vs \<le> length data"
  shows "map_option (\<lambda>(r, data, _). (r, data)) (modbus_read_registers (modbus_reply slave vs) dev register quantity data) =
     Some (0, vs @ drop (length vs) data)"
  by (rule read_reply [OF assms])

theorem modbus_read_roundtrip_witness:
  "map_option (\<lambda>(r, data, _). (r, data)) (modbus_read_registers (modbus_reply 1 [0x1234, 0xFFFF]) 1 0x107 2 [0, 0, 7]) =
     Some (0, [0x1234, 0xFFFF, 7])"
  using modbus_read_roundtrip [of "[0x1234, 0xFFFF]" "[0, 0, 7]" 1 1 "0x107" 2] by simp

text \<open>
  The count that the slave sends is trusted: reading an answer is undefined exactly when its
  count byte exceeds 95, so that the checksum lies outside of the buffer, or when it stands for more
  registers than the caller's array has, however many were asked for. The receiver passes an array of
  one register, so a count of four already writes behind it.
\<close>

theorem modbus_read_in_bounds:
  assumes "3 \<le> length reply"
  shows "modbus_read_registers reply dev register quantity data = None \<longleftrightarrow>
     95 < unat (reply ! 2) \<or> length data < unat (reply ! 2) div 2"
proof -
  let ?b = "unat (reply ! 2)"
  obtain buffer where blit: "buf_blit (replicate 100 0) 0 (take 100 reply) = Some buffer"
      and len: "length buffer = 100" and b2: "buffer ! 2 = reply ! 2"
    using assms by (simp add: buf_blit_def nth_append)
  obtain frame where frame: "modbus_request dev register quantity = Some frame"
    using request_frame by blast
  have store: "store_registers buffer is d = None \<longleftrightarrow> (\<exists>i\<in>set is. length d \<le> i)"
    if "\<forall>i\<in>set is. 3 + i * 2 + 1 < 100" for "is" d
    using that
  proof (induction "is" arbitrary: d)
    case (Cons i "is")
    then show ?case
      using len by (cases "i < length d") (auto simp: buf_get_def buf_set_def)
  qed simp
  show ?thesis
  proof (cases "?b \<le> 95")
    case True
    then have "store_registers buffer [0..<?b div 2] data = None \<longleftrightarrow> length data < ?b div 2"
      by (subst store) auto
    with True show ?thesis
      by (cases "store_registers buffer [0..<?b div 2] data")
        (auto simp: modbus_read_registers_def blit frame b2 calculate_crc_def buf_get_def len Let_def)
  next
    case False
    then show ?thesis
      by (auto simp: modbus_read_registers_def blit frame b2 calculate_crc_def buf_get_def len)
  qed
qed

theorem modbus_read_in_bounds_witness: "modbus_read_registers [1, 3, 4, 0, 0, 0, 0, 0, 0] 1 0x107 1 [0xFFFF] = None"
  by (subst modbus_read_in_bounds) simp_all

section \<open>The receiver\<close>

lemma read_signal_answer:
  assumes "line address = modbus_reply 1 [v]"
  shows "read_signal line wanted address data ob mk =
     (if \<not> wanted then Some (data, ob) else if ob = None then None else Some (v, Some (Some (mk v))))"
proof -
  obtain request where "modbus_read_registers (modbus_reply 1 [v]) 1 address 1 [data] = Some (0, [v], request)"
    using read_reply [of "[v]" "[data]" 1 1 address 1] by auto
  then show ?thesis
    using assms by (simp add: read_signal_def split: option.splits)
qed

text \<open>
  One round of the receiver, right after its objects were created and with a slave that answers
  every read: the round is undefined exactly when \<open>brake_1_voltage\<close> is wanted and \<open>brake_2_voltage\<close> is
  not, because the object of the former was reset in place of the latter; otherwise every wanted
  object gets the value of its register.
\<close>

theorem modbus_round_outcome:
  assumes "\<forall>a. line a = modbus_reply 1 [v a]"
  shows "modbus_round want line (fst (modbus_json_filler want ob)) =
     (if want_brake_1 want \<and> \<not> want_brake_2 want then None
      else Some \<lparr>obj_rpm = (if want_rpm want then Some (Some (Plain (v 0x107))) else None),
                 obj_brake_1 = (if want_brake_1 want then Some (Some (Voltage (v 0x10f))) else None),
                 obj_brake_2 = (if want_brake_2 want then Some (Some (Voltage (v 0x110))) else obj_brake_2 ob),
                 obj_throttle = (if want_throttle want then Some (Some (Voltage (v 0x10e))) else None)\<rparr>)"
proof -
  note read = read_signal_answer [OF assms [THEN spec]]
  show ?thesis
    by (cases "want_rpm want"; cases "want_brake_1 want"; cases "want_brake_2 want"; cases "want_throttle want")
      (simp_all add: modbus_round_def modbus_json_filler_def read)
qed

theorem modbus_round_outcome_witness:
  "let want = \<lparr>want_rpm = True, want_brake_1 = True, want_brake_2 = False, want_throttle = False\<rparr> in
   modbus_round want (\<lambda>a. modbus_reply 1 [a])
     (fst (modbus_json_filler want \<lparr>obj_rpm = None, obj_brake_1 = None, obj_brake_2 = None, obj_throttle = None\<rparr>)) = None"
  unfolding Let_def by (subst modbus_round_outcome [where v = "\<lambda>a. a"]) simp_all

end
