(* ===== verification/Canopen_Sdo.thy ===== *)
theory Canopen_Sdo
  imports Single_Float C_Prelude
begin

text \<open>
  The object dictionary of the CANopen receiver (\<open>plugins/pip/canopen/canopen_sdo.c\<close>): the table of
  objects and the conversion of the raw data of an answer. The conversion is done in single precision,
  on quotients between 1/4096 and 2^64.
\<close>

section \<open>The table\<close>

abbreviation (input) CANOPEN_SDO_NAME_LEN :: nat where "CANOPEN_SDO_NAME_LEN \<equiv> 64"
abbreviation (input) CANOPEN_SDO_UNIT_LEN :: nat where "CANOPEN_SDO_UNIT_LEN \<equiv> 32"

record canopensdo_sdo_object =
  sdo_index :: int
  sdo_name :: bytes
  sdo_unit :: bytes
  sdo_factor :: rat
  sdo_offset :: rat
  sdo_min :: int
  sdo_max :: int

definition sdo_object :: "int \<Rightarrow> bytes \<Rightarrow> bytes \<Rightarrow> rat \<Rightarrow> rat \<Rightarrow> int \<Rightarrow> int \<Rightarrow> canopensdo_sdo_object" where
  "sdo_object i n u f off lo hi =
     \<lparr>sdo_index = i, sdo_name = n, sdo_unit = u, sdo_factor = f, sdo_offset = off, sdo_min = lo, sdo_max = hi\<rparr>"

text \<open>The factor 40.96 is not a single precision number; the constant that is stored is
  10737418 / 262144.\<close>

definition sdo_db :: "canopensdo_sdo_object list" where
  "sdo_db =
     [sdo_object 0x200136 ''bms bat voltage'' '''' 32 0 (- 32768) 32767,
      sdo_object 0x200318 ''analogue brake full voltage'' ''Volts'' 4096 0 (- 32768) 32767,
      sdo_object 0x200318 ''analogue brake off voltage'' ''Volts'' 4096 0 (- 32768) 32767,
      sdo_object 0x200404 ''controller temperature'' ''deg C'' 1 0 (- 32768) 32767,
      sdo_object 0x200405 ''vehicle speed'' ''km/hr'' 256 0 (- 32768) 32767,
      sdo_object 0x200408 ''motor rpm'' ''RPM'' 1 0 (- 32768) 32767,
      sdo_object 0x200409 ''motor speed'' ''% or rated rpm'' (10737418 / 262144) 0 (- 32768) 32767,
      sdo_object 0x20040A ''battery voltage'' ''Volts'' 32 0 (- 32768) 32767,
      sdo_object 0x20040B ''battery current'' ''Amps'' 1 0 (- 32768) 32767,
      sdo_object 0x20040C ''battery state of charge'' ''%'' 1 0 (- 32768) 100,
      sdo_object 0x20040F ''throttle voltage'' ''Volts'' 4096 0 (- 32768) 32767,
      sdo_object 0x200410 ''brake 1 voltage'' ''Volts'' 4096 0 (- 32768) 32767,
      sdo_object 0x200411 ''brake 2 voltage'' ''Volts'' 4096 0 (- 32768) 32767,
      sdo_object 0x200419 ''battery power percent'' ''% of rated power'' 1 0 (- 32768) 100,
      sdo_object 0x200424 ''raw battery voltage'' ''pu V'' 4096 0 (- 32768) 32767,
      sdo_object 0x200438 ''wheel rpm (speed sensor based)'' ''RPM'' 16 0 (- 32768) 32767,
      sdo_object 0x200439 ''wheel rpm (motor based)'' ''RPM'' 16 0 (- 32768) 32767,
      sdo_object 0x200619 ''trip meter'' ''km'' 100 0 (- 32768) 32767,
      sdo_object 0x200730 ''remote throttle voltage'' ''Volts'' 4096 0 (- 32768) 32767,
      sdo_object 0x1a0001 ''TPDO0 map1'' '''' 1 0 (- 32768) 32767,
      sdo_object 0x1a0002 ''TPDO0 map2'' '''' 1 0 (- 32768) 32767,
      sdo_object 0x1a0003 ''TPDO0 map3'' '''' 1 0 (- 32768) 32767,
      sdo_object 0x1a0004 ''TPDO0 map4'' '''' 1 0 (- 32768) 32767]"

section \<open>Operations\<close>

record canopensdo_parsed_data =
  parsed_value :: rat
  parsed_unit :: bytes
  parsed_name :: bytes

definition canopensdo_get :: "int \<Rightarrow> canopensdo_sdo_object option" where
  "canopensdo_get index = find (\<lambda>sdobj. sdo_index sdobj = index) sdo_db"

text \<open>The value of an object for raw data: a division and an addition in single precision, and the
  two comparisons.\<close>

definition sdo_value :: "canopensdo_sdo_object \<Rightarrow> 64 word \<Rightarrow> rat" where
  "sdo_value sdobj data =
     (let v = float_round (float_round (float_round (of_nat (unat data)) / sdo_factor sdobj) + sdo_offset sdobj);
          v = (if v > of_int (sdo_max sdobj) then of_int (sdo_max sdobj) else v)
      in if v < of_int (sdo_min sdobj) then of_int (sdo_min sdobj) else v)"

text \<open>\<open>canopensdo_parse\<close>; an unknown index leaves the structure as it was. The switch statement at its
  end has only empty cases.\<close>

definition canopensdo_parse :: "int \<Rightarrow> 64 word \<Rightarrow> canopensdo_parsed_data \<Rightarrow> canopensdo_parsed_data" where
  "canopensdo_parse index data parsed_data =
     (case canopensdo_get index of
        None \<Rightarrow> parsed_data
      | Some sdobj \<Rightarrow> parsed_data\<lparr>parsed_unit := strncpy_bytes (sdo_unit sdobj) CANOPEN_SDO_UNIT_LEN,
          parsed_name := strncpy_bytes (sdo_name sdobj) CANOPEN_SDO_NAME_LEN,
          parsed_value := sdo_value sdobj data\<rparr>)"

section \<open>The values of the table\<close>

lemma sdo_db_facts:
  "list_all (\<lambda>s. sdo_offset s = 0 \<and> 1 \<le> sdo_factor s \<and> sdo_factor s \<le> 4096 \<and> sdo_min s < 0 \<and> 0 < sdo_max s \<and> sdo_max s < 2 ^ 15) sdo_db"
  by (simp add: sdo_db_def sdo_object_def)

lemma float_round_large:
  assumes "2 ^ 63 \<le> unat (d :: 64 word)"
  shows "2 powi 63 \<le> float_round (of_nat (unat d))"
proof (rule float_round_ge_power)
  have "(2 ^ 63 :: rat) \<le> of_nat (unat d)" using assms by (metis of_nat_le_iff of_nat_numeral of_nat_power)
  then show "2 powi 63 \<le> (of_nat (unat d) :: rat)" by (simp add: power_int_def)
  have "unat d < 2 ^ 64" using unsigned_less [of d] by simp
  then have "(of_nat (unat d) :: rat) < 2 ^ 64" by (metis of_nat_less_iff of_nat_numeral of_nat_power)
  also have "\<dots> < 2 powi 128" by simp
  finally show "of_nat (unat d) < (2 :: rat) powi 128" .
qed simp

lemma sdo_quotient_nonneg:
  assumes "s \<in> set sdo_db"
  shows "0 \<le> float_round (float_round (float_round (of_nat (unat d)) / sdo_factor s))"
proof -
  have "1 \<le> sdo_factor s" using assms sdo_db_facts by (auto simp: list_all_iff)
  moreover have "0 \<le> float_round (of_nat (unat d))" by (rule float_round_nonneg) (rule of_nat_0_le_iff)
  ultimately show ?thesis by (intro float_round_nonneg [OF float_round_nonneg] divide_nonneg_nonneg) linarith+
qed

lemma sdo_value_min:
  assumes "s \<in> set sdo_db"
  shows "sdo_value s d = min (float_round (float_round (float_round (of_nat (unat d)) / sdo_factor s))) (of_int (sdo_max s))"
proof -
  have "sdo_offset s = 0" "sdo_min s < 0" "0 < sdo_max s" using assms sdo_db_facts by (auto simp: list_all_iff)
  moreover note sdo_quotient_nonneg [OF assms, of d]
  ultimately show ?thesis by (auto simp: sdo_value_def Let_def min_def)
qed

lemma sdo_value_large:
  assumes "s \<in> set sdo_db" "2 ^ 63 \<le> unat (d :: 64 word)"
  shows "sdo_value s d = of_int (sdo_max s)"
proof -
  let ?x = "float_round (of_nat (unat d))" let ?f = "sdo_factor s"
  have f: "1 \<le> ?f" "?f \<le> 4096" "sdo_max s < 2 ^ 15" using assms(1) sdo_db_facts by (auto simp: list_all_iff)
  have big: "2 ^ 63 \<le> ?x" using float_round_large [OF assms(2)] by (simp add: power_int_def)
  have "unat d < 2 ^ 64" using unsigned_less [of d] by simp
  then have "(of_nat (unat d) :: rat) < 2 ^ 64" by (metis of_nat_less_iff of_nat_numeral of_nat_power)
  moreover have "?x \<le> 2 * of_nat (unat d)" by (rule float_round_le_double) (rule of_nat_0_le_iff)
  ultimately have top: "?x < 2 ^ 65" by simp
  have "2 ^ 15 * ?f \<le> 2 ^ 15 * 4096" using f(2) by simp
  then have low: "2 ^ 15 \<le> ?x / ?f" using big f(1) by (simp add: pos_le_divide_eq)
  have quot: "?x / ?f \<le> ?x" using big f(1) by (simp add: pos_divide_le_eq mult_le_cancel_left1)
  have low1: "2 powi 15 \<le> float_round (?x / ?f)"
    using low quot top by (intro float_round_ge_power) (simp_all add: power_int_def)
  have "float_round (?x / ?f) \<le> 2 * (?x / ?f)" using low by (intro float_round_le_double) simp
  then have "2 powi 15 \<le> float_round (float_round (?x / ?f))"
    using quot top by (intro float_round_ge_power [OF low1]) (simp_all add: power_int_def)
  moreover have "of_int (sdo_max s) < (2 :: rat) powi 15"
    using f(3) by (simp add: power_int_def)
  ultimately show ?thesis using sdo_value_min [OF assms(1)] by simp
qed

lemma sdo_value_exact:
  assumes "s \<in> set sdo_db" "unat d < 2 ^ 24" "sdo_factor s = 2 ^ j"
  shows "sdo_value s d = min (of_nat (unat d) / sdo_factor s) (of_int (sdo_max s))"
proof -
  have "sdo_factor s \<le> 4096" using assms(1) sdo_db_facts by (auto simp: list_all_iff)
  then have "(2 :: rat) ^ j \<le> 2 ^ 12" using assms(3) by simp
  then have "j \<le> 12" by (rule power_le_imp_le_exp [rotated]) simp
  then have "float_round (of_nat (unat d) / 2 ^ j) = of_nat (unat d) / 2 ^ j" "float_round (of_nat (unat d)) = of_nat (unat d)"
    using float_round_dyadic [OF assms(2), of j] float_round_dyadic [OF assms(2), of 0] by simp_all
  then show ?thesis using sdo_value_min [OF assms(1), of d] assms(3) by simp
qed

section \<open>Properties\<close>

text \<open>
  C23. The converted value of every object of the table lies between zero and the maximum of the
  object. Data of at most 24 bits is divided exactly where the factor is a power of two. A negative
  number of the device, which reaches the conversion as an unsigned 64 bit word, is
  reported as the maximum, and the minimum of the table never is.
\<close>

theorem sdo_value_range:
  assumes "s \<in> set sdo_db"
  shows "0 \<le> sdo_value s d \<and> sdo_value s d \<le> of_int (sdo_max s) \<and>
     (unat d < 2 ^ 24 \<and> sdo_factor s = 2 ^ j \<longrightarrow> sdo_value s d = min (of_nat (unat d) / sdo_factor s) (of_int (sdo_max s))) \<and>
     (i < 0 \<longrightarrow> - (2 ^ 31) \<le> i \<longrightarrow> sdo_value s (of_int i) = of_int (sdo_max s))"
proof (intro conjI impI)
  have "0 < sdo_max s" using assms sdo_db_facts by (auto simp: list_all_iff)
  then show "0 \<le> sdo_value s d"
    using sdo_value_min [OF assms, of d] sdo_quotient_nonneg [OF assms, of d] by (simp add: min_def)
  show "sdo_value s d \<le> of_int (sdo_max s)"
    using sdo_value_min [OF assms, of d] by simp
  show "sdo_value s d = min (of_nat (unat d) / sdo_factor s) (of_int (sdo_max s))"
    if "unat d < 2 ^ 24 \<and> sdo_factor s = 2 ^ j"
    using sdo_value_exact [OF assms] that by blast
  show "sdo_value s (of_int i) = of_int (sdo_max s)" if "i < 0" "- (2 ^ 31) \<le> i"
  proof (rule sdo_value_large [OF assms])
    have "i mod 2 ^ 64 = i + 2 ^ 64"
      using that by (subst mod_add_self2 [symmetric], subst mod_pos_pos_trivial) auto
    moreover have "int (unat (of_int i :: 64 word)) = i mod 2 ^ 64"
      by (simp add: take_bit_eq_mod unsigned_of_int)
    ultimately have "int (2 ^ 63) \<le> int (unat (of_int i :: 64 word))" using that by simp
    then show "2 ^ 63 \<le> unat (of_int i :: 64 word)" by (simp only: of_nat_le_iff)
  qed
qed

theorem sdo_value_range_witness:
  "sdo_value (sdo_object 0x200404 ''controller temperature'' ''deg C'' 1 0 (- 32768) 32767) 25 = 25 \<and>
   sdo_value (sdo_object 0x200404 ''controller temperature'' ''deg C'' 1 0 (- 32768) 32767) (of_int (- 5)) = 32767"
proof -
  let ?s = "sdo_object 0x200404 ''controller temperature'' ''deg C'' 1 0 (- 32768) 32767"
  have "?s \<in> set sdo_db" by (simp add: sdo_db_def)
  from sdo_value_range [OF this, of 25 0 "- 5"] show ?thesis by (simp add: sdo_object_def)
qed

end
