(* ===== verification/Canopen_Receiver.thy ===== *)
theory Canopen_Receiver
  imports Canopen_Sdo Can_Receiver
begin

unbundle bit_operations_syntax

text \<open>
  The CANopen receiver (\<open>plugins/pip/canopen/pip_plugin_canopen.c\<close>): the JSON objects of the wanted
  signals, the callback that takes a received frame apart, the background thread that asks the device
  for the objects, and the life of the plugin. A signal is named by the field of its wanted flag, which
  is also its name in the document.
\<close>

section \<open>State\<close>

record co_frame =
  co_id :: "32 word"
  co_dlc :: nat
  co_data :: "8 word list"

text \<open>The object of a signal: NULL, or an object with the value and the unit it has got.\<close>

type_synonym co_objects = "bytes \<Rightarrow> (rat \<times> bytes) option option"

datatype co_effect =
    SendFrame co_frame
  | PrintService bytes "8 word list"
  | DumpIfNeeded int

text \<open>The contents of the uninitialised locals of the callback: \<open>data\<close>, \<open>parsed_sdo_data\<close> and the eight
  data bytes of \<open>_frame\<close>.\<close>

record co_junk =
  junk_data :: "32 word"
  junk_parsed :: canopensdo_parsed_data
  junk_frame :: "8 word list"

text \<open>A wanted flag; \<open>None\<close> is an access outside of the block.\<close>

definition wanted_flag :: "8 word list \<Rightarrow> bytes \<Rightarrow> 8 word option" where
  "wanted_flag block n = struct_field canopen01_vehicle_dataset_fields block n"

section \<open>Building the document\<close>

definition canopen_filler_order :: "bytes list" where
  "canopen_filler_order =
     [''bms_bat_voltage'', ''analogue_brake_full_voltage'', ''analogue_brake_off_voltage'', ''controller_temperature'',
      ''vehicle_speed'', ''motor_rpm'', ''motor_speed'', ''battery_voltage'', ''battery_current'', ''battery_soc'',
      ''throttle_voltage'', ''brake_1_voltage'', ''brake_2_voltage'', ''battery_power_percent'',
      ''raw_battery_voltage'', ''wheel_rpm_speed_sensor_based'', ''wheel_rpm_motor_based'', ''trip_meter'',
      ''remote_throttle_voltage'']"

fun canopen_fill :: "8 word list \<Rightarrow> bytes list \<Rightarrow> co_objects \<Rightarrow> (co_objects \<times> bytes list) option" where
  "canopen_fill block [] ob = Some (ob, [])"
| "canopen_fill block (n # ns) ob = do {
     w \<leftarrow> wanted_flag block n;
     (ob, names) \<leftarrow> canopen_fill block ns (ob(n := if w = 1 then Some None else None));
     Some (ob, if w = 1 then n # names else names)
   }"

definition canopen_json_filler :: "8 word list \<Rightarrow> co_objects \<Rightarrow> (co_objects \<times> bytes list) option" where
  "canopen_json_filler block ob = canopen_fill block canopen_filler_order ob"

section \<open>Received frames\<close>

definition services_nonodeid :: "32 word list" where
  "services_nonodeid = [0, 0x80, 0x100, 0, 0, 0, 0, 0]"

definition services_nonodeid_names :: "bytes list" where
  "services_nonodeid_names = [''NMT'', ''SYNC'', ''TIME'', '''', '''', '''', '''', '''']"

definition services :: "32 word list" where
  "services = [0x080, 0x180, 0x200, 0x280, 0x300, 0x380, 0x400, 0x480, 0x500, 0x580, 0x600, 0x700]"

definition services_names :: "bytes list" where
  "services_names = [''EMCY'', ''TPDO1'', ''RPDO1'', ''TPDO2'', ''RPDO2'', ''TPDO3'', ''RPDO3'', ''TPDO4'', ''RPDO4'',
     ''TSDO'', ''RSDO'', ''NMT-EC'']"

text \<open>The two search loops run to the end, so the last match counts.\<close>

definition last_match :: "'a list \<Rightarrow> 'a \<Rightarrow> nat option" where
  "last_match xs x = fold (\<lambda>i found. if xs ! i = x then Some i else found) [0..<length xs] None"

definition print_frame :: "bytes \<Rightarrow> co_frame \<Rightarrow> co_effect option" where
  "print_frame name frame =
     (if co_dlc frame \<le> length (co_data frame) then Some (PrintService name (take (co_dlc frame) (co_data frame))) else None)"

text \<open>The chain of conditions for an answer, in its order.\<close>

definition tsdo_chain :: "(int \<times> bytes) list" where
  "tsdo_chain =
     [(0x200136, ''bms_bat_voltage''), (0x200318, ''analogue_brake_full_voltage''),
      (0x200318, ''analogue_brake_off_voltage''), (0x200404, ''controller_temperature''), (0x200405, ''vehicle_speed''),
      (0x200408, ''motor_rpm''), (0x200409, ''motor_speed''), (0x20040A, ''battery_voltage''),
      (0x20040B, ''battery_current''), (0x20040C, ''battery_soc''), (0x20040F, ''throttle_voltage''),
      (0x200410, ''brake_1_voltage''), (0x200411, ''brake_2_voltage''), (0x200419, ''battery_power_percent''),
      (0x200424, ''raw_battery_voltage''), (0x200438, ''wheel_rpm_speed_sensor_based''),
      (0x200439, ''wheel_rpm_motor_based''), (0x200619, ''trip_meter''), (0x200730, ''remote_throttle_voltage'')]"

fun store_value :: "8 word list \<Rightarrow> int \<Rightarrow> rat \<times> bytes \<Rightarrow> (int \<times> bytes) list \<Rightarrow> co_objects \<Rightarrow> co_objects option" where
  "store_value block index v [] ob = Some ob"
| "store_value block index v ((i, n) # cs) ob =
     (if index = i then do {
        w \<leftarrow> wanted_flag block n;
        (if w = 1 \<and> ob n \<noteq> None then Some (ob(n := Some (Some v))) else store_value block index v cs ob)
      } else store_value block index v cs ob)"

text \<open>The data of an answer by its command; with an unknown command the local stays uninitialised. A
  shift into the sign bit is taken as the compilers do it.\<close>

definition tsdo_data :: "32 word \<Rightarrow> 8 word list \<Rightarrow> 32 word" where
  "tsdo_data junk d =
     (if d ! 0 = 0x43 then ucast (d ! 4) + push_bit 8 (ucast (d ! 5)) + push_bit 16 (ucast (d ! 6)) + push_bit 24 (ucast (d ! 7))
      else if d ! 0 = 0x47 then ucast (d ! 4) + push_bit 8 (ucast (d ! 5)) + push_bit 16 (ucast (d ! 6))
      else if d ! 0 = 0x4b then ucast (d ! 4) + push_bit 8 (ucast (d ! 5))
      else if d ! 0 = 0x4f then ucast (d ! 4)
      else junk)"

definition tsdo_index :: "8 word list \<Rightarrow> int" where
  "tsdo_index d = uint (d ! 3) + uint (d ! 1) * 2 ^ 8 + uint (d ! 2) * 2 ^ 16"

definition tsdo_answer :: "co_junk \<Rightarrow> 8 word list \<Rightarrow> 8 word list \<Rightarrow> co_objects \<Rightarrow> co_objects option" where
  "tsdo_answer junk block d ob =
     (let index = tsdo_index d;
          parsed = canopensdo_parse index (scast (tsdo_data (junk_data junk) d)) (junk_parsed junk)
      in if NUL \<notin> set (parsed_unit parsed) then None
         else store_value block index (parsed_value parsed, cstr (parsed_unit parsed)) tsdo_chain ob)"

definition heartbeat :: "int \<Rightarrow> co_junk \<Rightarrow> 8 word \<Rightarrow> co_effect list" where
  "heartbeat node_id junk st =
     (if st = 0x7f then [SendFrame \<lparr>co_id = 0, co_dlc = 2, co_data = [1, of_int node_id] @ drop 2 (junk_frame junk)\<rparr>] else [])"

text \<open>The messages that the callback prints for a heartbeat have no effect.\<close>

definition canopen_read_callback :: "int \<Rightarrow> 8 word list \<Rightarrow> co_junk \<Rightarrow> co_frame \<Rightarrow> co_objects
    \<Rightarrow> (co_objects \<times> co_effect list) option" where
  "canopen_read_callback node_id block junk frame ob =
     (case last_match services_nonodeid (co_id frame) of
        Some found \<Rightarrow> do { e \<leftarrow> print_frame (services_nonodeid_names ! found) frame; Some (ob, [e]) }
      | None \<Rightarrow>
          (let service = co_id frame - of_int node_id
           in case last_match services service of
                None \<Rightarrow> Some (ob, [])
              | Some found \<Rightarrow>
                  if service = 0x700 then Some (ob, heartbeat node_id junk (co_data frame ! 0) @ [DumpIfNeeded 6])
                  else if service = 0x580 then do {
                    ob \<leftarrow> tsdo_answer junk block (co_data frame) ob;
                    Some (ob, [DumpIfNeeded 6])
                  }
                  else if service = 0x180 then Some (ob, [DumpIfNeeded 6])
                  else do {
                    e \<leftarrow> print_frame (services_names ! found) frame;
                    Some (ob, [e, DumpIfNeeded 6])
                  }))"

section \<open>The background thread\<close>

text \<open>The chain of requests, in its order.\<close>

definition request_chain :: "(int \<times> bytes) list" where
  "request_chain =
     [(0x200136, ''bms_bat_voltage''), (0x200318, ''analogue_brake_off_voltage''), (0x200404, ''controller_temperature''),
      (0x200405, ''vehicle_speed''), (0x200408, ''motor_rpm''), (0x200409, ''motor_speed''), (0x20040A, ''battery_voltage''),
      (0x20040B, ''battery_current''), (0x20040C, ''battery_soc''), (0x20040F, ''throttle_voltage''),
      (0x200410, ''brake_1_voltage''), (0x200411, ''brake_2_voltage''), (0x200419, ''battery_power_percent''),
      (0x200424, ''raw_battery_voltage''), (0x200438, ''wheel_rpm_speed_sensor_based''),
      (0x200439, ''wheel_rpm_motor_based''), (0x200619, ''trip_meter''), (0x200730, ''remote_throttle_voltage'')]"

definition request_frame :: "int \<Rightarrow> int \<Rightarrow> co_frame" where
  "request_frame node_id x =
     \<lparr>co_id = of_int (0x600 + node_id), co_dlc = 8,
      co_data = [0x40, of_int ((x AND 0x00ff00) div 2 ^ 8), of_int ((x AND 0xff0000) div 2 ^ 16), of_int (x AND 0xff), 0, 0, 0, 0]\<rparr>"

fun read_requests :: "int \<Rightarrow> 8 word list \<Rightarrow> (int \<times> bytes) list \<Rightarrow> co_frame list option" where
  "read_requests node_id block [] = Some []"
| "read_requests node_id block ((x, n) # cs) = do {
     w \<leftarrow> wanted_flag block n;
     fs \<leftarrow> read_requests node_id block cs;
     Some (if w = 1 then request_frame node_id x # fs else fs)
   }"

definition c_quot :: "int \<Rightarrow> int \<Rightarrow> int" where
  "c_quot a b = sgn b * (a div \<bar>b\<bar>)"

text \<open>One round of \<open>canopen_bg_thread_func\<close>: the two counters and the frames that are sent. The data
  bytes of the SYNC frame, which has length zero, are those of the uninitialised local.\<close>

definition canopen_bg_round :: "int \<Rightarrow> int \<Rightarrow> 8 word list \<Rightarrow> 8 word list \<Rightarrow> int \<times> int \<Rightarrow> ((int \<times> int) \<times> co_frame list) option" where
  "canopen_bg_round g_task_sleep_time node_id block junk counters =
     (if g_task_sleep_time = 0 then None
      else let (sync_counter, read_counter) = counters;
               sync_period = c_quot 100000 g_task_sleep_time;
               read_period = c_quot 400000 g_task_sleep_time;
               (sync_counter, sync) =
                 (if sync_counter > sync_period \<or> sync_period = 0 then (0, [\<lparr>co_id = 0x80, co_dlc = 0, co_data = junk\<rparr>])
                  else (sync_counter + 1, []))
           in if read_counter > read_period \<or> read_period = 0 then do {
                requests \<leftarrow> read_requests node_id block request_chain;
                Some ((sync_counter, 0), sync @ requests)
              } else Some ((sync_counter, read_counter + 1), sync))"

section \<open>The plugin\<close>

record canopen_plugin =
  cop_dataset :: dataset_state
  cop_port_name :: bytes
  cop_node_id :: int
  cop_bus :: bytes
  cop_in_use :: bool
  cop_end_loop :: int

abbreviation (input) CANOPEN_MAX_STR_SIZE :: nat where "CANOPEN_MAX_STR_SIZE \<equiv> 256"

definition canopenreceiver_init :: "'f \<Rightarrow> config_manager \<Rightarrow> bytes \<Rightarrow> canopen_plugin \<Rightarrow> ('f, 'j, 'w) datadumper
    \<Rightarrow> (canopen_plugin \<times> ('f, 'j, 'w) datadumper) option" where
  "canopenreceiver_init filler cfg junk cop dd = do {
     let dd = datadumper_add_module_init_cb (Some filler) True ''canopen_data'' dd;
     (_, port_name) \<leftarrow> config_manager_get_option_string cfg ''canopen'' ''port_name'' (cop_port_name cop) CANOPEN_MAX_STR_SIZE;
     (_, node_id) \<leftarrow> config_manager_get_option_int cfg ''canopen'' ''node_id'' junk (cop_node_id cop);
     bus \<leftarrow> canthread_init (cop_bus cop) port_name;
     Some (cop\<lparr>cop_port_name := port_name, cop_node_id := node_id, cop_bus := bus, cop_in_use := True\<rparr>, dd)
   }"

text \<open>\<open>options\<close> is the content of the global text \<open>vehicledatasetdemo01_options\<close> at the time of the call,
  and \<open>block\<close> that of the new heap block for the flags.\<close>

definition pip_plugin_canopen_initializer :: "'f \<Rightarrow> config_manager \<Rightarrow> bytes \<Rightarrow> bytes \<Rightarrow> 8 word list \<Rightarrow> canopen_plugin
    \<Rightarrow> ('f, 'j, 'w) datadumper \<Rightarrow> (int \<times> canopen_plugin \<times> ('f, 'j, 'w) datadumper) option" where
  "pip_plugin_canopen_initializer filler cfg junk options block cop dd = do {
     ds \<leftarrow> dataset_init ((cop_dataset cop)\<lparr>ds_options := options, ds_dataset := block\<rparr>);
     (cop, dd) \<leftarrow> canopenreceiver_init filler cfg junk (cop\<lparr>cop_dataset := ds\<rparr>) dd;
     Some (0, cop, dd)
   }"

definition canopen_set_dataset_cb :: "(bytes \<Rightarrow> json_tok list option) \<Rightarrow> bytes \<Rightarrow> canopen_plugin \<Rightarrow> (int \<times> canopen_plugin) option" where
  "canopen_set_dataset_cb jsmn_parse json cop = do {
     ds \<leftarrow> dataset_from_json jsmn_parse (cop_dataset cop) json;
     Some (0, cop\<lparr>cop_dataset := ds\<rparr>)
   }"

definition canopen_get_dataset_cb :: "(bytes option list \<Rightarrow> bytes) \<Rightarrow> canopen_plugin \<Rightarrow> (int \<times> bytes) option" where
  "canopen_get_dataset_cb fjson_array cop = dataset_to_json fjson_array (cop_dataset cop)"

text \<open>The outcomes of creating the two threads are parameters. When both are created the function
  ends without a return statement: \<open>None\<close>.\<close>

definition canopenreceiver_start :: "bool \<Rightarrow> bool \<Rightarrow> int option" where
  "canopenreceiver_start read_thread_ok bg_thread_ok =
     (if \<not> read_thread_ok then Some 1 else if \<not> bg_thread_ok then Some 1 else None)"

definition canopenreceiver_deinit :: "canopen_plugin \<Rightarrow> canopen_plugin" where
  "canopenreceiver_deinit cop =
     cop\<lparr>cop_end_loop := 1, cop_in_use := False, cop_dataset := dataset_deinit (cop_dataset cop)\<rparr>"

definition canopenreceiver_get_port_name :: "canopen_plugin \<Rightarrow> bytes option \<Rightarrow> int \<Rightarrow> bytes option option" where
  "canopenreceiver_get_port_name cop p_name_buff p_name_buff_len = copy_channel (cop_port_name cop) p_name_buff p_name_buff_len"

section \<open>Lemmas\<close>

definition wants :: "8 word list \<Rightarrow> bytes \<Rightarrow> bool" where
  "wants block n \<longleftrightarrow> wanted_flag block n = Some 1"

definition known_signals :: "bytes set" where
  "known_signals = set canopen01_vehicle_dataset_fields"

lemma field_count: "length canopen01_vehicle_dataset_fields = 20" "distinct canopen01_vehicle_dataset_fields"
  by code_simp+

lemma wanted_flag_known:
  assumes "length block = 20" "n \<in> known_signals"
  obtains w where "wanted_flag block n = Some w" "w = 1 \<longleftrightarrow> wants block n"
proof -
  have "dom (map_of (zip canopen01_vehicle_dataset_fields block)) = known_signals"
    using assms(1) by (simp add: field_count(1) known_signals_def)
  then obtain w where "wanted_flag block n = Some w"
    using assms(2) by (auto simp: wanted_flag_def struct_field_def)
  then show thesis using that by (simp add: wants_def)
qed

lemma known_names:
  "set canopen_filler_order \<subseteq> known_signals" "snd ` set tsdo_chain \<subseteq> known_signals" "snd ` set request_chain \<subseteq> known_signals"
proof -
  have "list_all (\<lambda>n. List.member canopen01_vehicle_dataset_fields n)
      (canopen_filler_order @ map snd tsdo_chain @ map snd request_chain)" by code_simp
  then show "set canopen_filler_order \<subseteq> known_signals" "snd ` set tsdo_chain \<subseteq> known_signals" "snd ` set request_chain \<subseteq> known_signals"
    by (auto simp: list_all_iff known_signals_def)
qed

lemma canopen_fill_eq:
  "length block = 20 \<Longrightarrow> set ns \<subseteq> known_signals \<Longrightarrow>
   canopen_fill block ns ob =
     Some (\<lambda>n. if n \<in> set ns then (if wants block n then Some None else None) else ob n, filter (wants block) ns)"
proof (induction ns arbitrary: ob)
  case (Cons n ns)
  then obtain w where "wanted_flag block n = Some w" "w = 1 \<longleftrightarrow> wants block n"
    using wanted_flag_known [of block n] by auto
  then show ?case using Cons by (auto simp: fun_eq_iff)
qed simp

lemma canopen_json_filler_eq:
  "length block = 20 \<Longrightarrow> canopen_json_filler block ob =
     Some (\<lambda>n. if n \<in> set canopen_filler_order then (if wants block n then Some None else None) else ob n,
       filter (wants block) canopen_filler_order)"
  using known_names(1) by (simp add: canopen_json_filler_def canopen_fill_eq)

lemma read_requests_eq:
  "length block = 20 \<Longrightarrow> snd ` set cs \<subseteq> known_signals \<Longrightarrow>
   read_requests node_id block cs = Some (map (\<lambda>(x, n). request_frame node_id x) (filter (\<lambda>(x, n). wants block n) cs))"
proof (induction cs)
  case (Cons c cs)
  obtain x n where c: "c = (x, n)" by fastforce
  then obtain w where "wanted_flag block n = Some w" "w = 1 \<longleftrightarrow> wants block n"
    using Cons.prems wanted_flag_known [of block n] by auto
  then show ?case using Cons c by simp
qed simp

lemma store_value_eq:
  "length block = 20 \<Longrightarrow> snd ` set cs \<subseteq> known_signals \<Longrightarrow>
   store_value block x v cs ob =
     Some (case find (\<lambda>(i, n). i = x \<and> wants block n \<and> ob n \<noteq> None) cs of
             None \<Rightarrow> ob | Some (i, n) \<Rightarrow> ob(n := Some (Some v)))"
proof (induction cs)
  case (Cons c cs)
  obtain i n where c: "c = (i, n)" by fastforce
  then obtain w where "wanted_flag block n = Some w" "w = 1 \<longleftrightarrow> wants block n"
    using Cons.prems wanted_flag_known [of block n] by auto
  then show ?case using Cons c by auto
qed simp

text \<open>The answer of a device to a request, with a value of two bytes.\<close>

definition sdo_reply :: "int \<Rightarrow> co_frame \<Rightarrow> 16 word \<Rightarrow> co_frame" where
  "sdo_reply node_id fr v =
     \<lparr>co_id = of_int (0x580 + node_id), co_dlc = 8,
      co_data = [0x4b, co_data fr ! 1, co_data fr ! 2, co_data fr ! 3, ucast v, ucast (drop_bit 8 v), 0, 0]\<rparr>"

lemma reply_index: "(x, n) \<in> set request_chain \<Longrightarrow> tsdo_index (co_data (sdo_reply node_id (request_frame node_id x) v)) = x"
proof -
  assume "(x, n) \<in> set request_chain"
  then have "x \<in> fst ` set request_chain" by force
  then show ?thesis
    by (auto simp: request_chain_def tsdo_index_def sdo_reply_def request_frame_def)
qed

lemma reply_data: "tsdo_data junk (co_data (sdo_reply node_id fr v)) = ucast v"
proof -
  have "ucast (ucast v :: 8 word) + push_bit 8 (ucast (ucast (drop_bit 8 v) :: 8 word)) =
      (ucast (ucast v :: 8 word) OR push_bit 8 (ucast (ucast (drop_bit 8 v) :: 8 word)) :: 32 word)"
    by (rule disjunctive_add) (auto simp: bit_simps)
  also have "\<dots> = ucast v"
    by (rule bit_word_eqI) (auto simp: bit_simps dest: bit_imp_le_length)
  finally show ?thesis by (simp add: tsdo_data_def sdo_reply_def)
qed

lemma sdo_db_units: "list_all (\<lambda>s. NUL \<notin> set (sdo_unit s) \<and> length (sdo_unit s) < 32) sdo_db"
  by (simp add: sdo_db_def sdo_object_def)

lemma unit_copy:
  assumes "canopensdo_get x = Some s"
  shows "NUL \<in> set (strncpy_bytes (sdo_unit s) CANOPEN_SDO_UNIT_LEN)"
    and "cstr (strncpy_bytes (sdo_unit s) CANOPEN_SDO_UNIT_LEN) = sdo_unit s"
proof -
  have "s \<in> set sdo_db" using assms find_SomeD [of _ sdo_db s] by (simp add: canopensdo_get_def)
  then have s: "NUL \<notin> set (sdo_unit s)" "length (sdo_unit s) < 32" using sdo_db_units by (auto simp: list_all_iff)
  then have "strncpy_bytes (sdo_unit s) 32 = sdo_unit s @ replicate (32 - length (sdo_unit s)) NUL"
    by (simp add: strncpy_bytes_def)
  then show "NUL \<in> set (strncpy_bytes (sdo_unit s) CANOPEN_SDO_UNIT_LEN)"
    "cstr (strncpy_bytes (sdo_unit s) CANOPEN_SDO_UNIT_LEN) = sdo_unit s" using s by simp_all
qed

lemma chain_known: "(x, n) \<in> set tsdo_chain \<Longrightarrow> \<exists>s. canopensdo_get x = Some s"
proof -
  have "list_all (\<lambda>c. canopensdo_get (fst c) \<noteq> None) tsdo_chain"
    by (simp add: tsdo_chain_def canopensdo_get_def sdo_db_def sdo_object_def)
  then show "(x, n) \<in> set tsdo_chain \<Longrightarrow> \<exists>s. canopensdo_get x = Some s" by (fastforce simp: list_all_iff)
qed

text \<open>An answer is stored in the first object of its index that is wanted.\<close>

lemma answer_eq:
  assumes "length block = 20" "canopensdo_get (tsdo_index d) = Some s"
  shows "tsdo_answer junk block d ob =
     Some (case find (\<lambda>(i, n). i = tsdo_index d \<and> wants block n \<and> ob n \<noteq> None) tsdo_chain of
             None \<Rightarrow> ob
           | Some (i, n) \<Rightarrow> ob(n := Some (Some (sdo_value s (scast (tsdo_data (junk_data junk) d)), sdo_unit s))))"
  using assms unit_copy [OF assms(2)] known_names(2)
  by (simp add: tsdo_answer_def canopensdo_parse_def store_value_eq)

lemma tsdo_frame:
  assumes "0 < node_id" "node_id < 128" "co_id fr = of_int (0x580 + node_id)"
  shows "canopen_read_callback node_id block junk fr ob =
     do { ob \<leftarrow> tsdo_answer junk block (co_data fr) ob; Some (ob, [DumpIfNeeded 6]) }"
proof -
  have u: "uint (co_id fr) = 0x580 + node_id"
    using assms by (simp add: unsigned_of_int take_bit_eq_mod del: of_int_add)
  then have "co_id fr \<noteq> 0" "co_id fr \<noteq> 0x80" "co_id fr \<noteq> 0x100"
    using assms by (auto simp: word_uint_eq_iff)
  then have "last_match services_nonodeid (co_id fr) = None"
    by (simp add: last_match_def services_nonodeid_def upt_rec)
  moreover have "co_id fr - of_int node_id = 0x580" using assms(3) by simp
  moreover have "last_match services (0x580 :: 32 word) = Some 9" by code_simp
  ultimately show ?thesis by (simp add: canopen_read_callback_def)
qed

lemma reply_frame:
  assumes "0 < node_id" "node_id < 128"
  shows "canopen_read_callback node_id block junk (sdo_reply node_id fr v) ob =
     do { ob \<leftarrow> tsdo_answer junk block (co_data (sdo_reply node_id fr v)) ob; Some (ob, [DumpIfNeeded 6]) }"
  by (rule tsdo_frame [OF assms]) (simp add: sdo_reply_def)

lemma find_only: "y \<in> set xs \<Longrightarrow> Q y \<Longrightarrow> \<forall>z\<in>set xs. Q z \<longrightarrow> z = y \<Longrightarrow> find Q xs = Some y"
proof -
  assume y: "y \<in> set xs" "Q y" "\<forall>z\<in>set xs. Q z \<longrightarrow> z = y"
  then have "find Q xs \<noteq> None" by (auto simp: find_None_iff)
  then obtain z where z: "find Q xs = Some z" by blast
  from find_SomeD [OF z] y(3) have "z = y" by blast
  with z show ?thesis by simp
qed

lemma chain_index_clash:
  assumes "(x, n) \<in> set request_chain" "(x, m) \<in> set tsdo_chain"
  shows "m = n \<or> n = ''analogue_brake_off_voltage'' \<and> m = ''analogue_brake_full_voltage''"
proof -
  have "list_all (\<lambda>c. list_all (\<lambda>d. fst c = fst d \<longrightarrow> snd d = snd c \<or>
      snd c = ''analogue_brake_off_voltage'' \<and> snd d = ''analogue_brake_full_voltage'') tsdo_chain) request_chain"
    by code_simp
  with assms show ?thesis by (fastforce simp: list_all_iff)
qed

lemma requested_chains:
  "set (map snd request_chain) = set (filter (\<lambda>n. n \<noteq> ''analogue_brake_full_voltage'') canopen_filler_order)"
  "list_all (List.member tsdo_chain) request_chain"
  by code_simp+

lemma request_in_chain: "(x, n) \<in> set request_chain \<Longrightarrow> (x, n) \<in> set tsdo_chain"
  using requested_chains(2) by (auto simp: list_all_iff)

lemma requested_first:
  assumes "(x, n) \<in> set request_chain" "P n" "n = ''analogue_brake_off_voltage'' \<longrightarrow> \<not> P ''analogue_brake_full_voltage''"
  shows "find (\<lambda>(i, m). i = x \<and> P m) tsdo_chain = Some (x, n)"
  using assms chain_index_clash [OF assms(1)] request_in_chain [OF assms(1)] by (intro find_only) auto

lemma requested_names: "snd ` set request_chain = set canopen_filler_order - {''analogue_brake_full_voltage''}"
  using requested_chains(1) by (auto simp: list.set_map)

lemma requested_in_order: "(x, n) \<in> set request_chain \<Longrightarrow> n \<in> set canopen_filler_order"
  using requested_names imageI [of "(x, n)" "set request_chain" snd] by simp

lemma requestable:
  assumes "n \<in> set canopen_filler_order" "n \<noteq> ''analogue_brake_full_voltage''"
  shows "\<exists>x. (x, n) \<in> set request_chain"
proof -
  have "n \<in> snd ` set request_chain" unfolding requested_names using assms by blast
  then show ?thesis by (metis imageE prod.collapse)
qed

lemma scast_ucast16: "(scast (ucast (v :: 16 word) :: 32 word) :: 64 word) = ucast v"
  by (rule bit_word_eqI) (auto simp: bit_simps min_def dest: bit_imp_le_length split: if_splits)

text \<open>The objects after the filler: those of the wanted signals.\<close>

lemma filler_objects:
  assumes "length block = 20" "canopen_json_filler block ob0 = Some (ob, names)"
  shows "\<forall>m\<in>set canopen_filler_order. wants block m \<longleftrightarrow> ob m \<noteq> None"
    and "set names = {m \<in> set canopen_filler_order. wants block m}"
proof -
  have ob: "ob = (\<lambda>n. if n \<in> set canopen_filler_order then (if wants block n then Some None else None) else ob0 n)"
    and names: "names = filter (wants block) canopen_filler_order"
    using assms canopen_json_filler_eq [OF assms(1), of ob0] by auto
  show "\<forall>m\<in>set canopen_filler_order. wants block m \<longleftrightarrow> ob m \<noteq> None" by (simp add: ob)
  show "set names = {m \<in> set canopen_filler_order. wants block m}" by (auto simp: names)
qed

lemma answer_recorded:
  assumes "length block = 20" "0 < node_id" "node_id < 128" "(x, n) \<in> set request_chain" "wants block n"
    and "n = ''analogue_brake_off_voltage'' \<longrightarrow> \<not> wants block ''analogue_brake_full_voltage''"
    and "\<forall>m\<in>set canopen_filler_order. wants block m \<longleftrightarrow> ob m \<noteq> None"
  shows "\<exists>s. canopensdo_get x = Some s \<and>
     canopen_read_callback node_id block junk (sdo_reply node_id (request_frame node_id x) v) ob =
       Some (ob(n := Some (Some (sdo_value s (ucast v), sdo_unit s))), [DumpIfNeeded 6])"
proof -
  let ?fr = "sdo_reply node_id (request_frame node_id x) v"
  obtain s where s: "canopensdo_get x = Some s" using chain_known [OF request_in_chain [OF assms(4)]] by blast
  have i: "tsdo_index (co_data ?fr) = x" using reply_index [OF assms(4)] by simp
  have n: "n \<in> set canopen_filler_order" by (rule requested_in_order [OF assms(4)])
  have "find (\<lambda>(i, m). i = x \<and> wants block m \<and> ob m \<noteq> None) tsdo_chain = Some (x, n)"
    using assms(5,6) assms(7) [THEN bspec, OF n]
    by (intro requested_first [OF assms(4), of "\<lambda>m. wants block m \<and> ob m \<noteq> None"]) blast+
  then have "tsdo_answer junk block (co_data ?fr) ob = Some (ob(n := Some (Some (sdo_value s (ucast v), sdo_unit s))))"
    unfolding answer_eq [OF assms(1), of "co_data ?fr", unfolded i, OF s] by (simp add: reply_data scast_ucast16)
  with s reply_frame [OF assms(2,3)] show ?thesis by simp
qed

section \<open>Properties\<close>

text \<open>
  C19. Every signal that the document lists, except the two voltages of the analogue brake, is asked
  for by the background thread, and when the device answers that request with a 16 bit value, the
  value, converted by the table and with its unit, becomes the value of this signal in the document
  and of no other.
\<close>

theorem canopen_answer_recorded:
  assumes "length block = 20" "0 < node_id" "node_id < 128"
    and "canopen_json_filler block ob0 = Some (ob, names)" "n \<in> set names"
    and "n \<noteq> ''analogue_brake_full_voltage''" "n \<noteq> ''analogue_brake_off_voltage''"
  shows "\<exists>requests fr s. read_requests node_id block request_chain = Some requests \<and> fr \<in> set requests \<and>
     s \<in> set sdo_db \<and>
     canopen_read_callback node_id block junk (sdo_reply node_id fr v) ob =
       Some (ob(n := Some (Some (sdo_value s (ucast v), sdo_unit s))), [DumpIfNeeded 6])"
proof -
  note ob = filler_objects(1) [OF assms(1,4)]
  have n: "n \<in> set canopen_filler_order" "wants block n"
    using assms(5) filler_objects(2) [OF assms(1,4)] by simp_all
  then obtain x where x: "(x, n) \<in> set request_chain" using requestable assms(6) by blast
  have "n = ''analogue_brake_off_voltage'' \<longrightarrow> \<not> wants block ''analogue_brake_full_voltage''"
    using assms(7) by simp
  from answer_recorded [OF assms(1-3) x n(2) this ob, of junk v] obtain s
    where s: "canopensdo_get x = Some s"
      "canopen_read_callback node_id block junk (sdo_reply node_id (request_frame node_id x) v) ob =
       Some (ob(n := Some (Some (sdo_value s (ucast v), sdo_unit s))), [DumpIfNeeded 6])" by blast
  have "request_frame node_id x \<in>
      set (map (\<lambda>(x, n). request_frame node_id x) (filter (\<lambda>(x, n). wants block n) request_chain))"
    using x n(2) by (force simp: image_iff)
  moreover have "s \<in> set sdo_db" using s(1) find_SomeD [of _ sdo_db s] by (simp add: canopensdo_get_def)
  ultimately show ?thesis
    using s(2) read_requests_eq [OF assms(1) known_names(3)] by blast
qed

text \<open>A block in which the flag of the controller temperature is set.\<close>

definition sample_block :: "8 word list" where
  "sample_block = [0, 0, 0, 1, 0, 0, 0, 0, 0, 0, 0, 0, 0, 0, 0, 0, 0, 0, 0, 0]"

definition sample_junk :: co_junk where
  "sample_junk = \<lparr>junk_data = 7, junk_parsed = \<lparr>parsed_value = 0, parsed_unit = replicate 32 NUL, parsed_name = []\<rparr>,
     junk_frame = replicate 8 9\<rparr>"

theorem canopen_answer_recorded_witness:
  "\<exists>ob requests fr s. canopen_json_filler sample_block (\<lambda>_. None) = Some (ob, [''controller_temperature'']) \<and>
     read_requests 5 sample_block request_chain = Some requests \<and> fr \<in> set requests \<and> s \<in> set sdo_db \<and>
     canopen_read_callback 5 sample_block sample_junk (sdo_reply 5 fr 25) ob =
       Some (ob(''controller_temperature'' := Some (Some (sdo_value s (ucast (25 :: 16 word)), sdo_unit s))), [DumpIfNeeded 6])"
proof -
  have len: "length sample_block = 20" by (simp add: sample_block_def)
  have "filter (wants sample_block) canopen_filler_order = [''controller_temperature'']" by code_simp
  then obtain ob where f: "canopen_json_filler sample_block (\<lambda>_. None) = Some (ob, [''controller_temperature''])"
    using canopen_json_filler_eq [OF len, of "\<lambda>_. None"] by simp
  from canopen_answer_recorded [OF len _ _ f, of 5 "''controller_temperature''" sample_junk 25] f show ?thesis
    by auto
qed

text \<open>
  The two voltages of the analogue brake are confused: both have the index \<open>0x200318\<close>. The full
  voltage is never asked for on its own, and when both are wanted, the answer to the request for the
  off voltage is recorded as the full voltage and the off voltage keeps no value.
\<close>

theorem canopen_brake_voltages_confused:
  assumes "length block = 20" "0 < node_id" "node_id < 128"
    and "canopen_json_filler block ob0 = Some (ob, names)"
    and "''analogue_brake_full_voltage'' \<in> set names"
  shows "(\<forall>x. (x, ''analogue_brake_full_voltage'') \<notin> set request_chain) \<and>
     (\<exists>ob' es. canopen_read_callback node_id block junk (sdo_reply node_id (request_frame node_id 0x200318) v) ob = Some (ob', es) \<and>
        ob' ''analogue_brake_full_voltage'' = Some (Some (sdo_value (sdo_db ! 1) (ucast v), ''Volts'')) \<and>
        ob' ''analogue_brake_off_voltage'' = ob ''analogue_brake_off_voltage'')"
proof -
  let ?full = "''analogue_brake_full_voltage''" let ?fr = "sdo_reply node_id (request_frame node_id 0x200318) v"
  have w: "wants block ?full" "ob ?full \<noteq> None"
    using assms(5) filler_objects [OF assms(1,4)] by blast+
  have "(0x200318, ''analogue_brake_off_voltage'') \<in> set request_chain" by (simp add: request_chain_def)
  note i = reply_index [OF this, of node_id v]
  have s: "canopensdo_get 0x200318 = Some (sdo_db ! 1)" "sdo_unit (sdo_db ! 1) = ''Volts''"
    by (simp_all add: canopensdo_get_def sdo_db_def sdo_object_def)
  have "find (\<lambda>(i, m). i = 0x200318 \<and> wants block m \<and> ob m \<noteq> None) tsdo_chain = Some (0x200318, ?full)"
    using w by (simp add: tsdo_chain_def)
  then have "tsdo_answer junk block (co_data ?fr) ob = Some (ob(?full := Some (Some (sdo_value (sdo_db ! 1) (ucast v), ''Volts''))))"
    unfolding answer_eq [OF assms(1), of "co_data ?fr", unfolded i, OF s(1)] by (simp add: s(2) [simplified] reply_data scast_ucast16)
  then have "canopen_read_callback node_id block junk ?fr ob =
      Some (ob(?full := Some (Some (sdo_value (sdo_db ! 1) (ucast v), ''Volts''))), [DumpIfNeeded 6])"
    by (simp add: reply_frame [OF assms(2,3)])
  moreover have "\<forall>x. (x, ?full) \<notin> set request_chain" by (simp add: request_chain_def)
  ultimately show ?thesis by simp
qed

theorem canopen_brake_voltages_confused_witness:
  "\<exists>ob ob' es. canopen_json_filler (replicate 20 1) (\<lambda>_. None) = Some (ob, canopen_filler_order) \<and>
     canopen_read_callback 5 (replicate 20 1) sample_junk (sdo_reply 5 (request_frame 5 0x200318) 4096) ob = Some (ob', es) \<and>
     ob' ''analogue_brake_off_voltage'' = ob ''analogue_brake_off_voltage''"
proof -
  have len: "length (replicate 20 (1 :: 8 word)) = 20" by simp
  have "filter (wants (replicate 20 1)) canopen_filler_order = canopen_filler_order" by code_simp
  then obtain ob where f: "canopen_json_filler (replicate 20 1) (\<lambda>_. None) = Some (ob, canopen_filler_order)"
    using canopen_json_filler_eq [OF len, of "\<lambda>_. None"] by simp
  have "''analogue_brake_full_voltage'' \<in> set canopen_filler_order" by (simp add: canopen_filler_order_def)
  from canopen_brake_voltages_confused [OF len _ _ f this, of 5 sample_junk 4096] f show ?thesis by auto
qed

text \<open>The loop of the background thread, from its start: the counters after \<open>n\<close> rounds and the frames that
  each round has sent.\<close>

fun canopen_bg_rounds :: "int \<Rightarrow> int \<Rightarrow> 8 word list \<Rightarrow> 8 word list \<Rightarrow> nat \<Rightarrow> ((int \<times> int) \<times> co_frame list list) option" where
  "canopen_bg_rounds sleep node_id block junk 0 = Some ((0, 0), [])"
| "canopen_bg_rounds sleep node_id block junk (Suc n) = do {
     (c, sent) \<leftarrow> canopen_bg_rounds sleep node_id block junk n;
     (c, fs) \<leftarrow> canopen_bg_round sleep node_id block junk c;
     Some (c, sent @ [fs])
   }"

text \<open>A counter that is reset when it was above \<open>p\<close> counts modulo \<open>p + 2\<close>.\<close>

definition next_count :: "int \<Rightarrow> int \<Rightarrow> int" where
  "next_count p c = (if c > p then 0 else c + 1)"

lemma counter_mod:
  "int p < int (n mod (p + 2)) \<longleftrightarrow> Suc n mod (p + 2) = 0"
  "next_count (int p) (int (n mod (p + 2))) = int (Suc n mod (p + 2))"
proof -
  have less: "n mod (p + 2) < p + 2" by simp
  show "int p < int (n mod (p + 2)) \<longleftrightarrow> Suc n mod (p + 2) = 0"
  proof (cases "n mod (p + 2) = p + 1")
    case False
    then have "n mod (p + 2) \<le> p" using less by linarith
    then show ?thesis by (simp add: mod_Suc)
  qed (simp add: mod_Suc)
  show "next_count (int p) (int (n mod (p + 2))) = int (Suc n mod (p + 2))"
  proof (cases "n mod (p + 2) = p + 1")
    case False
    then have "n mod (p + 2) \<le> p" using less by linarith
    then show ?thesis by (simp add: next_count_def mod_Suc)
  qed (simp add: next_count_def mod_Suc)
qed

lemma bg_round_counts:
  assumes "c_quot 100000 sleep = p" "c_quot 400000 sleep = q" "p \<noteq> 0" "q \<noteq> 0" "sleep \<noteq> 0"
    and "read_requests node_id block request_chain = Some reqs"
  shows "canopen_bg_round sleep node_id block junk (s, r) =
     Some ((next_count p s, next_count q r),
       (if p < s then [\<lparr>co_id = 0x80, co_dlc = 0, co_data = junk\<rparr>] else []) @ (if q < r then reqs else []))"
  using assms by (cases "p < s"; cases "q < r") (simp_all add: canopen_bg_round_def next_count_def)

text \<open>
  C22. The background thread works periodically: with a sleep time of at most 100000 microseconds it
  sends a SYNC frame in every \<open>p + 2\<close>nd round and the requests for the wanted signals in every
  \<open>q + 2\<close>nd, where \<open>p\<close> and \<open>q\<close> are the two prescalers divided by the sleep time, and it never
  stops or fails while the dataset exists.
\<close>

theorem canopen_bg_periodic:
  assumes "0 < sleep" "sleep \<le> 100000" "length block = 20"
    and "p = nat (100000 div sleep)" "q = nat (400000 div sleep)"
  shows "canopen_bg_rounds sleep node_id block junk n =
     Some ((int (n mod (p + 2)), int (n mod (q + 2))),
       map (\<lambda>m. (if Suc m mod (p + 2) = 0 then [\<lparr>co_id = 0x80, co_dlc = 0, co_data = junk\<rparr>] else []) @
                (if Suc m mod (q + 2) = 0 then the (read_requests node_id block request_chain) else [])) [0..<n])"
proof (induction n)
  case (Suc n)
  have "1 \<le> 100000 div sleep" using assms(1,2) by (simp add: pos_imp_zdiv_pos_iff int_one_le_iff_zero_less)
  moreover have "100000 div sleep \<le> 400000 div sleep" using assms(1) by (intro zdiv_mono1) auto
  ultimately have pq: "c_quot 100000 sleep = int p" "c_quot 400000 sleep = int q" "int p \<noteq> 0" "int q \<noteq> 0"
    using assms(1,4,5) by (auto simp: c_quot_def)
  obtain reqs where req: "read_requests node_id block request_chain = Some reqs"
    using read_requests_eq [OF assms(3) known_names(3)] by simp
  note round = bg_round_counts [OF pq(1,2,3,4) _ req, of junk "int (n mod (p + 2))" "int (n mod (q + 2))"]
  show ?case using Suc assms(1) round counter_mod [of p n] counter_mod [of q n] req by simp
qed simp

theorem canopen_bg_periodic_witness:
  "canopen_bg_rounds 50000 5 sample_block (replicate 8 0) 4 =
     Some ((0, 4), [[], [], [], [\<lparr>co_id = 0x80, co_dlc = 0, co_data = replicate 8 0\<rparr>]])"
proof -
  have "length sample_block = 20" by (simp add: sample_block_def)
  from canopen_bg_periodic [OF _ _ this refl refl, of 50000 5 "replicate 8 0" 4] show ?thesis
    by (simp add: upt_rec)
qed

end
