(* ===== verification/Loader_Life.thy ===== *)
theory Loader_Life
  imports Policy_Loader
begin

text \<open>
  The task of the policy loader from its start to its stop (\<open>policyloader_start\<close>, \<open>policy_loader_thread_function\<close> and
  \<open>policyloader_stop\<close> in \<open>policy_loader/policy_loader.c\<close>): the flag \<open>g_end\<close>, the thread \<open>g_thread\<close>, and the
  counter of the loop beside the state of the loader. A turn of the loop is atomic.
\<close>

section \<open>The task\<close>

datatype loader_thread = NoThread | Running | Joined

record loader_task =
  lt_end :: bool
  lt_thread :: loader_thread
  lt_counter :: int
  lt_loader :: policy_loader

text \<open>The start with the outcome of \<open>pthread_create\<close>, which it does not look at. A start while a
  thread runs is not covered: the first thread would go on beside the second.\<close>

definition start_task :: "config_manager \<Rightarrow> bytes \<Rightarrow> bool \<Rightarrow> loader_task \<Rightarrow> (int \<times> loader_task) option" where
  "start_task cfg junk created t =
     (if lt_thread t = Running then None
      else do {
        (r, s) \<leftarrow> policyloader_start cfg junk (lt_loader t);
        Some (r, \<lparr>lt_end = False, lt_thread = (if created then Running else lt_thread t), lt_counter = 0, lt_loader = s\<rparr>)
      })"

text \<open>The loop of the thread over the answers of the service, while the flag is not set.\<close>

definition task_turn :: "net_env \<times> request_junk \<times> policy_updater \<times> json_env \<Rightarrow> loader_task \<Rightarrow> loader_task option" where
  "task_turn e t = (case e of (env, junk, pu, js) \<Rightarrow>
     if lt_thread t \<noteq> Running \<or> lt_end t then Some t
     else do {
       (c, s) \<leftarrow> policy_loader_thread_step env junk pu js (lt_counter t, lt_loader t);
       Some (t\<lparr>lt_counter := c, lt_loader := s\<rparr>)
     })"

text \<open>The stop sets the flag, which ends the loop after the turn in progress, and joins the thread; without a thread to
  join it is undefined.\<close>

definition policyloader_stop :: "loader_task \<Rightarrow> (int \<times> loader_task) option" where
  "policyloader_stop t = (if lt_thread t = Running then Some (0, t\<lparr>lt_end := True, lt_thread := Joined\<rparr>) else None)"

section \<open>Properties\<close>

lemma turn_frame_task:
  "task_turn e t = Some t' \<Longrightarrow> lt_end t' = lt_end t \<and> lt_thread t' = lt_thread t"
  by (auto simp: task_turn_def split: bind_splits if_splits prod.splits)

lemma turns_frame_task:
  "run_steps task_turn es t = Some t' \<Longrightarrow> lt_end t' = lt_end t \<and> lt_thread t' = lt_thread t"
  by (induction es arbitrary: t) (auto split: bind_splits dest: turn_frame_task)

lemma turns_when_down: "lt_thread t \<noteq> Running \<Longrightarrow> run_steps task_turn es t = Some t"
  by (induction es) (auto simp: task_turn_def split: prod.splits)

lemma turn_keeps_inv:
  assumes "task_turn e t = Some t'" "loader_inv (lt_loader t)"
  shows "loader_inv (lt_loader t')"
proof -
  obtain env junk pu js where e: "e = (env, junk, pu, js)" by (cases e)
  have "lt_loader t' = lt_loader t \<or> loader_event e (lt_loader t) = Some (lt_loader t')"
    using assms(1) by (auto simp: e task_turn_def policy_loader_thread_step_def loader_event_def split: bind_splits if_splits)
  then show ?thesis using assms(2) loader.run_inv [of "[e]" "lt_loader t" "lt_loader t'"] by auto
qed

interpretation task: step_invariant task_turn "\<lambda>t. loader_inv (lt_loader t)"
  by unfold_locales (rule turn_keeps_inv)

text \<open>
  A loader that was started with a thread can be stopped after any number of turns; after that nothing changes it
  any more, and its buffers and the state of the machine are still in order. It can be started again, and then works as the first time, but a
  second stop without a start in between, or a stop after a thread that could not be created, joins no thread.
\<close>

theorem loader_stop_returns:
  assumes "start_task cfg junk True t = Some (r, t1)" "run_steps task_turn es t1 = Some t2"
    and "loader_inv (lt_loader t1)"
  shows "\<exists>t3. policyloader_stop t2 = Some (0, t3) \<and> run_steps task_turn es' t3 = Some t3 \<and> lt_loader t3 = lt_loader t2 \<and>
    loader_inv (lt_loader t3) \<and> policyloader_stop t3 = None \<and>
    start_task cfg junk False t3 \<bind> (\<lambda>(r, t). policyloader_stop t) = None \<and>
    (\<forall>r t4. start_task cfg junk True t3 = Some (r, t4) \<longrightarrow> (\<exists>t5. policyloader_stop t4 = Some (0, t5)))"
proof -
  have "lt_thread t1 = Running" using assms(1) by (auto simp: start_task_def split: bind_splits if_splits)
  then have up: "lt_thread t2 = Running" using turns_frame_task [OF assms(2)] by simp
  let ?t3 = "t2\<lparr>lt_end := True, lt_thread := Joined\<rparr>"
  have "policyloader_stop t2 = Some (0, ?t3)" using up by (simp add: policyloader_stop_def)
  moreover have "run_steps task_turn es' ?t3 = Some ?t3" by (intro turns_when_down) simp
  moreover have "loader_inv (lt_loader ?t3)" using task.run_inv [OF assms(2,3)] by simp
  moreover have "start_task cfg junk False ?t3 \<bind> (\<lambda>(r, t). policyloader_stop t) = None"
    by (auto simp: start_task_def policyloader_stop_def split: bind_splits)
  moreover have "\<exists>t5. policyloader_stop t4 = Some (0, t5)" if "start_task cfg junk True ?t3 = Some (r, t4)" for r t4
    using that by (auto simp: start_task_def policyloader_stop_def split: bind_splits)
  ultimately show ?thesis by (intro exI [of _ ?t3]) (simp add: policyloader_stop_def)
qed

theorem loader_stop_returns_witness:
  "\<exists>t1 t3. start_task g_config_zero (replicate 32 NUL) True \<lparr>lt_end = False, lt_thread = NoThread, lt_counter = 0, lt_loader = policy_loader_zero\<rparr>
     = Some (0, t1) \<and> policyloader_stop t1 = Some (0, t3) \<and> policyloader_stop t3 = None"
proof -
  let ?t = "\<lparr>lt_end = False, lt_thread = NoThread, lt_counter = 0, lt_loader = policy_loader_zero\<rparr>"
  let ?t1 = "\<lparr>lt_end = False, lt_thread = Running, lt_counter = 0, lt_loader = policy_loader_zero\<lparr>g_task_sleep_time := 1000\<rparr>\<rparr>"
  have start: "start_task g_config_zero (replicate 32 NUL) True ?t = Some (0, ?t1)"
    by (simp add: start_task_def policyloader_start_def zero_config_missing policy_loader_zero_def)
  have "loader_inv (lt_loader ?t1)" using loader_inv_zero by (simp add: loader_inv_def loader_wf_def)
  with loader_stop_returns [OF start, of "[]" ?t1 "[]"] start show ?thesis by auto
qed

end
