(* ===== verification/Response_Scanner.thy ===== *)
theory Response_Scanner
  imports C_Prelude
begin

text \<open>
  The hand-written scanner for the answer of the policy service (\<open>find_char\<close>, \<open>search_key_word\<close> and
  \<open>parse_policy_updater_response\<close> in \<open>policy_loader/policy_loader.c\<close>), which the loader has kept beside the JSON library and which nothing
  calls. Pointers are indices into the memory \<open>buf\<close>; \<open>None\<close> is a read outside of it.
\<close>

section \<open>The scanner\<close>

abbreviation (input) quote :: char where "quote \<equiv> CHR 0x22"

text \<open>The loop over spaces without skipping: at \<open>stop\<close> it ends.\<close>

function skip_spaces :: "bytes \<Rightarrow> nat \<Rightarrow> nat \<Rightarrow> nat option" where
  "skip_spaces buf start stop =
     (if length buf \<le> start then None
      else if buf ! start = CHR '' '' then (if Suc start = stop then Some stop else skip_spaces buf (Suc start) stop)
      else Some start)"
  by pat_completeness auto
termination by (relation "measure (\<lambda>(buf, start, stop). length buf - start)") auto

declare skip_spaces.simps [simp del]

function seek_char :: "char \<Rightarrow> bytes \<Rightarrow> nat \<Rightarrow> nat \<Rightarrow> nat option option" where
  "seek_char c buf start stop =
     (if start = stop then Some None
      else if length buf \<le> start then None
      else if buf ! start = c then Some (Some start)
      else seek_char c buf (Suc start) stop)"
  by pat_completeness auto
termination by (relation "measure (\<lambda>(c, buf, start, stop). length buf - start)") auto

declare seek_char.simps [simp del]

text \<open>\<open>find_char\<close>: the inner \<open>None\<close> is the NULL result.\<close>

definition find_char :: "char \<Rightarrow> bytes \<Rightarrow> nat \<Rightarrow> nat \<Rightarrow> bool \<Rightarrow> nat option option" where
  "find_char c buf start stop skip =
     (if \<not> skip then do {
        start \<leftarrow> skip_spaces buf start stop;
        x \<leftarrow> buf_get buf start;
        Some (if x = c then Some start else None)
      } else seek_char c buf start stop)"

text \<open>\<open>search_key_word\<close>: the first character of the word and its closing quotation mark, the inner \<open>None\<close> for the result 1.\<close>

definition search_key_word :: "bytes \<Rightarrow> nat \<Rightarrow> nat \<Rightarrow> (nat \<times> nat) option option" where
  "search_key_word buf start stop = do {
     res \<leftarrow> find_char quote buf start stop False;
     (case res of
        None \<Rightarrow> Some None
      | Some s \<Rightarrow> do {
          e \<leftarrow> find_char quote buf (Suc s) stop True;
          Some (map_option (\<lambda>e. (Suc s, e)) e)
        })
   }"

text \<open>The loop over the spaces behind a word, which fails behind \<open>stop\<close>.\<close>

function skip_within :: "bytes \<Rightarrow> nat \<Rightarrow> nat \<Rightarrow> nat option option" where
  "skip_within buf start stop =
     (if length buf \<le> start then None
      else if buf ! start = CHR '' '' then (if stop < Suc start then Some None else skip_within buf (Suc start) stop)
      else Some (Some start))"
  by pat_completeness auto
termination by (relation "measure (\<lambda>(buf, start, stop). length buf - start)") auto

declare skip_within.simps [simp del]

text \<open>One turn of the loop: the inner \<open>None\<close> for the result 1, else whether it is the last turn, and where it ends.\<close>

definition response_turn :: "bytes \<Rightarrow> nat \<Rightarrow> nat \<Rightarrow> (bool \<times> nat) option option" where
  "response_turn buf start stop = do {
     word \<leftarrow> search_key_word buf start stop;
     (case word of
        None \<Rightarrow> Some None
      | Some (s, e) \<Rightarrow>
          if stop < Suc e then Some None
          else do {
            res \<leftarrow> skip_within buf (Suc e) stop;
            (case res of
               None \<Rightarrow> Some None
             | Some p \<Rightarrow> do {
                 x \<leftarrow> buf_get buf p;
                 next \<leftarrow> (if x = CHR '']'' then Some (Some p) else find_char (CHR '','') buf p stop False);
                 Some (case next of
                     None \<Rightarrow> None
                   | Some p \<Rightarrow> if stop < Suc p then None else Some (x = CHR '']'', Suc p))
               })
          })
   }"

text \<open>Every turn ends behind its start.\<close>

lemma skip_spaces_ge: "skip_spaces buf start stop = Some p \<Longrightarrow> start \<le> p"
proof (induction buf start stop rule: skip_spaces.induct)
  case (1 buf start stop)
  then show ?case by (auto simp: skip_spaces.simps [of buf start stop] split: if_splits)
qed

lemma seek_char_ge: "seek_char c buf start stop = Some (Some p) \<Longrightarrow> start \<le> p"
proof (induction c buf start stop rule: seek_char.induct)
  case (1 c buf start stop)
  then show ?case by (auto simp: seek_char.simps [of c buf start stop] split: if_splits)
qed

lemma skip_within_ge: "skip_within buf start stop = Some (Some p) \<Longrightarrow> start \<le> p"
proof (induction buf start stop rule: skip_within.induct)
  case (1 buf start stop)
  then show ?case by (auto simp: skip_within.simps [of buf start stop] split: if_splits)
qed

lemma find_char_ge: "find_char c buf start stop skip = Some (Some p) \<Longrightarrow> start \<le> p"
  by (auto simp: find_char_def dest: skip_spaces_ge seek_char_ge split: if_splits bind_splits)

lemma response_turn_progress: "response_turn buf start stop = Some (Some (final, p)) \<Longrightarrow> start < p \<and> p \<le> stop"
  by (auto simp: response_turn_def search_key_word_def split: bind_splits option.splits if_splits dest!: find_char_ge skip_within_ge)

function response_loop :: "bytes \<Rightarrow> nat \<Rightarrow> nat \<Rightarrow> nat option option" where
  "response_loop buf start stop = do {
     res \<leftarrow> response_turn buf start stop;
     (case res of
        None \<Rightarrow> Some None
      | Some (final, p) \<Rightarrow> if final then Some (Some p) else response_loop buf p stop)
   }"
  by pat_completeness auto
termination by (relation "measure (\<lambda>(buf, start, stop). stop - start)") (auto dest: response_turn_progress)

declare response_loop.simps [simp del]

text \<open>\<open>parse_policy_updater_response\<close>: the result, and where the scan ends when it is 0.\<close>

definition parse_policy_updater_response :: "bytes \<Rightarrow> nat \<Rightarrow> nat \<Rightarrow> (int \<times> nat option) option" where
  "parse_policy_updater_response buf start stop = do {
     colon \<leftarrow> find_char (CHR '':'') buf start stop False;
     (case colon of
        None \<Rightarrow> Some (1, None)
      | Some p \<Rightarrow>
          if stop < Suc p then Some (1, None)
          else do {
            bracket \<leftarrow> find_char (CHR ''['') buf (Suc p) stop False;
            (case bracket of
               None \<Rightarrow> Some (1, None)
             | Some p \<Rightarrow>
                 if stop < Suc p then Some (1, None)
                 else do {
                   res \<leftarrow> response_loop buf (Suc p) stop;
                   Some (case res of None \<Rightarrow> (1, None) | Some p \<Rightarrow> (0, Some p))
                 })
          })
   }"

section \<open>Lemmas\<close>

text \<open>The loops on a text that starts at \<open>length pre\<close>.\<close>

lemma skip_spaces_run:
  "c \<noteq> CHR '' '' \<Longrightarrow> length pre + n < stop \<Longrightarrow> skip_spaces (pre @ replicate n (CHR '' '') @ c # r) (length pre) stop = Some (length pre + n)"
proof (induction n arbitrary: pre)
  case 0
  then show ?case by (simp add: skip_spaces.simps nth_append)
next
  case (Suc n)
  then show ?case using Suc.IH [of "pre @ '' ''"] by (simp add: skip_spaces.simps [of _ "length pre"] nth_append)
qed

lemma skip_within_run:
  "c \<noteq> CHR '' '' \<Longrightarrow> length pre + n \<le> stop \<Longrightarrow> skip_within (pre @ replicate n (CHR '' '') @ c # r) (length pre) stop = Some (Some (length pre + n))"
proof (induction n arbitrary: pre)
  case 0
  then show ?case by (simp add: skip_within.simps nth_append)
next
  case (Suc n)
  then show ?case using Suc.IH [of "pre @ '' ''"] by (simp add: skip_within.simps [of _ "length pre"] nth_append)
qed

lemma seek_char_run:
  "c \<notin> set w \<Longrightarrow> length pre + length w < stop \<Longrightarrow> seek_char c (pre @ w @ c # r) (length pre) stop = Some (Some (length pre + length w))"
proof (induction w arbitrary: pre)
  case Nil
  then show ?case by (simp add: seek_char.simps nth_append)
next
  case (Cons x w)
  then show ?case using Cons.IH [of "pre @ [x]"] by (auto simp: seek_char.simps [of _ _ "length pre"] nth_append)
qed

lemma find_char_run:
  "c \<noteq> CHR '' '' \<Longrightarrow> length pre + n < stop \<Longrightarrow>
     find_char c (pre @ replicate n (CHR '' '') @ c # r) (length pre) stop False = Some (Some (length pre + n))"
  by (simp add: find_char_def skip_spaces_run buf_get_def nth_append)

text \<open>The words of an answer, each with the numbers of spaces before and behind it.\<close>

fun entry_text :: "nat \<times> bytes \<times> nat \<Rightarrow> bytes" where
  "entry_text (a, w, b) = replicate a (CHR '' '') @ quote # w @ quote # replicate b (CHR '' '')"

fun entries_text :: "(nat \<times> bytes \<times> nat) list \<Rightarrow> bytes" where
  "entries_text [] = '']''"
| "entries_text [e] = entry_text e @ '']''"
| "entries_text (e # es) = entry_text e @ CHR '','' # entries_text es"

definition response_text :: "nat \<Rightarrow> nat \<Rightarrow> (nat \<times> bytes \<times> nat) list \<Rightarrow> bytes" where
  "response_text i j es = replicate i (CHR '' '') @ CHR '':'' # replicate j (CHR '' '') @ CHR ''['' # entries_text es"

lemma turn_run:
  assumes "quote \<notin> set w" "d \<in> {CHR '','', CHR '']''}" "length pre + length (entry_text (a, w, b)) < stop"
  shows "response_turn (pre @ entry_text (a, w, b) @ d # r) (length pre) stop =
    Some (Some (d = CHR '']'', Suc (length pre + length (entry_text (a, w, b)))))"
proof -
  let ?sp = "\<lambda>n. replicate n (CHR '' '')"
  let ?buf = "pre @ entry_text (a, w, b) @ d # r"
  have first: "find_char quote ?buf (length pre) stop False = Some (Some (length pre + a))"
    using find_char_run [of quote pre a stop "w @ quote # ?sp b @ d # r"] assms(3) by simp
  let ?p2 = "pre @ ?sp a @ [quote]"
  have buf2: "?buf = ?p2 @ w @ quote # (?sp b @ d # r)" by simp
  have second: "find_char quote ?buf (Suc (length pre + a)) stop True = Some (Some (Suc (length pre + a + length w)))"
    unfolding buf2 find_char_def using seek_char_run [of quote w ?p2 stop "?sp b @ d # r"] assms(1,3) by simp
  let ?p3 = "pre @ ?sp a @ quote # w @ [quote]"
  have buf3: "?buf = ?p3 @ ?sp b @ d # r" by simp
  have third: "skip_within ?buf (Suc (Suc (length pre + a + length w))) stop = Some (Some (Suc (Suc (length pre + a + length w + b))))"
    unfolding buf3 using skip_within_run [of d ?p3 b stop r] assms(2,3) by (auto simp: add.assoc)
  let ?p4 = "?p3 @ ?sp b"
  have buf4: "?buf = ?p4 @ d # r" by simp
  have get: "buf_get ?buf (Suc (Suc (length pre + a + length w + b))) = Some d"
    unfolding buf4 buf_get_def by (simp add: nth_append)
  have comma: "find_char (CHR '','') ?buf (Suc (Suc (length pre + a + length w + b))) stop False = Some (Some (Suc (Suc (length pre + a + length w + b))))"
    if "d = CHR '',''"
    unfolding buf4 using find_char_run [of "CHR '',''" ?p4 0 stop r] assms(3) that by (simp add: add.assoc)
  have size: "length (entry_text (a, w, b)) = Suc (Suc (a + length w + b))" by simp
  define buf where "buf = ?buf"
  note facts = first second third get comma
  show ?thesis
    using assms(2,3) facts unfolding response_turn_def search_key_word_def buf_def [symmetric] size by (auto simp: add.assoc)
qed

lemma loop_run:
  "es \<noteq> [] \<Longrightarrow> \<forall>(a, w, b)\<in>set es. quote \<notin> set w \<Longrightarrow> length pre + length (entries_text es) \<le> stop \<Longrightarrow>
     response_loop (pre @ entries_text es @ r) (length pre) stop = Some (Some (length pre + length (entries_text es)))"
proof (induction es arbitrary: pre rule: entries_text.induct)
  case (2 e)
  obtain a w b where e: "e = (a, w, b)" by (cases e)
  then show ?case using 2 turn_run [of w "CHR '']''" pre a b stop r] by (simp add: response_loop.simps [of _ "length pre"])
next
  case (3 e e' es)
  obtain a w b where e: "e = (a, w, b)" by (cases e)
  let ?p = "pre @ entry_text e @ '',''"
  have "response_turn (pre @ entries_text (e # e' # es) @ r) (length pre) stop = Some (Some (False, length ?p))"
    using 3 e turn_run [of w "CHR '',''" pre a b stop "entries_text (e' # es) @ r"] by simp
  moreover have "response_loop (?p @ entries_text (e' # es) @ r) (length ?p) stop = Some (Some (length ?p + length (entries_text (e' # es))))"
    using 3 by (intro "3.IH") auto
  ultimately show ?case by (simp add: response_loop.simps [of _ "length pre"])
qed simp

section \<open>Properties\<close>

text \<open>
  The scanner accepts a list with at least one word, however it is spaced, and stops right behind its bracket, without reading
  behind the end; the empty list is refused.
\<close>

theorem scanner_accepts_lists:
  assumes "\<forall>(a, w, b)\<in>set es. quote \<notin> set w" "length pre + length (response_text i j es) \<le> stop"
  shows "parse_policy_updater_response (pre @ response_text i j es @ r) (length pre) stop =
    Some (if es = [] then (1, None) else (0, Some (length pre + length (response_text i j es))))"
proof -
  let ?sp = "\<lambda>n. replicate n (CHR '' '')"
  let ?buf = "pre @ response_text i j es @ r"
  have colon: "find_char (CHR '':'') ?buf (length pre) stop False = Some (Some (length pre + i))"
    using find_char_run [of "CHR '':''" pre i stop "?sp j @ CHR ''['' # entries_text es @ r"] assms(2) by (simp add: response_text_def)
  let ?p2 = "pre @ ?sp i @ '':''"
  have buf2: "?buf = ?p2 @ ?sp j @ CHR ''['' # entries_text es @ r" by (simp add: response_text_def)
  have bracket: "find_char (CHR ''['') ?buf (Suc (length pre + i)) stop False = Some (Some (Suc (length pre + i + j)))"
    unfolding buf2 using find_char_run [of "CHR ''[''" ?p2 j stop "entries_text es @ r"] assms(2) by (simp add: response_text_def)
  let ?p3 = "pre @ ?sp i @ CHR '':'' # ?sp j @ ''[''"
  have buf3: "?buf = ?p3 @ entries_text es @ r" by (simp add: response_text_def)
  have "response_loop ?buf (length ?p3) stop = Some (if es = [] then None else Some (length ?p3 + length (entries_text es)))"
  proof (cases "es = []")
    case True
    have "find_char quote (?p3 @ '']'' @ r) (length ?p3) stop False = Some None"
      using skip_spaces_run [of "CHR '']''" ?p3 0 stop r] assms(2) True by (simp add: find_char_def buf_get_def nth_append response_text_def)
    then have "response_turn ?buf (length ?p3) stop = Some None"
      unfolding buf3 response_turn_def search_key_word_def using True by simp
    then show ?thesis using True by (subst response_loop.simps) simp
  next
    case False
    then show ?thesis unfolding buf3 using loop_run [of es ?p3 stop r] assms by (simp add: response_text_def)
  qed
  then show ?thesis
    using assms(2) colon bracket by (simp add: parse_policy_updater_response_def response_text_def add.assoc split: if_splits)
qed

theorem scanner_accepts_lists_witness:
  "parse_policy_updater_response (''response : [ '' @ [quote] @ ''ab'' @ [quote] @ '' , '' @ [quote] @ ''c'' @ [quote] @ '']}'') 8 24 = Some (0, Some 24)"
proof -
  have "parse_policy_updater_response (''response'' @ response_text 1 1 [(1, ''ab'', 1), (1, ''c'', 0)] @ ''}'') (length ''response'') 24 =
      Some (0, Some 24)"
    by (subst scanner_accepts_lists) (simp_all add: response_text_def)
  then show ?thesis by (simp add: response_text_def numeral_eq_Suc)
qed

end
