(* ===== verification/Cloud_Dump.thy ===== *)
theory Cloud_Dump
  imports Data_Dumper
begin

text \<open>
  The data dumper when it is built to send its documents (\<open>DUMP_TO_CLOUD\<close> in \<open>data_dumper/data_dumper.c\<close>): besides the file, each document
  is sent as text to the configured address. \<open>print\<close> is the text that the JSON library makes of a document.
\<close>

section \<open>Sending\<close>

datatype send_call = SendConnect bytes nat | SendWrite bytes | SendClose

text \<open>\<open>socket_send_string\<close>: \<open>htons\<close> keeps 16 bits of the port. A socket that could not be created is used all the
  same, so that the connection fails; what \<open>write\<close> returns is not looked at.\<close>

definition socket_send_string :: "bool \<Rightarrow> bool \<Rightarrow> bytes \<Rightarrow> ('f, 'j, 'w) datadumper \<Rightarrow> send_call list" where
  "socket_send_string created connected data dd =
     [SendConnect (cstr (dd_ipaddr dd)) (nat (dd_ipport dd mod 65536))] @
     (if created \<and> connected then [SendWrite data] else []) @ [SendClose]"

text \<open>\<open>datadumper_dump_if_needed\<close> with the calls for the document that is dumped, whose text is made while it is there;
  \<open>null\<close> is the text for no document.\<close>

definition datadumper_dump_to_cloud ::
  "'j fjson \<Rightarrow> ('j option \<Rightarrow> bytes) \<Rightarrow> ('f \<Rightarrow> 'w \<Rightarrow> 'j \<times> 'w) \<Rightarrow> (int \<Rightarrow> bytes) \<Rightarrow> config_manager \<Rightarrow> bytes \<Rightarrow> bool \<Rightarrow> bool \<Rightarrow> int \<Rightarrow> bool
    \<Rightarrow> int \<Rightarrow> ('f, 'j, 'w) datadumper \<Rightarrow> (int \<times> send_call list \<times> ('f, 'j, 'w) datadumper) option" where
  "datadumper_dump_to_cloud fj print run file_name cfg junk created connected now locked dump_period_s dd = do {
     (did_dump, dd') \<leftarrow> datadumper_dump_if_needed fj run file_name cfg junk now locked dump_period_s dd;
     Some (did_dump,
       if did_dump = 1 then
         socket_send_string created connected (print (case dd_root dd of RootLive root \<Rightarrow> Some root | _ \<Rightarrow> None)) dd
       else [], dd')
   }"

section \<open>Properties\<close>

text \<open>The texts that are sent, in order.\<close>

definition sent :: "send_call list \<Rightarrow> bytes list" where
  "sent calls = concat (map (\<lambda>c. case c of SendWrite t \<Rightarrow> [t] | _ \<Rightarrow> []) calls)"

fun cloud_calls ::
  "'j fjson \<Rightarrow> ('j option \<Rightarrow> bytes) \<Rightarrow> ('f \<Rightarrow> 'w \<Rightarrow> 'j \<times> 'w) \<Rightarrow> (int \<Rightarrow> bytes) \<Rightarrow> config_manager \<Rightarrow> bytes \<Rightarrow> int \<Rightarrow> (int \<times> bool) list
    \<Rightarrow> ('f, 'j, 'w) datadumper \<Rightarrow> (send_call list \<times> ('f, 'j, 'w) datadumper) option" where
  "cloud_calls fj print run file_name cfg junk period [] dd = Some ([], dd)"
| "cloud_calls fj print run file_name cfg junk period ((now, locked) # ts) dd = do {
     (_, calls, dd) \<leftarrow> datadumper_dump_to_cloud fj print run file_name cfg junk True True now locked period dd;
     (more, dd) \<leftarrow> cloud_calls fj print run file_name cfg junk period ts dd;
     Some (calls @ more, dd)
   }"

lemma sent_append: "sent (a @ b) = sent a @ sent b"
  by (simp add: sent_def)

lemma init_live:
  "datadumper_init fj run cfg junk now dd = Some dd' \<Longrightarrow> dd_files dd' = dd_files dd \<and> (\<exists>root. dd_root dd' = RootLive root)"
  by (auto simp: datadumper_init_def call_all_filler_callbacks_def Let_def split_beta split: bind_splits option.splits if_splits)

text \<open>
  While the server can be reached, over any sequence of calls from the threads, what is sent are exactly the documents that are
  written to files, each once and in the same order.
\<close>

theorem cloud_gets_the_files:
  assumes "dd_root dd = RootLive root" "cloud_calls fj print run file_name cfg junk period ts dd = Some (calls, dd')"
  shows "\<exists>new. dd_files dd' = dd_files dd @ new \<and> sent calls = map (\<lambda>f. print (Some (snd f))) new"
  using assms
proof (induction ts arbitrary: dd root calls)
  case Nil
  then show ?case by (simp add: sent_def)
next
  case (Cons t ts)
  obtain now locked where t: "t = (now, locked)" by (cases t)
  obtain r c dd1 calls' where step: "datadumper_dump_to_cloud fj print run file_name cfg junk True True now locked period dd = Some (r, c, dd1)"
    and rest: "cloud_calls fj print run file_name cfg junk period ts dd1 = Some (calls', dd')" and calls: "calls = c @ calls'"
    using Cons.prems(2) t by (auto split: bind_splits)
  have "\<exists>root1 new1. dd_root dd1 = RootLive root1 \<and> dd_files dd1 = dd_files dd @ new1 \<and> sent c = map (\<lambda>f. print (Some (snd f))) new1"
    using step Cons.prems(1) init_live
    by (fastforce simp: datadumper_dump_to_cloud_def datadumper_dump_if_needed_def socket_send_string_def sent_def split: bind_splits if_splits)
  then show ?case using Cons.IH [OF _ rest] calls by (fastforce simp: sent_append)
qed

theorem cloud_gets_the_files_witness:
  "\<exists>calls dd. cloud_calls list_json (\<lambda>j. if j = Some (JObj []) then ''{}'' else ''x'') sample_run (\<lambda>t. []) g_config_zero [] 6 [(106, True)]
       ((datadumper_zero 5 :: (nat, jval, nat) datadumper)\<lparr>dd_started := 100, dd_root := RootLive (JObj [])\<rparr>) = Some (calls, dd) \<and>
     (\<exists>new. dd_files dd = new \<and> sent calls = map (\<lambda>f. (\<lambda>j. if j = Some (JObj []) then ''{}'' else ''x'') (Some (snd f))) new)"
proof -
  let ?d = "(datadumper_zero 5 :: (nat, jval, nat) datadumper)\<lparr>dd_started := 100, dd_root := RootLive (JObj [])\<rparr>"
  let ?print = "\<lambda>j. if j = Some (JObj []) then ''{}'' else ''x''"
  obtain calls dd where run: "cloud_calls list_json ?print sample_run (\<lambda>t. []) g_config_zero [] 6 [(106, True)] ?d = Some (calls, dd)"
    by (simp add: datadumper_dump_to_cloud_def datadumper_dump_if_needed_def datadumper_init_def zero_config_missing
        call_all_filler_callbacks_def datadumper_zero_def)
  have "dd_files ?d = []" by (simp add: datadumper_zero_def)
  with cloud_gets_the_files [OF _ run, of "JObj []"] run show ?thesis by auto
qed

end
