(* ===== verification/Serial_Line.thy ===== *)
theory Serial_Line
  imports Word_Flags
begin

unbundle bit_operations_syntax

text \<open>
  The settings of a serial line, which the GPS receiver and the Modbus driver have in two copies
  (\<open>set_interface_attribs\<close> and \<open>set_blocking\<close> in \<open>plugins/pip/gps/pip_plugin_gps.c\<close> and
  \<open>plugins/pip/modbus/modbus.c\<close>), with the structure and the flags of \<open>termios.h\<close> as Linux has them. A line
  is \<open>None\<close> where \<open>tcgetattr\<close> fails; \<open>accepted\<close> is the outcome of \<open>tcsetattr\<close>.
\<close>

section \<open>Settings\<close>

record termios =
  c_iflag :: "32 word"
  c_oflag :: "32 word"
  c_cflag :: "32 word"
  c_lflag :: "32 word"
  c_vmin :: "8 word"
  c_vtime :: "8 word"
  c_ispeed :: "32 word"
  c_ospeed :: "32 word"

abbreviation (input) IGNBRK :: "32 word" where "IGNBRK \<equiv> 0x1"
abbreviation (input) IXON :: "32 word" where "IXON \<equiv> 0x400"
abbreviation (input) IXANY :: "32 word" where "IXANY \<equiv> 0x800"
abbreviation (input) IXOFF :: "32 word" where "IXOFF \<equiv> 0x1000"
abbreviation (input) CSIZE :: "32 word" where "CSIZE \<equiv> 0x30"
abbreviation (input) CS8 :: "32 word" where "CS8 \<equiv> 0x30"
abbreviation (input) CSTOPB :: "32 word" where "CSTOPB \<equiv> 0x40"
abbreviation (input) CREAD :: "32 word" where "CREAD \<equiv> 0x80"
abbreviation (input) PARENB :: "32 word" where "PARENB \<equiv> 0x100"
abbreviation (input) PARODD :: "32 word" where "PARODD \<equiv> 0x200"
abbreviation (input) CLOCAL :: "32 word" where "CLOCAL \<equiv> 0x800"
abbreviation (input) CRTSCTS :: "32 word" where "CRTSCTS \<equiv> 0x80000000"
abbreviation (input) B4800 :: "32 word" where "B4800 \<equiv> 0xC"
abbreviation (input) B115200 :: "32 word" where "B115200 \<equiv> 0x1002"

definition set_interface_attribs :: "bool \<Rightarrow> termios option \<Rightarrow> 32 word \<Rightarrow> 32 word \<Rightarrow> int \<times> termios option" where
  "set_interface_attribs accepted line speed parity =
     (case line of
        None \<Rightarrow> (- 1, line)
      | Some tty \<Rightarrow>
          (let tty = tty\<lparr>c_ospeed := speed\<rparr>;
               tty = tty\<lparr>c_ispeed := speed\<rparr>;
               tty = tty\<lparr>c_cflag := (c_cflag tty AND NOT CSIZE) OR CS8\<rparr>;
               tty = tty\<lparr>c_iflag := c_iflag tty AND NOT IGNBRK\<rparr>;
               tty = tty\<lparr>c_lflag := 0\<rparr>;
               tty = tty\<lparr>c_oflag := 0\<rparr>;
               tty = tty\<lparr>c_vmin := 0\<rparr>;
               tty = tty\<lparr>c_vtime := 5\<rparr>;
               tty = tty\<lparr>c_iflag := c_iflag tty AND NOT (IXON OR IXOFF OR IXANY)\<rparr>;
               tty = tty\<lparr>c_cflag := c_cflag tty OR (CLOCAL OR CREAD)\<rparr>;
               tty = tty\<lparr>c_cflag := c_cflag tty AND NOT (PARENB OR PARODD)\<rparr>;
               tty = tty\<lparr>c_cflag := c_cflag tty OR parity\<rparr>;
               tty = tty\<lparr>c_cflag := c_cflag tty AND NOT CSTOPB\<rparr>;
               tty = tty\<lparr>c_cflag := c_cflag tty AND NOT CRTSCTS\<rparr>
           in if accepted then (0, Some tty) else (- 1, line)))"

definition set_blocking :: "bool \<Rightarrow> termios option \<Rightarrow> bool \<Rightarrow> termios option" where
  "set_blocking accepted line should_block =
     (case line of
        None \<Rightarrow> None
      | Some tty \<Rightarrow>
          (let tty = tty\<lparr>c_vmin := (if should_block then 1 else 0)\<rparr>;
               tty = tty\<lparr>c_vtime := 5\<rparr>
           in if accepted then Some tty else line))"

text \<open>
  What \<open>read\<close> returns on a line without canonical input, for the bytes that have arrived by the time it returns, if any, which may be a part of
  what is sent: with \<open>VMIN\<close>
  above zero it waits for the first byte without limit, since the time \<open>VTIME\<close> starts to run only
  with this byte (\<open>None\<close>); else it returns without data when the time is over.
\<close>

definition tty_read :: "termios \<Rightarrow> nat \<Rightarrow> 'b list \<Rightarrow> 'b list option" where
  "tty_read tty count arriving = (if arriving = [] then (if c_vmin tty = 0 then Some [] else None) else Some (take count arriving))"

section \<open>Properties\<close>

lemma serial_flags:
  "IXON = push_bit 10 1" "IXANY = push_bit 11 1" "IXOFF = push_bit 12 1"
  "CSIZE = push_bit 4 1 OR push_bit 5 1" "CSTOPB = push_bit 6 1" "CREAD = push_bit 7 1" "PARENB = push_bit 8 1"
  "PARODD = push_bit 9 1" "CRTSCTS = push_bit 31 1"
  by simp_all

lemma serial_flag_bits:
  "bit IGNBRK n = (n = 0)" "bit IXON n = (n = 10)" "bit IXANY n = (n = 11)" "bit IXOFF n = (n = 12)"
  "bit CSIZE n = (n = 4 \<or> n = 5)" "bit CLOCAL n = (n = 11)" "bit CSTOPB n = (n = 6)" "bit CREAD n = (n = 7)" "bit PARENB n = (n = 8)"
  "bit PARODD n = (n = 9)" "bit CRTSCTS n = (n = 31)"
  unfolding serial_flags bit_or_iff bit_single bit_1_iff by simp_all

text \<open>The flags that the setting clears and sets.\<close>

definition eight_n_one :: "32 word \<Rightarrow> termios \<Rightarrow> termios \<Rightarrow> bool" where
  "eight_n_one speed old new \<longleftrightarrow> c_ospeed new = speed \<and> c_ispeed new = speed \<and> c_lflag new = 0 \<and> c_oflag new = 0 \<and>
     (\<forall>n<32. bit (c_iflag new) n = (bit (c_iflag old) n \<and> n \<notin> {0, 10, 11, 12})) \<and>
     (\<forall>n<32. bit (c_cflag new) n = (n \<in> {4, 5, 7, 11} \<or> bit (c_cflag old) n \<and> n \<notin> {6, 8, 9, 31}))"

text \<open>
  The settings of a line that is accepted, whatever they were before: the given speed, eight bits, no
  parity, one stop bit, no flow control, receiver on, raw input and output, and every other flag as it was. With
  blocking on, a read of a silent line does not return, although the comments speak of a
  timeout of half a second; only with blocking off it does.
\<close>

theorem serial_line_settings:
  assumes "set_interface_attribs True (Some old) speed 0 = (code, line)"
  shows "code = 0 \<and> (\<exists>new. set_blocking True line block = Some new \<and> eight_n_one speed old new \<and>
    (tty_read new count ([] :: 'b list) = None \<longleftrightarrow> block) \<and> tty_read new count ((b :: 'b) # bs) = Some (take count (b # bs)))"
proof -
  let ?new = "(the line)\<lparr>c_vmin := (if block then 1 else 0), c_vtime := 5\<rparr>"
  have line: "line = snd (set_interface_attribs True (Some old) speed 0)" using assms by simp
  have i: "c_iflag (the line) = (c_iflag old AND NOT IGNBRK) AND NOT (IXON OR IXOFF OR IXANY)"
    and c: "c_cflag (the line) = (((((c_cflag old AND NOT CSIZE) OR CS8) OR (CLOCAL OR CREAD)) AND NOT (PARENB OR PARODD) OR 0) AND NOT CSTOPB) AND NOT CRTSCTS"
    unfolding line set_interface_attribs_def Let_def
    by (cases old, simp_all only: option.case if_True snd_conv option.sel termios.update_convs termios.select_convs)+
  have rest: "code = 0" "line = Some (the line)" "c_ospeed (the line) = speed" "c_ispeed (the line) = speed" "c_lflag (the line) = 0" "c_oflag (the line) = 0"
    using assms by (auto simp: set_interface_attribs_def Let_def)
  have "bit (c_iflag (the line)) n = (bit (c_iflag old) n \<and> n \<notin> {0, 10, 11, 12})" if "n < 32" for n
    using that unfolding i bit_and_iff bit_or_iff bit_not_iff serial_flag_bits by auto
  moreover have "bit (c_cflag (the line)) n = (n \<in> {4, 5, 7, 11} \<or> bit (c_cflag old) n \<and> n \<notin> {6, 8, 9, 31})" if "n < 32" for n
    using that unfolding c bit_and_iff bit_or_iff bit_not_iff serial_flag_bits by auto
  ultimately have "eight_n_one speed old ?new" using rest by (simp add: eight_n_one_def)
  moreover have "set_blocking True line block = Some ?new"
    unfolding set_blocking_def by (subst rest(2)) (simp add: Let_def)
  ultimately show ?thesis using rest(1) by (auto simp: tty_read_def)
qed

theorem serial_line_settings_witness:
  "\<exists>new. set_blocking True (snd (set_interface_attribs True (Some \<lparr>c_iflag = 0x500, c_oflag = 5, c_cflag = 0xBF, c_lflag = 0x8A3B,
       c_vmin = 1, c_vtime = 0, c_ispeed = 0xF, c_ospeed = 0xF\<rparr>) B4800 0)) True = Some new \<and>
     c_ispeed new = B4800 \<and> tty_read new 100 ([] :: char list) = None"
proof -
  let ?old = "\<lparr>c_iflag = 0x500, c_oflag = 5, c_cflag = 0xBF, c_lflag = 0x8A3B, c_vmin = 1, c_vtime = 0, c_ispeed = 0xF, c_ospeed = 0xF\<rparr>"
  have "set_interface_attribs True (Some ?old) B4800 0 =
      (fst (set_interface_attribs True (Some ?old) B4800 0), snd (set_interface_attribs True (Some ?old) B4800 0))" by simp
  from serial_line_settings [OF this, where block = True and count = 100 and 'b = char] show ?thesis
    unfolding eight_n_one_def by blast
qed

end
