(* ===== verification/Modbus_Life.thy ===== *)
theory Modbus_Life
  imports Modbus Serial_Line Config_Manager Data_Dumper
begin

text \<open>
  The life of the Modbus receiver (\<open>plugins/pip/modbus/modbus.c\<close>, \<open>pip_plugin_modbus.c\<close>): opening and setting the serial
  line, the start, the thread over its rounds, and the stop, which waits for the thread. \<open>open_fd\<close> is the result of
  \<open>open\<close>, \<open>line\<close> the settings of the line, and what arrives from the slave a function of the register.
\<close>

section \<open>The driver\<close>

abbreviation (input) MODBUS_DEVICE_NAME_LEN :: nat where "MODBUS_DEVICE_NAME_LEN \<equiv> 127"
abbreviation (input) MODBUS_SERIAL_DEV_LEN :: nat where "MODBUS_SERIAL_DEV_LEN \<equiv> 64"

record modbus_t =
  device_name :: bytes
  mb_fd :: int
  mb_line :: "termios option"

text \<open>The result is missing where the function ends without a \<open>return\<close>.\<close>

definition modbus_init :: "int \<Rightarrow> bool \<Rightarrow> bool \<Rightarrow> termios option \<Rightarrow> bytes \<Rightarrow> modbus_t \<Rightarrow> (int option \<times> modbus_t) option" where
  "modbus_init open_fd accepted accepted' line serial_device modbus =
     (if NUL \<notin> set serial_device then None
      else let modbus = modbus\<lparr>device_name := strncpy_bytes serial_device MODBUS_DEVICE_NAME_LEN @
                 drop MODBUS_DEVICE_NAME_LEN (device_name modbus), mb_fd := open_fd, mb_line := None\<rparr>
           in Some (if open_fd < 0 then (Some (- 1), modbus)
                else let (_, line) = set_interface_attribs accepted line B115200 0;
                         line = set_blocking accepted' line True
                     in (None, modbus\<lparr>mb_line := line\<rparr>)))"

text \<open>\<open>read\<close> in \<open>modbus_read_registers\<close>: on a descriptor below zero it fails and leaves the buffer; on a
  line that is no terminal it returns what there is.\<close>

definition modbus_arrives :: "modbus_t \<Rightarrow> (16 word \<Rightarrow> 8 word list) \<Rightarrow> 16 word \<Rightarrow> 8 word list option" where
  "modbus_arrives modbus arriving address =
     (if mb_fd modbus < 0 then Some []
      else case mb_line modbus of
          None \<Rightarrow> Some (take MODBUS_READ_BUFF_LEN (arriving address))
        | Some tty \<Rightarrow> tty_read tty MODBUS_READ_BUFF_LEN (arriving address))"


section \<open>The plugin\<close>

record modbus_plugin =
  mp_serial_device :: bytes
  mp_modbus :: modbus_t
  mp_wanted :: modbus_wanted

definition modbusreceiver_init ::
  "'f \<Rightarrow> config_manager \<Rightarrow> int \<Rightarrow> bool \<Rightarrow> bool \<Rightarrow> termios option \<Rightarrow> modbus_wanted \<Rightarrow> modbus_plugin \<Rightarrow> ('f, 'j, 'w) datadumper
    \<Rightarrow> (modbus_plugin \<times> ('f, 'j, 'w) datadumper) option" where
  "modbusreceiver_init filler cfg open_fd accepted accepted' line dataset p dd = do {
     (_, serial_device) \<leftarrow> config_manager_get_option_string cfg ''modbus'' ''serial_device'' (mp_serial_device p) MODBUS_SERIAL_DEV_LEN;
     let dd = datadumper_add_module_init_cb (Some filler) True ''modbus_data'' dd;
     (_, modbus) \<leftarrow> modbus_init open_fd accepted accepted' line serial_device (mp_modbus p);
     Some (\<lparr>mp_serial_device = serial_device, mp_modbus = modbus, mp_wanted = dataset\<rparr>, dd)
   }"

definition modbusreceiver_start :: "bool \<Rightarrow> int" where
  "modbusreceiver_start created = (if created then 0 else - 1)"

text \<open>
  One round of the thread. A read that does not return leaves the thread waiting there (\<open>Inl\<close>), with what it has
  stored before; the signals that are reached are those before it.
\<close>

definition reached_signals :: "modbus_wanted \<Rightarrow> (16 word \<Rightarrow> bool) \<Rightarrow> bool \<times> modbus_wanted" where
  "reached_signals want returns =
     (let g1 = (want_rpm want \<longrightarrow> returns 0x107);
          g2 = (g1 \<and> (want_brake_1 want \<longrightarrow> returns 0x010f));
          g3 = (g2 \<and> (want_brake_2 want \<longrightarrow> returns 0x0110));
          g4 = (g3 \<and> (want_throttle want \<longrightarrow> returns 0x010e))
      in (g4, \<lparr>want_rpm = want_rpm want \<and> g1, want_brake_1 = want_brake_1 want \<and> g2, want_brake_2 = want_brake_2 want \<and> g3,
            want_throttle = want_throttle want \<and> g4\<rparr>))"

definition modbus_thread_round ::
  "modbus_t \<Rightarrow> modbus_wanted \<Rightarrow> (16 word \<Rightarrow> 8 word list) \<Rightarrow> modbus_objects \<Rightarrow> (modbus_objects + modbus_objects) option" where
  "modbus_thread_round modbus want arriving ob = do {
     let (complete, reached) = reached_signals want (\<lambda>a. modbus_arrives modbus arriving a \<noteq> None);
     ob \<leftarrow> modbus_round reached (\<lambda>a. case modbus_arrives modbus arriving a of None \<Rightarrow> [] | Some bs \<Rightarrow> bs) ob;
     Some (if complete then Inr ob else Inl ob)
   }"

text \<open>\<open>thread_loop\<close> over its rounds, until \<open>end_thread\<close> is seen at the end of the list. The flag of a round says whether
  \<open>datadumper_dump_if_needed\<close> has built a new document.\<close>

primrec modbus_thread ::
  "modbus_t \<Rightarrow> modbus_wanted \<Rightarrow> ((16 word \<Rightarrow> 8 word list) \<times> bool) list \<Rightarrow> modbus_objects \<Rightarrow> (modbus_objects + modbus_objects) option" where
  "modbus_thread modbus want [] ob = Some (Inr ob)"
| "modbus_thread modbus want (r # rounds) ob = do {
     res \<leftarrow> modbus_thread_round modbus want (fst r) ob;
     (case res of
        Inl ob \<Rightarrow> Some (Inl ob)
      | Inr ob \<Rightarrow> modbus_thread modbus want rounds (if snd r then fst (modbus_json_filler want ob) else ob))
   }"


section \<open>Lemmas\<close>


text \<open>The objects of all wanted signals exist.\<close>

definition objects_ready :: "modbus_wanted \<Rightarrow> modbus_objects \<Rightarrow> bool" where
  "objects_ready want ob \<longleftrightarrow> (want_rpm want \<longrightarrow> obj_rpm ob \<noteq> None) \<and> (want_brake_1 want \<longrightarrow> obj_brake_1 ob \<noteq> None) \<and>
     (want_brake_2 want \<longrightarrow> obj_brake_2 ob \<noteq> None) \<and> (want_throttle want \<longrightarrow> obj_throttle ob \<noteq> None)"




lemma read_nothing: "\<exists>r request. modbus_read_registers [] 1 address 1 [data] = Some (r, [data], request)"
proof -
  have "\<exists>request. modbus_request 1 address 1 = Some request" by (simp add: modbus_request_def calculate_crc_def)
  then show ?thesis
    by (auto simp: modbus_read_registers_def buf_blit_def buf_get_def calculate_crc_def Let_def)
qed



lemma read_signal_silent:
  assumes "line address = []"
  shows "read_signal line wanted address data ob mk =
     (if \<not> wanted then Some (data, ob) else if ob = None then None else Some (data, Some (Some (mk data))))"
  using read_nothing [of address data] assms by (auto simp: read_signal_def split: option.splits)









section \<open>Properties\<close>



definition no_objects :: modbus_objects where
  "no_objects = \<lparr>obj_rpm = None, obj_brake_1 = None, obj_brake_2 = None, obj_throttle = None\<rparr>"

definition rpm_only :: modbus_wanted where
  "rpm_only = \<lparr>want_rpm = True, want_brake_1 = False, want_brake_2 = False, want_throttle = False\<rparr>"


text \<open>The objects that are reported without a device.\<close>

definition absent_objects :: "modbus_wanted \<Rightarrow> modbus_objects \<Rightarrow> modbus_objects" where
  "absent_objects want ob =
     \<lparr>obj_rpm = (if want_rpm want then Some (Some (Plain 0xFFFF)) else None),
      obj_brake_1 = (if want_brake_1 want then Some (Some (Voltage 0xFFFF)) else None),
      obj_brake_2 = (if want_brake_2 want then Some (Some (Voltage 0xFFFF)) else obj_brake_2 ob),
      obj_throttle = (if want_throttle want then Some (Some (Voltage 0xFFFF)) else None)\<rparr>"

text \<open>The objects before a round: those that are not wanted are as the filler has left them.\<close>

definition filled_like :: "modbus_wanted \<Rightarrow> modbus_objects \<Rightarrow> modbus_objects \<Rightarrow> bool" where
  "filled_like want ob ob' \<longleftrightarrow> objects_ready want ob' \<and> (\<not> want_rpm want \<longrightarrow> obj_rpm ob' = None) \<and>
     (\<not> want_brake_1 want \<longrightarrow> obj_brake_1 ob' = None) \<and> (\<not> want_brake_2 want \<longrightarrow> obj_brake_2 ob' = obj_brake_2 ob) \<and>
     (\<not> want_throttle want \<longrightarrow> obj_throttle ob' = None)"

lemma filled_filler:
  assumes "want_brake_1 want \<longrightarrow> want_brake_2 want" "obj_brake_2 ob' = obj_brake_2 ob \<or> want_brake_2 want"
  shows "filled_like want ob (fst (modbus_json_filler want ob'))"
  using assms by (auto simp: filled_like_def objects_ready_def modbus_json_filler_def)

lemma filled_absent: "filled_like want ob (absent_objects want ob)"
  by (simp add: filled_like_def objects_ready_def absent_objects_def)

lemma absent_round:
  assumes "mb_fd modbus < 0" "filled_like want ob ob'"
  shows "modbus_thread_round modbus want arriving ob' = Some (Inr (absent_objects want ob))"
proof -
  have silent: "modbus_arrives modbus arriving = (\<lambda>_. Some [])" using assms(1) by (simp add: modbus_arrives_def fun_eq_iff)
  have "reached_signals want (\<lambda>a. True) = (True, want)" by (cases want) (simp add: reached_signals_def)
  moreover have "modbus_round want (\<lambda>_. []) ob' = Some (absent_objects want ob)"
    using assms(2)
    by (cases "want_rpm want"; cases "want_brake_1 want"; cases "want_brake_2 want"; cases "want_throttle want")
      (simp_all add: modbus_round_def read_signal_silent filled_like_def objects_ready_def absent_objects_def)
  ultimately show ?thesis unfolding modbus_thread_round_def silent by simp
qed

lemma absent_thread:
  assumes "mb_fd modbus < 0" "want_brake_1 want \<longrightarrow> want_brake_2 want"
  shows "filled_like want ob ob' \<Longrightarrow>
    modbus_thread modbus want (rounds @ [(arriving, False)]) ob' = Some (Inr (absent_objects want ob))"
proof (induction rounds arbitrary: ob')
  case Nil
  then show ?case using absent_round [OF assms(1)] by simp
next
  case (Cons r rounds)
  have "filled_like want ob (if snd r then fst (modbus_json_filler want (absent_objects want ob)) else absent_objects want ob)"
    using filled_absent filled_filler [OF assms(2), of "absent_objects want ob" ob] by (simp add: absent_objects_def)
  then show ?case using absent_round [OF assms(1) Cons.prems] Cons.IH by simp
qed

text \<open>
  C40. When the device cannot be opened, the receiver goes on all the same, since neither the result of the initialisation nor that
  of a read is looked at. After every number of rounds, with any dumps in between, the wanted motor speed has the
  value 65535, and each wanted voltage 65535 / 4096. Only when \<open>brake_1_voltage\<close> is wanted without \<open>brake_2_voltage\<close>, the first
  round uses a NULL object.
\<close>

theorem modbus_absent_device:
  assumes "modbus_init open_fd accepted accepted' line serial_device mb = Some (res, modbus)" "open_fd < 0"
  shows "res = Some (- 1) \<and> modbus_thread modbus want (rounds @ [(arriving, False)]) (fst (modbus_json_filler want ob)) =
    (if want_brake_1 want \<and> \<not> want_brake_2 want then None else Some (Inr (absent_objects want ob)))"
proof -
  have m: "mb_fd modbus < 0" "res = Some (- 1)"
    using assms by (auto simp: modbus_init_def Let_def split: if_splits)
  show ?thesis
  proof (cases "want_brake_1 want \<and> \<not> want_brake_2 want")
    case True
    have silent: "modbus_arrives modbus arriving = (\<lambda>_. Some [])" for arriving using m(1) by (simp add: modbus_arrives_def fun_eq_iff)
    have "reached_signals want (\<lambda>a. True) = (True, want)" by (cases want) (simp add: reached_signals_def)
    then have "modbus_thread_round modbus want arriving (fst (modbus_json_filler want ob)) = None" for arriving
      using True unfolding modbus_thread_round_def silent
      by (cases "want_rpm want") (simp_all add: modbus_round_def modbus_json_filler_def read_signal_silent)
    then show ?thesis using True m(2) by (cases rounds) simp_all
  next
    case False
    then have "filled_like want ob (fst (modbus_json_filler want ob))" by (intro filled_filler) auto
    from absent_thread [OF m(1) _ this, of rounds arriving] False m(2) show ?thesis by auto
  qed
qed

theorem modbus_absent_device_witness:
  "\<exists>modbus. modbus_init (- 1) True True None (''/dev/ttyUSB0'' @ [NUL]) \<lparr>device_name = replicate 128 NUL, mb_fd = 0, mb_line = None\<rparr> = Some (Some (- 1), modbus) \<and>
     modbus_thread modbus rpm_only [(\<lambda>_. [], False), (\<lambda>_. [], True), (\<lambda>_. [], False)] (fst (modbus_json_filler rpm_only no_objects)) =
       Some (Inr (no_objects\<lparr>obj_rpm := Some (Some (Plain 0xFFFF))\<rparr>))"
proof -
  let ?mb = "\<lparr>device_name = replicate 128 NUL, mb_fd = 0, mb_line = None\<rparr>"
  obtain modbus where i: "modbus_init (- 1) True True None (''/dev/ttyUSB0'' @ [NUL]) ?mb = Some (Some (- 1), modbus)"
    by (auto simp: modbus_init_def Let_def)
  from modbus_absent_device [OF i, of rpm_only "[(\<lambda>_. [], False), (\<lambda>_. [], True)]" "\<lambda>_. []" no_objects] i show ?thesis
    by (auto simp: rpm_only_def absent_objects_def no_objects_def)
qed

end
