(* ===== verification/Gps_Life.thy ===== *)
theory Gps_Life
  imports Gps_Receiver Minmea_Sentences Serial_Line
begin

text \<open>
  The life of the GPS receiver (\<open>plugins/pip/gps/pip_plugin_gps.c\<close>): opening and setting the serial line, the
  thread with reads that may wait, the start and the end; and the three functions that build a
  record from a sentence, which nothing calls.
\<close>

section \<open>Records\<close>

text \<open>The members of an object, in order: texts, or numbers, of which an unknown one is not a number.\<close>

datatype gps_member = GpsText bytes | GpsNumber "rat option"

definition create_rmc_json_record :: "minmea_sentence_rmc \<Rightarrow> (bytes \<times> gps_member) list option" where
  "create_rmc_json_record frame = do {
     latitude \<leftarrow> minmea_tocoord (rmc_latitude frame);
     longitude \<leftarrow> minmea_tocoord (rmc_longitude frame);
     Some [(''sentence_id'', GpsText ''rmc''), (''latitude'', GpsNumber latitude), (''longitude'', GpsNumber longitude),
       (''speed'', GpsNumber (minmea_tofloat (rmc_speed frame)))]
   }"

text \<open>The time is the empty text.\<close>

definition create_gga_json_record :: "minmea_sentence_gga \<Rightarrow> (bytes \<times> gps_member) list option" where
  "create_gga_json_record frame = do {
     latitude \<leftarrow> minmea_tocoord (gga_latitude frame);
     longitude \<leftarrow> minmea_tocoord (gga_longitude frame);
     Some [(''latitude'', GpsNumber latitude), (''longitude'', GpsNumber longitude), (''time'', GpsText [])]
   }"

definition create_processed_gps_json_record :: "rat \<Rightarrow> rat \<Rightarrow> rat \<Rightarrow> (bytes \<times> gps_member) list" where
  "create_processed_gps_json_record latitude longitude speed =
     [(''latitude'', GpsNumber (Some latitude)), (''longitude'', GpsNumber (Some longitude))] @
     (if speed > 0 then [(''speed'', GpsNumber (Some speed))] else [])"

section \<open>The thread\<close>

text \<open>The loop with reads from a line: \<open>Inl\<close> where a read does not return, \<open>Inr\<close> where the thread has ended.\<close>

primrec gps_read_loop :: "termios \<Rightarrow> (bytes \<times> (nat \<Rightarrow> bool)) list \<Rightarrow> gps_receiver \<Rightarrow> (gps_receiver + gps_receiver) option" where
  "gps_read_loop tty [] g = Some (Inr g)"
| "gps_read_loop tty (r # rs) g =
     (case tty_read tty GPS_READ_BUFF_LEN (fst r) of
        None \<Rightarrow> Some (Inl g)
      | Some buffer \<Rightarrow>
          if buffer = [] then Some (Inr g)
          else if GPS_READ_BUFF_LEN \<le> length buffer then None
          else do {
            let tokens = line_tokens buffer;
            g \<leftarrow> gps_token_loop (zip tokens (map (snd r) [0..<length tokens])) g;
            gps_read_loop tty rs g
          })"

text \<open>The thread from the opening of the line on. When it cannot be opened, \<open>end_thread\<close> is set and the loop is not
  entered. A line that is no terminal is not covered.\<close>

definition gps_thread :: "int \<Rightarrow> bool \<Rightarrow> bool \<Rightarrow> termios \<Rightarrow> (bytes \<times> (nat \<Rightarrow> bool)) list \<Rightarrow> gps_receiver \<Rightarrow> (gps_receiver + gps_receiver) option" where
  "gps_thread open_fd accepted accepted' line rs g =
     (if open_fd < 0 then Some (Inr g)
      else case set_blocking accepted' (snd (set_interface_attribs accepted (Some line) B4800 0)) True of
          None \<Rightarrow> None
        | Some tty \<Rightarrow> gps_read_loop tty rs g)"

definition gpsreceiver_start :: "bool \<Rightarrow> int" where
  "gpsreceiver_start created = (if created then 0 else - 2)"

text \<open>\<open>gpsreceiver_end\<close>: \<open>None\<close> where it waits for the thread without end.\<close>

definition gpsreceiver_end :: "gps_receiver + gps_receiver \<Rightarrow> int option" where
  "gpsreceiver_end thread = (case thread of Inl _ \<Rightarrow> None | Inr _ \<Rightarrow> Some 0)"

section \<open>Properties\<close>

lemma read_loop_runs:
  assumes "c_vmin tty \<noteq> 0"
  shows "gps_thread_loop (map (\<lambda>r. ReadData (fst r) (snd r)) rs) g = Some g' \<Longrightarrow> \<forall>r\<in>set rs. fst r \<noteq> [] \<Longrightarrow>
    gps_read_loop tty (rs @ later) g = gps_read_loop tty later g'"
proof (induction rs arbitrary: g)
  case (Cons r rs)
  then have "length (fst r) < 100" "fst r \<noteq> []" by (auto split: if_splits)
  then show ?case using Cons by (auto simp: tty_read_def Let_def split: bind_splits if_splits)
qed simp

text \<open>
  After data that the receiver can work on, the end of the receiver returns exactly when no further read waits: with
  blocking reads, a receiver without reception keeps the program from ending, although the comments speak of a
  timeout of half a second. Without the device the end always returns.
\<close>

theorem gps_end_returns:
  assumes "gps_thread_loop (map (\<lambda>r. ReadData (fst r) (snd r)) rs) g = Some g'" "\<forall>r\<in>set rs. fst r \<noteq> []"
  shows "\<exists>e e'. gps_thread fd True True line rs g = Some e \<and> gpsreceiver_end e = Some 0 \<and>
    gps_thread fd True True line (rs @ [([], refilled)]) g = Some e' \<and> (gpsreceiver_end e' = None \<longleftrightarrow> 0 \<le> fd)"
proof (cases "fd < 0")
  case True
  then show ?thesis by (simp add: gps_thread_def gpsreceiver_end_def)
next
  case False
  obtain tty where tty: "set_blocking True (snd (set_interface_attribs True (Some line) B4800 0)) True = Some tty" "c_vmin tty = 1"
    by (auto simp: set_blocking_def set_interface_attribs_def Let_def)
  have "gps_read_loop tty rs g = Some (Inr g')" "gps_read_loop tty (rs @ [([], refilled)]) g = Some (Inl g')"
    using read_loop_runs [OF _ assms, of tty "[]"] read_loop_runs [OF _ assms, of tty "[([], refilled)]"] tty(2)
    by (simp_all add: tty_read_def)
  then show ?thesis using False tty(1) by (simp add: gps_thread_def gpsreceiver_end_def)
qed

theorem gps_end_returns_witness:
  "\<exists>e'. gps_thread 3 True True \<lparr>c_iflag = 0, c_oflag = 5, c_cflag = 0xBF, c_lflag = 0x8A3B, c_vmin = 1, c_vtime = 0, c_ispeed = 0xF, c_ospeed = 0xF\<rparr>
     [([], \<lambda>_. False)] fresh_gps = Some e' \<and> gpsreceiver_end e' = None"
proof -
  let ?line = "\<lparr>c_iflag = 0, c_oflag = 5, c_cflag = 0xBF, c_lflag = 0x8A3B, c_vmin = 1, c_vtime = 0, c_ispeed = 0xF, c_ospeed = 0xF\<rparr>"
  show ?thesis using gps_end_returns [of "[]" fresh_gps fresh_gps 3 ?line "\<lambda>_. False"] by auto
qed

end
