(* ===== verification/Obdii_Query.thy ===== *)
theory Obdii_Query
  imports Obdii Obdii_Daemon
begin

text \<open>
  The calls of the operating system that the OBD-II library makes (\<open>plugins/pip/obdii/ejv_obdii/OBDIICommunication.c\<close>):
  the socket to the daemon, the arrival of a descriptor, and a query under the lock of a shared socket, alone and
  with other clients.
\<close>

section \<open>The socket to the daemon\<close>

text \<open>The outcomes of the system calls: the descriptor from \<open>socket\<close>, and whether the later calls succeed, where a missing file counts as
  success of \<open>unlink\<close>.\<close>

record setup_os =
  so_socket :: int
  so_unlink :: bool
  so_bind :: bool
  so_connect :: bool

text \<open>\<open>setupDaemonCommunication\<close> on the static \<open>daemonSocket\<close>: the result, its new value, and the descriptors that were
  opened. None of them is ever closed.\<close>

definition setupDaemonCommunication :: "setup_os \<Rightarrow> int \<Rightarrow> int \<times> int \<times> int list" where
  "setupDaemonCommunication os daemonSocket =
     (if daemonSocket \<noteq> - 1 then (0, daemonSocket, [])
      else let daemonSocket = so_socket os
           in if daemonSocket < 0 then (- 1, - 1, [])
              else if \<not> so_unlink os then (- 1, - 1, [daemonSocket])
              else if \<not> so_bind os then (- 1, - 1, [daemonSocket])
              else if \<not> so_connect os then (- 1, - 1, [daemonSocket])
              else (0, daemonSocket, [daemonSocket]))"

text \<open>\<open>receiveFD\<close>: \<open>message\<close> is \<open>None\<close> when \<open>recvmsg\<close> fails, else the control message, if there is one: without one the
  code uses a NULL pointer. The socket 0 is taken for none.\<close>

definition receiveFD :: "int \<Rightarrow> int option option \<Rightarrow> int \<Rightarrow> (int \<times> int) option" where
  "receiveFD s message fd =
     (if s = 0 then Some (0, fd)
      else case message of
          None \<Rightarrow> Some (- 1, fd)
        | Some None \<Rightarrow> None
        | Some (Some n) \<Rightarrow> Some (0, n))"

section \<open>A query\<close>

datatype query_call = LockEx | Unlock | WriteCommand "8 word list" | Select | ReadAnswer nat

definition LockIfNecessary :: "obdii_socket \<Rightarrow> query_call list" where
  "LockIfNecessary s = (if sk_shared s \<noteq> 0 then [LockEx] else [])"

definition UnlockIfNecessary :: "obdii_socket \<Rightarrow> query_call list" where
  "UnlockIfNecessary s = (if sk_shared s \<noteq> 0 then [Unlock] else [])"

record query_os =
  qo_written :: int
  qo_selected :: int
  qo_read :: "8 word list option"

definition response_length :: "obdii_command \<Rightarrow> nat" where
  "response_length command = (if cmd_length command = VARIABLE_RESPONSE_LENGTH then MAX_ISOTP_PAYLOAD else cmd_length command)"

text \<open>\<open>OBDIIPerformQuery\<close> with the calls it makes on the descriptor.\<close>

definition perform_query :: "query_os \<Rightarrow> obdii_socket option \<Rightarrow> obdii_command \<Rightarrow> (query_call list \<times> obdii_response) option" where
  "perform_query os socket command =
     (case socket of
        None \<Rightarrow> Some ([], no_response)
      | Some s \<Rightarrow>
          (let calls = LockIfNecessary s @ [WriteCommand [cmd_mode command, cmd_pid command]]
           in if qo_written os < 0 \<or> qo_written os \<noteq> 2 then Some (calls @ UnlockIfNecessary s, no_response)
              else let calls = calls @ [Select]
                   in if qo_selected os \<le> 0 then Some (calls @ UnlockIfNecessary s, no_response)
                      else let calls = calls @ [ReadAnswer (response_length command)]
                           in case qo_read os of
                                None \<Rightarrow> Some (calls @ UnlockIfNecessary s, no_response)
                              | Some datagram \<Rightarrow>
                                  let payload = take (response_length command) datagram
                                  in if cmd_length command \<noteq> VARIABLE_RESPONSE_LENGTH \<and> length payload \<noteq> cmd_length command
                                     then Some (calls @ UnlockIfNecessary s, no_response)
                                     else map_option (\<lambda>r. (calls @ UnlockIfNecessary s, r)) (OBDIIDecodeResponseForCommand command payload)))"

section \<open>Several clients\<close>

text \<open>
  Clients that share a socket, each with the calls it has left. A lock of \<open>flock\<close> belongs to the open file description
  and not to the process: it is granted when the file is not locked by another description, and released through any
  descriptor of the one that has it. \<open>desc\<close> gives the description that a client's descriptor refers to, and the
  state is the description that has the lock, and the calls left.
\<close>

type_synonym lock_state = "nat option \<times> (nat \<Rightarrow> query_call list)"

fun granted :: "nat \<Rightarrow> query_call \<Rightarrow> nat option \<Rightarrow> bool" where
  "granted d LockEx holder \<longleftrightarrow> holder = None \<or> holder = Some d"
| "granted d _ holder \<longleftrightarrow> True"

fun after_call :: "nat \<Rightarrow> query_call \<Rightarrow> nat option \<Rightarrow> nat option" where
  "after_call d LockEx holder = Some d"
| "after_call d Unlock holder = (if holder = Some d then None else holder)"
| "after_call d _ holder = holder"

inductive client_step :: "(nat \<Rightarrow> nat) \<Rightarrow> lock_state \<Rightarrow> lock_state \<Rightarrow> bool" for desc where
  call: "left i = c # cs \<Longrightarrow> granted (desc i) c holder \<Longrightarrow> client_step desc (holder, left) (after_call (desc i) c holder, left(i := cs))"

inductive clients_reach :: "(nat \<Rightarrow> nat) \<Rightarrow> (nat \<Rightarrow> query_call list) \<Rightarrow> lock_state \<Rightarrow> bool" for desc prog where
  start: "clients_reach desc prog (None, prog)"
| step: "clients_reach desc prog s \<Longrightarrow> client_step desc s s' \<Longrightarrow> clients_reach desc prog s'"

inductive_cases client_stepE: "client_step desc s s'"

text \<open>A client is in the middle of its query.\<close>

definition in_query :: "(nat \<Rightarrow> query_call list) \<Rightarrow> lock_state \<Rightarrow> nat \<Rightarrow> bool" where
  "in_query prog s i \<longleftrightarrow> snd s i \<noteq> prog i \<and> snd s i \<noteq> []"

section \<open>Properties\<close>

definition locked_query :: "query_call list \<Rightarrow> bool" where
  "locked_query calls \<longleftrightarrow> (\<exists>mid. calls = LockEx # mid @ [Unlock] \<and> mid \<noteq> [] \<and> set mid \<inter> {LockEx, Unlock} = {})"

text \<open>
  A query on a shared socket takes the lock first, releases it last, on every path, and does all its work in
  between; a socket that is not shared is not locked. The response is the one to the datagram that arrives, and an empty one
  when a call fails.
\<close>

theorem query_lock_discipline:
  assumes "perform_query os (Some s) command = Some (calls, response)"
  shows "(sk_shared s \<noteq> 0 \<longrightarrow> locked_query calls) \<and> (sk_shared s = 0 \<longrightarrow> set calls \<inter> {LockEx, Unlock} = {}) \<and>
    OBDIIPerformQuery (if qo_written os = 2 \<and> qo_selected os > 0 then qo_read os else None) command = Some response"
proof -
  let ?w = "WriteCommand [cmd_mode command, cmd_pid command]"
  obtain mid where mid: "calls = LockIfNecessary s @ mid @ UnlockIfNecessary s"
      "mid \<in> {[?w], [?w, Select], [?w, Select, ReadAnswer (response_length command)]}"
    using assms by (auto simp: perform_query_def Let_def split: if_splits option.splits)
  then have "(sk_shared s \<noteq> 0 \<longrightarrow> locked_query calls) \<and> (sk_shared s = 0 \<longrightarrow> set calls \<inter> {LockEx, Unlock} = {})"
    by (auto simp: LockIfNecessary_def UnlockIfNecessary_def locked_query_def)
  moreover have "OBDIIPerformQuery (if qo_written os = 2 \<and> qo_selected os > 0 then qo_read os else None) command = Some response"
    using assms
    by (auto simp: perform_query_def OBDIIPerformQuery_def response_length_def Let_def not_le split: if_splits option.splits)
  ultimately show ?thesis by blast
qed

theorem query_lock_discipline_witness:
  "locked_query [LockEx, WriteCommand [0x01, 0x0C], Select, Unlock] \<and> OBDIIPerformQuery None (OBDIIMode1Commands ! 0x0C) = Some no_response"
proof -
  let ?os = "\<lparr>qo_written = 2, qo_selected = 0, qo_read = None\<rparr>"
  let ?s = "\<lparr>sk_s = 4, sk_shared = 1, sk_ifindex = 1, sk_tid = 0, sk_rid = 0\<rparr>"
  have "perform_query ?os (Some ?s) (OBDIIMode1Commands ! 0x0C) = Some ([LockEx, WriteCommand [0x01, 0x0C], Select, Unlock], no_response)"
    by code_simp
  from query_lock_discipline [OF this] show ?thesis by simp
qed

text \<open>What is left of a locked query.\<close>

lemma locked_suffix:
  assumes "locked_query calls" "suffix (c # cs) calls"
  shows "c # cs = calls \<and> c = LockEx \<and> cs \<noteq> [] \<or> c # cs \<noteq> calls \<and> c = Unlock \<and> cs = [] \<or>
    c # cs \<noteq> calls \<and> c \<notin> {LockEx, Unlock} \<and> cs \<noteq> [] \<and> cs \<noteq> calls"
proof -
  obtain mid where mid: "calls = LockEx # mid @ [Unlock]" "set mid \<inter> {LockEx, Unlock} = {}"
    using assms(1) by (auto simp: locked_query_def)
  obtain pre where pre: "calls = pre @ c # cs" using assms(2) by (auto simp: suffix_def)
  show ?thesis
  proof (cases pre)
    case Nil
    then show ?thesis using mid pre by auto
  next
    case (Cons x pre')
    then have "mid @ [Unlock] = pre' @ c # cs" using mid pre by simp
    then have "cs = [] \<and> c = Unlock \<or> (\<exists>cs'. cs = cs' @ [Unlock] \<and> mid = pre' @ c # cs')"
      by (cases cs rule: rev_cases) auto
    moreover have "length (c # cs) < length calls" using pre Cons by simp
    then have "c # cs \<noteq> calls" "cs \<noteq> calls" by auto
    ultimately show ?thesis using mid(2) by auto
  qed
qed

lemma clients_invariant:
  assumes "\<forall>i. prog i = [] \<or> locked_query (prog i)" "inj desc" "clients_reach desc prog s"
  shows "(\<forall>i. suffix (snd s i) (prog i)) \<and> (\<forall>i. in_query prog s i \<longrightarrow> fst s = Some (desc i))"
  using assms(3)
proof (induction rule: clients_reach.induct)
  case start
  then show ?case by (simp add: in_query_def)
next
  case (step s s')
  then obtain holder left i c cs where st: "s = (holder, left)" "left i = c # cs" "granted (desc i) c holder"
      "s' = (after_call (desc i) c holder, left(i := cs))" by (auto elim!: client_stepE)
  have suf: "suffix (left j) (prog j)" and held: "in_query prog s j \<Longrightarrow> holder = Some (desc j)" for j
    using step.IH st(1) by auto
  have lock: "locked_query (prog i)" using assms(1) [rule_format, of i] suf [of i] st(2) by (auto simp: suffix_def)
  note here = locked_suffix [OF lock suf [of i, unfolded st(2)]]
  have "suffix cs (prog i)" using suf [of i] st(2) suffix_ConsD by fastforce
  then have "\<forall>j. suffix (snd s' j) (prog j)" using suf st(4) by simp
  moreover have "in_query prog s' j \<longrightarrow> fst s' = Some (desc j)" for j
  proof (cases "j = i")
    case True
    have "c # cs \<noteq> prog i \<Longrightarrow> holder = Some (desc i)" using held [of i] st(1,2) by (simp add: in_query_def)
    then show ?thesis using here True st(4) by (cases c) (auto simp: in_query_def)
  next
    case False
    then have "in_query prog s' j \<longleftrightarrow> in_query prog s j" using st(1,4) by (simp add: in_query_def)
    moreover have "desc j \<noteq> desc i" using False assms(2) by (auto dest: injD)
    moreover have "c \<noteq> LockEx \<Longrightarrow> c = Unlock \<Longrightarrow> holder = Some (desc i)"
      using held [of i] here st(1,2) by (auto simp: in_query_def)
    ultimately show ?thesis using held [of j] st(3,4) by (cases c) auto
  qed
  ultimately show ?case by blast
qed

text \<open>The calls of a query on a shared socket.\<close>

definition shared_query :: "query_call list \<Rightarrow> bool" where
  "shared_query calls \<longleftrightarrow> (\<exists>os s command response. sk_shared s \<noteq> 0 \<and> perform_query os (Some s) command = Some (calls, response))"

lemma shared_query_locked: "shared_query calls \<Longrightarrow> locked_query calls"
  using query_lock_discipline unfolding shared_query_def by blast

text \<open>
  C35. Several clients, each of which makes a query on a shared socket or none: the lock keeps the queries apart as long as the
  descriptors of the clients stand for different open file descriptions. The clients of the daemon all get the descriptor that it has
  opened, which stands for one and the same description: two of them can be in the middle of a query at the same
  time, so that each may read the answer to the other.
\<close>

theorem lock_needs_own_description:
  assumes "\<forall>i. prog i = [] \<or> shared_query (prog i)"
  shows "(inj desc \<and> clients_reach desc prog s \<and> in_query prog s i \<and> in_query prog s j \<longrightarrow> i = j) \<and>
    (desc i = desc j \<and> i \<noteq> j \<and> prog i \<noteq> [] \<and> prog j \<noteq> [] \<longrightarrow>
       (\<exists>s'. clients_reach desc prog s' \<and> in_query prog s' i \<and> in_query prog s' j))"
proof (intro conjI impI)
  have locked: "\<forall>i. prog i = [] \<or> locked_query (prog i)" using assms shared_query_locked by blast
  {
    assume h: "inj desc \<and> clients_reach desc prog s \<and> in_query prog s i \<and> in_query prog s j"
    then have "fst s = Some (desc i)" "fst s = Some (desc j)" using clients_invariant [OF locked] by blast+
    then show "i = j" using h by (auto dest: injD)
  next
    assume h: "desc i = desc j \<and> i \<noteq> j \<and> prog i \<noteq> [] \<and> prog j \<noteq> []"
    obtain a b where a: "prog i = LockEx # a" "a \<noteq> []" and b: "prog j = LockEx # b" "b \<noteq> []"
      using locked h unfolding locked_query_def by (metis Nil_is_append_conv list.discI)
    have "client_step desc (None, prog) (Some (desc i), prog(i := a))"
      using client_step.call [of prog i LockEx a desc None] a by simp
    from clients_reach.step [OF clients_reach.start this] have first: "clients_reach desc prog (Some (desc i), prog(i := a))" .
    have "client_step desc (Some (desc i), prog(i := a)) (Some (desc j), (prog(i := a))(j := b))"
      using client_step.call [of "prog(i := a)" j LockEx b desc "Some (desc i)"] b h by simp
    from clients_reach.step [OF first this] have "clients_reach desc prog (Some (desc j), (prog(i := a))(j := b))" .
    moreover have "in_query prog (Some (desc j), (prog(i := a))(j := b)) i" "in_query prog (Some (desc j), (prog(i := a))(j := b)) j"
      using h a b by (auto simp: in_query_def)
    ultimately show "\<exists>s'. clients_reach desc prog s' \<and> in_query prog s' i \<and> in_query prog s' j" by blast
  }
qed

definition rpm_query :: "query_call list" where
  "rpm_query = [LockEx, WriteCommand [0x01, 0x0C], Select, Unlock]"

theorem lock_needs_own_description_witness:
  "\<exists>s. clients_reach (\<lambda>_. 7) (\<lambda>_. rpm_query) s \<and> in_query (\<lambda>_. rpm_query) s 0 \<and> in_query (\<lambda>_. rpm_query) s 1"
proof -
  let ?os = "\<lparr>qo_written = 2, qo_selected = 0, qo_read = None\<rparr>"
  let ?s = "\<lparr>sk_s = 4, sk_shared = 1, sk_ifindex = 1, sk_tid = 0, sk_rid = 0\<rparr>"
  have "perform_query ?os (Some ?s) (OBDIIMode1Commands ! 0x0C) = Some (rpm_query, no_response)" by code_simp
  moreover have "sk_shared ?s \<noteq> 0" by simp
  ultimately have "shared_query rpm_query" unfolding shared_query_def by blast
  then show ?thesis
    using lock_needs_own_description [of "\<lambda>_. rpm_query" "\<lambda>_. 7" "(None, \<lambda>_. rpm_query)" 0 1] by (auto simp: rpm_query_def)
qed

text \<open>
  The socket to the daemon is set up once; a failure after the socket was created loses it: the descriptor is neither
  kept nor closed, and every further request opens another one.
\<close>

theorem setup_loses_sockets:
  "setupDaemonCommunication os d = (r, d', opened) \<Longrightarrow>
     (r = 0 \<longleftrightarrow> d' \<noteq> - 1) \<and> (d \<noteq> - 1 \<longrightarrow> d' = d \<and> opened = []) \<and>
     (r \<noteq> 0 \<and> so_socket os \<ge> 0 \<longrightarrow> d = - 1 \<and> opened = [so_socket os])"
  by (auto simp: setupDaemonCommunication_def Let_def split: if_splits)

theorem setup_loses_sockets_witness:
  "setupDaemonCommunication \<lparr>so_socket = 5, so_unlink = True, so_bind = True, so_connect = False\<rparr> (- 1) = (- 1, - 1, [5]) \<and> (5 :: int) \<ge> 0"
  using setup_loses_sockets [of "\<lparr>so_socket = 5, so_unlink = True, so_bind = True, so_connect = False\<rparr>" "- 1" "- 1" "- 1" "[5]"]
  by (simp add: setupDaemonCommunication_def)

end
