(* ===== verification/Spec2Isabelle.thy ===== *)
theory Spec2Isabelle
  imports C_Prelude Interfaces Transactions Config_Manager Pap_Storage Policy_Updater Base64 Policy_Loader Network
    Wallet Relay_Board Pep_Plugins Wallet_Plugins Pip_Wallet
    Can_Lib Single_Float Minmea Minmea_Sentences Gps_Receiver Obdii Obdii_Supported Obdii_Daemon Obdii_Plugin Pip_Gpio Main_Program
    Dataset Data_Dumper Modbus Can_Msgs Can_Receiver Can_Thread Canopen_Sdo Canopen_Receiver
    Loader_Life Response_Scanner Cloud_Dump Word_Flags Serial_Line Modbus_Life Gps_Life Obdii_Query
begin

text \<open>
  \<^bold>\<open>IOTA Access server: a verification development.\<close>

  The program is a daemon in C that guards a resource, for example a vehicle. A client connects over
  TCP (\<open>network\<close>), authenticates itself and sends commands; requests for access go to a decision point
  outside of the repository, which calls back the plugins: a policy store (\<open>plugins/pap\<close>), enforcement
  plugins that operate relays or pay (\<open>plugins/pep\<close>), and information plugins that read a vehicle bus or
  a wallet (\<open>plugins/pip\<close>). A background task (\<open>policy_loader\<close>, over \<open>policy_updater\<close>) fetches new
  policies from a service and hands them to the store. The configuration manager reads \<open>config.ini\<close> for
  all of them, and the data dumper collects the JSON that the information plugins produce.

  \<^bold>\<open>Conventions.\<close> A buffer of C is a list, \<open>bytes\<close> of characters or a list of words. An operation that may run
  into undefined behaviour (an access outside of a block, a NULL dereference, a double free, an
  overlong copy, a division by zero) has an option result, and \<open>None\<close> is that behaviour. Error codes
  are the integers of the source. Memory that the code does not initialise is an argument (\<open>junk\<close>).
  Libraries outside of the repository (sockets, the JSON libraries, the IOTA client, the access core, the
  GPIO library) are records of functions or arguments, and what a theorem needs of them is a premise;
  the outcome of a system call is an argument or an event. A thread is a function of one round over
  explicit state, run over a list of events; each round is atomic. Machine integers are words where
  their width matters, otherwise integers.

  \<^bold>\<open>Theories and sources.\<close>
  \<^item> \<open>C_Prelude\<close>: strings and buffers of C, with the lemma collections \<open>cstr_simps\<close>, \<open>buf_simps\<close> and
    \<open>bind_splits\<close>; \<open>Word_Flags\<close>: single bits of words. \<open>Interfaces\<close>: the locales \<open>keyed_store\<close> (a store against a map) and \<open>step_invariant\<close>.
  \<^item> \<open>Transactions\<close> (\<open>portability/os/posix/posix.c\<close>): the file of payment records; its life cycle and the
    record that a second payment of a policy hides.
  \<^item> \<open>Config_Manager\<close> (\<open>config_manager/*\<close>): the INI reader is a state machine over characters
    (\<open>cfg_char\<close>); the tokens refine the lookup of an option by module and name, and reading a file
    stays in its buffers.
  \<^item> \<open>Pap_Storage\<close> (\<open>plugins/pap/posix\<close>): one file per policy and an index; interpreted as a
    \<open>keyed_store\<close>, so sequences of the put, delete, get and has callbacks refine a map whose domain the index
    lists; the callback that lists all ids leaves its block.
  \<^item> \<open>Policy_Updater\<close>, \<open>Base64\<close>, \<open>Policy_Loader\<close>, \<open>Loader_Life\<close>, \<open>Response_Scanner\<close> (\<open>policy_updater\<close>,
    \<open>policy_loader\<close>): the requests to the service, the decoder of keys and signatures, the state machine
    of the loader (its invariant, its period, that it keeps polling a service that has no list, and that after a start it never adds a
    signed policy), its task from start to stop, and the scanner of answers that nothing calls.
  \<^item> \<open>Network\<close> (\<open>network/network.c\<close>): the commands and the answer to a connection; every connection whose
    request has a defined handling gets the answer of that request, and the decision is sent inverted.
  \<^item> \<open>Wallet\<close>, \<open>Wallet_Plugins\<close>, \<open>Pip_Wallet\<close> (\<open>wallet\<close>, \<open>plugins/pep/wallet\<close>, \<open>plugins/pip/wallet\<close>): the
    wallet, its two monitor threads over events, the table of pending payments, and the attribute that
    tells whether a policy is paid.
  \<^item> \<open>Relay_Board\<close>, \<open>Pep_Plugins\<close> (\<open>portability/boards/raspberrypi\<close>, \<open>plugins/pep/print\<close>, \<open>relay\<close>, \<open>can\<close>,
    \<open>canopen\<close>): the relay operations (locale \<open>relay_operation\<close>) refine the levels of pins, and the tables
    of actions (locale \<open>action_table\<close>) refine the state of a vehicle.
  \<^item> \<open>Dataset\<close>, \<open>Data_Dumper\<close>, \<open>Cloud_Dump\<close> (\<open>plugins/dataset\<close>, \<open>data_dumper\<close>): the options a client
    selects (locale \<open>option_names\<close>), the JSON document with one member per module, and the documents that
    are sent to a server.
  \<^item> \<open>Serial_Line\<close>: the settings of a serial line, which the Modbus and the GPS receiver share.
  \<^item> \<open>Modbus\<close>, \<open>Modbus_Life\<close> (\<open>plugins/pip/modbus\<close>): frames with their checksum, against the polynomial division of the
    protocol, and one round of the receiver; opening the line, the thread and its stop.
  \<^item> \<open>Can_Msgs\<close>, \<open>Can_Receiver\<close>, \<open>Can_Thread\<close>, \<open>Can_Lib\<close> (\<open>plugins/pip/can\<close>): the bit layouts of the messages, the two
    frame callbacks against a table of signals, with numbers rounded to double precision and the dump at their end, the thread that reads the bus, and frames as text.
  \<^item> \<open>Canopen_Sdo\<close>, \<open>Canopen_Receiver\<close> (\<open>plugins/pip/canopen\<close>): the object dictionary with its arithmetic
    in single precision, the frame callback, and the background thread with its requests.
  \<^item> \<open>Single_Float\<close>: rounding to the binary formats of C, an operation on rationals (locale \<open>binary_format\<close>,
    interpreted for \<open>float\<close> and \<open>double\<close>).
  \<^item> \<open>Minmea\<close>, \<open>Minmea_Sentences\<close>, \<open>Gps_Receiver\<close>, \<open>Gps_Life\<close> (\<open>plugins/pip/gps\<close>): the check of an NMEA
    sentence against a grammar, the scanner of its fields, the sentences and conversions, the receiver that
    puts sentences together and keeps the location, and its thread on the line.
  \<^item> \<open>Obdii\<close>, \<open>Obdii_Supported\<close>, \<open>Obdii_Daemon\<close>, \<open>Obdii_Query\<close>, \<open>Obdii_Plugin\<close> (\<open>plugins/pip/obdii\<close>): the
    commands and the decoding of responses, the set of commands that a vehicle supports, the daemon that
    shares sockets on a doubly linked list in an explicit heap, refining a registry with counts of requests, and the clients that hold
    a socket over any interleaving, the
    queries of several clients as a step relation with the lock of the socket, and the plugin.
  \<^item> \<open>Pip_Gpio\<close>, \<open>Main_Program\<close> (\<open>plugins/pip/gpio\<close>, \<open>main.c\<close>, \<open>access\<close>): the GPIO information plugin; the
    creation of the wallet, the order in which the parts are started, and the way down.
  This theory imports all of them and holds the properties that span components: the way from the
  selected options to the document of the CAN plugin, and the option text that the CAN and the CANopen
  plugin share.

  \<^bold>\<open>Groups of lemmas.\<close> Each theory has first the lemmas on its loops and buffers, then the invariant or
  abstraction of its state, then the interpretation of the locales, then the properties, each with a
  witness at a concrete input when it has premises. Refinements are stated against maps, pin levels or
  tables; round trips against an encoder defined beside the decoder; error and overflow behaviour as
  equivalences with \<open>None\<close>.

  \<^bold>\<open>Bounds.\<close> No definition uses fuel: the loops of the source run over finite lists or counters, and the
  threads over a given list of events. Recursion that is not structural has a termination proof. The
  search of the daemon's list is a partial function, and a theorem gives its result on every list that is
  reached. The rounding of floating-point numbers is for normal numbers, which the quotients of the
  object dictionary, the coordinates and the decoded values are; reference counts are integers. The width of \<open>size_t\<close> is a
  parameter of the loader, where the code stores one through the address of an \<open>int\<close>.

  \<^bold>\<open>Not modelled.\<close> \<open>can_msgs_alt.h\<close> (which does not compile) and \<open>vehicle_datasharing_dataset.c\<close> are used by no
  code; the loggers only call a library; the files for other boards are empty. System calls have no model of
  their own: where the code depends on one (creating and joining a thread, opening and reading a line, a
  socket, a lock), its outcome is an argument or an event of the definition. The log file and the set-up
  of the listening socket of the OBD-II daemon are left out, as are messages to the console.
\<close>

section \<open>From the selected options to the CAN document\<close>

lemma initializer_dataset:
  assumes "cp_dataset cp = fresh_dataset old_options old_block"
    and "pip_plugin_can_initializer filler cfg block cp dd = Some (r, cp1, dd1)"
  shows "dataset_init (fresh_dataset vehicledatasetdemo01_options block) = Some (cp_dataset cp1)"
  using assms
  by (auto simp: pip_plugin_can_initializer_def canreceiver_init_def fresh_dataset_def split: bind_splits)

text \<open>
  C18. From the options a client selects to the document of the CAN plugin: after the plugin is
  initialised and the selection is set, the names that the next document lists for the CAN bus are
  those of the signals whose option was selected, in the fixed order of the signals, with the two
  doors on the driver's side exchanged.
\<close>

theorem can_document_of_selection:
  assumes "cp_dataset cp = fresh_dataset old_options old_block" "length block = 34"
    and "pip_plugin_can_initializer filler cfg block cp dd = Some (r, cp1, dd1)"
    and "json_selects parse json sel" "set sel \<subseteq> set demo01_names"
  shows "\<exists>cp2. set_dataset_cb parse json cp1 = Some (0, cp2) \<and>
     snd (can_json_filler (ds_dataset (cp_dataset cp2)) ob) =
       map signal_json_name (filter (\<lambda>s. swapped_door (signal_field s) \<in> set sel) can_signal_order)"
proof -
  obtain st' where st': "dataset_from_json parse (cp_dataset cp1) json = Some st'"
      "\<forall>f\<in>set can01_vehicle_dataset_fields.
        struct_field can01_vehicle_dataset_fields (ds_dataset st') f = Some (of_bool (swapped_door f \<in> set sel))"
    using flags_after_selection [OF assms(4,5,2)] initializer_dataset [OF assms(1,3)] by auto
  have "wanted_signal (ds_dataset st') s = of_bool (swapped_door (signal_field s) \<in> set sel)" for s
    using st'(2) signal_field_known [of s] by (simp add: wanted_signal_def)
  with st'(1) show ?thesis
    by (simp add: set_dataset_cb_def can_json_filler_eq)
qed

definition idle_plugin :: can_plugin where
  "idle_plugin = \<lparr>cp_dataset = fresh_dataset [] [], cp_body_chan = replicate 256 NUL, cp_chas_chan = replicate 256 NUL,
     cp_body_bus = replicate 64 NUL, cp_chas_bus = replicate 64 NUL, cp_in_use = False\<rparr>"

lemma idle_plugin_starts:
  "\<exists>cp1 dd1. pip_plugin_can_initializer (0 :: nat) g_config_zero (replicate 34 7) idle_plugin
       (datadumper_zero () :: (nat, unit, unit) datadumper) = Some (0, cp1, dd1)"
proof -
  obtain ds where "dataset_init (fresh_dataset vehicledatasetdemo01_options (replicate 34 7)) = Some ds"
    using flags_after_selection [OF sample_selects sample_in_names, of "replicate 34 7"] by auto
  then show ?thesis
    by (simp add: pip_plugin_can_initializer_def canreceiver_init_def idle_plugin_def zero_config_missing
        canthread_init_def buf_blit_def strncpy_bytes_def fresh_dataset_def)
qed

theorem can_document_of_selection_witness:
  "\<exists>cp1 dd1 cp2. pip_plugin_can_initializer (0 :: nat) g_config_zero (replicate 34 7) idle_plugin
       (datadumper_zero () :: (nat, unit, unit) datadumper) = Some (0, cp1, dd1) \<and>
     set_dataset_cb sample_jsmn sample_json cp1 = Some (0, cp2) \<and>
     snd (can_json_filler (ds_dataset (cp_dataset cp2)) (\<lambda>_. None)) = [''driver_door_rear_status'']"
proof -
  obtain cp1 dd1 where init: "pip_plugin_can_initializer (0 :: nat) g_config_zero (replicate 34 7) idle_plugin
       (datadumper_zero () :: (nat, unit, unit) datadumper) = Some (0, cp1, dd1)"
    using idle_plugin_starts by blast
  have "cp_dataset idle_plugin = fresh_dataset [] []" "length (replicate 34 (7 :: 8 word)) = 34"
    by (simp_all add: idle_plugin_def)
  from can_document_of_selection [OF this init sample_selects sample_in_names, of "\<lambda>_. None"] init show ?thesis
    by (auto simp: can_signal_order_def swapped_door_def)
qed

section \<open>The CAN and the CANopen plugin share the option text\<close>

lemma mangled_options:
  "option_count vehicledatasetdemo01_options = 34"
  "option_count (strtok_mangle (CHR ''|'') False vehicledatasetdemo01_options) = 1"
  by code_simp+

lemma init_mangles:
  "dataset_init st = Some st' \<Longrightarrow> ds_count st = 0 \<Longrightarrow> option_count (ds_options st) \<noteq> 1 \<Longrightarrow>
     ds_options st' = strtok_mangle (CHR ''|'') False (ds_options st)"
  by (auto simp: dataset_init_def Let_def split: bind_splits)

lemma select_no_tokens: "select_tokens json toks is [] = Some ts \<Longrightarrow> ts = []"
  by (induction "is") (auto simp: Let_def split: bind_splits if_splits)

text \<open>A dataset without tokens selects nothing.\<close>

lemma from_json_no_tokens:
  assumes "ds_count st = 0" "ds_tokens st = []" "option_count (ds_options st) = 1"
    and "dataset_from_json parse st json = Some st'"
  shows "ds_dataset st' = ds_dataset st"
proof -
  have "dataset_init st = Some st" using assms(1,3) by (simp add: dataset_init_def)
  with assms show ?thesis
    by (auto simp: dataset_from_json_def Let_def buf_blit_def split: option.splits if_splits bind_splits
        dest!: select_no_tokens)
qed

text \<open>
  C20. Setting up the CANopen plugin depends on whether the CAN plugin was set up before. When it is
  the first user of the option text, the flags of the 34 options are written over its block of 20 bytes.
  After the CAN plugin, which has cut the common text up, the plugin gets no options at all: its flags
  are what the allocator left in the block, and no selection of a client changes them.
\<close>

theorem canopen_setup_depends_on_order:
  assumes "cp_dataset cp = fresh_dataset old_options old_block"
    and "pip_plugin_can_initializer filler cfg can_block cp dd = Some (r, cp1, dd1)"
    and "length block = 20" "cop_dataset cop = fresh_dataset [] []"
  shows "pip_plugin_canopen_initializer filler2 cfg junk vehicledatasetdemo01_options block cop dd = None \<and>
     (pip_plugin_canopen_initializer filler2 cfg junk (ds_options (cp_dataset cp1)) block cop dd1 = Some (r2, cop1, dd2) \<longrightarrow>
        ds_dataset (cop_dataset cop1) = block \<and>
        (canopen_set_dataset_cb parse json cop1 = Some (r3, cop2) \<longrightarrow> ds_dataset (cop_dataset cop2) = block))"
proof (intro conjI impI)
  have "dataset_init ((fresh_dataset [] [])\<lparr>ds_options := vehicledatasetdemo01_options, ds_dataset := block\<rparr>) = None"
    using assms(3) by (simp add: dataset_init_def fresh_dataset_def mangled_options(1) buf_blit_def)
  then show "pip_plugin_canopen_initializer filler2 cfg junk vehicledatasetdemo01_options block cop dd = None"
    using assms(4) by (simp add: pip_plugin_canopen_initializer_def)
next
  let ?opts = "strtok_mangle (CHR ''|'') False vehicledatasetdemo01_options"
  let ?ds = "fresh_dataset ?opts block"
  assume init: "pip_plugin_canopen_initializer filler2 cfg junk (ds_options (cp_dataset cp1)) block cop dd1 = Some (r2, cop1, dd2)"
  have "ds_options (cp_dataset cp1) = ?opts"
    using init_mangles [OF initializer_dataset [OF assms(1,2)]] by (simp add: fresh_dataset_def mangled_options(1))
  moreover have "dataset_init ?ds = Some ?ds" by (simp add: dataset_init_def fresh_dataset_def mangled_options(2))
  ultimately have ds: "cop_dataset cop1 = ?ds"
    using init assms(4)
    by (auto simp: pip_plugin_canopen_initializer_def canopenreceiver_init_def fresh_dataset_def split: bind_splits)
  then show "ds_dataset (cop_dataset cop1) = block" by (simp add: fresh_dataset_def)
  assume "canopen_set_dataset_cb parse json cop1 = Some (r3, cop2)"
  then have "dataset_from_json parse ?ds json = Some (cop_dataset cop2)"
    using ds by (auto simp: canopen_set_dataset_cb_def split: bind_splits)
  then show "ds_dataset (cop_dataset cop2) = block"
    using from_json_no_tokens [of ?ds parse json "cop_dataset cop2"] by (simp add: fresh_dataset_def mangled_options(2))
qed

definition idle_canopen :: canopen_plugin where
  "idle_canopen = \<lparr>cop_dataset = fresh_dataset [] [], cop_port_name = replicate 256 NUL, cop_node_id = 0,
     cop_bus = replicate 64 NUL, cop_in_use = False, cop_end_loop = 0\<rparr>"

theorem canopen_setup_depends_on_order_witness:
  "\<exists>cp1 dd1. pip_plugin_can_initializer (0 :: nat) g_config_zero (replicate 34 7) idle_plugin
       (datadumper_zero () :: (nat, unit, unit) datadumper) = Some (0, cp1, dd1) \<and>
     pip_plugin_canopen_initializer 1 g_config_zero (replicate 32 NUL) vehicledatasetdemo01_options (replicate 20 7) idle_canopen
       (datadumper_zero () :: (nat, unit, unit) datadumper) = None \<and>
     (\<exists>cop1 dd2. pip_plugin_canopen_initializer 1 g_config_zero (replicate 32 NUL) (ds_options (cp_dataset cp1)) (replicate 20 7)
       idle_canopen dd1 = Some (0, cop1, dd2) \<and> ds_dataset (cop_dataset cop1) = replicate 20 7)"
proof -
  obtain cp1 dd1 where init: "pip_plugin_can_initializer (0 :: nat) g_config_zero (replicate 34 7) idle_plugin
       (datadumper_zero () :: (nat, unit, unit) datadumper) = Some (0, cp1, dd1)"
    using idle_plugin_starts by blast
  have cop: "cp_dataset idle_plugin = fresh_dataset [] []" "length (replicate 20 (7 :: 8 word)) = 20"
    "cop_dataset idle_canopen = fresh_dataset [] []"
    by (simp_all add: idle_plugin_def idle_canopen_def)
  have "ds_options (cp_dataset cp1) = strtok_mangle (CHR ''|'') False vehicledatasetdemo01_options"
    using init_mangles [OF initializer_dataset [OF cop(1) init]] by (simp add: fresh_dataset_def mangled_options(1))
  then obtain cop1 dd2 where "pip_plugin_canopen_initializer 1 g_config_zero (replicate 32 NUL) (ds_options (cp_dataset cp1))
      (replicate 20 7) idle_canopen dd1 = Some (0, cop1, dd2)"
    by (simp add: pip_plugin_canopen_initializer_def dataset_init_def mangled_options(2) idle_canopen_def fresh_dataset_def
        canopenreceiver_init_def zero_config_missing canthread_init_def buf_blit_def strncpy_bytes_def strlen_def)
  with canopen_setup_depends_on_order [OF cop(1) init cop(2,3)] init show ?thesis by blast
qed

end
